(* ===== verification/Prelude.thy ===== *)
theory Prelude
  imports Main "HOL-Library.Word" "HOL-Library.Monad_Syntax"
begin

unbundle bit_operations_syntax

text \<open>
  What every component shares: the machine types of the ARM target, the error codes of
  \<^verbatim>\<open>aws_iot_error.h\<close>, byte buffers with a write cursor and a checked read, and the
  option monad that stands for a C execution.

  A value of type \<open>'a option\<close> is the result of running C code: \<open>None\<close> says that the run has
  no defined result (it reads or writes outside an object, or it spends the loop budget of
  the environment), \<open>Some x\<close> that it returns \<open>x\<close>.  A value of type
  \<open>(IoT_Error_t + 'a) option\<close> is a run that ends with an error code (\<open>Inl\<close>) or with
  \<open>AWS_SUCCESS\<close> and its output parameters (\<open>Inr\<close>).
\<close>

section \<open>Machine types\<close>

type_synonym byte = "8 word"
type_synonym u16 = "16 word"
type_synonym u32 = "32 word"

text \<open>\<open>wire\<close>: the byte-level meaning of the buffer primitives.  \<open>codes\<close>: numeric codes of
  enumerations.\<close>

named_theorems wire
named_theorems codes

section \<open>Error codes\<close>

datatype IoT_Error_t =
    NETWORK_PHYSICAL_LAYER_CONNECTED
  | NETWORK_MANUALLY_DISCONNECTED
  | NETWORK_ATTEMPTING_RECONNECT
  | NETWORK_RECONNECTED
  | MQTT_NOTHING_TO_READ
  | MQTT_CONNACK_CONNECTION_ACCEPTED
  | AWS_SUCCESS
  | AWS_FAILURE
  | NULL_VALUE_ERROR
  | TCP_CONNECTION_ERROR
  | SSL_CONNECTION_ERROR
  | TCP_SETUP_ERROR
  | NETWORK_SSL_CONNECT_TIMEOUT_ERROR
  | NETWORK_SSL_WRITE_ERROR
  | NETWORK_SSL_INIT_ERROR
  | NETWORK_SSL_CERT_ERROR
  | NETWORK_SSL_WRITE_TIMEOUT_ERROR
  | NETWORK_SSL_READ_TIMEOUT_ERROR
  | NETWORK_SSL_READ_ERROR
  | NETWORK_DISCONNECTED_ERROR
  | NETWORK_RECONNECT_TIMED_OUT_ERROR
  | NETWORK_ALREADY_CONNECTED_ERROR
  | NETWORK_MBEDTLS_ERR_CTR_DRBG_ENTROPY_SOURCE_FAILED
  | NETWORK_SSL_UNKNOWN_ERROR
  | NETWORK_PHYSICAL_LAYER_DISCONNECTED
  | NETWORK_X509_ROOT_CRT_PARSE_ERROR
  | NETWORK_X509_DEVICE_CRT_PARSE_ERROR
  | NETWORK_PK_PRIVATE_KEY_PARSE_ERROR
  | NETWORK_ERR_NET_SOCKET_FAILED
  | NETWORK_ERR_NET_UNKNOWN_HOST
  | NETWORK_ERR_NET_CONNECT_FAILED
  | NETWORK_SSL_NOTHING_TO_READ
  | MQTT_CONNECTION_ERROR
  | MQTT_CONNECT_TIMEOUT_ERROR
  | MQTT_REQUEST_TIMEOUT_ERROR
  | MQTT_UNEXPECTED_CLIENT_STATE_ERROR
  | MQTT_CLIENT_NOT_IDLE_ERROR
  | MQTT_RX_MESSAGE_PACKET_TYPE_INVALID_ERROR
  | MQTT_RX_BUFFER_TOO_SHORT_ERROR
  | MQTT_TX_BUFFER_TOO_SHORT_ERROR
  | MQTT_MAX_SUBSCRIPTIONS_REACHED_ERROR
  | MQTT_DECODE_REMAINING_LENGTH_ERROR
  | MQTT_CONNACK_UNKNOWN_ERROR
  | MQTT_CONNACK_UNACCEPTABLE_PROTOCOL_VERSION_ERROR
  | MQTT_CONNACK_IDENTIFIER_REJECTED_ERROR
  | MQTT_CONNACK_SERVER_UNAVAILABLE_ERROR
  | MQTT_CONNACK_BAD_USERDATA_ERROR
  | MQTT_CONNACK_NOT_AUTHORIZED_ERROR
  | JSON_PARSE_ERROR
  | SHADOW_WAIT_FOR_PUBLISH
  | SHADOW_JSON_BUFFER_TRUNCATED
  | SHADOW_JSON_ERROR
  | MUTEX_INIT_ERROR
  | MUTEX_LOCK_ERROR
  | MUTEX_UNLOCK_ERROR
  | MUTEX_DESTROY_ERROR

text \<open>\<^verbatim>\<open>wmerrno.h\<close>: the two codes of the SDK's own functions that the port and the
  applications compare with.\<close>

abbreviation WM_SUCCESS :: int where "WM_SUCCESS \<equiv> 0"
abbreviation WM_FAIL :: int where "WM_FAIL \<equiv> 1"

section \<open>Runs that end with an error code\<close>

definition fail :: "IoT_Error_t \<Rightarrow> (IoT_Error_t + 'a) option" where
  "fail rc = Some (Inl rc)"

definition success :: "'a \<Rightarrow> (IoT_Error_t + 'a) option" where
  "success x = Some (Inr x)"

text \<open>\<open>rc = m; if(AWS_SUCCESS != rc) return rc;\<close> followed by the rest of the function.\<close>

definition bindE ::
  "(IoT_Error_t + 'a) option \<Rightarrow> ('a \<Rightarrow> (IoT_Error_t + 'b) option) \<Rightarrow> (IoT_Error_t + 'b) option"
  where
  "bindE m k = Option.bind m (\<lambda>r. case r of Inl rc \<Rightarrow> fail rc | Inr x \<Rightarrow> k x)"

lemma bindE_simps [simp]:
  "bindE None k = None"
  "bindE (fail rc) k = fail rc"
  "bindE (success x) k = k x"
  by (simp_all add: bindE_def fail_def success_def)

lemma case_result [simp]:
  "(case success x of None \<Rightarrow> u | Some r \<Rightarrow> f r) = f (Inr x)"
  "(case fail rc of None \<Rightarrow> u | Some r \<Rightarrow> f r) = f (Inl rc)"
  by (simp_all add: fail_def success_def)

lemma result_distinct [simp]:
  "fail rc \<noteq> success x" "success x \<noteq> fail rc"
  "fail rc \<noteq> None" "success x \<noteq> None" "None \<noteq> fail rc" "None \<noteq> success x"
  by (simp_all add: fail_def success_def)

lemma result_inject [simp]:
  "fail rc = fail rc' \<longleftrightarrow> rc = rc'"
  "success x = success y \<longleftrightarrow> x = y"
  by (simp_all add: fail_def success_def)

lemma result_cases [case_names undefined fail success]:
  obtains "m = None" | rc where "m = fail rc" | x where "m = success x"
  unfolding fail_def success_def by (metis not_None_eq sum.exhaust)

lemma bindE_eq_success:
  "bindE m k = success y \<longleftrightarrow> (\<exists>x. m = success x \<and> k x = success y)"
  by (cases m rule: result_cases) auto

text \<open>\<^verbatim>\<open>if(AWS_SUCCESS != rc) FUNC_EXIT_RC(rc)\<close>: go on after a success, else return.\<close>

definition on_success ::
  "(IoT_Error_t \<times> 's) option \<Rightarrow> ('s \<Rightarrow> (IoT_Error_t \<times> 's) option) \<Rightarrow> (IoT_Error_t \<times> 's) option" where
  "on_success m k = do { (rc, s) \<leftarrow> m; if rc \<noteq> AWS_SUCCESS then Some (rc, s) else k s }"

lemma on_success_simps [simp]:
  "on_success None k = None"
  "on_success (Some (AWS_SUCCESS, s)) k = k s"
  by (simp_all add: on_success_def)

section \<open>Every result\<close>

text \<open>\<open>ensures Q m\<close>: every defined result of the run \<open>m\<close> satisfies \<open>Q\<close>.  The rules follow the
  structure of a monadic function, so that a proof walks through its code.\<close>

definition ensures :: "('a \<Rightarrow> bool) \<Rightarrow> 'a option \<Rightarrow> bool" where
  "ensures Q m \<longleftrightarrow> (\<forall>x. m = Some x \<longrightarrow> Q x)"

lemma ensures_simps [simp]: "ensures Q None" "ensures Q (Some x) \<longleftrightarrow> Q x"
  by (simp_all add: ensures_def)

lemma ensuresI: "(\<And>x. m = Some x \<Longrightarrow> Q x) \<Longrightarrow> ensures Q m"
  by (simp add: ensures_def)

lemma ensuresD: "ensures Q m \<Longrightarrow> m = Some x \<Longrightarrow> Q x"
  by (simp add: ensures_def)

lemma ensures_bind: "ensures R m \<Longrightarrow> (\<And>x. R x \<Longrightarrow> ensures Q (k x)) \<Longrightarrow> ensures Q (Option.bind m k)"
  by (cases m) simp_all

lemma ensures_bind_any: "(\<And>x. ensures Q (k x)) \<Longrightarrow> ensures Q (Option.bind m k)"
  by (cases m) simp_all

lemma ensures_map: "ensures (\<lambda>x. Q (f x)) m \<Longrightarrow> ensures Q (map_option f m)"
  by (cases m) simp_all

lemma ensures_weaken: "ensures R m \<Longrightarrow> (\<And>x. R x \<Longrightarrow> Q x) \<Longrightarrow> ensures Q m"
  by (simp add: ensures_def)

lemma ensures_on_success:
  "ensures (\<lambda>x. R (snd x)) m \<Longrightarrow> (\<And>s. R s \<Longrightarrow> ensures (\<lambda>x. R (snd x)) (k s)) \<Longrightarrow> ensures (\<lambda>x. R (snd x)) (on_success m k)"
  unfolding on_success_def by (rule ensures_bind, assumption) (auto split: prod.split)

section \<open>Byte buffers\<close>

text \<open>A write cursor: a buffer and the offset of the C pointer in it.  \<open>put_bytes\<close> is
  \<^verbatim>\<open>memcpy\<close> to the pointer followed by the pointer's increment; leaving the buffer is
  undefined.\<close>

type_synonym cursor = "byte list \<times> nat"

definition put_bytes :: "byte list \<Rightarrow> cursor \<Rightarrow> cursor option" where
  "put_bytes bs c =
     (let (buf, p) = c in
      if p + length bs \<le> length buf
      then Some (take p buf @ bs @ drop (p + length bs) buf, p + length bs) else None)"

lemma take_drop_at: "length as = i \<Longrightarrow> length bs = n \<Longrightarrow> take n (drop i (as @ bs @ cs)) = bs"
  by auto

text \<open>A read through a pointer at offset \<open>p\<close> of an object.\<close>

definition rd :: "byte list \<Rightarrow> nat \<Rightarrow> byte option" where
  "rd buf p = (if p < length buf then Some (buf ! p) else None)"

lemma put_bytes_Nil [simp]: "snd c \<le> length (fst c) \<Longrightarrow> put_bytes [] c = Some c"
  by (cases c) (simp add: put_bytes_def)

text \<open>Two writes in a row are one write: every serializer normalises to a single
  \<open>put_bytes\<close>.\<close>

lemma put_bytes_append:
  "Option.bind (put_bytes as c) (put_bytes bs) = put_bytes (as @ bs) c"
proof (cases c)
  case (Pair buf p)
  show ?thesis
  proof (cases "p + length as \<le> length buf")
    case True
    then show ?thesis
      by (simp add: Pair put_bytes_def ac_simps)
  next
    case False
    then show ?thesis
      by (simp add: Pair put_bytes_def)
  qed
qed

lemma put_bytes_bind [simp]:
  "Option.bind (put_bytes as c) (\<lambda>s. Option.bind (put_bytes bs s) k)
   = Option.bind (put_bytes (as @ bs) c) k"
  by (metis (no_types) bind_assoc put_bytes_append)

lemma put_bytes_bind' [simp]:
  "Option.bind (put_bytes as c) (\<lambda>s. put_bytes bs s) = put_bytes (as @ bs) c"
  using put_bytes_append by simp

lemma put_bytes_at_0:
  "length bs \<le> length buf \<Longrightarrow> put_bytes bs (buf, 0) = Some (bs @ drop (length bs) buf, length bs)"
  by (simp add: put_bytes_def)

lemma put_bytes_overrun:
  "length buf < p + length bs \<Longrightarrow> put_bytes bs (buf, p) = None"
  by (simp add: put_bytes_def)

lemma put_bytes_Some_iff:
  "put_bytes bs (buf, p) \<noteq> None \<longleftrightarrow> p + length bs \<le> length buf"
  by (simp add: put_bytes_def)

lemma rd_simps [simp]:
  "rd (b # bs) 0 = Some b"
  "rd (b # bs) (Suc n) = rd bs n"
  "rd [] n = None"
  by (simp_all add: rd_def)

lemma rd_append_left: "n < length xs \<Longrightarrow> rd (xs @ ys) n = rd xs n"
  by (simp add: rd_def nth_append)

lemma rd_append_right: "rd (xs @ ys) (length xs + n) = rd ys n"
  by (simp add: rd_def)

section \<open>C strings\<close>

text \<open>A C string is the list of its characters before the terminating zero byte, which
  follows the list implicitly; \<open>cstr_mem\<close> is the object's memory with the terminator.\<close>

definition cstr_mem :: "byte list \<Rightarrow> byte list" where
  "cstr_mem s = s @ [0]"

text \<open>The first \<open>n\<close> bytes of an object, undefined when it is shorter.\<close>

definition mem_take :: "nat \<Rightarrow> byte list \<Rightarrow> byte list option" where
  "mem_take n m = (if n \<le> length m then Some (take n m) else None)"

lemma mem_take_cstr: "n \<le> length s \<Longrightarrow> mem_take n (cstr_mem s) = Some (take n s)"
  by (simp add: mem_take_def cstr_mem_def)

lemma mem_take_all [simp]: "mem_take (length m) m = Some m"
  by (simp add: mem_take_def)

text \<open>\<^verbatim>\<open>strncmp(a, b, n) == 0\<close>, reading the terminator past the end of a list.\<close>

fun strncmp_eq :: "nat \<Rightarrow> byte list \<Rightarrow> byte list \<Rightarrow> bool" where
  "strncmp_eq 0 as bs = True"
| "strncmp_eq (Suc n) [] [] = True"
| "strncmp_eq (Suc n) [] (b # bs) = (b = 0)"
| "strncmp_eq (Suc n) (a # as) [] = (a = 0)"
| "strncmp_eq (Suc n) (a # as) (b # bs) = (a = b \<and> (a = 0 \<or> strncmp_eq n as bs))"

lemma strncmp_eq_iff:
  "length as = n \<Longrightarrow> length bs = n \<Longrightarrow> 0 \<notin> set as \<Longrightarrow> strncmp_eq n as bs \<longleftrightarrow> as = bs"
  by (induction n as bs rule: strncmp_eq.induct) auto

section \<open>Arithmetic of small words\<close>

lemma unat_of_nat_lt: "n < 2 ^ LENGTH('a) \<Longrightarrow> unat (of_nat n :: 'a :: len word) = n"
  by (simp add: unat_of_nat)

lemma unat_u32_add: "unat a + unat b < 2 ^ 32 \<Longrightarrow> unat ((a :: u32) + b) = unat a + unat b"
  by (simp add: unat_word_ariths)

lemma unat_byte_lt [simp]: "unat (b :: byte) < 256"
  using unsigned_less [of b, where ?'a = nat] by simp

lemma unat_u16_lt [simp]: "unat (b :: u16) < 65536"
  using unsigned_less [of b, where ?'a = nat] by simp

lemma unat_ucast_byte [simp]: "unat (ucast (b :: byte) :: u32) = unat b"
  by (subst unsigned_ucast_eq) (rule take_bit_nat_eq_self, rule less_trans [OF unat_byte_lt], simp)

lemma unat_ucast_u16 [simp]: "unat (ucast (b :: u16) :: u32) = unat b"
  by (subst unsigned_ucast_eq) (rule take_bit_nat_eq_self, rule less_trans [OF unat_u16_lt], simp)

end
