(* ===== verification/Mqtt_Wire.thy ===== *)
theory Mqtt_Wire
  imports Prelude
begin

text \<open>
  The byte layer of the MQTT client: the primitives of
  \<^verbatim>\<open>sdk/external/aws_iot/src/aws_iot_mqtt_client_common_internal.c\<close> that write to and read
  from packet buffers, the remaining-length encoding of MQTT 3.1.1 (2.2.3) and the fixed
  header byte.  A pointer \<^verbatim>\<open>unsigned char **pptr\<close> is a cursor \<open>(buffer, offset)\<close>.
  The locale \<open>wire_codec\<close> states what a writer/reader pair promises; it is interpreted on
  the code's own pairs.
\<close>

section \<open>Reading and writing through a cursor\<close>

definition aws_iot_mqtt_internal_read_char :: "cursor \<Rightarrow> (byte \<times> cursor) option" where
  "aws_iot_mqtt_internal_read_char = (\<lambda>(buf, p). do {
     c \<leftarrow> rd buf p;
     Some (c, (buf, p + 1))
   })"

definition aws_iot_mqtt_internal_write_char :: "byte \<Rightarrow> cursor \<Rightarrow> cursor option" where
  "aws_iot_mqtt_internal_write_char c = (\<lambda>(buf, p).
     if p < length buf then Some (buf[p := c], p + 1) else None)"

definition aws_iot_mqtt_internal_read_uint16_t :: "cursor \<Rightarrow> (u16 \<times> cursor) option" where
  "aws_iot_mqtt_internal_read_uint16_t = (\<lambda>(buf, p). do {
     firstByte \<leftarrow> rd buf p;
     secondByte \<leftarrow> rd buf (p + 1);
     Some (ucast secondByte + 256 * ucast firstByte, (buf, p + 2))
   })"

definition aws_iot_mqtt_internal_write_uint_16 :: "u16 \<Rightarrow> cursor \<Rightarrow> cursor option" where
  "aws_iot_mqtt_internal_write_uint_16 anInt c0 = do {
     c1 \<leftarrow> aws_iot_mqtt_internal_write_char (ucast (anInt div 256)) c0;
     aws_iot_mqtt_internal_write_char (ucast (anInt mod 256)) c1
   }"

text \<open>\<open>str\<close> is the memory that \<^verbatim>\<open>string\<close> points to.\<close>

definition aws_iot_mqtt_internal_write_utf8_string ::
  "byte list \<Rightarrow> u16 \<Rightarrow> cursor \<Rightarrow> cursor option" where
  "aws_iot_mqtt_internal_write_utf8_string str stringLen c0 = do {
     c1 \<leftarrow> aws_iot_mqtt_internal_write_uint_16 stringLen c0;
     if stringLen > 0 then do {
       bytes \<leftarrow> mem_take (unat stringLen) str;
       put_bytes bytes c1
     } else Some c1
   }"

section \<open>The remaining length\<close>

text \<open>The C function returns \<open>outLen\<close>, the number of bytes written, and every caller adds it
  to its pointer; here the advanced cursor is returned.\<close>

function aws_iot_mqtt_internal_write_len_to_buffer :: "u32 \<Rightarrow> cursor \<Rightarrow> cursor option" where
  "aws_iot_mqtt_internal_write_len_to_buffer len c0 =
     (let encodedByte = ucast (len mod 128) :: byte;
          len' = len div 128;
          encodedByte' = (if len' > 0 then encodedByte OR 0x80 else encodedByte)
      in do {
        c1 \<leftarrow> aws_iot_mqtt_internal_write_char encodedByte' c0;
        if len' > 0 then aws_iot_mqtt_internal_write_len_to_buffer len' c1 else Some c1
      })"
  by pat_completeness auto
termination
  by (relation "measure (\<lambda>(len, c). unat len)")
    (auto simp: word_less_nat_alt unat_div)

declare aws_iot_mqtt_internal_write_len_to_buffer.simps [simp del]

definition MAX_NO_OF_REMAINING_LENGTH_BYTES :: nat where
  "MAX_NO_OF_REMAINING_LENGTH_BYTES = 4"

text \<open>The loop of \<^verbatim>\<open>aws_iot_mqtt_internal_decode_remaining_length_from_buffer\<close>, with its
  variables \<open>buf\<close> (an offset), \<open>len\<close>, \<open>multiplier\<close> and \<open>*decodedLen\<close>; on success it
  gives \<open>*decodedLen\<close> and \<open>*readBytesLen\<close>.\<close>

function decode_remaining_length_loop ::
  "byte list \<Rightarrow> nat \<Rightarrow> nat \<Rightarrow> u32 \<Rightarrow> u32 \<Rightarrow> (IoT_Error_t + (u32 \<times> nat)) option" where
  "decode_remaining_length_loop buf p len multiplier decodedLen =
     (if len + 1 > MAX_NO_OF_REMAINING_LENGTH_BYTES then fail MQTT_DECODE_REMAINING_LENGTH_ERROR
      else do {
        encodedByte \<leftarrow> rd buf p;
        let decodedLen' = decodedLen + ucast (encodedByte AND 127) * multiplier;
        if encodedByte AND 128 \<noteq> 0
        then decode_remaining_length_loop buf (p + 1) (len + 1) (multiplier * 128) decodedLen'
        else success (decodedLen', len + 1)
      })"
  by pat_completeness auto
termination
  by (relation "measure (\<lambda>(buf, p, len, m, d). 4 - len)")
    (auto simp: MAX_NO_OF_REMAINING_LENGTH_BYTES_def)

declare decode_remaining_length_loop.simps [simp del]

definition aws_iot_mqtt_internal_decode_remaining_length_from_buffer ::
  "cursor \<Rightarrow> (IoT_Error_t + (u32 \<times> nat)) option" where
  "aws_iot_mqtt_internal_decode_remaining_length_from_buffer = (\<lambda>(buf, p).
     decode_remaining_length_loop buf p 0 1 0)"

definition aws_iot_mqtt_internal_get_final_packet_length_from_remaining_length ::
  "u32 \<Rightarrow> u32" where
  "aws_iot_mqtt_internal_get_final_packet_length_from_remaining_length rem_len =
     (let rem_len = rem_len + 1
      in if rem_len < 128 then rem_len + 1
         else if rem_len < 16384 then rem_len + 2
         else if rem_len < 2097152 then rem_len + 3
         else rem_len + 4)"

section \<open>The fixed header\<close>

text \<open>The message types of \<^verbatim>\<open>aws_iot_mqtt_client_common_internal.h\<close>.\<close>

datatype MessageTypes = UNKNOWN | CONNECT | CONNACK | PUBLISH | PUBACK | PUBREC | PUBREL
  | PUBCOMP | SUBSCRIBE | SUBACK | UNSUBSCRIBE | UNSUBACK | PINGREQ | PINGRESP | DISCONNECT

fun type_code :: "MessageTypes \<Rightarrow> byte" where
  "type_code UNKNOWN = -1"
| "type_code CONNECT = 1"
| "type_code CONNACK = 2"
| "type_code PUBLISH = 3"
| "type_code PUBACK = 4"
| "type_code PUBREC = 5"
| "type_code PUBREL = 6"
| "type_code PUBCOMP = 7"
| "type_code SUBSCRIBE = 8"
| "type_code SUBACK = 9"
| "type_code UNSUBSCRIBE = 10"
| "type_code UNSUBACK = 11"
| "type_code PINGREQ = 12"
| "type_code PINGRESP = 13"
| "type_code DISCONNECT = 14"

text \<open>The enumeration \<^verbatim>\<open>QoS\<close> names 0 and 1, but \<^verbatim>\<open>(QoS) header.bits.qos\<close> stores any two-bit
  value in it, so a \<open>QoS\<close> is its number.\<close>

type_synonym QoS = byte

abbreviation QOS0 :: QoS where "QOS0 \<equiv> 0"
abbreviation QOS1 :: QoS where "QOS1 \<equiv> 1"

text \<open>The bit fields of the union \<^verbatim>\<open>MQTTHeader\<close> on the little-endian target (\<^verbatim>\<open>REVERSED\<close> is
  not defined): retain, qos, dup and type from the lowest bit up.\<close>

definition header_byte :: "byte \<Rightarrow> byte \<Rightarrow> byte \<Rightarrow> byte \<Rightarrow> byte" where
  "header_byte mtype dup qos retain =
     push_bit 4 (mtype AND 15) OR push_bit 3 (dup AND 1) OR push_bit 1 (qos AND 3) OR (retain AND 1)"

definition header_type :: "byte \<Rightarrow> byte" where "header_type b = drop_bit 4 b"
definition header_dup :: "byte \<Rightarrow> byte" where "header_dup b = drop_bit 3 b AND 1"
definition header_qos :: "byte \<Rightarrow> byte" where "header_qos b = drop_bit 1 b AND 3"
definition header_retain :: "byte \<Rightarrow> byte" where "header_retain b = b AND 1"

text \<open>The 14 message types each set their own code; \<open>UNKNOWN\<close> is refused.\<close>

definition aws_iot_mqtt_internal_init_header ::
  "MessageTypes \<Rightarrow> QoS \<Rightarrow> byte \<Rightarrow> byte \<Rightarrow> (IoT_Error_t + byte) option" where
  "aws_iot_mqtt_internal_init_header message_type qos dup retained =
     (if message_type = UNKNOWN then fail AWS_FAILURE
      else success (header_byte (type_code message_type)
             (if dup = 1 then 1 else 0)
             (if qos = QOS0 then 0 else if qos = QOS1 then 1 else 0)
             (if retained = 1 then 1 else 0)))"

section \<open>Normal forms of the writers\<close>

definition u16_bytes :: "u16 \<Rightarrow> byte list" where
  "u16_bytes n = [ucast (n div 256), ucast (n mod 256)]"

lemma length_u16_bytes [simp]: "length (u16_bytes n) = 2"
  by (simp add: u16_bytes_def)

text \<open>The encoding of MQTT 3.1.1 (2.2.3): seven bits a byte, least significant first, the top
  bit set on all but the last.\<close>

fun encode_len :: "nat \<Rightarrow> byte list" where
  "encode_len n =
     (if n < 128 then [of_nat n] else of_nat (n mod 128 + 128) # encode_len (n div 128))"

declare encode_len.simps [simp del]

lemma write_char_wire [wire]: "aws_iot_mqtt_internal_write_char b c = put_bytes [b] c"
  by (cases c)
    (simp add: aws_iot_mqtt_internal_write_char_def put_bytes_def upd_conv_take_nth_drop)

lemma write_uint_16_wire [wire]:
  "aws_iot_mqtt_internal_write_uint_16 n c = put_bytes (u16_bytes n) c"
  by (simp add: aws_iot_mqtt_internal_write_uint_16_def wire u16_bytes_def)

lemma write_utf8_wire [wire]:
  "unat n \<le> length str \<Longrightarrow>
   aws_iot_mqtt_internal_write_utf8_string str n c = put_bytes (u16_bytes n @ take (unat n) str) c"
  by (cases "n = 0")
    (simp_all add: aws_iot_mqtt_internal_write_utf8_string_def wire mem_take_def
      word_gt_0)

text \<open>The bit operations of the length encoding on bytes: seven bits are checked exhaustively
  by evaluation.\<close>

lemma septets:
  "list_all (\<lambda>n. (of_nat n :: byte) OR 128 = of_nat (n + 128) \<and>
      (of_nat (n + 128) :: byte) AND 127 = of_nat n \<and> (of_nat (n + 128) :: byte) AND 128 \<noteq> 0 \<and>
      (of_nat n :: byte) AND 127 = of_nat n \<and> (of_nat n :: byte) AND 128 = 0) [0..<128]"
  by code_simp

lemma septet:
  assumes "n < 128"
  shows "(of_nat n :: byte) OR 128 = of_nat (n + 128)"
    and "(of_nat (n + 128) :: byte) AND 127 = of_nat n"
    and "(of_nat (n + 128) :: byte) AND 128 \<noteq> 0"
    and "(of_nat n :: byte) AND 127 = of_nat n"
    and "(of_nat n :: byte) AND 128 = 0"
  using septets assms by (auto simp: list_all_iff)

lemma ucast_mod_128: "(ucast ((len :: u32) mod 128) :: byte) = of_nat (unat len mod 128)"
proof -
  have "unat (ucast (len mod 128) :: byte) = unat len mod 128"
    by (simp add: unsigned_ucast_eq unat_mod take_bit_nat_eq_self)
  then show ?thesis
    by (metis of_nat_unat ucast_id)
qed

lemma write_len_wire [wire]:
  "aws_iot_mqtt_internal_write_len_to_buffer len c = put_bytes (encode_len (unat len)) c"
proof (induction "unat len" arbitrary: len c rule: less_induct)
  case (less len c)
  show ?case
  proof (cases "unat len < 128")
    case True
    then have "len div 128 = 0"
      by (simp add: word_unat_eq_iff unat_div)
    with True show ?thesis
      by (subst aws_iot_mqtt_internal_write_len_to_buffer.simps, subst encode_len.simps)
        (simp add: wire ucast_mod_128)
  next
    case False
    then have big: "len div 128 > 0"
      by (simp add: word_less_nat_alt unat_div)
    have tail: "aws_iot_mqtt_internal_write_len_to_buffer (len div 128) d
        = put_bytes (encode_len (unat len div 128)) d" for d
      using less [of "len div 128" d] False by (simp add: unat_div)
    show ?thesis
      using False big septet [of "unat len mod 128"]
      by (subst aws_iot_mqtt_internal_write_len_to_buffer.simps, subst encode_len.simps)
        (simp add: wire tail ucast_mod_128)
  qed
qed

text \<open>The length of an encoding.\<close>

lemma length_encode_len:
  "length (encode_len n) =
     (if n < 128 then 1 else if n < 16384 then 2 else if n < 2097152 then 3
      else if n < 268435456 then 4 else length (encode_len (n div 268435456)) + 4)"
  by (simp add: encode_len.simps [of n] encode_len.simps [of "n div 128"]
      encode_len.simps [of "n div 16384"] encode_len.simps [of "n div 2097152"]
      div_less_iff_less_mult flip: div_mult2_eq)

lemma length_encode_len_le4: "n < 268435456 \<Longrightarrow> length (encode_len n) \<le> 4"
  by (simp add: length_encode_len)

lemma length_encode_len_pos [simp]: "0 < length (encode_len n)"
  by (subst encode_len.simps) simp

section \<open>Normal forms of the readers\<close>

lemma rd_at: "rd (pre @ b # rest) (length pre) = Some b"
  by (simp add: rd_def)

lemma rd_at_Suc: "rd (pre @ a # b # rest) (Suc (length pre)) = Some b"
  using rd_at [of "pre @ [a]" b rest] by simp

lemma read_char_at:
  "aws_iot_mqtt_internal_read_char (pre @ b # rest, length pre)
   = Some (b, (pre @ b # rest, length pre + 1))"
  by (simp add: aws_iot_mqtt_internal_read_char_def rd_at)

lemma u16_of_bytes:
  "(ucast (ucast (n mod 256) :: byte) :: u16) + 256 * ucast (ucast (n div 256) :: byte) = n"
proof -
  have lo: "unat (ucast (ucast (n mod 256) :: byte) :: u16) = unat n mod 256"
    by (simp add: unsigned_ucast_eq unat_mod take_bit_nat_eq_self take_bit_eq_mod)
  have "unat n div 256 < 256"
    using unat_u16_lt [of n] by (simp add: div_less_iff_less_mult)
  then have hi: "unat (ucast (ucast (n div 256) :: byte) :: u16) = unat n div 256"
    by (simp add: unsigned_ucast_eq unat_div unat_mod take_bit_eq_mod)
  have "unat ((ucast (ucast (n mod 256) :: byte) :: u16) + 256 * ucast (ucast (n div 256) :: byte))
      = unat n"
    using lo hi unat_u16_lt [of n] by (simp add: unat_word_ariths mod_add_right_eq)
  then show ?thesis
    by (simp add: word_unat_eq_iff)
qed

lemma read_uint16_at:
  "aws_iot_mqtt_internal_read_uint16_t (pre @ u16_bytes n @ rest, length pre)
   = Some (n, (pre @ u16_bytes n @ rest, length pre + 2))"
  by (simp add: aws_iot_mqtt_internal_read_uint16_t_def u16_bytes_def rd_at rd_at_Suc u16_of_bytes)

lemma of_nat_septet_split:
  "(of_nat n :: u32) * m = of_nat (n mod 128) * m + of_nat (n div 128) * (m * 128)"
proof -
  have "(of_nat n :: u32) = of_nat (n mod 128 + n div 128 * 128)"
    by simp
  also have "\<dots> = of_nat (n mod 128) + of_nat (n div 128) * 128"
    by (simp only: of_nat_add of_nat_mult of_nat_numeral)
  finally show ?thesis
    by (simp only: distrib_right mult.assoc mult.commute [of 128 m])
qed

lemma ucast_of_nat_septet:
  assumes "n < 128"
  shows "(ucast (of_nat n :: byte) :: u32) = of_nat n"
proof -
  have "unat (ucast (of_nat n :: byte) :: u32) = unat (of_nat n :: u32)"
    using assms by (simp add: unat_of_nat)
  then show ?thesis
    by (simp add: word_unat_eq_iff)
qed

lemma decode_loop_at:
  "k + length (encode_len n) \<le> 4 \<Longrightarrow>
   decode_remaining_length_loop (pre @ encode_len n @ rest) (length pre) k m d
   = success (d + of_nat n * m, k + length (encode_len n))"
proof (induction n arbitrary: pre k m d rule: encode_len.induct)
  case (1 n)
  show ?case
  proof (cases "n < 128")
    case True
    then have "encode_len n = [of_nat n]"
      by (simp add: encode_len.simps)
    with True "1.prems" septet [OF True] show ?thesis
      by (subst decode_remaining_length_loop.simps)
        (simp add: rd_at MAX_NO_OF_REMAINING_LENGTH_BYTES_def ucast_of_nat_septet)
  next
    case False
    let ?b = "of_nat (n mod 128 + 128) :: byte" and ?t = "encode_len (n div 128)"
    have enc: "encode_len n = ?b # ?t"
      using False by (subst encode_len.simps) (simp del: of_nat_add)
    have small: "n mod 128 < 128" by simp
    have len: "Suc k + length ?t \<le> 4"
      using "1.prems" by (simp add: enc)
    then have k: "k + 1 \<le> 4" by simp
    have "decode_remaining_length_loop (pre @ ?b # ?t @ rest) (length pre + 1) (k + 1) (m * 128) e
        = success (e + of_nat (n div 128) * (m * 128), k + 1 + length ?t)" for e
      using "1.IH" [OF False, of "k + 1" "pre @ [?b]" "m * 128" e] len
      by (simp del: of_nat_add)
    then show ?thesis
      using septet [OF small] k
      by (subst decode_remaining_length_loop.simps)
        (simp add: enc rd_at MAX_NO_OF_REMAINING_LENGTH_BYTES_def ucast_of_nat_septet [OF small]
          of_nat_septet_split [of n m] add.assoc del: of_nat_add)
  qed
qed

lemma decode_remaining_length_at:
  assumes "n < 268435456"
  shows "aws_iot_mqtt_internal_decode_remaining_length_from_buffer
      (pre @ encode_len n @ rest, length pre) = success (of_nat n, length (encode_len n))"
  using decode_loop_at [of 0 n pre rest 1 0] length_encode_len_le4 [OF assms]
  by (simp add: aws_iot_mqtt_internal_decode_remaining_length_from_buffer_def)

section \<open>The interface of a writer/reader pair\<close>

text \<open>What the packet layer relies on: a writer appends the encoding of its argument at the
  cursor and touches nothing else, and the reader at the start of such an encoding gives the
  argument back and moves past it.  \<open>ok\<close> is the set of values the pair is for.\<close>

locale wire_codec =
  fixes enc :: "'a \<Rightarrow> byte list"
    and writer :: "'a \<Rightarrow> cursor \<Rightarrow> cursor option"
    and reader :: "cursor \<Rightarrow> ('a \<times> cursor) option"
    and ok :: "'a \<Rightarrow> bool"
  assumes writes: "ok a \<Longrightarrow> writer a c = put_bytes (enc a) c"
    and reads: "ok a \<Longrightarrow>
      reader (pre @ enc a @ rest, length pre)
      = Some (a, (pre @ enc a @ rest, length pre + length (enc a)))"
begin

lemma writer_defined_iff:
  "ok a \<Longrightarrow> writer a (buf, p) \<noteq> None \<longleftrightarrow> p + length (enc a) \<le> length buf"
  by (simp add: writes put_bytes_def)

text \<open>Reading back what was written, with the cursor where the writer left it.\<close>

lemma read_back:
  assumes "ok a" "writer a (buf, p) = Some (buf', p')"
  shows "reader (buf', p) = Some (a, (buf', p'))"
proof -
  from assms have fits: "p + length (enc a) \<le> length buf"
    and buf': "buf' = take p buf @ enc a @ drop (p + length (enc a)) buf"
    and p': "p' = p + length (enc a)"
    by (auto simp: writes put_bytes_def split: if_splits)
  from fits have "length (take p buf) = p" by simp
  with reads [OF assms(1), of "take p buf" "drop (p + length (enc a)) buf"]
  show ?thesis by (simp add: buf' p')
qed

text \<open>Frame: the bytes before the cursor and behind the encoding keep their values.\<close>

lemma writer_frame:
  assumes "ok a" "writer a (buf, p) = Some (buf', p')"
  shows "take p buf' = take p buf \<and> drop p' buf' = drop p' buf \<and> length buf' = length buf"
  using assms by (auto simp: writes put_bytes_def split: if_splits)

text \<open>Two fields in a row.\<close>

lemma read_back_pair:
  assumes "ok a" "ok b" "writer a (buf, p) = Some (buf1, p1)" "writer b (buf1, p1) = Some (buf2, p2)"
  shows "reader (buf2, p) = Some (a, (buf2, p1)) \<and> reader (buf2, p1) = Some (b, (buf2, p2))"
proof
  from assms have fits: "p + length (enc a) + length (enc b) \<le> length buf"
    and buf2: "buf2 = take p buf @ enc a @ enc b @ drop (p + length (enc a) + length (enc b)) buf"
    and p1: "p1 = p + length (enc a)"
    by (auto simp: writes put_bytes_def ac_simps split: if_splits)
  from fits have "length (take p buf) = p" by simp
  with reads [OF assms(1), of "take p buf"] show "reader (buf2, p) = Some (a, (buf2, p1))"
    by (simp add: buf2 p1)
  show "reader (buf2, p1) = Some (b, (buf2, p2))"
    by (rule read_back [OF assms(2,4)])
qed

end

interpretation char_codec: wire_codec
  "\<lambda>b. [b]" aws_iot_mqtt_internal_write_char aws_iot_mqtt_internal_read_char "\<lambda>_. True"
  by unfold_locales (simp_all add: wire read_char_at)

interpretation u16_codec: wire_codec
  u16_bytes aws_iot_mqtt_internal_write_uint_16 aws_iot_mqtt_internal_read_uint16_t "\<lambda>_. True"
  by unfold_locales (simp_all add: wire read_uint16_at)

text \<open>The reader of a remaining length as every caller uses it:
  \<open>curData += readBytesLen\<close> after a successful decode.\<close>

definition read_remaining_length :: "cursor \<Rightarrow> (u32 \<times> cursor) option" where
  "read_remaining_length = (\<lambda>(buf, p).
     case aws_iot_mqtt_internal_decode_remaining_length_from_buffer (buf, p) of
       Some (Inr (len, n)) \<Rightarrow> Some (len, (buf, p + n))
     | _ \<Rightarrow> None)"

interpretation len_codec: wire_codec
  "\<lambda>n. encode_len (unat n)" aws_iot_mqtt_internal_write_len_to_buffer read_remaining_length
  "\<lambda>n. n < 268435456"
  by unfold_locales
    (simp_all add: wire read_remaining_length_def decode_remaining_length_at success_def
      word_less_nat_alt)

section \<open>Packet sizes and headers\<close>

lemma final_packet_length:
  assumes "unat n < 268435456"
  shows "unat (aws_iot_mqtt_internal_get_final_packet_length_from_remaining_length n)
     = 1 + unat n + (if unat n < 127 then 1 else if unat n < 16383 then 2
         else if unat n < 2097151 then 3 else 4)"
  using assms
  by (simp add: aws_iot_mqtt_internal_get_final_packet_length_from_remaining_length_def Let_def
      word_less_nat_alt unat_u32_add)

lemma final_packet_length_ge:
  assumes "unat n < 268435456"
  shows "1 + length (encode_len (unat n)) + unat n
     \<le> unat (aws_iot_mqtt_internal_get_final_packet_length_from_remaining_length n)"
  using assms by (simp add: final_packet_length length_encode_len)

lemma nibble_masks:
  "(x :: byte) AND 15 = take_bit 4 x" "(x :: byte) AND 3 = take_bit 2 x"
  "(x :: byte) AND 1 = take_bit 1 x"
  by (simp_all add: take_bit_eq_mask mask_eq_exp_minus_1)

lemma header_byte_fields:
  "header_type (header_byte m dup qos ret) = m AND 15"
  "header_dup (header_byte m dup qos ret) = dup AND 1"
  "header_qos (header_byte m dup qos ret) = qos AND 3"
  "header_retain (header_byte m dup qos ret) = ret AND 1"
  unfolding header_byte_def header_type_def header_dup_def header_qos_def header_retain_def
    nibble_masks
  by - (rule bit_word_eqI,
      simp only: bit_or_iff bit_push_bit_iff bit_drop_bit_eq bit_take_bit_iff comp_apply,
      fastforce)+

lemma init_header_success:
  "aws_iot_mqtt_internal_init_header m qos dup ret = success b \<longleftrightarrow>
   m \<noteq> UNKNOWN \<and> b = header_byte (type_code m) (if dup = 1 then 1 else 0)
     (if qos = QOS1 then 1 else 0) (if ret = 1 then 1 else 0)"
  by (auto simp: aws_iot_mqtt_internal_init_header_def)

text \<open>An encoding that needs more than the four bytes MQTT allows is refused.\<close>

lemma decode_loop_too_long:
  "k \<le> 4 \<Longrightarrow> 4 < k + length (encode_len n) \<Longrightarrow>
   decode_remaining_length_loop (pre @ encode_len n @ rest) (length pre) k m d
   = fail MQTT_DECODE_REMAINING_LENGTH_ERROR"
proof (induction n arbitrary: pre k m d rule: encode_len.induct)
  case (1 n)
  show ?case
  proof (cases "k = 4")
    case True
    then show ?thesis
      by (subst decode_remaining_length_loop.simps) (simp add: MAX_NO_OF_REMAINING_LENGTH_BYTES_def)
  next
    case False
    let ?b = "of_nat (n mod 128 + 128) :: byte" and ?t = "encode_len (n div 128)"
    have big: "\<not> n < 128"
      using "1.prems" False by (subst (asm) encode_len.simps) (simp split: if_splits)
    have enc: "encode_len n = ?b # ?t"
      using big by (subst encode_len.simps) (simp del: of_nat_add)
    have len: "k + 1 \<le> 4" "4 < k + 1 + length ?t"
      using "1.prems" False by (simp_all add: enc)
    have "decode_remaining_length_loop (pre @ ?b # ?t @ rest) (length pre + 1) (k + 1) (m * 128) e
        = fail MQTT_DECODE_REMAINING_LENGTH_ERROR" for e
      using "1.IH" [OF big len, of "pre @ [?b]" "m * 128" e]
      by (simp del: of_nat_add)
    then show ?thesis
      using septet [of "n mod 128"] len
      by (subst decode_remaining_length_loop.simps)
        (simp add: enc rd_at MAX_NO_OF_REMAINING_LENGTH_BYTES_def del: of_nat_add)
  qed
qed

section \<open>Properties\<close>

text \<open>C3. Every remaining length below 268435456 (2 to the power 28), the largest MQTT allows, is encoded in one to four
  bytes, and the decoder reads the same length back and reports how many bytes it took,
  whatever the buffer holds around the encoding.\<close>

theorem remaining_length_roundtrip:
  assumes "n < 268435456" "p + 4 \<le> length buf"
  shows "\<exists>buf' k. aws_iot_mqtt_internal_write_len_to_buffer n (buf, p) = Some (buf', p + k)
     \<and> 1 \<le> k \<and> k \<le> 4 \<and> length buf' = length buf
     \<and> aws_iot_mqtt_internal_decode_remaining_length_from_buffer (buf', p) = success (n, k)"
proof -
  let ?e = "encode_len (unat n)"
  have n: "unat n < 268435456"
    using assms(1) by (simp add: word_less_nat_alt)
  have e: "length ?e \<le> 4" "1 \<le> length ?e"
    using length_encode_len_le4 [OF n] length_encode_len_pos [of "unat n"]
    by (simp_all add: Suc_le_eq)
  have "length (take p buf) = p"
    using assms(2) by simp
  then show ?thesis
    using e assms(2) decode_remaining_length_at [OF n, of "take p buf" "drop (p + length ?e) buf"]
    by (simp add: write_len_wire put_bytes_def)
qed

theorem remaining_length_roundtrip_witness:
  "\<exists>buf' k. aws_iot_mqtt_internal_write_len_to_buffer 321 (replicate 6 0, 1) = Some (buf', 1 + k)
     \<and> 1 \<le> k \<and> k \<le> 4 \<and> length buf' = length (replicate 6 (0::byte))
     \<and> aws_iot_mqtt_internal_decode_remaining_length_from_buffer (buf', 1) = success (321, k)"
  by (rule remaining_length_roundtrip) simp_all

text \<open>A length of 268435456 or more, which MQTT forbids, is written as five bytes, and the decoder
  refuses those bytes after the fourth.\<close>

theorem remaining_length_too_long:
  assumes "268435456 \<le> n" "p + 5 \<le> length buf"
  shows "\<exists>buf'. aws_iot_mqtt_internal_write_len_to_buffer n (buf, p) = Some (buf', p + 5)
     \<and> aws_iot_mqtt_internal_decode_remaining_length_from_buffer (buf', p)
       = fail MQTT_DECODE_REMAINING_LENGTH_ERROR"
proof -
  let ?e = "encode_len (unat n)"
  have n: "268435456 \<le> unat n" "unat n div 268435456 < 128"
    using assms(1) unsigned_less [of n, where ?'a = nat]
    by (simp_all add: word_le_nat_alt div_less_iff_less_mult)
  then have e: "length ?e = 5"
    by (simp add: length_encode_len [of "unat n"] encode_len.simps [of "unat n div 268435456"])
  have "length (take p buf) = p"
    using assms(2) by simp
  then show ?thesis
    using e assms(2) decode_loop_too_long [of 0 "unat n" "take p buf" "drop (p + 5) buf" 1 0]
    by (simp add: write_len_wire put_bytes_def
        aws_iot_mqtt_internal_decode_remaining_length_from_buffer_def)
qed

theorem remaining_length_too_long_witness:
  "\<exists>buf'. aws_iot_mqtt_internal_write_len_to_buffer 4294967295 (replicate 6 0, 0) = Some (buf', 0 + 5)
     \<and> aws_iot_mqtt_internal_decode_remaining_length_from_buffer (buf', 0)
       = fail MQTT_DECODE_REMAINING_LENGTH_ERROR"
  by (rule remaining_length_too_long) simp_all

end
