(* ===== verification/Mqtt_Packets.thy ===== *)
theory Mqtt_Packets
  imports Mqtt_Wire
begin

text \<open>
  Serializers and deserializers of the MQTT control packets, from
  \<^verbatim>\<open>aws_iot_mqtt_client_connect.c\<close>, \<^verbatim>\<open>_publish.c\<close>, \<^verbatim>\<open>_subscribe.c\<close>, \<^verbatim>\<open>_unsubscribe.c\<close> and
  \<^verbatim>\<open>_common_internal.c\<close>.  A serializer takes the transmit buffer and its size and gives the
  buffer it leaves and the serialized length; a deserializer reads the receive buffer.
  Pointers into the receive buffer that a deserializer returns stay offsets.  The second
  half refines every serializer to the packet of the MQTT document and proves what the
  deserializers make of such packets.
\<close>

section \<open>CONNECT and CONNACK\<close>

text \<open>A \<^verbatim>\<open>char *\<close> is \<open>None\<close> for NULL, else the memory it points to.\<close>

record IoT_MQTT_Will_Options =
  will_pTopicName :: "byte list option"
  will_topicNameLen :: u16
  will_pMessage :: "byte list option"
  will_msgLen :: u16
  will_isRetained :: bool
  will_qos :: QoS

record IoT_Client_Connect_Params =
  MQTTVersion :: byte
  pClientID :: "byte list option"
  clientIDLen :: u16
  keepAliveIntervalInSec :: u16
  isCleanSession :: bool
  isWillMsgPresent :: bool
  will :: IoT_MQTT_Will_Options
  pUsername :: "byte list option"
  usernameLen :: u16
  pPassword :: "byte list option"
  passwordLen :: u16

abbreviation MQTT_3_1_1 :: byte where "MQTT_3_1_1 \<equiv> 4"

definition IoT_MQTT_Will_Options_Initializer :: IoT_MQTT_Will_Options where
  "IoT_MQTT_Will_Options_Initializer = \<lparr>will_pTopicName = None, will_topicNameLen = 0,
     will_pMessage = None, will_msgLen = 0, will_isRetained = False, will_qos = QOS0\<rparr>"

definition IoT_Client_Connect_Params_initializer :: IoT_Client_Connect_Params where
  "IoT_Client_Connect_Params_initializer = \<lparr>MQTTVersion = MQTT_3_1_1, pClientID = None,
     clientIDLen = 0, keepAliveIntervalInSec = 60, isCleanSession = True,
     isWillMsgPresent = False, will = IoT_MQTT_Will_Options_Initializer, pUsername = None,
     usernameLen = 0, pPassword = None, passwordLen = 0\<rparr>"

text \<open>NULL points to no readable byte.\<close>

definition ptr_mem :: "byte list option \<Rightarrow> byte list" where
  "ptr_mem s = (case s of None \<Rightarrow> [] | Some m \<Rightarrow> m)"

definition aws_iot_get_connect_packet_length :: "IoT_Client_Connect_Params \<Rightarrow> u32" where
  "aws_iot_get_connect_packet_length opts =
     (let len = 10;
          len = len + ucast (clientIDLen opts) + 2;
          len = (if isWillMsgPresent opts
                 then len + ucast (will_topicNameLen (will opts)) + 2
                        + ucast (will_msgLen (will opts)) + 2
                 else len);
          len = (if pUsername opts \<noteq> None then len + ucast (usernameLen opts) + 2 else len);
          len = (if pPassword opts \<noteq> None then len + ucast (passwordLen opts) + 2 else len)
      in len)"

text \<open>The union \<^verbatim>\<open>MQTT_Connect_Header_Flags\<close>: from the lowest bit up one unused bit,
  cleansession, will, willQoS (two bits), willRetain, password, username.\<close>

definition connect_header_flags :: "IoT_Client_Connect_Params \<Rightarrow> byte" where
  "connect_header_flags opts =
     push_bit 1 (if isCleanSession opts then 1 else 0)
     OR push_bit 2 (if isWillMsgPresent opts then 1 else 0)
     OR push_bit 3 (if isWillMsgPresent opts then will_qos (will opts) AND 3 else 0)
     OR push_bit 5 (if isWillMsgPresent opts \<and> will_isRetained (will opts) then 1 else 0)
     OR push_bit 6 (if pPassword opts \<noteq> None then 1 else 0)
     OR push_bit 7 (if pUsername opts \<noteq> None then 1 else 0)"

text \<open>The string \<open>"MQTT"\<close>.\<close>

definition MQTT_magic :: "byte list" where
  "MQTT_magic = [0x4D, 0x51, 0x54, 0x54]"

definition aws_iot_mqtt_serialize_connect ::
  "byte list \<Rightarrow> nat \<Rightarrow> IoT_Client_Connect_Params \<Rightarrow> (IoT_Error_t + (byte list \<times> nat)) option" where
  "aws_iot_mqtt_serialize_connect pTxBuf txBufLen opts =
     (if (pClientID opts = None \<and> clientIDLen opts \<noteq> 0) \<or>
         (pClientID opts \<noteq> None \<and> clientIDLen opts = 0)
      then fail NULL_VALUE_ERROR
      else if MQTTVersion opts \<noteq> MQTT_3_1_1
      then fail MQTT_CONNACK_UNACCEPTABLE_PROTOCOL_VERSION_ERROR
      else
        let len = aws_iot_get_connect_packet_length opts
        in if unat (aws_iot_mqtt_internal_get_final_packet_length_from_remaining_length len) > txBufLen
           then fail MQTT_TX_BUFFER_TOO_SHORT_ERROR
           else bindE (aws_iot_mqtt_internal_init_header CONNECT QOS0 0 0) (\<lambda>header. do {
             ptr \<leftarrow> aws_iot_mqtt_internal_write_char header (pTxBuf, 0);
             ptr \<leftarrow> aws_iot_mqtt_internal_write_len_to_buffer len ptr;
             ptr \<leftarrow> aws_iot_mqtt_internal_write_utf8_string MQTT_magic 4 ptr;
             ptr \<leftarrow> aws_iot_mqtt_internal_write_char (MQTTVersion opts) ptr;
             ptr \<leftarrow> aws_iot_mqtt_internal_write_char (connect_header_flags opts) ptr;
             ptr \<leftarrow> aws_iot_mqtt_internal_write_uint_16 (keepAliveIntervalInSec opts) ptr;
             ptr \<leftarrow> (case pClientID opts of
                       None \<Rightarrow> aws_iot_mqtt_internal_write_uint_16 0 ptr
                     | Some m \<Rightarrow> aws_iot_mqtt_internal_write_utf8_string m (clientIDLen opts) ptr);
             ptr \<leftarrow> (if isWillMsgPresent opts then do {
                         ptr \<leftarrow> aws_iot_mqtt_internal_write_utf8_string
                           (ptr_mem (will_pTopicName (will opts))) (will_topicNameLen (will opts)) ptr;
                         aws_iot_mqtt_internal_write_utf8_string
                           (ptr_mem (will_pMessage (will opts))) (will_msgLen (will opts)) ptr
                       } else Some ptr);
             ptr \<leftarrow> (case pUsername opts of None \<Rightarrow> Some ptr
                     | Some m \<Rightarrow> aws_iot_mqtt_internal_write_utf8_string m (usernameLen opts) ptr);
             ptr \<leftarrow> (case pPassword opts of None \<Rightarrow> Some ptr
                     | Some m \<Rightarrow> aws_iot_mqtt_internal_write_utf8_string m (passwordLen opts) ptr);
             success ptr
           }))"

text \<open>The return codes \<^verbatim>\<open>MQTT_Connack_Return_Codes\<close> and what the client makes of them.\<close>

definition connack_return_code :: "byte \<Rightarrow> IoT_Error_t" where
  "connack_return_code c =
     (if c = 0 then MQTT_CONNACK_CONNECTION_ACCEPTED
      else if c = 1 then MQTT_CONNACK_UNACCEPTABLE_PROTOCOL_VERSION_ERROR
      else if c = 2 then MQTT_CONNACK_IDENTIFIER_REJECTED_ERROR
      else if c = 3 then MQTT_CONNACK_SERVER_UNAVAILABLE_ERROR
      else if c = 4 then MQTT_CONNACK_BAD_USERDATA_ERROR
      else if c = 5 then MQTT_CONNACK_NOT_AUTHORIZED_ERROR
      else MQTT_CONNACK_UNKNOWN_ERROR)"

text \<open>The union \<^verbatim>\<open>MQTT_Connack_Header_Flags\<close> declares seven unused bits before
  \<open>sessionpresent\<close>, which is therefore the top bit.\<close>

definition aws_iot_mqtt_deserialize_connack ::
  "byte list \<Rightarrow> nat \<Rightarrow> (IoT_Error_t + (byte \<times> IoT_Error_t)) option" where
  "aws_iot_mqtt_deserialize_connack pRxBuf rxBufLen =
     (if 4 > rxBufLen then fail MQTT_RX_BUFFER_TOO_SHORT_ERROR
      else do {
        (header, curdata) \<leftarrow> aws_iot_mqtt_internal_read_char (pRxBuf, 0);
        if header_type header \<noteq> type_code CONNACK then fail AWS_FAILURE
        else bindE (aws_iot_mqtt_internal_decode_remaining_length_from_buffer curdata)
          (\<lambda>(decodedLen, readBytesLen).
            let curdata = (fst curdata, snd curdata + readBytesLen);
                enddata = snd curdata + unat decodedLen
            in if int enddata - int (snd curdata) \<noteq> 2 then fail MQTT_DECODE_REMAINING_LENGTH_ERROR
               else do {
                 (flags, curdata) \<leftarrow> aws_iot_mqtt_internal_read_char curdata;
                 (connack_rc_char, curdata) \<leftarrow> aws_iot_mqtt_internal_read_char curdata;
                 success (drop_bit 7 flags, connack_return_code connack_rc_char)
               })
      })"

section \<open>PUBLISH and the acknowledgements\<close>

text \<open>Messages to publish: \<open>msg_payload\<close> is the memory the \<^verbatim>\<open>void *\<close> points to.\<close>

record IoT_Publish_Message_Params =
  msg_qos :: QoS
  msg_isRetained :: byte
  msg_isDup :: byte
  msg_id :: u16
  msg_payload :: "byte list option"
  msg_payloadLen :: u32

text \<open>\<open>topic\<close> is the memory of \<^verbatim>\<open>pTopicName\<close>.\<close>

definition aws_iot_mqtt_internal_serialize_publish ::
  "byte list \<Rightarrow> nat \<Rightarrow> byte \<Rightarrow> QoS \<Rightarrow> byte \<Rightarrow> u16 \<Rightarrow> byte list \<Rightarrow> u16 \<Rightarrow> byte list option \<Rightarrow> u32
   \<Rightarrow> (IoT_Error_t + (byte list \<times> nat)) option" where
  "aws_iot_mqtt_internal_serialize_publish pTxBuf txBufLen dup qos retained packetId
       topic topicNameLen pPayload payloadLen =
     (case pPayload of None \<Rightarrow> fail NULL_VALUE_ERROR
      | Some pl \<Rightarrow>
        let rem_len = 0;
            rem_len = rem_len + (ucast topicNameLen + payloadLen + 2);
            rem_len = (if qos > 0 then rem_len + 2 else rem_len)
        in if unat (aws_iot_mqtt_internal_get_final_packet_length_from_remaining_length rem_len)
              > txBufLen
           then fail MQTT_TX_BUFFER_TOO_SHORT_ERROR
           else bindE (aws_iot_mqtt_internal_init_header PUBLISH qos dup retained) (\<lambda>header. do {
             ptr \<leftarrow> aws_iot_mqtt_internal_write_char header (pTxBuf, 0);
             ptr \<leftarrow> aws_iot_mqtt_internal_write_len_to_buffer rem_len ptr;
             ptr \<leftarrow> aws_iot_mqtt_internal_write_utf8_string topic topicNameLen ptr;
             ptr \<leftarrow> (if qos > 0 then aws_iot_mqtt_internal_write_uint_16 packetId ptr else Some ptr);
             bytes \<leftarrow> mem_take (unat payloadLen) pl;
             ptr \<leftarrow> put_bytes bytes ptr;
             success ptr
           }))"

definition aws_iot_mqtt_internal_serialize_ack ::
  "byte list \<Rightarrow> nat \<Rightarrow> MessageTypes \<Rightarrow> byte \<Rightarrow> u16 \<Rightarrow> (IoT_Error_t + (byte list \<times> nat)) option" where
  "aws_iot_mqtt_internal_serialize_ack pTxBuf txBufLen msgType dup packetId =
     (if 4 > txBufLen then fail MQTT_TX_BUFFER_TOO_SHORT_ERROR
      else
        let requestQoS = (if msgType = PUBREL then QOS1 else QOS0)
        in bindE (aws_iot_mqtt_internal_init_header msgType requestQoS dup 0) (\<lambda>header. do {
             ptr \<leftarrow> aws_iot_mqtt_internal_write_char header (pTxBuf, 0);
             ptr \<leftarrow> aws_iot_mqtt_internal_write_len_to_buffer 2 ptr;
             ptr \<leftarrow> aws_iot_mqtt_internal_write_uint_16 packetId ptr;
             success ptr
           }))"

text \<open>The string starts at the cursor with its two length bytes and must end by \<open>enddata\<close>; the
  result is the offset of its first character, its length and the cursor behind it.\<close>

definition aws_iot_mqtt_read_string_with_len ::
  "cursor \<Rightarrow> nat \<Rightarrow> (IoT_Error_t + (nat \<times> u16 \<times> cursor)) option" where
  "aws_iot_mqtt_read_string_with_len pptr enddata =
     (if int enddata - int (snd pptr) > 1 then do {
        (stringLen, pptr) \<leftarrow> aws_iot_mqtt_internal_read_uint16_t pptr;
        if snd pptr + unat stringLen \<le> enddata
        then success (snd pptr, stringLen, (fst pptr, snd pptr + unat stringLen))
        else fail AWS_FAILURE
      } else fail AWS_FAILURE)"

text \<open>A received PUBLISH: topic and payload are positions in the receive buffer; \<open>rx_id\<close> is
  \<open>None\<close> where the function leaves the caller's variable alone.\<close>

record Received_Publish =
  rx_dup :: byte
  rx_qos :: QoS
  rx_retained :: byte
  rx_id :: "u16 option"
  rx_topicName :: nat
  rx_topicNameLen :: u16
  rx_payload :: nat
  rx_payloadLen :: u32

definition aws_iot_mqtt_internal_deserialize_publish ::
  "byte list \<Rightarrow> nat \<Rightarrow> (IoT_Error_t + Received_Publish) option" where
  "aws_iot_mqtt_internal_deserialize_publish pRxBuf rxBufLen =
     (if 4 > rxBufLen then fail MQTT_RX_BUFFER_TOO_SHORT_ERROR
      else do {
        (header, curData) \<leftarrow> aws_iot_mqtt_internal_read_char (pRxBuf, 0);
        if header_type header \<noteq> type_code PUBLISH then fail AWS_FAILURE
        else bindE (aws_iot_mqtt_internal_decode_remaining_length_from_buffer curData)
          (\<lambda>(decodedLen, readBytesLen).
            let curData = (fst curData, snd curData + readBytesLen);
                endData = snd curData + unat decodedLen
            in case aws_iot_mqtt_read_string_with_len curData endData of
                 None \<Rightarrow> None
               | Some (Inl rc) \<Rightarrow> fail AWS_FAILURE
               | Some (Inr (topicName, topicNameLen, curData)) \<Rightarrow>
                   if 0 > int endData - int (snd curData) then fail AWS_FAILURE
                   else do {
                     (pid, curData) \<leftarrow>
                       (if header_qos header \<noteq> QOS0
                        then map_option (\<lambda>(n, c). (Some n, c)) (aws_iot_mqtt_internal_read_uint16_t curData)
                        else Some (None, curData));
                     success \<lparr>rx_dup = header_dup header, rx_qos = header_qos header,
                       rx_retained = header_retain header, rx_id = pid,
                       rx_topicName = topicName, rx_topicNameLen = topicNameLen,
                       rx_payload = snd curData,
                       rx_payloadLen = word_of_int (int endData - int (snd curData))\<rparr>
                   })
      })"

text \<open>On success: packet type, dup flag, packet identifier.\<close>

definition aws_iot_mqtt_internal_deserialize_ack ::
  "byte list \<Rightarrow> nat \<Rightarrow> (IoT_Error_t + (byte \<times> byte \<times> u16)) option" where
  "aws_iot_mqtt_internal_deserialize_ack pRxBuf rxBufLen =
     (if 4 > rxBufLen then fail MQTT_RX_BUFFER_TOO_SHORT_ERROR
      else do {
        (header, curdata) \<leftarrow> aws_iot_mqtt_internal_read_char (pRxBuf, 0);
        bindE (aws_iot_mqtt_internal_decode_remaining_length_from_buffer curdata)
          (\<lambda>(decodedLen, readBytesLen).
            let curdata = (fst curdata, snd curdata + readBytesLen);
                enddata = snd curdata + unat decodedLen
            in if int enddata - int (snd curdata) < 2 then fail AWS_FAILURE
               else do {
                 (packetId, curdata) \<leftarrow> aws_iot_mqtt_internal_read_uint16_t curdata;
                 success (header_type header, header_dup header, packetId)
               })
      })"

section \<open>SUBSCRIBE, UNSUBSCRIBE and their acknowledgements\<close>

text \<open>The parallel arrays of topic names, their lengths and requested qualities of service are
  one list.\<close>

fun write_topics :: "(byte list \<times> u16 \<times> QoS) list \<Rightarrow> cursor \<Rightarrow> cursor option" where
  "write_topics [] ptr = Some ptr"
| "write_topics ((topic, len, q) # ts) ptr = do {
     ptr \<leftarrow> aws_iot_mqtt_internal_write_utf8_string topic len ptr;
     ptr \<leftarrow> aws_iot_mqtt_internal_write_char q ptr;
     write_topics ts ptr
   }"

fun subscribe_rem_len :: "(byte list \<times> u16 \<times> QoS) list \<Rightarrow> u32 \<Rightarrow> u32" where
  "subscribe_rem_len [] rem_len = rem_len"
| "subscribe_rem_len ((topic, len, q) # ts) rem_len = subscribe_rem_len ts (rem_len + (ucast len + 2 + 1))"

definition aws_iot_mqtt_serialize_subscribe ::
  "byte list \<Rightarrow> nat \<Rightarrow> byte \<Rightarrow> u16 \<Rightarrow> (byte list \<times> u16 \<times> QoS) list
   \<Rightarrow> (IoT_Error_t + (byte list \<times> nat)) option" where
  "aws_iot_mqtt_serialize_subscribe pTxBuf txBufLen dup packetId topics =
     (let rem_len = subscribe_rem_len topics 2
      in if unat (aws_iot_mqtt_internal_get_final_packet_length_from_remaining_length rem_len)
            > txBufLen
         then fail MQTT_TX_BUFFER_TOO_SHORT_ERROR
         else bindE (aws_iot_mqtt_internal_init_header SUBSCRIBE QOS1 dup 0) (\<lambda>header. do {
           ptr \<leftarrow> aws_iot_mqtt_internal_write_char header (pTxBuf, 0);
           ptr \<leftarrow> aws_iot_mqtt_internal_write_len_to_buffer rem_len ptr;
           ptr \<leftarrow> aws_iot_mqtt_internal_write_uint_16 packetId ptr;
           ptr \<leftarrow> write_topics topics ptr;
           success ptr
         }))"

text \<open>The loop that copies the granted qualities of service into the caller's array; a store
  past the array is undefined.\<close>

function read_granted ::
  "byte list \<Rightarrow> nat \<Rightarrow> nat \<Rightarrow> nat \<Rightarrow> nat \<Rightarrow> QoS list \<Rightarrow> (IoT_Error_t + (nat \<times> QoS list)) option" where
  "read_granted buf curData endData maxExpectedQoSCount count grantedQoSs =
     (if curData < endData then
        if count > maxExpectedQoSCount then fail AWS_FAILURE
        else do {
          (q, _) \<leftarrow> aws_iot_mqtt_internal_read_char (buf, curData);
          if count < length grantedQoSs
          then read_granted buf (curData + 1) endData maxExpectedQoSCount (count + 1)
                 (grantedQoSs[count := q])
          else None
        }
      else success (count, grantedQoSs))"
  by pat_completeness auto
termination
  by (relation "measure (\<lambda>(b, c, e, m, n, g). e - c)") auto

declare read_granted.simps [simp del]

definition aws_iot_mqtt_deserialize_suback ::
  "nat \<Rightarrow> QoS list \<Rightarrow> byte list \<Rightarrow> nat \<Rightarrow> (IoT_Error_t + (u16 \<times> nat \<times> QoS list)) option" where
  "aws_iot_mqtt_deserialize_suback maxExpectedQoSCount grantedQoSs pRxBuf rxBufLen =
     (if 5 > rxBufLen then fail MQTT_RX_BUFFER_TOO_SHORT_ERROR
      else do {
        (header, curData) \<leftarrow> aws_iot_mqtt_internal_read_char (pRxBuf, 0);
        if header_type header \<noteq> type_code SUBACK then fail AWS_FAILURE
        else bindE (aws_iot_mqtt_internal_decode_remaining_length_from_buffer curData)
          (\<lambda>(decodedLen, readBytesLen).
            let curData = (fst curData, snd curData + readBytesLen);
                endData = snd curData + unat decodedLen
            in if int endData - int (snd curData) < 2 then fail AWS_FAILURE
               else do {
                 (packetId, curData) \<leftarrow> aws_iot_mqtt_internal_read_uint16_t curData;
                 bindE (read_granted (fst curData) (snd curData) endData maxExpectedQoSCount 0
                        grantedQoSs)
                   (\<lambda>(count, granted). success (packetId, count, granted))
               })
      })"

fun write_filters :: "(byte list \<times> u16) list \<Rightarrow> cursor \<Rightarrow> cursor option" where
  "write_filters [] ptr = Some ptr"
| "write_filters ((topic, len) # ts) ptr = do {
     ptr \<leftarrow> aws_iot_mqtt_internal_write_utf8_string topic len ptr;
     write_filters ts ptr
   }"

fun unsubscribe_rem_len :: "(byte list \<times> u16) list \<Rightarrow> u32 \<Rightarrow> u32" where
  "unsubscribe_rem_len [] rem_len = rem_len"
| "unsubscribe_rem_len ((topic, len) # ts) rem_len = unsubscribe_rem_len ts (rem_len + (ucast len + 2))"

definition aws_iot_mqtt_serialize_unsubscribe ::
  "byte list \<Rightarrow> nat \<Rightarrow> byte \<Rightarrow> u16 \<Rightarrow> (byte list \<times> u16) list
   \<Rightarrow> (IoT_Error_t + (byte list \<times> nat)) option" where
  "aws_iot_mqtt_serialize_unsubscribe pTxBuf txBufLen dup packetId topics =
     (let rem_len = unsubscribe_rem_len topics 2
      in if unat (aws_iot_mqtt_internal_get_final_packet_length_from_remaining_length rem_len)
            > txBufLen
         then fail MQTT_TX_BUFFER_TOO_SHORT_ERROR
         else bindE (aws_iot_mqtt_internal_init_header UNSUBSCRIBE QOS1 dup 0) (\<lambda>header. do {
           ptr \<leftarrow> aws_iot_mqtt_internal_write_char header (pTxBuf, 0);
           ptr \<leftarrow> aws_iot_mqtt_internal_write_len_to_buffer rem_len ptr;
           ptr \<leftarrow> aws_iot_mqtt_internal_write_uint_16 packetId ptr;
           ptr \<leftarrow> write_filters topics ptr;
           success ptr
         }))"

definition aws_iot_mqtt_deserialize_unsuback ::
  "byte list \<Rightarrow> nat \<Rightarrow> (IoT_Error_t + u16) option" where
  "aws_iot_mqtt_deserialize_unsuback pRxBuf rxBufLen =
     bindE (aws_iot_mqtt_internal_deserialize_ack pRxBuf rxBufLen) (\<lambda>(type, dup, packetId).
       if type \<noteq> type_code UNSUBACK then fail AWS_FAILURE else success packetId)"

section \<open>Packets without a variable header\<close>

definition aws_iot_mqtt_internal_serialize_zero ::
  "byte list \<Rightarrow> nat \<Rightarrow> MessageTypes \<Rightarrow> (IoT_Error_t + (byte list \<times> nat)) option" where
  "aws_iot_mqtt_internal_serialize_zero pTxBuf txBufLen packetType =
     (if 4 > txBufLen then fail MQTT_TX_BUFFER_TOO_SHORT_ERROR
      else bindE (aws_iot_mqtt_internal_init_header packetType QOS0 0 0) (\<lambda>header. do {
        ptr \<leftarrow> aws_iot_mqtt_internal_write_char header (pTxBuf, 0);
        ptr \<leftarrow> aws_iot_mqtt_internal_write_len_to_buffer 0 ptr;
        success ptr
      }))"

section \<open>Packets of the MQTT document\<close>

text \<open>A control packet: the header byte, the encoded length of the body, the body.\<close>

definition mqtt_packet :: "byte \<Rightarrow> byte list \<Rightarrow> byte list" where
  "mqtt_packet header body = header # encode_len (length body) @ body"

text \<open>What a serializer leaves when it writes a packet at the start of a buffer.\<close>

definition emitted :: "byte list \<Rightarrow> byte list \<Rightarrow> byte list \<times> nat" where
  "emitted buf pkt = (pkt @ drop (length pkt) buf, length pkt)"

definition str_field :: "byte list \<Rightarrow> u16 \<Rightarrow> byte list" where
  "str_field m n = u16_bytes n @ take (unat n) m"

definition opt_field :: "byte list option \<Rightarrow> u16 \<Rightarrow> byte list" where
  "opt_field m n = (case m of None \<Rightarrow> [] | Some m \<Rightarrow> str_field m n)"

definition connect_body :: "IoT_Client_Connect_Params \<Rightarrow> byte list" where
  "connect_body opts =
     u16_bytes 4 @ MQTT_magic @ [MQTTVersion opts, connect_header_flags opts]
     @ u16_bytes (keepAliveIntervalInSec opts)
     @ str_field (ptr_mem (pClientID opts)) (clientIDLen opts)
     @ (if isWillMsgPresent opts
        then str_field (ptr_mem (will_pTopicName (will opts))) (will_topicNameLen (will opts))
             @ str_field (ptr_mem (will_pMessage (will opts))) (will_msgLen (will opts))
        else [])
     @ opt_field (pUsername opts) (usernameLen opts)
     @ opt_field (pPassword opts) (passwordLen opts)"

text \<open>The lengths the application gives do not exceed the memory behind its pointers.\<close>

definition ptr_ok :: "byte list option \<Rightarrow> u16 \<Rightarrow> bool" where
  "ptr_ok m n \<longleftrightarrow> unat n \<le> length (ptr_mem m)"

definition connect_params_ok :: "IoT_Client_Connect_Params \<Rightarrow> bool" where
  "connect_params_ok opts \<longleftrightarrow>
     MQTTVersion opts = MQTT_3_1_1 \<and> (pClientID opts = None \<longleftrightarrow> clientIDLen opts = 0) \<and>
     ptr_ok (pClientID opts) (clientIDLen opts) \<and>
     (isWillMsgPresent opts \<longrightarrow>
        ptr_ok (will_pTopicName (will opts)) (will_topicNameLen (will opts)) \<and>
        ptr_ok (will_pMessage (will opts)) (will_msgLen (will opts))) \<and>
     (pUsername opts \<noteq> None \<longrightarrow> ptr_ok (pUsername opts) (usernameLen opts)) \<and>
     (pPassword opts \<noteq> None \<longrightarrow> ptr_ok (pPassword opts) (passwordLen opts))"

definition publish_body :: "byte list \<Rightarrow> u16 \<Rightarrow> QoS \<Rightarrow> u16 \<Rightarrow> byte list \<Rightarrow> byte list" where
  "publish_body topic topicLen q pid pl =
     str_field topic topicLen @ (if q > 0 then u16_bytes pid else []) @ pl"

definition subscribe_body :: "u16 \<Rightarrow> (byte list \<times> u16 \<times> QoS) list \<Rightarrow> byte list" where
  "subscribe_body pid ts = u16_bytes pid @ concat (map (\<lambda>(t, n, q). str_field t n @ [q]) ts)"

definition unsubscribe_body :: "u16 \<Rightarrow> (byte list \<times> u16) list \<Rightarrow> byte list" where
  "unsubscribe_body pid ts = u16_bytes pid @ concat (map (\<lambda>(t, n). str_field t n) ts)"

lemmas body_defs = mqtt_packet_def str_field_def opt_field_def publish_body_def
  subscribe_body_def unsubscribe_body_def

subsection \<open>Lengths\<close>

lemma length_str_field: "unat n \<le> length m \<Longrightarrow> length (str_field m n) = 2 + unat n"
  by (simp add: str_field_def)

lemma length_opt_field:
  "(m \<noteq> None \<Longrightarrow> ptr_ok m n) \<Longrightarrow>
   length (opt_field m n) = (if m = None then 0 else 2 + unat n)"
  by (auto simp: opt_field_def ptr_ok_def ptr_mem_def length_str_field split: option.splits)

lemma length_connect_body:
  assumes "connect_params_ok opts"
  shows "length (connect_body opts) = 12 + unat (clientIDLen opts)
     + (if isWillMsgPresent opts
        then 4 + unat (will_topicNameLen (will opts)) + unat (will_msgLen (will opts)) else 0)
     + (if pUsername opts \<noteq> None then 2 + unat (usernameLen opts) else 0)
     + (if pPassword opts \<noteq> None then 2 + unat (passwordLen opts) else 0)"
proof -
  have user: "length (opt_field (pUsername opts) (usernameLen opts))
      = (if pUsername opts = None then 0 else 2 + unat (usernameLen opts))"
    by (rule length_opt_field) (use assms in \<open>simp add: connect_params_ok_def\<close>)
  have pass: "length (opt_field (pPassword opts) (passwordLen opts))
      = (if pPassword opts = None then 0 else 2 + unat (passwordLen opts))"
    by (rule length_opt_field) (use assms in \<open>simp add: connect_params_ok_def\<close>)
  show ?thesis
    using assms
    by (simp add: connect_body_def user pass MQTT_magic_def length_str_field connect_params_ok_def
        ptr_ok_def)
qed

lemma length_connect_body_bound:
  "connect_params_ok opts \<Longrightarrow> length (connect_body opts) < 268435456"
  using unat_u16_lt [of "clientIDLen opts"] unat_u16_lt [of "will_topicNameLen (will opts)"]
    unat_u16_lt [of "will_msgLen (will opts)"] unat_u16_lt [of "usernameLen opts"]
    unat_u16_lt [of "passwordLen opts"]
  by (simp add: length_connect_body del: unat_u16_lt)

lemma connect_length:
  assumes "connect_params_ok opts"
  shows "aws_iot_get_connect_packet_length opts = of_nat (length (connect_body opts))"
  by (simp add: length_connect_body [OF assms] aws_iot_get_connect_packet_length_def)

subsection \<open>Writing a packet\<close>

text \<open>The common tail of the serializers: a header byte, a length and a body, written to the
  start of the buffer after the size check.\<close>

lemma serialize_tail:
  assumes "length body < 268435456"
    and "unat (aws_iot_mqtt_internal_get_final_packet_length_from_remaining_length
               (of_nat (length body))) \<le> n"
    and "n \<le> length buf"
  shows "Option.bind (put_bytes (header # encode_len (length body) @ body) (buf, 0)) success
       = success (emitted buf (mqtt_packet header body))"
proof -
  have "unat (of_nat (length body) :: u32) = length body"
    using assms(1) by (simp add: unat_of_nat_lt)
  with final_packet_length_ge [of "of_nat (length body)"] assms
  have "length (header # encode_len (length body) @ body) \<le> length buf"
    by simp
  then show ?thesis
    by (simp add: put_bytes_at_0 emitted_def mqtt_packet_def)
qed

lemma write_utf8_field:
  "unat n \<le> length m \<Longrightarrow>
   aws_iot_mqtt_internal_write_utf8_string m n c = put_bytes (str_field m n) c"
  by (simp add: wire str_field_def)

lemma unat_of_nat_length: "n < 268435456 \<Longrightarrow> unat (of_nat n :: u32) = n"
  by (simp add: unat_of_nat_lt)

lemma connect_header_success:
  "aws_iot_mqtt_internal_init_header CONNECT QOS0 0 0 = success 0x10"
  by (simp add: aws_iot_mqtt_internal_init_header_def header_byte_def)

lemma serialize_connect:
  assumes ok: "connect_params_ok opts" and n: "n \<le> length buf"
  shows "aws_iot_mqtt_serialize_connect buf n opts =
    (if unat (aws_iot_mqtt_internal_get_final_packet_length_from_remaining_length
          (of_nat (length (connect_body opts)))) > n
     then fail MQTT_TX_BUFFER_TOO_SHORT_ERROR
     else success (emitted buf (mqtt_packet 0x10 (connect_body opts))))"
proof -
  define L where "L = length (connect_body opts)"
  define P where "P = mqtt_packet 0x10 (connect_body opts)"
  have bound: "L < 268435456"
    by (simp add: L_def length_connect_body_bound [OF ok])
  have len: "aws_iot_get_connect_packet_length opts = of_nat L"
    by (simp add: L_def connect_length [OF ok])
  have tail: "Option.bind (put_bytes (0x10 # encode_len L @ connect_body opts) (buf, 0)) success
      = success (emitted buf P)"
    if "unat (aws_iot_mqtt_internal_get_final_packet_length_from_remaining_length (of_nat L)) \<le> n"
    using serialize_tail [OF _ _ n, of "connect_body opts" "0x10"] bound that
    by (simp add: L_def P_def)
  have cid: "(case pClientID opts of None \<Rightarrow> aws_iot_mqtt_internal_write_uint_16 0 c
      | Some m \<Rightarrow> aws_iot_mqtt_internal_write_utf8_string m (clientIDLen opts) c)
    = put_bytes (str_field (ptr_mem (pClientID opts)) (clientIDLen opts)) c" for c
    using ok by (cases "pClientID opts")
      (auto simp: connect_params_ok_def ptr_ok_def ptr_mem_def wire str_field_def)
  have magic: "aws_iot_mqtt_internal_write_utf8_string MQTT_magic 4 c
      = put_bytes (u16_bytes 4 @ MQTT_magic) c" for c
    by (simp add: wire MQTT_magic_def)
  have will: "aws_iot_mqtt_internal_write_utf8_string
        (ptr_mem (will_pTopicName (will opts))) (will_topicNameLen (will opts)) c
      = put_bytes (str_field (ptr_mem (will_pTopicName (will opts))) (will_topicNameLen (will opts))) c"
    "aws_iot_mqtt_internal_write_utf8_string
        (ptr_mem (will_pMessage (will opts))) (will_msgLen (will opts)) c
      = put_bytes (str_field (ptr_mem (will_pMessage (will opts))) (will_msgLen (will opts))) c"
    if "isWillMsgPresent opts" for c
    using ok that by (simp_all add: connect_params_ok_def ptr_ok_def write_utf8_field)
  have user: "aws_iot_mqtt_internal_write_utf8_string m (usernameLen opts) c
      = put_bytes (str_field m (usernameLen opts)) c" if "pUsername opts = Some m" for m c
    using ok that by (simp add: connect_params_ok_def ptr_ok_def ptr_mem_def write_utf8_field)
  have pass: "aws_iot_mqtt_internal_write_utf8_string m (passwordLen opts) c
      = put_bytes (str_field m (passwordLen opts)) c" if "pPassword opts = Some m" for m c
    using ok that by (simp add: connect_params_ok_def ptr_ok_def ptr_mem_def write_utf8_field)
  have guards: "\<not> ((pClientID opts = None \<and> clientIDLen opts \<noteq> 0) \<or>
      (pClientID opts \<noteq> None \<and> clientIDLen opts = 0))" "MQTTVersion opts = MQTT_3_1_1"
    using ok by (auto simp: connect_params_ok_def)
  show ?thesis
    unfolding L_def [symmetric] P_def [symmetric]
    using tail guards
    by (cases "isWillMsgPresent opts"; cases "pUsername opts"; cases "pPassword opts")
      (simp_all add: aws_iot_mqtt_serialize_connect_def len
        connect_header_success write_char_wire write_len_wire write_uint_16_wire
        unat_of_nat_length [OF bound] cid magic will user pass connect_body_def opt_field_def)
qed

text \<open>The header byte that \<open>init_header\<close> builds from its arguments.\<close>

definition init_byte :: "MessageTypes \<Rightarrow> QoS \<Rightarrow> byte \<Rightarrow> byte \<Rightarrow> byte" where
  "init_byte m q dup ret = header_byte (type_code m) (if dup = 1 then 1 else 0)
     (if q = QOS1 then 1 else 0) (if ret = 1 then 1 else 0)"

lemma init_header_byte:
  "m \<noteq> UNKNOWN \<Longrightarrow> aws_iot_mqtt_internal_init_header m q dup ret = success (init_byte m q dup ret)"
  by (simp add: aws_iot_mqtt_internal_init_header_def init_byte_def)

lemma type_code_nibble: "m \<noteq> UNKNOWN \<Longrightarrow> type_code m AND 15 = type_code m"
  by (cases m) simp_all

lemma init_byte_fields [simp]:
  "m \<noteq> UNKNOWN \<Longrightarrow> header_type (init_byte m q dup ret) = type_code m"
  "header_dup (init_byte m q dup ret) = (if dup = 1 then 1 else 0)"
  "header_qos (init_byte m q dup ret) = (if q = QOS1 then 1 else 0)"
  "header_retain (init_byte m q dup ret) = (if ret = 1 then 1 else 0)"
  by (simp_all add: init_byte_def header_byte_fields type_code_nibble)

text \<open>Every serializer with a computed remaining length ends the same way.\<close>

lemma serialize_sized:
  assumes "length body < 268435456" "n \<le> length buf"
  shows "(if unat (aws_iot_mqtt_internal_get_final_packet_length_from_remaining_length
              (of_nat (length body))) > n
          then fail MQTT_TX_BUFFER_TOO_SHORT_ERROR
          else Option.bind (put_bytes (header # encode_len (length body) @ body) (buf, 0)) success)
     = (if unat (aws_iot_mqtt_internal_get_final_packet_length_from_remaining_length
              (of_nat (length body))) > n
          then fail MQTT_TX_BUFFER_TOO_SHORT_ERROR
          else success (emitted buf (mqtt_packet header body)))"
  using serialize_tail [OF assms(1) _ assms(2)] by simp

lemma serialize_publish:
  assumes "unat topicLen \<le> length topic" "unat plen \<le> length pl"
    and small: "unat topicLen + unat plen + 4 < 268435456" and n: "n \<le> length buf"
    and body: "body = publish_body topic topicLen q pid (take (unat plen) pl)"
  shows "aws_iot_mqtt_internal_serialize_publish buf n dup q ret pid topic topicLen (Some pl) plen
    = (if unat (aws_iot_mqtt_internal_get_final_packet_length_from_remaining_length
          (of_nat (length body))) > n
       then fail MQTT_TX_BUFFER_TOO_SHORT_ERROR
       else success (emitted buf (mqtt_packet (init_byte PUBLISH q dup ret) body)))"
proof -
  have len: "length body = unat topicLen + unat plen + (if q > 0 then 4 else 2)"
    using assms by (simp add: publish_body_def length_str_field)
  then have bound: "length body < 268435456"
    using small by simp
  have rem: "(if q > 0 then ucast topicLen + plen + 2 + 2 else ucast topicLen + plen + 2 :: u32)
      = of_nat (length body)"
    by (simp add: len)
  define L where "L = length body"
  have tail: "Option.bind (put_bytes (h # encode_len L @ body) (buf, 0)) success
      = success (emitted buf (mqtt_packet h body))"
    if "unat (aws_iot_mqtt_internal_get_final_packet_length_from_remaining_length (of_nat L)) \<le> n"
    for h
    using serialize_tail [OF bound _ n] that by (simp add: L_def)
  show ?thesis
    using tail assms(1,2) rem unat_of_nat_length [OF bound]
    unfolding L_def [symmetric]
    by (cases "q > 0")
      (simp_all add: aws_iot_mqtt_internal_serialize_publish_def Let_def init_header_byte
        write_char_wire write_len_wire write_uint_16_wire write_utf8_field mem_take_def
        body publish_body_def)
qed

lemma encode_len_small: "n < 128 \<Longrightarrow> encode_len n = [of_nat n]"
  by (simp add: encode_len.simps)

lemma put_packet:
  "length bs \<le> length buf \<Longrightarrow> Option.bind (put_bytes bs (buf, 0)) success
   = success (bs @ drop (length bs) buf, length bs)"
  by (simp add: put_bytes_at_0)

lemma serialize_ack:
  assumes "m \<noteq> UNKNOWN" "n \<le> length buf" "4 \<le> n"
  shows "aws_iot_mqtt_internal_serialize_ack buf n m dup pid
    = success (emitted buf (mqtt_packet (init_byte m (if m = PUBREL then QOS1 else QOS0) dup 0)
        (u16_bytes pid)))"
proof -
  let ?h = "init_byte m (if m = PUBREL then QOS1 else QOS0) dup 0"
  have "aws_iot_mqtt_internal_serialize_ack buf n m dup pid
      = Option.bind (put_bytes (?h # [2] @ u16_bytes pid) (buf, 0)) success"
    using assms
    by (simp only: aws_iot_mqtt_internal_serialize_ack_def init_header_byte [OF assms(1)] Let_def
        bindE_simps write_char_wire write_len_wire write_uint_16_wire put_bytes_bind)
      (simp add: encode_len_small)
  also have "\<dots> = success ((?h # [2] @ u16_bytes pid) @ drop 4 buf, 4)"
    using put_packet [of "?h # [2] @ u16_bytes pid" buf] assms by simp
  finally show ?thesis
    by (simp add: emitted_def mqtt_packet_def encode_len_small)
qed

lemma serialize_zero:
  assumes "m \<noteq> UNKNOWN" "n \<le> length buf" "4 \<le> n"
  shows "aws_iot_mqtt_internal_serialize_zero buf n m
    = success (emitted buf (mqtt_packet (init_byte m QOS0 0 0) []))"
proof -
  let ?h = "init_byte m QOS0 0 0"
  have "aws_iot_mqtt_internal_serialize_zero buf n m
      = Option.bind (put_bytes [?h, 0] (buf, 0)) success"
    using assms
    by (simp only: aws_iot_mqtt_internal_serialize_zero_def init_header_byte [OF assms(1)]
        bindE_simps write_char_wire write_len_wire put_bytes_bind)
      (simp add: encode_len_small)
  also have "\<dots> = success ([?h, 0] @ drop 2 buf, 2)"
    using put_packet [of "[?h, 0]" buf] assms by (simp add: numeral_2_eq_2)
  finally show ?thesis
    by (simp add: emitted_def mqtt_packet_def encode_len_small numeral_2_eq_2)
qed

lemma write_topics_wire:
  "\<forall>(t, l, q) \<in> set ts. unat l \<le> length t \<Longrightarrow> snd c \<le> length (fst c) \<Longrightarrow>
   write_topics ts c = put_bytes (concat (map (\<lambda>(t, l, q). str_field t l @ [q]) ts)) c"
proof (induction ts arbitrary: c)
  case Nil
  then show ?case by simp
next
  case (Cons x ts)
  obtain t l q where x: "x = (t, l, q)" by (cases x) auto
  have step: "write_topics ts d = put_bytes (concat (map (\<lambda>(t, l, q). str_field t l @ [q]) ts)) d"
    if "put_bytes (str_field t l @ [q]) c = Some d" for d
    using that Cons by (cases c) (auto simp: put_bytes_def split: if_splits)
  have "write_topics (x # ts) c
      = Option.bind (put_bytes (str_field t l @ [q]) c) (write_topics ts)"
    using Cons.prems by (simp add: x write_utf8_field write_char_wire)
  also have "\<dots> = Option.bind (put_bytes (str_field t l @ [q]) c)
      (put_bytes (concat (map (\<lambda>(t, l, q). str_field t l @ [q]) ts)))"
    using step by (intro Option.bind_cong) auto
  finally show ?case
    by (simp add: x put_bytes_append)
qed

lemma write_filters_wire:
  "\<forall>(t, l) \<in> set ts. unat l \<le> length t \<Longrightarrow> snd c \<le> length (fst c) \<Longrightarrow>
   write_filters ts c = put_bytes (concat (map (\<lambda>(t, l). str_field t l) ts)) c"
proof (induction ts arbitrary: c)
  case Nil
  then show ?case by simp
next
  case (Cons x ts)
  obtain t l where x: "x = (t, l)" by (cases x) auto
  have step: "write_filters ts d = put_bytes (concat (map (\<lambda>(t, l). str_field t l) ts)) d"
    if "put_bytes (str_field t l) c = Some d" for d
    using that Cons by (cases c) (auto simp: put_bytes_def split: if_splits)
  have "write_filters (x # ts) c = Option.bind (put_bytes (str_field t l) c) (write_filters ts)"
    using Cons.prems by (simp add: x write_utf8_field)
  also have "\<dots> = Option.bind (put_bytes (str_field t l) c)
      (put_bytes (concat (map (\<lambda>(t, l). str_field t l) ts)))"
    using step by (intro Option.bind_cong) auto
  finally show ?case
    by (simp add: x put_bytes_append)
qed

lemma subscribe_rem_len_acc:
  "\<forall>(t, l, q) \<in> set ts. unat l \<le> length t \<Longrightarrow>
   subscribe_rem_len ts a = a + of_nat (length (concat (map (\<lambda>(t, l, q). str_field t l @ [q]) ts)))"
  by (induction ts arbitrary: a) (auto simp: length_str_field algebra_simps)

lemma unsubscribe_rem_len_acc:
  "\<forall>(t, l) \<in> set ts. unat l \<le> length t \<Longrightarrow>
   unsubscribe_rem_len ts a = a + of_nat (length (concat (map (\<lambda>(t, l). str_field t l) ts)))"
  by (induction ts arbitrary: a) (auto simp: length_str_field algebra_simps)

lemma put_bytes_inside: "put_bytes bs c0 = Some c \<Longrightarrow> snd c \<le> length (fst c)"
  by (cases c0) (auto simp: put_bytes_def split: if_splits)

lemma put_bytes_then_writer:
  assumes w: "\<And>c. snd c \<le> length (fst c) \<Longrightarrow> w c = put_bytes bs c"
  shows "Option.bind (put_bytes as c0) (\<lambda>c. Option.bind (w c) k)
       = Option.bind (put_bytes (as @ bs) c0) k"
proof -
  have "Option.bind (put_bytes as c0) (\<lambda>c. Option.bind (w c) k)
      = Option.bind (put_bytes as c0) (\<lambda>c. Option.bind (put_bytes bs c) k)"
    using w put_bytes_inside by (intro Option.bind_cong) auto
  then show ?thesis by simp
qed

lemma serialize_subscribe:
  assumes mem: "\<forall>(t, l, q) \<in> set ts. unat l \<le> length t"
    and bound: "length (subscribe_body pid ts) < 268435456" and n: "n \<le> length buf"
  shows "aws_iot_mqtt_serialize_subscribe buf n dup pid ts
    = (if unat (aws_iot_mqtt_internal_get_final_packet_length_from_remaining_length
          (of_nat (length (subscribe_body pid ts)))) > n
       then fail MQTT_TX_BUFFER_TOO_SHORT_ERROR
       else success (emitted buf (mqtt_packet (init_byte SUBSCRIBE QOS1 dup 0) (subscribe_body pid ts))))"
proof -
  let ?h = "init_byte SUBSCRIBE QOS1 dup 0" and ?L = "length (subscribe_body pid ts)"
  have rem: "subscribe_rem_len ts 2 = of_nat ?L"
    by (simp add: subscribe_rem_len_acc [OF mem] subscribe_body_def)
  have writes: "Option.bind (put_bytes (?h # encode_len ?L @ u16_bytes pid) (buf, 0))
        (\<lambda>c. Option.bind (write_topics ts c) success)
      = Option.bind (put_bytes (?h # encode_len ?L @ subscribe_body pid ts) (buf, 0)) success"
    using put_bytes_then_writer [OF write_topics_wire [OF mem], of "?h # encode_len ?L @ u16_bytes pid"]
    by (simp add: subscribe_body_def)
  have "aws_iot_mqtt_serialize_subscribe buf n dup pid ts
    = (if unat (aws_iot_mqtt_internal_get_final_packet_length_from_remaining_length (of_nat ?L)) > n
       then fail MQTT_TX_BUFFER_TOO_SHORT_ERROR
       else Option.bind (put_bytes (?h # encode_len ?L @ u16_bytes pid) (buf, 0))
              (\<lambda>c. Option.bind (write_topics ts c) success))"
    by (simp add: aws_iot_mqtt_serialize_subscribe_def rem init_header_byte write_char_wire
        write_len_wire write_uint_16_wire unat_of_nat_length [OF bound])
  then show ?thesis
    by (simp only: writes serialize_sized [OF bound n])
qed

lemma serialize_unsubscribe:
  assumes mem: "\<forall>(t, l) \<in> set ts. unat l \<le> length t"
    and bound: "length (unsubscribe_body pid ts) < 268435456" and n: "n \<le> length buf"
  shows "aws_iot_mqtt_serialize_unsubscribe buf n dup pid ts
    = (if unat (aws_iot_mqtt_internal_get_final_packet_length_from_remaining_length
          (of_nat (length (unsubscribe_body pid ts)))) > n
       then fail MQTT_TX_BUFFER_TOO_SHORT_ERROR
       else success (emitted buf (mqtt_packet (init_byte UNSUBSCRIBE QOS1 dup 0)
              (unsubscribe_body pid ts))))"
proof -
  let ?h = "init_byte UNSUBSCRIBE QOS1 dup 0" and ?L = "length (unsubscribe_body pid ts)"
  have rem: "unsubscribe_rem_len ts 2 = of_nat ?L"
    by (simp add: unsubscribe_rem_len_acc [OF mem] unsubscribe_body_def)
  have writes: "Option.bind (put_bytes (?h # encode_len ?L @ u16_bytes pid) (buf, 0))
        (\<lambda>c. Option.bind (write_filters ts c) success)
      = Option.bind (put_bytes (?h # encode_len ?L @ unsubscribe_body pid ts) (buf, 0)) success"
    using put_bytes_then_writer [OF write_filters_wire [OF mem], of "?h # encode_len ?L @ u16_bytes pid"]
    by (simp add: unsubscribe_body_def)
  have "aws_iot_mqtt_serialize_unsubscribe buf n dup pid ts
    = (if unat (aws_iot_mqtt_internal_get_final_packet_length_from_remaining_length (of_nat ?L)) > n
       then fail MQTT_TX_BUFFER_TOO_SHORT_ERROR
       else Option.bind (put_bytes (?h # encode_len ?L @ u16_bytes pid) (buf, 0))
              (\<lambda>c. Option.bind (write_filters ts c) success))"
    by (simp add: aws_iot_mqtt_serialize_unsubscribe_def rem init_header_byte write_char_wire
        write_len_wire write_uint_16_wire unat_of_nat_length [OF bound])
  then show ?thesis
    by (simp only: writes serialize_sized [OF bound n])
qed

section \<open>What the deserializers make of packets\<close>

text \<open>The offset of the body in a packet.\<close>

definition body_offset :: "byte list \<Rightarrow> nat" where
  "body_offset body = 1 + length (encode_len (length body))"

text \<open>Every deserializer starts by reading the header byte and the remaining length.\<close>

lemma packet_header:
  assumes "length body < 268435456"
  shows "aws_iot_mqtt_internal_read_char (mqtt_packet h body @ rest, 0)
      = Some (h, (mqtt_packet h body @ rest, 1))"
    and "aws_iot_mqtt_internal_decode_remaining_length_from_buffer (mqtt_packet h body @ rest, 1)
      = success (of_nat (length body), length (encode_len (length body)))"
  using read_char_at [of "[]" h "encode_len (length body) @ body @ rest"]
    decode_remaining_length_at [OF assms, of "[h]" "body @ rest"]
  by (simp_all add: mqtt_packet_def)

lemma packet_body:
  "mqtt_packet h body @ rest = (h # encode_len (length body)) @ body @ rest"
  "length (h # encode_len (length body)) = body_offset body"
  by (simp_all add: mqtt_packet_def body_offset_def)

lemma read_uint16_packet:
  assumes "body = front @ u16_bytes n @ post"
  shows "aws_iot_mqtt_internal_read_uint16_t
           (mqtt_packet h body @ rest, body_offset body + length front)
       = Some (n, (mqtt_packet h body @ rest, body_offset body + length front + 2))"
  using read_uint16_at [of "(h # encode_len (length body)) @ front" n "post @ rest"] assms
  by (simp add: mqtt_packet_def body_offset_def)

lemma read_char_packet:
  assumes "body = front @ b # post"
  shows "aws_iot_mqtt_internal_read_char
           (mqtt_packet h body @ rest, body_offset body + length front)
       = Some (b, (mqtt_packet h body @ rest, body_offset body + length front + 1))"
  using read_char_at [of "(h # encode_len (length body)) @ front" b "post @ rest"] assms
  by (simp add: mqtt_packet_def body_offset_def)

lemma deserialize_ack_packet:
  assumes body: "body = u16_bytes pid @ post" and bound: "length body < 268435456" and n: "4 \<le> n"
  shows "aws_iot_mqtt_internal_deserialize_ack (mqtt_packet h body @ rest) n
    = success (header_type h, header_dup h, pid)"
proof -
  define W where "W = (of_nat (length body) :: u32)"
  have "unat W = length body"
    by (simp add: W_def unat_of_nat_length [OF bound])
  then have W: "int 2 \<le> int (unat W)"
    using body by (simp only: of_nat_le_iff) simp
  have "aws_iot_mqtt_internal_read_uint16_t (mqtt_packet h body @ rest, body_offset body)
      = Some (pid, (mqtt_packet h body @ rest, body_offset body + 2))"
    using read_uint16_packet [of body "[]" pid post h rest] body by simp
  with n W packet_header [OF bound, of h rest, folded W_def] show ?thesis
    by (simp add: aws_iot_mqtt_internal_deserialize_ack_def body_offset_def)
qed

lemma deserialize_connack_packet:
  assumes "4 \<le> n" "header_type h = type_code CONNACK"
  shows "aws_iot_mqtt_deserialize_connack (mqtt_packet h [flags, rc] @ rest) n
    = success (drop_bit 7 flags, connack_return_code rc)"
  using assms packet_header [of "[flags, rc]" h rest]
    read_char_packet [of "[flags, rc]" "[]" flags "[rc]" h rest]
    read_char_packet [of "[flags, rc]" "[flags]" rc "[]" h rest]
  by (simp add: aws_iot_mqtt_deserialize_connack_def body_offset_def)

lemma deserialize_publish_packet:
  assumes body: "body = u16_bytes tn @ topic @ (if header_qos h \<noteq> QOS0 then u16_bytes pid else []) @ pl"
    and tn: "unat tn = length topic" and bound: "length body < 268435456" and n: "4 \<le> n"
    and h: "header_type h = type_code PUBLISH"
  shows "aws_iot_mqtt_internal_deserialize_publish (mqtt_packet h body @ rest) n
    = success \<lparr>rx_dup = header_dup h, rx_qos = header_qos h, rx_retained = header_retain h,
        rx_id = (if header_qos h \<noteq> QOS0 then Some pid else None),
        rx_topicName = body_offset body + 2, rx_topicNameLen = tn,
        rx_payload = body_offset body + 2 + length topic + (if header_qos h \<noteq> QOS0 then 2 else 0),
        rx_payloadLen = of_nat (length pl)\<rparr>"
proof -
  define buf where "buf = mqtt_packet h body @ rest"
  define L where "L = length body"
  define k where "k = length (encode_len (length body))"
  have L: "L = 2 + length topic + (if header_qos h \<noteq> QOS0 then 2 else 0) + length pl"
    by (simp add: L_def body)
  have off: "body_offset body = k + 1"
    by (simp add: body_offset_def k_def)
  have unatL: "unat (of_nat L :: u32) = L"
    using unat_of_nat_length [OF bound] by (simp add: L_def)
  have head: "aws_iot_mqtt_internal_read_char (buf, 0) = Some (h, (buf, 1))"
      "aws_iot_mqtt_internal_decode_remaining_length_from_buffer (buf, 1) = success (of_nat L, k)"
    using packet_header [OF bound, of h rest] by (simp_all add: buf_def L_def k_def)
  have "aws_iot_mqtt_internal_read_uint16_t (buf, k + 1) = Some (tn, (buf, k + 3))"
    using read_uint16_packet [of body "[]" tn _ h rest] body off by (simp add: buf_def)
  then have str: "aws_iot_mqtt_read_string_with_len (buf, k + 1) (k + 1 + L)
      = success (k + 3, tn, (buf, k + 3 + length topic))"
    using L tn by (simp add: aws_iot_mqtt_read_string_with_len_def)
  have pid: "aws_iot_mqtt_internal_read_uint16_t (buf, k + 3 + length topic)
      = Some (pid, (buf, k + 5 + length topic))" if "header_qos h \<noteq> QOS0"
    using read_uint16_packet [of body "u16_bytes tn @ topic" pid pl h rest] body off that
    by (simp add: buf_def eval_nat_numeral)
  define W where "W = (of_nat L :: u32)"
  have W: "unat W = L"
    by (simp add: W_def unatL)
  have paylen: "word_of_int (int L - (2 + int (length topic) + (if header_qos h \<noteq> QOS0 then 2 else 0)))
      = (of_nat (length pl) :: u32)"
    by (simp add: L)
  have le: "2 + length topic + (if header_qos h \<noteq> QOS0 then 2 else 0) \<le> L"
    by (simp add: L)
  show ?thesis
    unfolding buf_def [symmetric] off
    using n h head [folded W_def] W str pid paylen le
    by (cases "header_qos h = QOS0")
      (simp_all add: aws_iot_mqtt_internal_deserialize_publish_def algebra_simps)
qed

text \<open>The granted qualities of service of a SUBACK: the array receives them one by one; one more
  than expected is still accepted (\<open>count > maxExpected\<close>), the next one is an error.\<close>

lemma read_granted_bytes:
  "length fs + length qs \<le> length gs \<Longrightarrow> length fs + length qs \<le> m + 1 \<Longrightarrow>
   take (length fs) gs = fs \<Longrightarrow>
   read_granted (pre @ qs @ rest) (length pre) (length pre + length qs) m (length fs) gs
   = success (length fs + length qs, fs @ qs @ drop (length fs + length qs) gs)"
proof (induction qs arbitrary: pre fs gs)
  case Nil
  then show ?case
    by (subst read_granted.simps) (metis add_0_right append_Nil append_take_drop_id list.size(3) less_irrefl)
next
  case (Cons q qs)
  let ?n = "length fs"
  have n: "?n < length gs" "\<not> ?n > m"
    using Cons.prems by auto
  have "read_granted (pre @ q # qs @ rest) (length pre) (length pre + Suc (length qs)) m ?n gs
      = read_granted (pre @ q # qs @ rest) (length pre + 1) (length pre + Suc (length qs)) m (?n + 1)
          (gs[?n := q])"
    by (subst read_granted.simps) (simp add: n read_char_at)
  also have "\<dots> = success (?n + 1 + length qs, (fs @ [q]) @ qs @ drop (?n + 1 + length qs) (gs[?n := q]))"
    using Cons.IH [of "fs @ [q]" "gs[?n := q]" "pre @ [q]"] Cons.prems n
    by (simp add: take_Suc_conv_app_nth)
  finally show ?case
    by (simp add: ac_simps)
qed

lemma read_granted_too_many:
  "count \<le> m + 1 \<Longrightarrow> m + 1 < count + (endData - curData) \<Longrightarrow> endData \<le> length buf \<Longrightarrow>
   m + 1 \<le> length gs \<Longrightarrow>
   read_granted buf curData endData m count gs = fail AWS_FAILURE"
proof (induction buf curData endData m count gs rule: read_granted.induct)
  case (1 buf curData endData m count gs)
  show ?case
  proof (cases "count > m")
    case True
    with 1 show ?thesis by (subst read_granted.simps) auto
  next
    case False
    have r: "aws_iot_mqtt_internal_read_char (buf, curData) = Some (buf ! curData, (buf, curData + 1))"
      using 1 by (simp add: aws_iot_mqtt_internal_read_char_def rd_def)
    show ?thesis
      using 1 False r by (subst read_granted.simps) auto
  qed
qed

lemma deserialize_suback_packet:
  assumes qs: "length qs \<le> m + 1" "length qs \<le> length gs" and bound: "length qs + 2 < 268435456"
    and n: "5 \<le> n" and h: "header_type h = type_code SUBACK"
  shows "aws_iot_mqtt_deserialize_suback m gs (mqtt_packet h (u16_bytes pid @ qs) @ rest) n
    = success (pid, length qs, qs @ drop (length qs) gs)"
proof -
  let ?body = "u16_bytes pid @ qs" and ?buf = "mqtt_packet h (u16_bytes pid @ qs) @ rest"
  define W where "W = (of_nat (length ?body) :: u32)"
  have b: "length ?body < 268435456"
    using bound by simp
  have unatW: "unat W = length qs + 2"
    using unat_of_nat_length [OF b] by (simp add: W_def)
  have "int (unat W) = int (length qs + 2)"
    by (simp only: unatW)
  then have W: "\<not> uint W < 2"
    by simp
  have id: "aws_iot_mqtt_internal_read_uint16_t (?buf, body_offset ?body)
      = Some (pid, (?buf, body_offset ?body + 2))"
    using read_uint16_packet [of ?body "[]" pid qs h rest] by simp
  have split: "?buf = ((h # encode_len (length ?body)) @ u16_bytes pid) @ qs @ rest"
    by (simp add: mqtt_packet_def)
  have granted: "read_granted ?buf (body_offset ?body + 2) (body_offset ?body + 2 + length qs) m 0 gs
      = success (length qs, qs @ drop (length qs) gs)"
    using read_granted_bytes [of "[]" qs gs m "(h # encode_len (length ?body)) @ u16_bytes pid" rest]
      qs by (simp only: split) (simp add: body_offset_def)
  show ?thesis
    using n h W id granted packet_header [OF b, of h rest, folded W_def]
    by (simp add: aws_iot_mqtt_deserialize_suback_def body_offset_def unatW Let_def)
qed

text \<open>A PUBLISH with a nonzero quality of service whose body ends with the topic: the packet
  identifier is read from the two bytes behind the packet, and the payload length wraps.\<close>

lemma deserialize_publish_without_id:
  assumes body: "body = u16_bytes tn @ topic" and tn: "unat tn = length topic"
    and n: "4 \<le> n" and h: "header_type h = type_code PUBLISH" "header_qos h \<noteq> QOS0"
    and rest: "rest = u16_bytes pid @ rest'"
  shows "aws_iot_mqtt_internal_deserialize_publish (mqtt_packet h body @ rest) n
    = success \<lparr>rx_dup = header_dup h, rx_qos = header_qos h, rx_retained = header_retain h,
        rx_id = Some pid, rx_topicName = body_offset body + 2, rx_topicNameLen = tn,
        rx_payload = length (mqtt_packet h body) + 2, rx_payloadLen = - 2\<rparr>"
proof -
  define buf where "buf = mqtt_packet h body @ rest"
  define k where "k = length (encode_len (length body))"
  have L: "length body = 2 + length topic" and bound: "length body < 268435456"
    using tn unat_u16_lt [of tn] by (simp_all add: body)
  have off: "body_offset body = k + 1"
    by (simp add: body_offset_def k_def)
  define W where "W = (of_nat (length body) :: u32)"
  have W: "unat W = 2 + length topic"
    using unat_of_nat_length [OF bound] by (simp add: W_def L)
  have head: "aws_iot_mqtt_internal_read_char (buf, 0) = Some (h, (buf, 1))"
      "aws_iot_mqtt_internal_decode_remaining_length_from_buffer (buf, 1) = success (W, k)"
    using packet_header [OF bound, of h rest] by (simp_all add: buf_def W_def k_def)
  have "aws_iot_mqtt_internal_read_uint16_t (buf, k + 1) = Some (tn, (buf, k + 3))"
    using read_uint16_packet [of body "[]" tn _ h rest] body off by (simp add: buf_def)
  then have str: "aws_iot_mqtt_read_string_with_len (buf, k + 1) (k + 1 + unat W)
      = success (k + 3, tn, (buf, k + 3 + length topic))"
    using W tn by (simp add: aws_iot_mqtt_read_string_with_len_def)
  have pid: "aws_iot_mqtt_internal_read_uint16_t (buf, k + 3 + length topic)
      = Some (pid, (buf, k + 5 + length topic))"
    using read_uint16_at [of "mqtt_packet h body" pid rest'] off L
    by (simp add: buf_def mqtt_packet_def k_def rest eval_nat_numeral)
  have len: "length (mqtt_packet h body) = k + 3 + length topic"
    by (simp add: mqtt_packet_def k_def L)
  show ?thesis
    unfolding buf_def [symmetric] off len
    using n h head W str pid
    by (simp add: aws_iot_mqtt_internal_deserialize_publish_def algebra_simps)
qed

section \<open>Properties\<close>

text \<open>C1. A PUBLISH that the client serializes is decoded by its own deserializer to the same
  message: flags, quality of service, packet identifier, topic and payload, at the positions
  of the buffer that hold exactly the topic's and the payload's bytes.\<close>

theorem publish_roundtrip:
  assumes mem: "unat topicLen \<le> length topic" "unat plen \<le> length pl"
    and small: "unat topicLen + unat plen + 4 < 268435456"
    and n: "n \<le> length buf" and q: "q = QOS0 \<or> q = QOS1"
    and ser: "aws_iot_mqtt_internal_serialize_publish buf n dup q ret pid topic topicLen
        (Some pl) plen = success (buf', len)"
  shows "\<exists>tp pp. aws_iot_mqtt_internal_deserialize_publish buf' n
      = success \<lparr>rx_dup = (if dup = 1 then 1 else 0), rx_qos = q,
          rx_retained = (if ret = 1 then 1 else 0),
          rx_id = (if q = QOS0 then None else Some pid),
          rx_topicName = tp, rx_topicNameLen = topicLen, rx_payload = pp, rx_payloadLen = plen\<rparr>
    \<and> take (unat topicLen) (drop tp buf') = take (unat topicLen) topic
    \<and> take (unat plen) (drop pp buf') = take (unat plen) pl
    \<and> pp + unat plen = len \<and> len \<le> n"
proof -
  define h where "h = init_byte PUBLISH q dup ret"
  define body where "body = publish_body topic topicLen q pid (take (unat plen) pl)"
  have h: "header_type h = type_code PUBLISH" "header_dup h = (if dup = 1 then 1 else 0)"
    "header_qos h = q" "header_retain h = (if ret = 1 then 1 else 0)"
    using q by (auto simp: h_def init_byte_def header_byte_fields)
  have len: "length body = unat topicLen + unat plen + (if q > 0 then 4 else 2)"
    using mem by (simp add: body_def publish_body_def length_str_field)
  then have bound: "length body < 268435456"
    using small by simp
  have out: "buf' = mqtt_packet h body @ drop (length (mqtt_packet h body)) buf"
    "len = length (mqtt_packet h body)"
    and fits: "unat (aws_iot_mqtt_internal_get_final_packet_length_from_remaining_length
      (of_nat (length body))) \<le> n"
    using ser serialize_publish [OF mem small n body_def, of dup ret]
    by (auto simp: emitted_def h_def split: if_splits)
  have "1 + length (encode_len (length body)) + length body \<le> n"
    using final_packet_length_ge [of "of_nat (length body)"] fits bound unat_of_nat_length [OF bound]
    by simp
  moreover have "2 \<le> length body"
    unfolding len by simp
  moreover have "0 < length (encode_len (length body))"
    by (rule length_encode_len_pos)
  ultimately have n': "length (mqtt_packet h body) \<le> n" "4 \<le> n"
    by (simp_all add: mqtt_packet_def del: length_greater_0_conv length_encode_len_pos)
  let ?t = "take (unat topicLen) topic" and ?p = "take (unat plen) pl"
  let ?f = "if q \<noteq> QOS0 then u16_bytes pid else []"
  have split: "body = u16_bytes topicLen @ ?t @ ?f @ ?p"
    by (simp add: body_def publish_body_def str_field_def word_gt_0)
  define tp where "tp = body_offset body + 2"
  define pp where "pp = tp + unat topicLen + (if q \<noteq> QOS0 then 2 else 0)"
  have buf': "buf' = ((h # encode_len (length body)) @ u16_bytes topicLen) @ ?t @ ?f @ ?p
      @ drop (length (mqtt_packet h body)) buf"
    using out split by (simp add: mqtt_packet_def)
  have pos: "length ((h # encode_len (length body)) @ u16_bytes topicLen) = tp"
    "length ?t = unat topicLen" "length ?p = unat plen"
    using mem by (simp_all add: tp_def body_offset_def)
  have topic: "take (unat topicLen) (drop tp buf') = ?t"
    unfolding buf' by (rule take_drop_at) (rule pos)+
  have buf'': "buf' = (((h # encode_len (length body)) @ u16_bytes topicLen) @ ?t @ ?f) @ ?p
      @ drop (length (mqtt_packet h body)) buf"
    unfolding buf' by simp
  have payload: "take (unat plen) (drop pp buf') = ?p"
    unfolding buf'' by (rule take_drop_at) (use pos in \<open>simp_all add: pp_def\<close>)
  have end_pp: "pp + unat plen = len"
    using out len by (simp add: pp_def tp_def mqtt_packet_def body_offset_def word_gt_0)
  have "aws_iot_mqtt_internal_deserialize_publish buf' n
      = success \<lparr>rx_dup = (if dup = 1 then 1 else 0), rx_qos = q,
          rx_retained = (if ret = 1 then 1 else 0), rx_id = (if q = QOS0 then None else Some pid),
          rx_topicName = tp, rx_topicNameLen = topicLen, rx_payload = pp, rx_payloadLen = plen\<rparr>"
    unfolding out(1)
    using deserialize_publish_packet [of body topicLen ?t h pid ?p n "drop (length (mqtt_packet h body)) buf"]
      split bound n' h pos mem by (simp add: tp_def pp_def)
  moreover have "len \<le> n"
    using out n' by simp
  ultimately show ?thesis
    using topic payload end_pp by blast
qed

theorem publish_roundtrip_witness:
  "\<exists>tp pp. aws_iot_mqtt_internal_deserialize_publish
        [0x32, 9, 0, 3, 97, 47, 98, 0, 7, 104, 105, 0] 12
      = success \<lparr>rx_dup = (if (0::byte) = 1 then 1 else 0), rx_qos = 1,
          rx_retained = (if (0::byte) = 1 then 1 else 0),
          rx_id = (if (1::byte) = QOS0 then None else Some 7),
          rx_topicName = tp, rx_topicNameLen = 3, rx_payload = pp, rx_payloadLen = 2\<rparr>
    \<and> take (unat (3::u16)) (drop tp [0x32, 9, 0, 3, 97, 47, 98, 0, 7, 104, 105, 0 :: byte])
        = take (unat (3::u16)) [97, 47, 98]
    \<and> take (unat (2::u32)) (drop pp [0x32, 9, 0, 3, 97, 47, 98, 0, 7, 104, 105, 0 :: byte])
        = take (unat (2::u32)) [104, 105]
    \<and> pp + unat (2::u32) = 11 \<and> (11::nat) \<le> 12"
proof (rule publish_roundtrip)
  show "aws_iot_mqtt_internal_serialize_publish (replicate 12 0) 12 0 1 0 7 [97, 47, 98] 3
      (Some [104, 105]) 2 = success ([0x32, 9, 0, 3, 97, 47, 98, 0, 7, 104, 105, 0], 11)"
    by code_simp
qed simp_all



text \<open>SUBSCRIBE and UNSUBSCRIBE packets: the serializers write the packet identifier and then
  every topic with its length (and requested quality of service), with the reserved header
  bits 0010, or report that the buffer is too short.\<close>

theorem subscription_packets:
  assumes sub: "\<forall>(t, l, q) \<in> set ts. unat l \<le> length t" "length (subscribe_body pid ts) < 268435456"
    and unsub: "\<forall>(t, l) \<in> set us. unat l \<le> length t" "length (unsubscribe_body pid us) < 268435456"
    and n: "n \<le> length buf"
  shows "aws_iot_mqtt_serialize_subscribe buf n 0 pid ts
      = (if unat (aws_iot_mqtt_internal_get_final_packet_length_from_remaining_length
            (of_nat (length (subscribe_body pid ts)))) > n
         then fail MQTT_TX_BUFFER_TOO_SHORT_ERROR
         else success (emitted buf (mqtt_packet 0x82 (subscribe_body pid ts))))
    \<and> aws_iot_mqtt_serialize_unsubscribe buf n 0 pid us
      = (if unat (aws_iot_mqtt_internal_get_final_packet_length_from_remaining_length
            (of_nat (length (unsubscribe_body pid us)))) > n
         then fail MQTT_TX_BUFFER_TOO_SHORT_ERROR
         else success (emitted buf (mqtt_packet 0xA2 (unsubscribe_body pid us))))"
proof -
  have "init_byte SUBSCRIBE QOS1 0 0 = 0x82" "init_byte UNSUBSCRIBE QOS1 0 0 = 0xA2"
    by (simp_all add: init_byte_def header_byte_def)
  then show ?thesis
    using serialize_subscribe [OF sub n, of 0] serialize_unsubscribe [OF unsub n, of 0] by simp
qed

theorem subscription_packets_witness:
  "aws_iot_mqtt_serialize_subscribe (replicate 10 0) 10 0 5 [([97, 47, 98], 3, 1)]
      = (if unat (aws_iot_mqtt_internal_get_final_packet_length_from_remaining_length
            (of_nat (length (subscribe_body 5 [([97, 47, 98], 3, 1)])))) > 10
         then fail MQTT_TX_BUFFER_TOO_SHORT_ERROR
         else success (emitted (replicate 10 0) (mqtt_packet 0x82 (subscribe_body 5 [([97, 47, 98], 3, 1)]))))
    \<and> aws_iot_mqtt_serialize_unsubscribe (replicate 10 0) 10 0 5 [([97, 47, 98], 3)]
      = (if unat (aws_iot_mqtt_internal_get_final_packet_length_from_remaining_length
            (of_nat (length (unsubscribe_body 5 [([97, 47, 98], 3)])))) > 10
         then fail MQTT_TX_BUFFER_TOO_SHORT_ERROR
         else success (emitted (replicate 10 0) (mqtt_packet 0xA2 (unsubscribe_body 5 [([97, 47, 98], 3)]))))"
  by (rule subscription_packets) (simp_all add: subscribe_body_def unsubscribe_body_def str_field_def)

text \<open>Acknowledgements: from a CONNACK the client reads the return code the server sent (and
  takes the session-present flag from bit 7 of the flags byte, not from bit 0 where MQTT puts
  it); from a SUBACK the packet identifier and the granted qualities of service, up to one
  more than it asked for; from a PUBACK or UNSUBACK the packet type and identifier.\<close>

theorem acknowledgement_decoding:
  assumes n: "5 \<le> n" and qs: "length qs \<le> m + 1" "length qs \<le> length gs" "length qs + 2 < 268435456"
  shows "aws_iot_mqtt_deserialize_connack (mqtt_packet 0x20 [flags, rc] @ rest) n
      = success (drop_bit 7 flags, connack_return_code rc)
    \<and> aws_iot_mqtt_deserialize_suback m gs (mqtt_packet 0x90 (u16_bytes pid @ qs) @ rest) n
      = success (pid, length qs, qs @ drop (length qs) gs)
    \<and> aws_iot_mqtt_internal_deserialize_ack (mqtt_packet 0x40 (u16_bytes pid) @ rest) n
      = success (4, 0, pid)
    \<and> aws_iot_mqtt_deserialize_unsuback (mqtt_packet 0xB0 (u16_bytes pid) @ rest) n = success pid"
proof -
  have types: "header_type 0x20 = type_code CONNACK" "header_type 0x90 = type_code SUBACK"
    "header_type 0x40 = 4" "header_dup 0x40 = 0" "header_type 0xB0 = 11"
    by (simp_all add: header_type_def header_dup_def)
  have "4 \<le> n" using n by simp
  then show ?thesis
    using deserialize_connack_packet [where n = n and h = "0x20" and flags = flags and rc = rc and rest = rest] types n
      deserialize_suback_packet [OF qs n, where h = "0x90" and pid = pid and rest = rest]
      deserialize_ack_packet [where body = "u16_bytes pid" and pid = pid and post = "[]" and n = n
        and h = "0x40" and rest = rest]
      deserialize_ack_packet [where body = "u16_bytes pid" and pid = pid and post = "[]" and n = n
        and h = "0xB0" and rest = rest]
    by (simp add: aws_iot_mqtt_deserialize_unsuback_def)
qed

theorem acknowledgement_decoding_witness:
  "aws_iot_mqtt_deserialize_connack (mqtt_packet 0x20 [1, 5] @ replicate 1020 0) 1024
      = success (drop_bit 7 1, connack_return_code 5)
    \<and> aws_iot_mqtt_deserialize_suback 1 [0, 0, 0] (mqtt_packet 0x90 (u16_bytes 3 @ [1]) @ replicate 1020 0) 1024
      = success (3, length [1 :: byte], [1] @ drop (length [1 :: byte]) [0, 0, 0])
    \<and> aws_iot_mqtt_internal_deserialize_ack (mqtt_packet 0x40 (u16_bytes 3) @ replicate 1020 0) 1024
      = success (4, 0, 3)
    \<and> aws_iot_mqtt_deserialize_unsuback (mqtt_packet 0xB0 (u16_bytes 3) @ replicate 1020 0) 1024
      = success 3"
  by (rule acknowledgement_decoding) simp_all

text \<open>A PUBLISH with quality of service above 0 that ends with its topic, so that its packet
  identifier is missing, is not refused: the identifier is read from the two bytes behind the
  packet, the payload starts behind them, and its length wraps to 4294967294.\<close>

theorem publish_missing_id_wraps:
  assumes "unat tn = length topic" "4 \<le> n" "header_type h = type_code PUBLISH"
    "header_qos h \<noteq> QOS0"
  shows "\<exists>rx. aws_iot_mqtt_internal_deserialize_publish
        (mqtt_packet h (u16_bytes tn @ topic) @ u16_bytes pid @ rest) n = success rx
      \<and> rx_id rx = Some pid \<and> rx_payload rx = length (mqtt_packet h (u16_bytes tn @ topic)) + 2
      \<and> unat (rx_payloadLen rx) = 4294967294"
  using deserialize_publish_without_id [OF refl assms refl] by simp

theorem publish_missing_id_wraps_witness:
  "\<exists>rx. aws_iot_mqtt_internal_deserialize_publish
        (mqtt_packet 0x32 (u16_bytes 2 @ [97, 98]) @ u16_bytes 0 @ replicate 10 0) 1024 = success rx
      \<and> rx_id rx = Some 0 \<and> rx_payload rx = length (mqtt_packet 0x32 (u16_bytes 2 @ [97, 98])) + 2
      \<and> unat (rx_payloadLen rx) = 4294967294"
  by (rule publish_missing_id_wraps) (simp_all add: header_type_def header_qos_def)

end
