(* ===== verification/Mqtt_Client.thy ===== *)
theory Mqtt_Client
  imports Mqtt_Packets
begin

text \<open>
  The client object and its base operations: \<^verbatim>\<open>aws_iot_mqtt_client.c\<close>, the timer
  \<^verbatim>\<open>platform/wmsdk/timer/timer.c\<close> and the mutex wrapper
  \<^verbatim>\<open>platform/wmsdk/thread/threads_pthread_wrapper.c\<close> (the SDK is built with
  \<^verbatim>\<open>_ENABLE_THREAD_SUPPORT_\<close>).  The operating system, the network stack behind the function
  pointers of \<^verbatim>\<open>struct Network\<close> and the application's callbacks are fields of the record
  \<open>Env\<close> over an arbitrary world \<open>'w\<close>.
\<close>

section \<open>State\<close>

record Timer =
  start_timestamp :: u32
  timeout :: u32

datatype ClientState = CLIENT_STATE_INVALID | CLIENT_STATE_INITIALIZED | CLIENT_STATE_CONNECTING
  | CLIENT_STATE_CONNECTED_IDLE | CLIENT_STATE_CONNECTED_YIELD_IN_PROGRESS
  | CLIENT_STATE_CONNECTED_PUBLISH_IN_PROGRESS | CLIENT_STATE_CONNECTED_SUBSCRIBE_IN_PROGRESS
  | CLIENT_STATE_CONNECTED_UNSUBSCRIBE_IN_PROGRESS | CLIENT_STATE_CONNECTED_RESUBSCRIBE_IN_PROGRESS
  | CLIENT_STATE_CONNECTED_WAIT_FOR_CB_RETURN | CLIENT_STATE_DISCONNECTING
  | CLIENT_STATE_DISCONNECTED_ERROR | CLIENT_STATE_DISCONNECTED_MANUALLY
  | CLIENT_STATE_PENDING_RECONNECT

text \<open>Function pointers and \<^verbatim>\<open>void *\<close> data are addresses of the 32-bit target, 0 for NULL; a
  topic name is the memory behind the pointer.\<close>

type_synonym ptr = u32

abbreviation NULL :: ptr where "NULL \<equiv> 0"

record MessageHandlers =
  mh_topicName :: "byte list option"
  mh_topicNameLen :: u16
  mh_qos :: QoS
  mh_pApplicationHandler :: ptr
  mh_pApplicationHandlerData :: ptr

text \<open>\<^verbatim>\<open>struct _Client\<close> with its members \<open>clientStatus\<close> and \<open>clientData\<close> laid open; the mutexes
  and the state of the network stack are in the world.\<close>

record Client =
  pingTimer :: Timer
  reconnectDelayTimer :: Timer
  clientState :: ClientState
  isPingOutstanding :: bool
  isAutoReconnectEnabled :: bool
  nextPacketId :: u16
  packetTimeoutMs :: u32
  commandTimeoutMs :: u32
  keepAliveInterval :: u16
  currentReconnectWaitInterval :: u32
  counterNetworkDisconnected :: u32
  writeBufSize :: nat
  readBufSize :: nat
  writeBuf :: "byte list"
  readBuf :: "byte list"
  isBlockOnThreadLockEnabled :: bool
  options :: IoT_Client_Connect_Params
  messageHandlers :: "MessageHandlers list"
  disconnectHandler :: ptr
  disconnectHandlerData :: ptr

abbreviation AWS_IOT_MQTT_TX_BUF_LEN :: nat where "AWS_IOT_MQTT_TX_BUF_LEN \<equiv> 1024"
abbreviation AWS_IOT_MQTT_RX_BUF_LEN :: nat where "AWS_IOT_MQTT_RX_BUF_LEN \<equiv> 1024"
abbreviation AWS_IOT_MQTT_NUM_SUBSCRIBE_HANDLERS :: nat
  where "AWS_IOT_MQTT_NUM_SUBSCRIBE_HANDLERS \<equiv> 5"

section \<open>The environment\<close>

datatype Mutex = State_change_mutex | Tls_read_mutex | Tls_write_mutex

datatype Wait = OS_WAIT_FOREVER | OS_NO_WAIT

record IoT_Client_Init_Params =
  ip_enableAutoReconnect :: bool
  ip_pHostURL :: "byte list option"
  ip_port :: u16
  ip_pRootCALocation :: "byte list option"
  ip_pDeviceCertLocation :: "byte list option"
  ip_pDevicePrivateKeyLocation :: "byte list option"
  ip_mqttPacketTimeout_ms :: u32
  ip_mqttCommandTimeout_ms :: u32
  ip_tlsHandshakeTimeout_ms :: u32
  ip_isSSLHostnameVerify :: bool
  ip_disconnectHandler :: ptr
  ip_disconnectHandlerData :: ptr
  ip_isBlockOnThreadLockEnabled :: bool

definition IoT_Client_Init_Params_initializer :: IoT_Client_Init_Params where
  "IoT_Client_Init_Params_initializer = \<lparr>ip_enableAutoReconnect = True, ip_pHostURL = None,
     ip_port = 0, ip_pRootCALocation = None, ip_pDeviceCertLocation = None,
     ip_pDevicePrivateKeyLocation = None, ip_mqttPacketTimeout_ms = 2000,
     ip_mqttCommandTimeout_ms = 20000, ip_tlsHandshakeTimeout_ms = 5000,
     ip_isSSLHostnameVerify = True, ip_disconnectHandler = NULL, ip_disconnectHandlerData = NULL,
     ip_isBlockOnThreadLockEnabled = True\<rparr>"

text \<open>\<open>net_read n\<close> asks for \<open>n\<close> bytes and gives those it stored, \<open>*read_len\<close> of them;
  \<open>net_write\<close> gives \<open>*written_len\<close>.  Callbacks and reads may fail to return (\<open>None\<close>).  A
  handler receives the client, the position and length of the topic in the receive buffer, the
  message and its own data.  \<open>fuel\<close> bounds the iterations of every loop that waits for the
  world.\<close>

record 'w Env =
  os_ticks_get :: "'w \<Rightarrow> u32 \<times> 'w"
  os_mutex_create :: "Mutex \<Rightarrow> 'w \<Rightarrow> int \<times> 'w"
  os_mutex_get :: "Mutex \<Rightarrow> Wait \<Rightarrow> 'w \<Rightarrow> int \<times> 'w"
  os_mutex_put :: "Mutex \<Rightarrow> 'w \<Rightarrow> int \<times> 'w"
  os_mutex_delete :: "Mutex \<Rightarrow> 'w \<Rightarrow> int \<times> 'w"
  iot_tls_init :: "IoT_Client_Init_Params \<Rightarrow> 'w \<Rightarrow> IoT_Error_t \<times> 'w"
  net_connect :: "'w \<Rightarrow> IoT_Error_t \<times> 'w"
  net_read :: "nat \<Rightarrow> Timer \<Rightarrow> 'w \<Rightarrow> (IoT_Error_t \<times> byte list \<times> 'w) option"
  net_write :: "byte list \<Rightarrow> Timer \<Rightarrow> 'w \<Rightarrow> IoT_Error_t \<times> u32 \<times> 'w"
  net_disconnect :: "'w \<Rightarrow> IoT_Error_t \<times> 'w"
  net_isConnected :: "('w \<Rightarrow> IoT_Error_t \<times> 'w) option"
  net_destroy :: "'w \<Rightarrow> IoT_Error_t \<times> 'w"
  app_handler :: "ptr \<Rightarrow> nat \<Rightarrow> u16 \<Rightarrow> Received_Publish \<Rightarrow> ptr \<Rightarrow> Client \<times> 'w \<Rightarrow> (Client \<times> 'w) option"
  disconnect_handler :: "ptr \<Rightarrow> ptr \<Rightarrow> Client \<times> 'w \<Rightarrow> (Client \<times> 'w) option"
  fuel :: nat

section \<open>Timers\<close>

definition init_timer :: Timer where
  "init_timer = \<lparr>start_timestamp = 0, timeout = 0\<rparr>"

definition left_ms :: "'w Env \<Rightarrow> Timer \<Rightarrow> 'w \<Rightarrow> u32 \<times> 'w" where
  "left_ms env timer w =
     (let (current_timestamp, w) = os_ticks_get env w;
          time_diff_ms = current_timestamp - start_timestamp timer
      in (if timeout timer > time_diff_ms then timeout timer - time_diff_ms else 0, w))"

definition has_timer_expired :: "'w Env \<Rightarrow> Timer \<Rightarrow> 'w \<Rightarrow> bool \<times> 'w" where
  "has_timer_expired env timer w = (let (l, w) = left_ms env timer w in (\<not> l > 0, w))"

definition countdown_ms :: "'w Env \<Rightarrow> u32 \<Rightarrow> 'w \<Rightarrow> Timer \<times> 'w" where
  "countdown_ms env tmo w =
     (let (t, w) = os_ticks_get env w in (\<lparr>start_timestamp = t, timeout = tmo\<rparr>, w))"

definition countdown_sec :: "'w Env \<Rightarrow> u32 \<Rightarrow> 'w \<Rightarrow> Timer \<times> 'w" where
  "countdown_sec env tmo w =
     (let (t, w) = os_ticks_get env w in (\<lparr>start_timestamp = t, timeout = tmo * 1000\<rparr>, w))"

section \<open>Mutexes\<close>

definition mutex_result :: "int \<times> 'w \<Rightarrow> IoT_Error_t \<times> 'w" where
  "mutex_result r = (if fst r \<noteq> WM_SUCCESS then MUTEX_LOCK_ERROR else AWS_SUCCESS, snd r)"

definition aws_iot_thread_mutex_init :: "'w Env \<Rightarrow> Mutex \<Rightarrow> 'w \<Rightarrow> IoT_Error_t \<times> 'w" where
  "aws_iot_thread_mutex_init env m w = mutex_result (os_mutex_create env m w)"

definition aws_iot_thread_mutex_lock :: "'w Env \<Rightarrow> Mutex \<Rightarrow> 'w \<Rightarrow> IoT_Error_t \<times> 'w" where
  "aws_iot_thread_mutex_lock env m w = mutex_result (os_mutex_get env m OS_WAIT_FOREVER w)"

definition aws_iot_thread_mutex_trylock :: "'w Env \<Rightarrow> Mutex \<Rightarrow> 'w \<Rightarrow> IoT_Error_t \<times> 'w" where
  "aws_iot_thread_mutex_trylock env m w = mutex_result (os_mutex_get env m OS_NO_WAIT w)"

definition aws_iot_thread_mutex_unlock :: "'w Env \<Rightarrow> Mutex \<Rightarrow> 'w \<Rightarrow> IoT_Error_t \<times> 'w" where
  "aws_iot_thread_mutex_unlock env m w = mutex_result (os_mutex_put env m w)"

definition aws_iot_thread_mutex_destroy :: "'w Env \<Rightarrow> Mutex \<Rightarrow> 'w \<Rightarrow> IoT_Error_t \<times> 'w" where
  "aws_iot_thread_mutex_destroy env m w = mutex_result (os_mutex_delete env m w)"

definition aws_iot_mqtt_client_lock_mutex ::
  "'w Env \<Rightarrow> Client \<Rightarrow> Mutex \<Rightarrow> 'w \<Rightarrow> IoT_Error_t \<times> 'w" where
  "aws_iot_mqtt_client_lock_mutex env c m w =
     (if isBlockOnThreadLockEnabled c = False
      then aws_iot_thread_mutex_trylock env m w
      else aws_iot_thread_mutex_lock env m w)"

definition aws_iot_mqtt_client_unlock_mutex ::
  "'w Env \<Rightarrow> Mutex \<Rightarrow> 'w \<Rightarrow> IoT_Error_t \<times> 'w" where
  "aws_iot_mqtt_client_unlock_mutex env m w = aws_iot_thread_mutex_unlock env m w"

section \<open>The client's operations\<close>

definition aws_iot_mqtt_get_client_state :: "Client \<Rightarrow> ClientState" where
  "aws_iot_mqtt_get_client_state c = clientState c"

definition aws_iot_mqtt_set_client_state ::
  "'w Env \<Rightarrow> ClientState \<Rightarrow> ClientState \<Rightarrow> Client \<times> 'w \<Rightarrow> IoT_Error_t \<times> Client \<times> 'w" where
  "aws_iot_mqtt_set_client_state env expectedCurrentState newState = (\<lambda>(c, w).
     let (rc, w) = aws_iot_mqtt_client_lock_mutex env c State_change_mutex w in
     if rc \<noteq> AWS_SUCCESS then (rc, c, w)
     else
       let (rc, c) = (if expectedCurrentState = aws_iot_mqtt_get_client_state c
                      then (AWS_SUCCESS, c\<lparr>clientState := newState\<rparr>)
                      else (MQTT_UNEXPECTED_CLIENT_STATE_ERROR, c));
           (threadRc, w) = aws_iot_mqtt_client_unlock_mutex env State_change_mutex w;
           rc = (if rc = AWS_SUCCESS \<and> threadRc \<noteq> AWS_SUCCESS then threadRc else rc)
       in (rc, c, w))"

text \<open>The password pointer is copied from the user name, as the source has it.\<close>

definition aws_iot_mqtt_set_connect_params ::
  "IoT_Client_Connect_Params \<Rightarrow> Client \<Rightarrow> IoT_Error_t \<times> Client" where
  "aws_iot_mqtt_set_connect_params new c =
     (AWS_SUCCESS, c\<lparr>options :=
        \<lparr>MQTTVersion = MQTTVersion new, pClientID = pClientID new, clientIDLen = clientIDLen new,
         keepAliveIntervalInSec = keepAliveIntervalInSec new, isCleanSession = isCleanSession new,
         isWillMsgPresent = isWillMsgPresent new,
         will = \<lparr>will_pTopicName = will_pTopicName (will new),
                 will_topicNameLen = will_topicNameLen (will new),
                 will_pMessage = will_pMessage (will new), will_msgLen = will_msgLen (will new),
                 will_isRetained = will_isRetained (will new), will_qos = will_qos (will new)\<rparr>,
         pUsername = pUsername new, usernameLen = usernameLen new,
         pPassword = pUsername new, passwordLen = passwordLen new\<rparr>\<rparr>)"

definition reset_handler :: "MessageHandlers \<Rightarrow> MessageHandlers" where
  "reset_handler h = h\<lparr>mh_topicName := None, mh_pApplicationHandler := NULL,
     mh_pApplicationHandlerData := NULL, mh_qos := QOS0\<rparr>"

definition aws_iot_mqtt_init ::
  "'w Env \<Rightarrow> IoT_Client_Init_Params \<Rightarrow> Client \<times> 'w \<Rightarrow> IoT_Error_t \<times> Client \<times> 'w" where
  "aws_iot_mqtt_init env ip = (\<lambda>(c, w).
     if ip_pHostURL ip = None \<or> ip_port ip = 0 \<or> ip_pRootCALocation ip = None \<or>
        ip_pDevicePrivateKeyLocation ip = None \<or> ip_pDeviceCertLocation ip = None
     then (NULL_VALUE_ERROR, c, w)
     else
       let c = c\<lparr>messageHandlers := map reset_handler (messageHandlers c),
                 packetTimeoutMs := ip_mqttPacketTimeout_ms ip,
                 commandTimeoutMs := ip_mqttCommandTimeout_ms ip,
                 writeBufSize := AWS_IOT_MQTT_TX_BUF_LEN,
                 readBufSize := AWS_IOT_MQTT_RX_BUF_LEN,
                 counterNetworkDisconnected := 0,
                 disconnectHandler := ip_disconnectHandler ip,
                 disconnectHandlerData := ip_disconnectHandlerData ip,
                 nextPacketId := 1\<rparr>;
           (rc, c) = aws_iot_mqtt_set_connect_params IoT_Client_Connect_Params_initializer c
       in if rc \<noteq> AWS_SUCCESS then (rc, c, w)
       else
         let c = c\<lparr>isBlockOnThreadLockEnabled := ip_isBlockOnThreadLockEnabled ip\<rparr>;
             (rc, w) = aws_iot_thread_mutex_init env State_change_mutex w
         in if rc \<noteq> AWS_SUCCESS then (rc, c, w)
         else
           let (rc, w) = aws_iot_thread_mutex_init env Tls_read_mutex w
           in if rc \<noteq> AWS_SUCCESS then (rc, c, w)
           else
             let (rc, w) = aws_iot_thread_mutex_init env Tls_write_mutex w
             in if rc \<noteq> AWS_SUCCESS then (rc, c, w)
             else
               let c = c\<lparr>isPingOutstanding := False,
                         isAutoReconnectEnabled := ip_enableAutoReconnect ip\<rparr>;
                   (rc, w) = iot_tls_init env ip w
               in if rc \<noteq> AWS_SUCCESS then (rc, c\<lparr>clientState := CLIENT_STATE_INVALID\<rparr>, w)
               else (AWS_SUCCESS, c\<lparr>pingTimer := init_timer, reconnectDelayTimer := init_timer,
                       clientState := CLIENT_STATE_INITIALIZED\<rparr>, w))"

abbreviation MAX_PACKET_ID :: u16 where "MAX_PACKET_ID \<equiv> 65535"

definition aws_iot_mqtt_get_next_packet_id :: "Client \<Rightarrow> u16 \<times> Client" where
  "aws_iot_mqtt_get_next_packet_id c =
     (let n = (if nextPacketId c = MAX_PACKET_ID then 1 else nextPacketId c + 1)
      in (n, c\<lparr>nextPacketId := n\<rparr>))"

definition aws_iot_mqtt_is_client_connected :: "Client \<Rightarrow> bool" where
  "aws_iot_mqtt_is_client_connected c = (case clientState c of
       CLIENT_STATE_CONNECTED_IDLE \<Rightarrow> True
     | CLIENT_STATE_CONNECTED_YIELD_IN_PROGRESS \<Rightarrow> True
     | CLIENT_STATE_CONNECTED_PUBLISH_IN_PROGRESS \<Rightarrow> True
     | CLIENT_STATE_CONNECTED_SUBSCRIBE_IN_PROGRESS \<Rightarrow> True
     | CLIENT_STATE_CONNECTED_UNSUBSCRIBE_IN_PROGRESS \<Rightarrow> True
     | CLIENT_STATE_CONNECTED_RESUBSCRIBE_IN_PROGRESS \<Rightarrow> True
     | CLIENT_STATE_CONNECTED_WAIT_FOR_CB_RETURN \<Rightarrow> True
     | _ \<Rightarrow> False)"

definition aws_iot_is_autoreconnect_enabled :: "Client \<Rightarrow> bool" where
  "aws_iot_is_autoreconnect_enabled c = isAutoReconnectEnabled c"

definition aws_iot_mqtt_autoreconnect_set_status :: "bool \<Rightarrow> Client \<Rightarrow> IoT_Error_t \<times> Client" where
  "aws_iot_mqtt_autoreconnect_set_status newStatus c =
     (AWS_SUCCESS, c\<lparr>isAutoReconnectEnabled := newStatus\<rparr>)"

definition aws_iot_mqtt_set_disconnect_handler :: "ptr \<Rightarrow> ptr \<Rightarrow> Client \<Rightarrow> IoT_Error_t \<times> Client" where
  "aws_iot_mqtt_set_disconnect_handler handler d c =
     (if handler = NULL then (NULL_VALUE_ERROR, c)
      else (AWS_SUCCESS, c\<lparr>disconnectHandler := handler, disconnectHandlerData := d\<rparr>))"

definition aws_iot_mqtt_get_network_disconnected_count :: "Client \<Rightarrow> u32" where
  "aws_iot_mqtt_get_network_disconnected_count c = counterNetworkDisconnected c"

definition aws_iot_mqtt_reset_network_disconnected_count :: "Client \<Rightarrow> Client" where
  "aws_iot_mqtt_reset_network_disconnected_count c = c\<lparr>counterNetworkDisconnected := 0\<rparr>"

section \<open>Facts the client's operations share\<close>

text \<open>The type invariant of the client object: its arrays have their declared lengths and the
  size fields say so.\<close>

definition client_wf :: "Client \<Rightarrow> bool" where
  "client_wf c \<longleftrightarrow> length (writeBuf c) = AWS_IOT_MQTT_TX_BUF_LEN \<and> writeBufSize c = AWS_IOT_MQTT_TX_BUF_LEN \<and>
     length (readBuf c) = AWS_IOT_MQTT_RX_BUF_LEN \<and> readBufSize c = AWS_IOT_MQTT_RX_BUF_LEN \<and>
     length (messageHandlers c) = AWS_IOT_MQTT_NUM_SUBSCRIBE_HANDLERS"

text \<open>The mutexes of the operating system never fail: blocking locks of a correct program.\<close>

definition mutexes_work :: "'w Env \<Rightarrow> bool" where
  "mutexes_work env \<longleftrightarrow>
     (\<forall>m x w. fst (os_mutex_get env m x w) = WM_SUCCESS) \<and> (\<forall>m w. fst (os_mutex_put env m w) = WM_SUCCESS)"

named_theorems mutex

lemma lock_works [mutex]:
  "mutexes_work env \<Longrightarrow> fst (aws_iot_mqtt_client_lock_mutex env c m w) = AWS_SUCCESS"
  by (simp add: mutexes_work_def aws_iot_mqtt_client_lock_mutex_def aws_iot_thread_mutex_trylock_def
      aws_iot_thread_mutex_lock_def mutex_result_def)

lemma unlock_works [mutex]:
  "mutexes_work env \<Longrightarrow> fst (aws_iot_mqtt_client_unlock_mutex env m w) = AWS_SUCCESS"
  by (simp add: mutexes_work_def aws_iot_mqtt_client_unlock_mutex_def
      aws_iot_thread_mutex_unlock_def mutex_result_def)

text \<open>The state change touches nothing but the state, whatever the mutexes do.\<close>

lemma set_client_state_cases:
  "aws_iot_mqtt_set_client_state env old new (c, w) = (rc, c', w') \<Longrightarrow>
   c' = c \<or> clientState c = old \<and> c' = c\<lparr>clientState := new\<rparr>"
  by (auto simp: aws_iot_mqtt_set_client_state_def aws_iot_mqtt_get_client_state_def
      split: prod.splits if_splits)

lemma set_client_state_success:
  "aws_iot_mqtt_set_client_state env old new (c, w) = (AWS_SUCCESS, c', w') \<Longrightarrow>
   clientState c = old \<and> c' = c\<lparr>clientState := new\<rparr>"
  by (auto simp: aws_iot_mqtt_set_client_state_def aws_iot_mqtt_get_client_state_def
      split: prod.splits if_splits)

lemma set_client_state_works:
  assumes "mutexes_work env"
  shows "\<exists>w'. aws_iot_mqtt_set_client_state env old new (c, w)
    = (if clientState c = old then AWS_SUCCESS else MQTT_UNEXPECTED_CLIENT_STATE_ERROR,
       if clientState c = old then c\<lparr>clientState := new\<rparr> else c, w')"
  using lock_works [OF assms, of c State_change_mutex w] unlock_works [OF assms, of State_change_mutex]
  by (auto simp: aws_iot_mqtt_set_client_state_def aws_iot_mqtt_get_client_state_def
      split: prod.splits) (metis fst_conv)+

lemma client_wf_updates [simp]:
  "client_wf (c\<lparr>clientState := s\<rparr>) = client_wf c"
  "client_wf (c\<lparr>nextPacketId := n\<rparr>) = client_wf c"
  "client_wf (c\<lparr>isPingOutstanding := p\<rparr>) = client_wf c"
  "client_wf (c\<lparr>isAutoReconnectEnabled := p\<rparr>) = client_wf c"
  "client_wf (c\<lparr>pingTimer := t\<rparr>) = client_wf c"
  "client_wf (c\<lparr>reconnectDelayTimer := t\<rparr>) = client_wf c"
  "client_wf (c\<lparr>keepAliveInterval := k\<rparr>) = client_wf c"
  "client_wf (c\<lparr>currentReconnectWaitInterval := r\<rparr>) = client_wf c"
  "client_wf (c\<lparr>counterNetworkDisconnected := r\<rparr>) = client_wf c"
  "client_wf (c\<lparr>options := opts\<rparr>) = client_wf c"
  "client_wf (c\<lparr>disconnectHandler := d\<rparr>) = client_wf c"
  "client_wf (c\<lparr>disconnectHandlerData := e\<rparr>) = client_wf c"
  "client_wf c \<Longrightarrow> client_wf (c\<lparr>readBuf := b\<rparr>) = (length b = AWS_IOT_MQTT_RX_BUF_LEN)"
  "client_wf c \<Longrightarrow> client_wf (c\<lparr>writeBuf := b\<rparr>) = (length b = AWS_IOT_MQTT_TX_BUF_LEN)"
  "client_wf c \<Longrightarrow> client_wf (c\<lparr>messageHandlers := hs\<rparr>)
     = (length hs = AWS_IOT_MQTT_NUM_SUBSCRIBE_HANDLERS)"
  by (auto simp: client_wf_def)

lemma client_wf_set_state:
  "aws_iot_mqtt_set_client_state env old new (c, w) = (rc, c', w') \<Longrightarrow> client_wf c' = client_wf c"
  using set_client_state_cases by fastforce

subsection \<open>Packet identifiers\<close>

lemma mod_shift_le:
  assumes "i \<le> j" "j < m" "(u + i) mod m = (u + j :: nat) mod m"
  shows "i = j"
proof -
  from assms obtain s where "u + j = u + i + m * s"
    using mod_eq_nat1E [of "u + j" m "u + i"] by fastforce
  with assms show ?thesis by (cases s) auto
qed

lemma mod_shift_inj:
  "i < m \<Longrightarrow> j < m \<Longrightarrow> (u + i) mod m = (u + j :: nat) mod m \<Longrightarrow> i = j"
  using mod_shift_le [of i j m u] mod_shift_le [of j i m u] by (cases "i \<le> j") simp_all

text \<open>The identifiers of the next \<open>k\<close> packets.\<close>

fun packet_ids :: "nat \<Rightarrow> Client \<Rightarrow> u16 list" where
  "packet_ids 0 c = []"
| "packet_ids (Suc k) c = (let (n, c) = aws_iot_mqtt_get_next_packet_id c in n # packet_ids k c)"

lemma next_packet_id_unat:
  "nextPacketId c \<noteq> 0 \<Longrightarrow>
   unat (fst (aws_iot_mqtt_get_next_packet_id c)) = 1 + unat (nextPacketId c) mod 65535"
proof -
  have "unat (nextPacketId c) < 65535" if "nextPacketId c \<noteq> MAX_PACKET_ID"
  proof -
    have "unat (nextPacketId c) \<noteq> 65535"
      using that by (simp add: word_unat_eq_iff)
    then show ?thesis
      using unat_u16_lt [of "nextPacketId c"] by linarith
  qed
  then show ?thesis
    by (auto simp: aws_iot_mqtt_get_next_packet_id_def Let_def unat_word_ariths)
qed

lemma next_packet_id_nonzero: "nextPacketId c \<noteq> 0 \<Longrightarrow> fst (aws_iot_mqtt_get_next_packet_id c) \<noteq> 0"
  using next_packet_id_unat [of c] by (auto simp: word_unat_eq_iff)

lemma packet_ids_unat:
  "nextPacketId c \<noteq> 0 \<Longrightarrow>
   map unat (packet_ids k c) = map (\<lambda>i. 1 + (unat (nextPacketId c) + i) mod 65535) [0..<k]"
proof (induction k arbitrary: c)
  case (Suc k)
  obtain n c' where n: "aws_iot_mqtt_get_next_packet_id c = (n, c')"
    by fastforce
  then have c': "nextPacketId c' = n"
    by (auto simp: aws_iot_mqtt_get_next_packet_id_def Let_def)
  from next_packet_id_unat [OF Suc.prems] next_packet_id_nonzero [OF Suc.prems] n
  have u: "unat n = 1 + unat (nextPacketId c) mod 65535" and "n \<noteq> 0"
    by simp_all
  with Suc.IH [of c'] c' have "map unat (packet_ids k c')
      = map (\<lambda>i. 1 + (1 + unat (nextPacketId c) mod 65535 + i) mod 65535) [0..<k]"
    by simp
  also have "\<dots> = map (\<lambda>i. 1 + (unat (nextPacketId c) + i) mod 65535) (map Suc [0..<k])"
    using mod_add_left_eq [of "unat (nextPacketId c)" 65535 "Suc _"] by (simp add: ac_simps)
  also have "\<dots> = map (\<lambda>i. 1 + (unat (nextPacketId c) + i) mod 65535) [1..<Suc k]"
    by (simp only: map_Suc_upt One_nat_def)
  finally show ?case
    by (simp add: n u upt_conv_Cons del: upt_Suc)
qed simp

section \<open>Properties\<close>

text \<open>C11. Packet identifiers: starting from a nonzero counter (initialisation sets it to 1) no
  identifier is ever 0, which MQTT forbids, and 65535 packets in a row get different
  identifiers.\<close>

theorem packet_ids_distinct:
  assumes "nextPacketId c \<noteq> 0"
  shows "0 \<notin> set (packet_ids k c) \<and> (k \<le> 65535 \<longrightarrow> distinct (packet_ids k c))"
proof
  have *: "set (map unat (packet_ids k c)) \<subseteq> {1..65535}"
    unfolding packet_ids_unat [OF assms] by auto
  then show "0 \<notin> set (packet_ids k c)"
    by force
  have "inj_on (\<lambda>i. 1 + (unat (nextPacketId c) + i) mod 65535) {0..<k}" if "k \<le> 65535"
    by (rule inj_onI, rule mod_shift_inj [where m = 65535 and u = "unat (nextPacketId c)"])
      (use that in simp_all)
  then have "distinct (map unat (packet_ids k c))" if "k \<le> 65535"
    using that unfolding packet_ids_unat [OF assms] by (simp add: distinct_map)
  then show "k \<le> 65535 \<longrightarrow> distinct (packet_ids k c)"
    by (simp add: distinct_map)
qed

definition new_client :: Client where
  "new_client = \<lparr>pingTimer = init_timer, reconnectDelayTimer = init_timer,
     clientState = CLIENT_STATE_INITIALIZED, isPingOutstanding = False,
     isAutoReconnectEnabled = True, nextPacketId = 1, packetTimeoutMs = 2000,
     commandTimeoutMs = 20000, keepAliveInterval = 0, currentReconnectWaitInterval = 0,
     counterNetworkDisconnected = 0, writeBufSize = AWS_IOT_MQTT_TX_BUF_LEN,
     readBufSize = AWS_IOT_MQTT_RX_BUF_LEN, writeBuf = replicate AWS_IOT_MQTT_TX_BUF_LEN 0,
     readBuf = replicate AWS_IOT_MQTT_RX_BUF_LEN 0, isBlockOnThreadLockEnabled = True,
     options = IoT_Client_Connect_Params_initializer,
     messageHandlers = replicate AWS_IOT_MQTT_NUM_SUBSCRIBE_HANDLERS
       \<lparr>mh_topicName = None, mh_topicNameLen = 0, mh_qos = QOS0, mh_pApplicationHandler = NULL,
        mh_pApplicationHandlerData = NULL\<rparr>,
     disconnectHandler = NULL, disconnectHandlerData = NULL\<rparr>"

lemma new_client_wf: "client_wf new_client"
  by (simp add: client_wf_def new_client_def)

text \<open>A world that is only a clock: mutexes work, the network is silent, callbacks do
  nothing.\<close>

definition clock_env :: "u32 Env" where
  "clock_env = \<lparr>os_ticks_get = (\<lambda>w. (w, w + 1)), os_mutex_create = (\<lambda>_ w. (0, w)),
     os_mutex_get = (\<lambda>_ _ w. (0, w)), os_mutex_put = (\<lambda>_ w. (0, w)),
     os_mutex_delete = (\<lambda>_ w. (0, w)), iot_tls_init = (\<lambda>_ w. (AWS_SUCCESS, w)),
     net_connect = (\<lambda>w. (AWS_SUCCESS, w)),
     net_read = (\<lambda>_ _ w. Some (NETWORK_SSL_NOTHING_TO_READ, [], w)),
     net_write = (\<lambda>bs _ w. (AWS_SUCCESS, of_nat (length bs), w)),
     net_disconnect = (\<lambda>w. (AWS_SUCCESS, w)),
     net_isConnected = Some (\<lambda>w. (NETWORK_PHYSICAL_LAYER_CONNECTED, w)),
     net_destroy = (\<lambda>w. (AWS_SUCCESS, w)), app_handler = (\<lambda>_ _ _ _ _ s. Some s),
     disconnect_handler = (\<lambda>_ _ s. Some s), fuel = 10\<rparr>"

lemma clock_env_mutexes: "mutexes_work clock_env"
  by (simp add: mutexes_work_def clock_env_def)

theorem packet_ids_distinct_witness:
  "0 \<notin> set (packet_ids 7 new_client) \<and> distinct (packet_ids 7 new_client)"
  using packet_ids_distinct [of new_client 7] by (simp add: new_client_def)

text \<open>Timers measure elapsed time across the wrap-around of the 32-bit tick counter: a timer
  started for \<open>ms\<close> has expired after \<open>d\<close> ticks, for any \<open>d\<close> below the counter's period,
  exactly when \<open>ms\<close> is at most \<open>d\<close>, and until then reports the difference.\<close>

theorem timer_measures_elapsed:
  assumes "countdown_ms env ms w = (t, w1)" "os_ticks_get env w = (start, w1)"
    and "os_ticks_get env w2 = (start + d, w3)"
  shows "has_timer_expired env t w2 = (ms \<le> d, w3)
    \<and> left_ms env t w2 = (if d < ms then ms - d else 0, w3)"
  using assms
  by (auto simp: countdown_ms_def has_timer_expired_def left_ms_def not_less word_gt_0)

theorem timer_measures_elapsed_witness:
  "has_timer_expired clock_env (fst (countdown_ms clock_env 100 0xFFFFFFF0)) (0xFFFFFFF0 + 100) = (True, 0xFFFFFFF0 + 101)"
proof -
  have "countdown_ms clock_env 100 0xFFFFFFF0
      = (\<lparr>start_timestamp = 0xFFFFFFF0, timeout = 100\<rparr>, 0xFFFFFFF1)"
    "os_ticks_get clock_env 0xFFFFFFF0 = (0xFFFFFFF0, 0xFFFFFFF1)"
    "os_ticks_get clock_env (0xFFFFFFF0 + 100) = (0xFFFFFFF0 + 100, 0xFFFFFFF0 + 101)"
    by (simp_all add: countdown_ms_def clock_env_def)
  from timer_measures_elapsed [OF this] this(1) show ?thesis by simp
qed

text \<open>The client's state changes only by compare-and-set: the call succeeds and stores the new
  state exactly when the expected state is the current one, changes nothing else of the
  client, and reports an unexpected state otherwise.\<close>

theorem state_change_compare_and_set:
  assumes "mutexes_work env"
  shows "\<exists>w'. aws_iot_mqtt_set_client_state env old new (c, w)
    = (if clientState c = old then AWS_SUCCESS else MQTT_UNEXPECTED_CLIENT_STATE_ERROR,
       if clientState c = old then c\<lparr>clientState := new\<rparr> else c, w')"
  using assms by (rule set_client_state_works)

theorem state_change_compare_and_set_witness:
  "\<exists>w'. aws_iot_mqtt_set_client_state clock_env CLIENT_STATE_INITIALIZED CLIENT_STATE_CONNECTING (new_client, 0)
    = (if clientState new_client = CLIENT_STATE_INITIALIZED then AWS_SUCCESS else MQTT_UNEXPECTED_CLIENT_STATE_ERROR,
       if clientState new_client = CLIENT_STATE_INITIALIZED
       then new_client\<lparr>clientState := CLIENT_STATE_CONNECTING\<rparr> else new_client, w')"
  by (rule state_change_compare_and_set) (rule clock_env_mutexes)

text \<open>Initialisation: with complete parameters, working mutexes and a TLS layer that
  initialises, the client is well-formed, has no subscription, no outstanding ping, the first
  packet identifier, its options at their defaults and the state \<open>INITIALIZED\<close>; it is not
  connected.\<close>

theorem init_client:
  assumes "length (messageHandlers c) = AWS_IOT_MQTT_NUM_SUBSCRIBE_HANDLERS"
      "length (writeBuf c) = AWS_IOT_MQTT_TX_BUF_LEN" "length (readBuf c) = AWS_IOT_MQTT_RX_BUF_LEN"
    and "ip_pHostURL ip \<noteq> None" "ip_port ip \<noteq> 0" "ip_pRootCALocation ip \<noteq> None"
      "ip_pDevicePrivateKeyLocation ip \<noteq> None" "ip_pDeviceCertLocation ip \<noteq> None"
    and "\<And>m w. fst (os_mutex_create env m w) = WM_SUCCESS"
      "\<And>w. fst (iot_tls_init env ip w) = AWS_SUCCESS"
  shows "\<exists>c' w'. aws_iot_mqtt_init env ip (c, w) = (AWS_SUCCESS, c', w') \<and> client_wf c' \<and>
    list_all (\<lambda>h. mh_topicName h = None \<and> mh_pApplicationHandler h = NULL) (messageHandlers c') \<and>
    clientState c' = CLIENT_STATE_INITIALIZED \<and> \<not> isPingOutstanding c' \<and> nextPacketId c' = 1 \<and>
    options c' = IoT_Client_Connect_Params_initializer \<and> \<not> aws_iot_mqtt_is_client_connected c'"
proof -
  have "fst (aws_iot_thread_mutex_init env m w) = AWS_SUCCESS" for m w
    using assms by (simp add: aws_iot_thread_mutex_init_def mutex_result_def)
  then have f: "aws_iot_thread_mutex_init env m w
      = (AWS_SUCCESS, snd (aws_iot_thread_mutex_init env m w))" for m w
    by (simp add: prod_eq_iff)
  have g: "iot_tls_init env ip w = (AWS_SUCCESS, snd (iot_tls_init env ip w))" for w
    using assms(10) by (simp add: prod_eq_iff)
  show ?thesis
    using assms(1-8) f [of State_change_mutex w]
      f [of Tls_read_mutex "snd (aws_iot_thread_mutex_init env State_change_mutex w)"]
      f [of Tls_write_mutex "snd (aws_iot_thread_mutex_init env Tls_read_mutex
        (snd (aws_iot_thread_mutex_init env State_change_mutex w)))"]
      g [of "snd (aws_iot_thread_mutex_init env Tls_write_mutex (snd (aws_iot_thread_mutex_init env
        Tls_read_mutex (snd (aws_iot_thread_mutex_init env State_change_mutex w)))))"]
    by (auto simp: aws_iot_mqtt_init_def aws_iot_mqtt_set_connect_params_def Let_def client_wf_def
        reset_handler_def aws_iot_mqtt_is_client_connected_def IoT_Client_Connect_Params_initializer_def
        IoT_MQTT_Will_Options_Initializer_def list_all_iff split: prod.splits)
qed

theorem init_client_witness:
  "\<exists>c' w'. aws_iot_mqtt_init clock_env (IoT_Client_Init_Params_initializer
      \<lparr>ip_pHostURL := Some [104], ip_port := 8883, ip_pRootCALocation := Some [],
       ip_pDevicePrivateKeyLocation := Some [], ip_pDeviceCertLocation := Some []\<rparr>) (new_client, 0)
      = (AWS_SUCCESS, c', w') \<and> client_wf c' \<and>
    list_all (\<lambda>h. mh_topicName h = None \<and> mh_pApplicationHandler h = NULL) (messageHandlers c') \<and>
    clientState c' = CLIENT_STATE_INITIALIZED \<and> \<not> isPingOutstanding c' \<and> nextPacketId c' = 1 \<and>
    options c' = IoT_Client_Connect_Params_initializer \<and> \<not> aws_iot_mqtt_is_client_connected c'"
  by (rule init_client) (simp_all add: new_client_def clock_env_def)

text \<open>Connection parameters are stored as given except the password: the stored password
  pointer is the user name's, with the length of the new password.\<close>

lemma set_connect_params_password:
  "options (snd (aws_iot_mqtt_set_connect_params new c))
     = new\<lparr>pPassword := pUsername new\<rparr>"
  by (simp add: aws_iot_mqtt_set_connect_params_def)

end
