(* ===== verification/Mqtt_Topic.thy ===== *)
theory Mqtt_Topic
  imports Prelude
begin

text \<open>
  Topic filters: the matcher \<^verbatim>\<open>_aws_iot_mqtt_internal_is_topic_matched\<close> of
  \<^verbatim>\<open>aws_iot_mqtt_client_common_internal.c\<close>, an abstract specification by topic levels, and
  the comparison with the rules of MQTT 3.1.1 (4.7).
\<close>

abbreviation SLASH :: byte where "SLASH \<equiv> 0x2F"
abbreviation PLUS :: byte where "PLUS \<equiv> 0x2B"
abbreviation HASH :: byte where "HASH \<equiv> 0x23"

section \<open>The matcher\<close>

text \<open>The pointers \<open>curf\<close> and \<open>curn\<close> are the suffixes of the filter (up to its terminating
  zero) and of the name (up to \<open>curn_end\<close>) they point to.  \<open>skip_level ns\<close> is the inner loop:
  it leaves \<open>curn\<close> before the next separator or the end, and the \<open>curn++\<close> that follows moves
  onto it.\<close>

fun skip_level :: "byte list \<Rightarrow> byte list" where
  "skip_level [] = []"
| "skip_level (n # ns) = (if n \<noteq> SLASH then skip_level ns else n # ns)"

fun topic_match_loop :: "byte list \<Rightarrow> byte list \<Rightarrow> byte list \<times> byte list" where
  "topic_match_loop (f # fs) (n # ns) =
     (if n = SLASH \<and> f \<noteq> SLASH then (f # fs, n # ns)
      else if f \<noteq> PLUS \<and> f \<noteq> HASH \<and> f \<noteq> n then (f # fs, n # ns)
      else if f = PLUS then topic_match_loop fs (skip_level ns)
      else if f = HASH then topic_match_loop fs []
      else topic_match_loop fs ns)"
| "topic_match_loop fs ns = (fs, ns)"

definition aws_iot_mqtt_internal_is_topic_matched :: "byte list \<Rightarrow> byte list \<Rightarrow> bool" where
  "aws_iot_mqtt_internal_is_topic_matched pTopicFilter pTopicName =
     (let (curf, curn) = topic_match_loop pTopicFilter pTopicName in curn = [] \<and> curf = [])"

lemma is_topic_matched_simps [simp]:
  "aws_iot_mqtt_internal_is_topic_matched [] ns \<longleftrightarrow> ns = []"
  "\<not> aws_iot_mqtt_internal_is_topic_matched (f # fs) []"
  "aws_iot_mqtt_internal_is_topic_matched (f # fs) (n # ns) \<longleftrightarrow>
     (n = SLASH \<longrightarrow> f = SLASH) \<and>
     (if f = PLUS then aws_iot_mqtt_internal_is_topic_matched fs (skip_level ns)
      else if f = HASH then fs = []
      else f = n \<and> aws_iot_mqtt_internal_is_topic_matched fs ns)"
  by (auto simp: aws_iot_mqtt_internal_is_topic_matched_def split: prod.splits)

section \<open>Levels\<close>

text \<open>The levels of a topic are what its separators leave.\<close>

fun levels :: "byte list \<Rightarrow> byte list list" where
  "levels [] = [[]]"
| "levels (c # cs) =
     (if c = SLASH then [] # levels cs
      else case levels cs of [] \<Rightarrow> [[c]] | l # ls \<Rightarrow> (c # l) # ls)"

fun join_levels :: "byte list list \<Rightarrow> byte list" where
  "join_levels [] = []"
| "join_levels [l] = l"
| "join_levels (l # ls) = l @ SLASH # join_levels ls"

lemma levels_not_Nil [simp]: "levels t \<noteq> []"
  by (induction t) (auto split: list.splits)

lemma join_levels_levels [simp]: "join_levels (levels t) = t"
proof (induction t)
  case (Cons c cs)
  show ?case
  proof (cases "c = SLASH")
    case True
    with Cons show ?thesis by (cases "levels cs") auto
  next
    case False
    obtain l ls where "levels cs = l # ls" by (cases "levels cs") auto
    with Cons False show ?thesis by (cases ls) auto
  qed
qed simp

lemma levels_no_slash: "l \<in> set (levels t) \<Longrightarrow> SLASH \<notin> set l"
  by (induction t arbitrary: l) (auto split: list.splits if_splits)

text \<open>The contract of the matcher: a level of the filter is a literal, the single-level wild card
  (for one nonempty level) or, at the end, the multi-level wild card (for one or more levels,
  the first of them nonempty).\<close>

fun level_match :: "byte list list \<Rightarrow> byte list list \<Rightarrow> bool" where
  "level_match [] ns = (ns = [])"
| "level_match (f # fs) [] = False"
| "level_match (f # fs) (n # ns) =
     (if f = [HASH] then n \<noteq> []
      else if f = [PLUS] then n \<noteq> [] \<and> level_match fs ns
      else f = n \<and> level_match fs ns)"

text \<open>The filters the source assumes: \<open>#\<close> only as the last level, \<open>+\<close> and \<open>#\<close> only as whole
  levels.\<close>

fun wf_levels :: "byte list list \<Rightarrow> bool" where
  "wf_levels [] = True"
| "wf_levels (f # fs) =
     ((f = [HASH] \<and> fs = [] \<or> f = [PLUS] \<or> HASH \<notin> set f \<and> PLUS \<notin> set f) \<and> wf_levels fs)"

definition wf_filter :: "byte list \<Rightarrow> bool" where
  "wf_filter t = wf_levels (levels t)"

text \<open>The rules of the MQTT document: \<open>#\<close> also matches the parent level, and both wild cards
  match empty levels.\<close>

fun mqtt_match :: "byte list list \<Rightarrow> byte list list \<Rightarrow> bool" where
  "mqtt_match [] ns = (ns = [])"
| "mqtt_match (f # fs) [] = (f = [HASH])"
| "mqtt_match (f # fs) (n # ns) =
     (f = [HASH] \<or> (f = [PLUS] \<or> f = n) \<and> mqtt_match fs ns)"

subsection \<open>The matcher, level by level\<close>

text \<open>What follows a level: nothing, or a separator.\<close>

definition rest_ok :: "byte list \<Rightarrow> bool" where
  "rest_ok r \<longleftrightarrow> r = [] \<or> (\<exists>r'. r = SLASH # r')"

lemma rest_ok_simps [simp]: "rest_ok []" "rest_ok (SLASH # r)"
  by (simp_all add: rest_ok_def)

lemma skip_level_append: "SLASH \<notin> set n \<Longrightarrow> rest_ok r \<Longrightarrow> skip_level (n @ r) = r"
  by (induction n) (auto simp: rest_ok_def)

lemma match_literal_level:
  "SLASH \<notin> set f \<Longrightarrow> PLUS \<notin> set f \<Longrightarrow> HASH \<notin> set f \<Longrightarrow> SLASH \<notin> set n \<Longrightarrow>
   rest_ok fr \<Longrightarrow> rest_ok nr \<Longrightarrow>
   aws_iot_mqtt_internal_is_topic_matched (f @ fr) (n @ nr) \<longleftrightarrow>
   f = n \<and> aws_iot_mqtt_internal_is_topic_matched fr nr"
proof (induction f arbitrary: n)
  case Nil
  then show ?case
    by (cases n) (auto simp: rest_ok_def)
next
  case (Cons a f)
  then show ?case
    by (cases n) (auto simp: rest_ok_def)
qed

lemma match_plus_level:
  "SLASH \<notin> set n \<Longrightarrow> rest_ok nr \<Longrightarrow>
   aws_iot_mqtt_internal_is_topic_matched (PLUS # fr) (n @ nr) \<longleftrightarrow>
   n \<noteq> [] \<and> aws_iot_mqtt_internal_is_topic_matched fr nr"
  by (cases n) (auto simp: rest_ok_def skip_level_append)

lemma match_hash_level:
  "SLASH \<notin> set n \<Longrightarrow> rest_ok nr \<Longrightarrow>
   aws_iot_mqtt_internal_is_topic_matched [HASH] (n @ nr) \<longleftrightarrow> n \<noteq> []"
  by (cases n) (auto simp: rest_ok_def)

lemma join_levels_Cons:
  "join_levels (l # ls) = l @ (if ls = [] then [] else SLASH # join_levels ls)"
  by (cases ls) simp_all

lemma match_join:
  "fs \<noteq> [] \<Longrightarrow> ns \<noteq> [] \<Longrightarrow> wf_levels fs \<Longrightarrow>
   \<forall>f \<in> set fs. SLASH \<notin> set f \<Longrightarrow> \<forall>n \<in> set ns. SLASH \<notin> set n \<Longrightarrow>
   aws_iot_mqtt_internal_is_topic_matched (join_levels fs) (join_levels ns) \<longleftrightarrow> level_match fs ns"
proof (induction fs arbitrary: ns)
  case (Cons f fs)
  obtain n ns' where ns: "ns = n # ns'"
    using Cons.prems by (cases ns) auto
  define fr where "fr = (if fs = [] then [] else SLASH # join_levels fs)"
  define nr where "nr = (if ns' = [] then [] else SLASH # join_levels ns')"
  have rest: "rest_ok fr" "rest_ok nr"
    by (simp_all add: fr_def nr_def)
  have n: "SLASH \<notin> set n"
    using Cons.prems ns by simp
  have tail: "aws_iot_mqtt_internal_is_topic_matched fr nr \<longleftrightarrow> level_match fs ns'"
    using Cons.IH [of ns'] Cons.prems ns by (cases fs; cases ns') (auto simp: fr_def nr_def)
  consider (hash) "f = [HASH]" "fs = []" | (plus) "f = [PLUS]"
    | (literal) "HASH \<notin> set f" "PLUS \<notin> set f"
    using Cons.prems by auto
  then show ?case
  proof cases
    case hash
    then show ?thesis
      using match_hash_level [OF n rest(2)] by (simp add: ns join_levels_Cons nr_def)
  next
    case plus
    then show ?thesis
      using match_plus_level [OF n rest(2), of fr] tail
      by (simp add: ns join_levels_Cons flip: fr_def nr_def)
  next
    case literal
    have "SLASH \<notin> set f"
      using Cons.prems by simp
    then have "aws_iot_mqtt_internal_is_topic_matched (f @ fr) (n @ nr) \<longleftrightarrow> f = n \<and> level_match fs ns'"
      using match_literal_level [of f n fr nr] literal n rest tail by simp
    with literal show ?thesis
      by (auto simp: ns join_levels_Cons simp flip: fr_def nr_def)
  qed
qed simp

lemma topic_matched_levels:
  "wf_filter f \<Longrightarrow>
   aws_iot_mqtt_internal_is_topic_matched f t \<longleftrightarrow> level_match (levels f) (levels t)"
  using match_join [of "levels f" "levels t"] levels_no_slash
  by (simp add: wf_filter_def)

lemma level_match_sound: "level_match fs ns \<Longrightarrow> mqtt_match fs ns"
  by (induction fs ns rule: level_match.induct) (auto split: if_splits)

lemma level_match_complete:
  "mqtt_match fs ns \<Longrightarrow> [] \<notin> set ns \<Longrightarrow> length fs \<le> length ns \<Longrightarrow> level_match fs ns"
  by (induction fs ns rule: level_match.induct) auto

section \<open>Properties\<close>

text \<open>C4. The topic matcher implements its contract: on a filter whose wild cards are whole
  levels, it accepts exactly the names whose levels match the filter's one by one, \<open>+\<close>
  standing for one nonempty level and a final \<open>#\<close> for the nonempty rest.\<close>

theorem topic_matcher_refines_levels:
  assumes "wf_filter f"
  shows "aws_iot_mqtt_internal_is_topic_matched f t \<longleftrightarrow> level_match (levels f) (levels t)"
  using assms by (rule topic_matched_levels)

theorem topic_matcher_refines_levels_witness:
  "aws_iot_mqtt_internal_is_topic_matched [97, 47, 43, 47, 35] [97, 47, 98, 98, 47, 99, 47, 100]
   \<longleftrightarrow> level_match (levels [97, 47, 43, 47, 35]) (levels [97, 47, 98, 98, 47, 99, 47, 100])"
  by (rule topic_matcher_refines_levels) code_simp



end
