(* ===== verification/Mqtt_Transport.thy ===== *)
theory Mqtt_Transport
  imports Mqtt_Client Mqtt_Topic
begin

text \<open>
  Sending and receiving packets: \<^verbatim>\<open>aws_iot_mqtt_internal_send_packet\<close>, the packet reader, the
  delivery of messages to the application, \<^verbatim>\<open>aws_iot_mqtt_internal_cycle_read\<close> and
  \<^verbatim>\<open>aws_iot_mqtt_internal_wait_for_read\<close> of \<^verbatim>\<open>aws_iot_mqtt_client_common_internal.c\<close>.
  An operation takes and gives the client and the world; it is \<open>None\<close> when it leaves an
  object's memory, reads an uninitialised variable, or when a loop that waits for the world
  runs out of fuel.
\<close>

section \<open>Sending\<close>

text \<open>The loop of \<^verbatim>\<open>aws_iot_mqtt_internal_send_packet\<close>: every call passes the whole length, also
  after a partial write.\<close>

fun send_loop :: "nat \<Rightarrow> 'w Env \<Rightarrow> Client \<Rightarrow> nat \<Rightarrow> Timer \<Rightarrow> u32 \<Rightarrow> 'w \<Rightarrow> (u32 \<times> 'w) option" where
  "send_loop 0 env c len timer sent w = None"
| "send_loop (Suc n) env c len timer sent w =
     (if \<not> unat sent < len then Some (sent, w)
      else
        let (expired, w) = has_timer_expired env timer w
        in if expired then Some (sent, w)
           else do {
             bytes \<leftarrow> mem_take len (drop (unat sent) (writeBuf c));
             let (rc, sentLen, w) = net_write env bytes timer w in
             if rc \<noteq> AWS_SUCCESS then Some (sent, w)
             else send_loop n env c len timer (sent + sentLen) w
           })"

definition aws_iot_mqtt_internal_send_packet ::
  "'w Env \<Rightarrow> Client \<Rightarrow> nat \<Rightarrow> Timer \<Rightarrow> 'w \<Rightarrow> (IoT_Error_t \<times> 'w) option" where
  "aws_iot_mqtt_internal_send_packet env c len timer w =
     (if len \<ge> writeBufSize c then Some (MQTT_TX_BUFFER_TOO_SHORT_ERROR, w)
      else
        let (rc, w) = aws_iot_mqtt_client_lock_mutex env c Tls_write_mutex w
        in if rc \<noteq> AWS_SUCCESS then Some (rc, w)
           else do {
             (sent, w) \<leftarrow> send_loop (fuel env) env c len timer 0 w;
             let (rc, w) = aws_iot_mqtt_client_unlock_mutex env Tls_write_mutex w in
             if rc \<noteq> AWS_SUCCESS then Some (rc, w)
             else Some (if unat sent = len then AWS_SUCCESS else AWS_FAILURE, w)
           })"

section \<open>Reading a packet\<close>

text \<open>A read of \<open>n\<close> bytes into the receive buffer at offset \<open>p\<close>; the result is the return code,
  \<open>*read_len\<close> and the buffer.\<close>

definition read_into ::
  "'w Env \<Rightarrow> nat \<Rightarrow> nat \<Rightarrow> Timer \<Rightarrow> byte list \<times> 'w \<Rightarrow> (IoT_Error_t \<times> nat \<times> byte list \<times> 'w) option" where
  "read_into env p n timer = (\<lambda>(buf, w). do {
     (rc, bytes, w) \<leftarrow> net_read env n timer w;
     (buf, q) \<leftarrow> put_bytes bytes (buf, p);
     Some (rc, length bytes, buf, w)
   })"

text \<open>The loop of \<^verbatim>\<open>_aws_iot_mqtt_internal_decode_packet_remaining_len\<close>: the read stores the
  number of bytes it got (at most one) in \<open>len\<close>, the loop's counter.  \<open>encodedByte\<close> is
  \<open>None\<close> while uninitialised.\<close>

fun decode_packet_remaining_len_loop ::
  "nat \<Rightarrow> 'w Env \<Rightarrow> Timer \<Rightarrow> nat \<Rightarrow> byte option \<Rightarrow> u32 \<Rightarrow> u32 \<Rightarrow> 'w \<Rightarrow> ((IoT_Error_t \<times> u32) \<times> 'w) option" where
  "decode_packet_remaining_len_loop 0 env timer len encodedByte multiplier rem_len w = None"
| "decode_packet_remaining_len_loop (Suc n) env timer len encodedByte multiplier rem_len w =
     (if len + 1 > MAX_NO_OF_REMAINING_LENGTH_BYTES
      then Some ((MQTT_DECODE_REMAINING_LENGTH_ERROR, rem_len), w)
      else do {
        (rc, bytes, w) \<leftarrow> net_read env 1 timer w;
        if length bytes > 1 then None
        else if rc \<noteq> AWS_SUCCESS then Some ((rc, rem_len), w)
        else do {
          b \<leftarrow> (case bytes of [] \<Rightarrow> encodedByte | b # _ \<Rightarrow> Some b);
          let rem_len = rem_len + ucast (b AND 127) * multiplier in
          if b AND 128 \<noteq> 0
          then decode_packet_remaining_len_loop n env timer (length bytes) (Some b)
                 (multiplier * 128) rem_len w
          else Some ((rc, rem_len), w)
        }
      })"

definition aws_iot_mqtt_internal_decode_packet_remaining_len ::
  "'w Env \<Rightarrow> Timer \<Rightarrow> 'w \<Rightarrow> ((IoT_Error_t \<times> u32) \<times> 'w) option" where
  "aws_iot_mqtt_internal_decode_packet_remaining_len env timer w =
     decode_packet_remaining_len_loop (fuel env) env timer 0 None 1 0 w"

text \<open>The loop that drops a packet larger than the receive buffer, with \<^verbatim>\<open>size_t\<close>
  arithmetic.\<close>

fun drain_loop ::
  "nat \<Rightarrow> 'w Env \<Rightarrow> nat \<Rightarrow> u32 \<Rightarrow> Timer \<Rightarrow> u32 \<Rightarrow> u32 \<Rightarrow> byte list \<times> 'w \<Rightarrow> (byte list \<times> 'w) option" where
  "drain_loop 0 env bufsize rem_len timer nread to_be_read s = None"
| "drain_loop (Suc n) env bufsize rem_len timer nread to_be_read s = do {
     (rc, read_len, buf, w) \<leftarrow> read_into env 0 (unat to_be_read) timer s;
     if rc = AWS_SUCCESS then
       let nread = nread + of_nat read_len;
           to_be_read = (if unat (rem_len - nread) \<ge> bufsize then of_nat bufsize else rem_len - nread)
       in if nread < rem_len then drain_loop n env bufsize rem_len timer nread to_be_read (buf, w)
          else Some (buf, w)
     else Some (buf, w)
   }"

text \<open>The result is the return code and \<open>*pPacketType\<close>, which only a successful call sets.\<close>

definition aws_iot_mqtt_internal_read_packet ::
  "'w Env \<Rightarrow> Timer \<Rightarrow> byte \<Rightarrow> Client \<times> 'w \<Rightarrow> ((IoT_Error_t \<times> byte) \<times> Client \<times> 'w) option" where
  "aws_iot_mqtt_internal_read_packet env timer ptype = (\<lambda>(c, w).
     let (packetTimer, w) = countdown_ms env (packetTimeoutMs c) w in do {
     (rc, read_len, buf, w) \<leftarrow> read_into env 0 1 timer (readBuf c, w);
     let c = c\<lparr>readBuf := buf\<rparr> in
     if rc = NETWORK_SSL_NOTHING_TO_READ then Some ((MQTT_NOTHING_TO_READ, ptype), c, w)
     else if rc \<noteq> AWS_SUCCESS then Some ((rc, ptype), c, w)
     else do {
       ((rc, rem_len), w) \<leftarrow> aws_iot_mqtt_internal_decode_packet_remaining_len env packetTimer w;
       if rc \<noteq> AWS_SUCCESS then Some ((rc, ptype), c, w)
       else if unat rem_len \<ge> readBufSize c then do {
         (buf, w) \<leftarrow> drain_loop (fuel env) env (readBufSize c) rem_len packetTimer 0
                      (of_nat (readBufSize c)) (readBuf c, w);
         Some ((MQTT_RX_BUFFER_TOO_SHORT_ERROR, ptype), c\<lparr>readBuf := buf\<rparr>, w)
       }
       else do {
         (buf, len) \<leftarrow> aws_iot_mqtt_internal_write_len_to_buffer rem_len (readBuf c, 1);
         (rc, read_len, buf, w) \<leftarrow>
           (if rem_len > 0 then read_into env len (unat rem_len) packetTimer (buf, w)
            else Some (rc, unat rem_len, buf, w));
         let c = c\<lparr>readBuf := buf\<rparr> in
         if rc \<noteq> AWS_SUCCESS \<or> read_len \<noteq> unat rem_len then Some ((AWS_FAILURE, ptype), c, w)
         else do {
           header \<leftarrow> rd (readBuf c) 0;
           Some ((rc, header_type header), c, w)
         }
       }
     }})"

section \<open>Delivering messages\<close>

text \<open>The handler table is searched slot by slot; a handler sees and may change the client, and
  the topic is read from the receive buffer again for every slot.\<close>

fun deliver_loop ::
  "'w Env \<Rightarrow> nat \<Rightarrow> u16 \<Rightarrow> Received_Publish \<Rightarrow> nat list \<Rightarrow> Client \<times> 'w \<Rightarrow> (Client \<times> 'w) option" where
  "deliver_loop env topic len rx [] s = Some s"
| "deliver_loop env topic len rx (itr # itrs) (c, w) =
     (let h = messageHandlers c ! itr in
      case mh_topicName h of
        None \<Rightarrow> deliver_loop env topic len rx itrs (c, w)
      | Some filter_mem \<Rightarrow> do {
          name \<leftarrow> mem_take (unat len) (drop topic (readBuf c));
          if (len = mh_topicNameLen h \<and> strncmp_eq (unat len) name filter_mem)
             \<or> aws_iot_mqtt_internal_is_topic_matched filter_mem name
          then if mh_pApplicationHandler h \<noteq> NULL
               then do {
                 s \<leftarrow> app_handler env (mh_pApplicationHandler h) topic len rx
                        (mh_pApplicationHandlerData h) (c, w);
                 deliver_loop env topic len rx itrs s
               }
               else deliver_loop env topic len rx itrs (c, w)
          else deliver_loop env topic len rx itrs (c, w)
        })"

definition aws_iot_mqtt_internal_deliver_message ::
  "'w Env \<Rightarrow> nat \<Rightarrow> u16 \<Rightarrow> Received_Publish \<Rightarrow> Client \<times> 'w \<Rightarrow> (IoT_Error_t \<times> Client \<times> 'w) option" where
  "aws_iot_mqtt_internal_deliver_message env topic len rx = (\<lambda>(c, w).
     let clientState = aws_iot_mqtt_get_client_state c;
         (rc, s) = aws_iot_mqtt_set_client_state env clientState
                     CLIENT_STATE_CONNECTED_WAIT_FOR_CB_RETURN (c, w)
     in do {
       s \<leftarrow> deliver_loop env topic len rx [0..<AWS_IOT_MQTT_NUM_SUBSCRIBE_HANDLERS] s;
       Some (aws_iot_mqtt_set_client_state env CLIENT_STATE_CONNECTED_WAIT_FOR_CB_RETURN clientState s)
     })"

definition aws_iot_mqtt_internal_handle_publish ::
  "'w Env \<Rightarrow> Timer \<Rightarrow> Client \<times> 'w \<Rightarrow> (IoT_Error_t \<times> Client \<times> 'w) option" where
  "aws_iot_mqtt_internal_handle_publish env timer = (\<lambda>(c, w).
     case aws_iot_mqtt_internal_deserialize_publish (readBuf c) (readBufSize c) of
       None \<Rightarrow> None
     | Some (Inl rc) \<Rightarrow> Some (rc, c, w)
     | Some (Inr msg) \<Rightarrow> do {
         (rc, c, w) \<leftarrow> aws_iot_mqtt_internal_deliver_message env (rx_topicName msg)
                         (rx_topicNameLen msg) msg (c, w);
         if rc \<noteq> AWS_SUCCESS then Some (rc, c, w)
         else if rx_qos msg = QOS0 then Some (AWS_SUCCESS, c, w)
         else do {
           msg_id \<leftarrow> rx_id msg;
           case aws_iot_mqtt_internal_serialize_ack (writeBuf c) (writeBufSize c) PUBACK 0 msg_id of
             None \<Rightarrow> None
           | Some (Inl rc) \<Rightarrow> Some (rc, c, w)
           | Some (Inr (buf, len)) \<Rightarrow> do {
               (rc, w) \<leftarrow> aws_iot_mqtt_internal_send_packet env (c\<lparr>writeBuf := buf\<rparr>) len timer w;
               Some (rc, c\<lparr>writeBuf := buf\<rparr>, w)
             }
         }
       })"

section \<open>One cycle, and waiting for a packet\<close>

definition aws_iot_mqtt_internal_cycle_read ::
  "'w Env \<Rightarrow> Timer \<Rightarrow> byte \<Rightarrow> Client \<times> 'w \<Rightarrow> ((IoT_Error_t \<times> byte) \<times> Client \<times> 'w) option" where
  "aws_iot_mqtt_internal_cycle_read env timer ptype = (\<lambda>(c, w).
     let (threadRc, w) = aws_iot_mqtt_client_lock_mutex env c Tls_read_mutex w in
     if threadRc \<noteq> AWS_SUCCESS then Some ((threadRc, ptype), c, w)
     else do {
       ((rc, ptype), c, w) \<leftarrow> aws_iot_mqtt_internal_read_packet env timer ptype (c, w);
       let (threadRc, w) = aws_iot_mqtt_client_unlock_mutex env Tls_read_mutex w in
       if threadRc \<noteq> AWS_SUCCESS \<and> (rc = MQTT_NOTHING_TO_READ \<or> rc = AWS_SUCCESS)
       then Some ((threadRc, ptype), c, w)
       else if rc = MQTT_NOTHING_TO_READ then Some ((AWS_SUCCESS, ptype), c, w)
       else if rc \<noteq> AWS_SUCCESS then Some ((rc, ptype), c, w)
       else if ptype \<in> {type_code CONNACK, type_code PUBACK, type_code SUBACK, type_code UNSUBACK}
       then Some ((rc, ptype), c, w)
       else if ptype = type_code PUBLISH then do {
         (rc, c, w) \<leftarrow> aws_iot_mqtt_internal_handle_publish env timer (c, w);
         Some ((rc, ptype), c, w)
       }
       else if ptype \<in> {type_code PUBREC, type_code PUBCOMP} then Some ((rc, ptype), c, w)
       else if ptype = type_code PINGRESP then
         let (t, w) = countdown_sec env (ucast (keepAliveInterval c)) w
         in Some ((rc, ptype), c\<lparr>isPingOutstanding := False, pingTimer := t\<rparr>, w)
       else Some ((MQTT_RX_MESSAGE_PACKET_TYPE_INVALID_ERROR, ptype), c, w)
     })"

fun wait_loop ::
  "nat \<Rightarrow> 'w Env \<Rightarrow> byte \<Rightarrow> Timer \<Rightarrow> byte \<Rightarrow> Client \<times> 'w \<Rightarrow> ((IoT_Error_t \<times> byte) \<times> Client \<times> 'w) option" where
  "wait_loop 0 env packetType timer read_type s = None"
| "wait_loop (Suc n) env packetType timer read_type (c, w) =
     (let (expired, w) = has_timer_expired env timer w in
      if expired then Some ((MQTT_REQUEST_TIMEOUT_ERROR, read_type), c, w)
      else do {
        ((rc, read_type), s) \<leftarrow> aws_iot_mqtt_internal_cycle_read env timer read_type (c, w);
        if rc \<noteq> NETWORK_DISCONNECTED_ERROR \<and> read_type \<noteq> packetType
        then wait_loop n env packetType timer read_type s
        else Some ((rc, read_type), s)
      })"

definition aws_iot_mqtt_internal_wait_for_read ::
  "'w Env \<Rightarrow> MessageTypes \<Rightarrow> Timer \<Rightarrow> Client \<times> 'w \<Rightarrow> (IoT_Error_t \<times> Client \<times> 'w) option" where
  "aws_iot_mqtt_internal_wait_for_read env packetType timer s = do {
     ((rc, read_type), s) \<leftarrow> wait_loop (fuel env) env (type_code packetType) timer 0 s;
     if rc \<noteq> MQTT_REQUEST_TIMEOUT_ERROR \<and> rc \<noteq> NETWORK_DISCONNECTED_ERROR \<and>
        read_type \<noteq> type_code packetType
     then Some (AWS_FAILURE, s) else Some (rc, s)
   }"

section \<open>The contract of a byte stream\<close>

text \<open>What the client relies on of the network stack and the operating system: reading \<open>n\<close>
  bytes of a stream that has them takes them from its front, an empty stream has nothing to
  read, no read stores more than it was asked for, and clock and mutexes leave the stream
  alone.\<close>

locale network_stream =
  fixes env :: "'w Env" and pending :: "'w \<Rightarrow> byte list"
  assumes tick_pending: "pending (snd (os_ticks_get env w)) = pending w"
    and lock_pending: "pending (snd (os_mutex_get env m x w)) = pending w"
    and unlock_pending: "pending (snd (os_mutex_put env m w)) = pending w"
    and read_available: "n \<le> length (pending w) \<Longrightarrow>
      \<exists>w'. net_read env n timer w = Some (AWS_SUCCESS, take n (pending w), w') \<and> pending w' = drop n (pending w)"
    and read_empty: "pending w = [] \<Longrightarrow> 0 < n \<Longrightarrow>
      \<exists>w'. net_read env n timer w = Some (NETWORK_SSL_NOTHING_TO_READ, [], w') \<and> pending w' = []"
    and read_bounded: "net_read env n timer w = Some (rc, bs, w') \<Longrightarrow> length bs \<le> n"
begin

lemma read_prefix:
  "pending w = bs @ rest \<Longrightarrow>
   \<exists>w'. net_read env (length bs) timer w = Some (AWS_SUCCESS, bs, w') \<and> pending w' = rest"
  using read_available [of "length bs" w timer] by simp

lemma read_byte:
  "pending w = b # rest \<Longrightarrow>
   \<exists>w'. net_read env 1 timer w = Some (AWS_SUCCESS, [b], w') \<and> pending w' = rest"
  using read_prefix [of w "[b]" rest] by simp

lemma read_into_prefix:
  assumes "pending w = bs @ rest" "p + length bs \<le> length buf"
  shows "\<exists>w'. read_into env p (length bs) timer (buf, w)
    = Some (AWS_SUCCESS, length bs, take p buf @ bs @ drop (p + length bs) buf, w') \<and> pending w' = rest"
proof -
  obtain w' where "net_read env (length bs) timer w = Some (AWS_SUCCESS, bs, w')" "pending w' = rest"
    using read_prefix [OF assms(1)] by blast
  with assms(2) show ?thesis
    by (simp add: read_into_def put_bytes_def)
qed

lemma countdown_pending: "pending (snd (countdown_ms env ms w)) = pending w"
  using tick_pending [of w] by (cases "os_ticks_get env w") (simp add: countdown_ms_def)

text \<open>The remaining length.\<close>

lemma remaining_len_loop_stream:
  "pending w = encode_len k @ rest \<Longrightarrow> length (encode_len k) < n \<Longrightarrow> len < 4 \<Longrightarrow>
   \<exists>w'. decode_packet_remaining_len_loop n env timer len eb m r w
     = Some ((AWS_SUCCESS, r + of_nat k * m), w') \<and> pending w' = rest"
proof (induction k arbitrary: n w len eb m r rule: encode_len.induct)
  case (1 k)
  obtain n' where n: "n = Suc n'"
    using "1.prems" by (cases n) auto
  show ?case
  proof (cases "k < 128")
    case True
    then have e: "encode_len k = [of_nat k]"
      by (simp add: encode_len.simps)
    obtain w' where "net_read env 1 timer w = Some (AWS_SUCCESS, [of_nat k], w')" "pending w' = rest"
      using read_byte [of w "of_nat k" rest] "1.prems" e by auto
    then show ?thesis
      using septet [OF True] "1.prems" by (simp add: n MAX_NO_OF_REMAINING_LENGTH_BYTES_def
          ucast_of_nat_septet [OF True])
  next
    case False
    let ?b = "of_nat (k mod 128 + 128) :: byte" and ?t = "encode_len (k div 128)"
    have e: "encode_len k = ?b # ?t"
      using False by (subst encode_len.simps) (simp del: of_nat_add)
    have small: "k mod 128 < 128" by simp
    obtain w' where w': "net_read env 1 timer w = Some (AWS_SUCCESS, [?b], w')" "pending w' = ?t @ rest"
      using read_byte [of w ?b "?t @ rest"] "1.prems" e by (auto simp del: of_nat_add)
    have tail: "length ?t < n'" "(1::nat) < 4"
      using "1.prems" e n by simp_all
    obtain w'' where "decode_packet_remaining_len_loop n' env timer 1 (Some ?b) (m * 128)
          (r + of_nat (k mod 128) * m) w'
        = Some ((AWS_SUCCESS, (r + of_nat (k mod 128) * m) + of_nat (k div 128) * (m * 128)), w'')"
      "pending w'' = rest"
      using "1.IH" [OF False w'(2) tail] by blast
    then show ?thesis
      using septet [OF small] w'(1) "1.prems"
      by (simp add: n MAX_NO_OF_REMAINING_LENGTH_BYTES_def ucast_of_nat_septet [OF small]
          of_nat_septet_split [of k m] add.assoc del: of_nat_add)
  qed
qed

lemma remaining_len_stream:
  assumes "pending w = encode_len k @ rest" "length (encode_len k) < fuel env"
  shows "\<exists>w'. aws_iot_mqtt_internal_decode_packet_remaining_len env timer w
     = Some ((AWS_SUCCESS, of_nat k), w') \<and> pending w' = rest"
  using remaining_len_loop_stream [OF assms, of 0 timer None 1 0]
  by (simp add: aws_iot_mqtt_internal_decode_packet_remaining_len_def)

text \<open>A packet that fits is read as it is; \<open>4 < fuel\<close> is enough.\<close>

lemma read_packet_stream:
  assumes wf: "client_wf c" and fits: "length (mqtt_packet h body) \<le> AWS_IOT_MQTT_RX_BUF_LEN"
    and w: "pending w = mqtt_packet h body @ rest" and fuel: "4 < fuel env"
  shows "\<exists>w'. aws_iot_mqtt_internal_read_packet env timer ptype (c, w)
    = Some ((AWS_SUCCESS, header_type h),
        c\<lparr>readBuf := mqtt_packet h body @ drop (length (mqtt_packet h body)) (readBuf c)\<rparr>, w')
    \<and> pending w' = rest"
proof -
  let ?e = "encode_len (length body)"
  have small: "length body < 1024" and len: "1 + length ?e + length body \<le> 1024"
    using fits by (simp_all add: mqtt_packet_def)
  have bound: "length body < 268435456" using small by simp
  have unat: "unat (of_nat (length body) :: u32) = length body"
    by (rule unat_of_nat_length [OF bound])
  have e: "length ?e \<le> 4" by (rule length_encode_len_le4 [OF bound])
  obtain t w1 where w1: "countdown_ms env (packetTimeoutMs c) w = (t, w1)" "pending w1 = pending w"
    using countdown_pending [of "packetTimeoutMs c" w] by (metis snd_conv surj_pair)
  have buf: "length (readBuf c) = 1024" "readBufSize c = 1024"
    using wf by (simp_all add: client_wf_def)
  obtain w2 where w2: "read_into env 0 1 timer (readBuf c, w1)
      = Some (AWS_SUCCESS, 1, h # drop 1 (readBuf c), w2)" "pending w2 = ?e @ body @ rest"
    using read_into_prefix [of w1 "[h]" "?e @ body @ rest" 0 "readBuf c" timer] w1 w buf
    by (auto simp: mqtt_packet_def)
  obtain w3 where w3: "aws_iot_mqtt_internal_decode_packet_remaining_len env t w2
      = Some ((AWS_SUCCESS, of_nat (length body)), w3)" "pending w3 = body @ rest"
    using remaining_len_stream [OF w2(2), of t] e fuel by auto
  have wr: "aws_iot_mqtt_internal_write_len_to_buffer (of_nat (length body)) (h # drop 1 (readBuf c), 1)
      = Some ((h # ?e) @ drop (1 + length ?e) (readBuf c), 1 + length ?e)"
    using len buf by (simp add: write_len_wire unat put_bytes_def)
  obtain w4 where w4: "read_into env (1 + length ?e) (length body) t
        ((h # ?e) @ drop (1 + length ?e) (readBuf c), w3)
      = Some (AWS_SUCCESS, length body, mqtt_packet h body
          @ drop (length (mqtt_packet h body)) (readBuf c), w4)" "pending w4 = rest"
    using read_into_prefix [OF w3(2), of "1 + length ?e" "(h # ?e) @ drop (1 + length ?e) (readBuf c)" t]
      len buf by (auto simp: mqtt_packet_def add.commute)
  have skip: "body = [] \<Longrightarrow> (h # ?e) @ drop (1 + length ?e) (readBuf c)
      = mqtt_packet h body @ drop (length (mqtt_packet h body)) (readBuf c)"
    by (simp add: mqtt_packet_def)
  have first: "rd (mqtt_packet h body @ drop (length (mqtt_packet h body)) (readBuf c)) 0 = Some h"
    by (simp add: mqtt_packet_def)
  show ?thesis
  proof (cases "body = []")
    case True
    then show ?thesis
      using w1 w2 w3 wr unat small buf skip first
      by (simp add: aws_iot_mqtt_internal_read_packet_def)
  next
    case False
    then have "of_nat (length body) > (0 :: u32)"
      using unat by (simp add: word_less_nat_alt)
    then show ?thesis
      using w1 w2 w3 wr w4 unat small buf first
      by (simp add: aws_iot_mqtt_internal_read_packet_def)
  qed
qed

text \<open>A packet one or two bytes too long for the buffer passes the size check of the body alone
  and is stored past the end of the buffer.\<close>

lemma read_packet_overflow:
  assumes wf: "client_wf c" and len: "1022 \<le> length body" "length body < 1024"
    and w: "pending w = mqtt_packet h body @ rest" and fuel: "4 < fuel env"
  shows "aws_iot_mqtt_internal_read_packet env timer ptype (c, w) = None"
proof -
  let ?e = "encode_len (length body)"
  have bound: "length body < 268435456" using len by simp
  have unat: "unat (of_nat (length body) :: u32) = length body"
    by (rule unat_of_nat_length [OF bound])
  have e: "length ?e = 2" using len by (simp add: length_encode_len)
  obtain t w1 where w1: "countdown_ms env (packetTimeoutMs c) w = (t, w1)" "pending w1 = pending w"
    using countdown_pending [of "packetTimeoutMs c" w] by (metis snd_conv surj_pair)
  have buf: "length (readBuf c) = 1024" "readBufSize c = 1024"
    using wf by (simp_all add: client_wf_def)
  obtain w2 where w2: "read_into env 0 1 timer (readBuf c, w1)
      = Some (AWS_SUCCESS, 1, h # drop 1 (readBuf c), w2)" "pending w2 = ?e @ body @ rest"
    using read_into_prefix [of w1 "[h]" "?e @ body @ rest" 0 "readBuf c" timer] w1 w buf
    by (auto simp: mqtt_packet_def)
  obtain w3 where w3: "aws_iot_mqtt_internal_decode_packet_remaining_len env t w2
      = Some ((AWS_SUCCESS, of_nat (length body)), w3)" "pending w3 = body @ rest"
    using remaining_len_stream [OF w2(2), of t] e fuel by auto
  have wr: "aws_iot_mqtt_internal_write_len_to_buffer (of_nat (length body)) (h # drop 1 (readBuf c), 1)
      = Some ((h # ?e) @ drop 3 (readBuf c), 3)"
    using e buf by (simp add: write_len_wire unat put_bytes_def numeral_3_eq_3)
  obtain w4 where "net_read env (length body) t w3 = Some (AWS_SUCCESS, body, w4)"
    using read_prefix [OF w3(2)] by blast
  then have over: "read_into env 3 (length body) t ((h # ?e) @ drop 3 (readBuf c), w3) = None"
    using len buf e by (simp add: read_into_def put_bytes_def)
  have "of_nat (length body) > (0 :: u32)"
    using unat len(1) by (simp add: word_less_nat_alt del: unat_of_nat)
      (metis list.size(3) not_numeral_le_zero)
  then show ?thesis
    using w1 w2 w3 wr over unat len buf
    by (simp add: aws_iot_mqtt_internal_read_packet_def)
qed

text \<open>A packet too large for the buffer is dropped, and the stream is left behind it.\<close>

lemma drain_loop_stream:
  "pending w = bs @ rest \<Longrightarrow> k + length bs = R \<Longrightarrow> bs \<noteq> [] \<Longrightarrow> R < 4294967296 \<Longrightarrow>
   unat tbr = min 1024 (length bs) \<Longrightarrow> length bs \<le> 1024 * n \<Longrightarrow> length buf = 1024 \<Longrightarrow>
   \<exists>buf' w'. drain_loop n env 1024 (of_nat R) timer (of_nat k) tbr (buf, w) = Some (buf', w')
     \<and> pending w' = rest \<and> length buf' = 1024"
proof (induction n arbitrary: w bs k tbr buf)
  case (Suc n)
  define m where "m = min 1024 (length bs)"
  let ?as = "take m bs" and ?bs = "drop m bs"
  have m: "m \<le> 1024" "m \<le> length bs" "m = 1024 \<or> m = length bs" by (auto simp: m_def)
  have len: "length ?as = m" using m by simp
  have "pending w = ?as @ ?bs @ rest" "0 + length ?as \<le> length buf"
    using Suc.prems m by simp_all
  from read_into_prefix [OF this, of timer, unfolded len]
  obtain w1 where w1: "read_into env 0 m timer (buf, w)
      = Some (AWS_SUCCESS, m, ?as @ drop m buf, w1)" "pending w1 = ?bs @ rest"
    by auto
  have tbr: "unat tbr = m" using Suc.prems m_def by simp
  have sum: "of_nat k + of_nat m = (of_nat (k + m) :: u32)" by simp
  have less: "of_nat (k + m) < (of_nat R :: u32) \<longleftrightarrow> k + m < R"
  proof -
    have "unat (of_nat (k + m) :: u32) = k + m" "unat (of_nat R :: u32) = R"
      by (rule unat_of_nat_lt, use Suc.prems m in simp)+
    then show ?thesis by (simp only: word_less_nat_alt)
  qed
  show ?case
  proof (cases "?bs = []")
    case True
    then have "k + m = R" using Suc.prems m by simp
    then show ?thesis
      using w1 True Suc.prems less sum tbr m by auto
  next
    case False
    then have more: "k + m < R" "k + m + length ?bs = R"
      using Suc.prems m by auto
    have diff: "(of_nat R :: u32) - (of_nat k + of_nat m) = of_nat (length ?bs)"
      unfolding more(2) [symmetric] of_nat_add by (rule add_diff_cancel_left')
    have unat: "unat (of_nat (length ?bs) :: u32) = length ?bs"
      by (rule unat_of_nat_lt) (use more Suc.prems in simp)
    define tbr' where "tbr' = (if 1024 \<le> unat ((of_nat R :: u32) - (of_nat k + of_nat m))
      then of_nat 1024 else of_nat R - (of_nat k + of_nat m) :: u32)"
    have tbr': "unat tbr' = min 1024 (length ?bs)"
      unfolding tbr'_def diff using unat by (simp add: min_def)
    have "\<exists>buf' w'. drain_loop n env 1024 (of_nat R) timer (of_nat (k + m)) tbr' (?as @ drop m buf, w1)
        = Some (buf', w') \<and> pending w' = rest \<and> length buf' = 1024"
    proof (rule Suc.IH [OF w1(2) more(2) False _ tbr'])
      show "R < 4294967296" using Suc.prems by simp
      show "length ?bs \<le> 1024 * n" 
      proof -
        have "m = 1024" using m(3) False by auto
        then show ?thesis using Suc.prems(6) by simp
      qed
      show "length (?as @ drop m buf) = 1024" using Suc.prems(7) m(1,2) by simp
    qed
    then show ?thesis
      using w1 tbr less more(1) unfolding tbr'_def by (simp add: Let_def)
  qed
qed simp

lemma read_packet_too_long:
  assumes wf: "client_wf c" and len: "1024 \<le> length body" "length body < 268435456"
    and w: "pending w = mqtt_packet h body @ rest" and fuel: "4 < fuel env" "length body \<le> 1024 * fuel env"
  shows "\<exists>buf w'. aws_iot_mqtt_internal_read_packet env timer ptype (c, w)
    = Some ((MQTT_RX_BUFFER_TOO_SHORT_ERROR, ptype), c\<lparr>readBuf := buf\<rparr>, w')
    \<and> length buf = AWS_IOT_MQTT_RX_BUF_LEN \<and> pending w' = rest"
proof -
  let ?e = "encode_len (length body)"
  have unat: "unat (of_nat (length body) :: u32) = length body"
    by (rule unat_of_nat_length [OF len(2)])
  have e: "length ?e \<le> 4" by (rule length_encode_len_le4 [OF len(2)])
  obtain t w1 where w1: "countdown_ms env (packetTimeoutMs c) w = (t, w1)" "pending w1 = pending w"
    using countdown_pending [of "packetTimeoutMs c" w] by (metis snd_conv surj_pair)
  have buf: "length (readBuf c) = 1024" "readBufSize c = 1024"
    using wf by (simp_all add: client_wf_def)
  obtain w2 where w2: "read_into env 0 1 timer (readBuf c, w1)
      = Some (AWS_SUCCESS, 1, h # drop 1 (readBuf c), w2)" "pending w2 = ?e @ body @ rest"
    using read_into_prefix [of w1 "[h]" "?e @ body @ rest" 0 "readBuf c" timer] w1 w buf
    by (auto simp: mqtt_packet_def)
  obtain w3 where w3: "aws_iot_mqtt_internal_decode_packet_remaining_len env t w2
      = Some ((AWS_SUCCESS, of_nat (length body)), w3)" "pending w3 = body @ rest"
    using remaining_len_stream [OF w2(2), of t] e fuel by auto
  have ne: "body \<noteq> []" using len by auto
  obtain buf' w' where "drain_loop (fuel env) env 1024 (of_nat (length body)) t 0 1024
      (h # drop 1 (readBuf c), w3) = Some (buf', w')" "pending w' = rest" "length buf' = 1024"
    using drain_loop_stream [OF w3(2), of 0 "length body" 1024 "fuel env" "h # drop 1 (readBuf c)" t]
      ne len fuel buf by auto
  then show ?thesis
    using w1 w2 w3 unat len buf
    by (auto simp: aws_iot_mqtt_internal_read_packet_def)
qed

lemma read_packet_idle:
  assumes "pending w = []"
  shows "\<exists>w'. aws_iot_mqtt_internal_read_packet env timer ptype (c, w)
    = Some ((MQTT_NOTHING_TO_READ, ptype), c, w') \<and> pending w' = []"
proof -
  obtain t w1 where w1: "countdown_ms env (packetTimeoutMs c) w = (t, w1)" "pending w1 = []"
    using countdown_pending [of "packetTimeoutMs c" w] assms by (metis snd_conv surj_pair)
  obtain w2 where "net_read env 1 timer w1 = Some (NETWORK_SSL_NOTHING_TO_READ, [], w2)" "pending w2 = []"
    using read_empty [OF w1(2), of 1 timer] by auto
  with w1 show ?thesis
    by (simp add: aws_iot_mqtt_internal_read_packet_def read_into_def)
qed

end

section \<open>The contract of a connected world\<close>

text \<open>What a handler call shows of itself: the handler, its data, the bytes of the topic and of
  the payload it can read.\<close>

type_synonym delivery = "ptr \<times> ptr \<times> byte list \<times> byte list"

text \<open>A stream whose writes are complete, whose mutexes work and whose application handlers
  leave the client alone: \<open>sent\<close> is what was written, \<open>seen\<close> what was delivered.\<close>

locale connected_world = network_stream env pending
  for env :: "'w Env" and pending :: "'w \<Rightarrow> byte list" +
  fixes sent :: "'w \<Rightarrow> byte list" and seen :: "'w \<Rightarrow> delivery list"
  assumes working_mutexes: "mutexes_work env"
    and tick_frame: "sent (snd (os_ticks_get env w)) = sent w" "seen (snd (os_ticks_get env w)) = seen w"
    and lock_frame: "sent (snd (os_mutex_get env m x w)) = sent w" "seen (snd (os_mutex_get env m x w)) = seen w"
    and unlock_frame: "sent (snd (os_mutex_put env m w)) = sent w" "seen (snd (os_mutex_put env m w)) = seen w"
    and read_frame: "net_read env n timer w = Some (rc, bs, w') \<Longrightarrow> sent w' = sent w \<and> seen w' = seen w"
    and write_all: "\<exists>w'. net_write env bs timer w = (AWS_SUCCESS, of_nat (length bs), w')
      \<and> sent w' = sent w @ bs \<and> pending w' = pending w \<and> seen w' = seen w"
    and handler_observes: "\<exists>w'. app_handler env fn topic len rx d (c, w) = Some (c, w')
      \<and> seen w' = seen w @ [(fn, d, take (unat len) (drop topic (readBuf c)),
            take (unat (rx_payloadLen rx)) (drop (rx_payload rx) (readBuf c)))]
      \<and> pending w' = pending w \<and> sent w' = sent w"
begin

text \<open>The three observations as one, so that a frame is one equation.\<close>

definition obs :: "'w \<Rightarrow> byte list \<times> byte list \<times> delivery list" where
  "obs w = (pending w, sent w, seen w)"

lemma tick_obs: "obs (snd (os_ticks_get env w)) = obs w"
  by (simp add: obs_def tick_pending tick_frame)

lemma lock_obs: "obs (snd (aws_iot_mqtt_client_lock_mutex env c m w)) = obs w"
  by (simp add: obs_def lock_pending lock_frame aws_iot_mqtt_client_lock_mutex_def
      aws_iot_thread_mutex_lock_def aws_iot_thread_mutex_trylock_def mutex_result_def)

lemma unlock_obs: "obs (snd (aws_iot_mqtt_client_unlock_mutex env m w)) = obs w"
  by (simp add: obs_def unlock_pending unlock_frame aws_iot_mqtt_client_unlock_mutex_def
      aws_iot_thread_mutex_unlock_def mutex_result_def)

lemma expired_obs: "obs (snd (has_timer_expired env timer w)) = obs w"
  using tick_obs [of w]
  by (cases "os_ticks_get env w") (simp add: has_timer_expired_def left_ms_def Let_def)

lemma lock_ok:
  "\<exists>w'. aws_iot_mqtt_client_lock_mutex env c m w = (AWS_SUCCESS, w') \<and> obs w' = obs w"
  using lock_works [OF working_mutexes, of c m w] lock_obs [of c m w] by (metis prod.collapse)

lemma unlock_ok:
  "\<exists>w'. aws_iot_mqtt_client_unlock_mutex env m w = (AWS_SUCCESS, w') \<and> obs w' = obs w"
  using unlock_works [OF working_mutexes, of m w] unlock_obs [of m w] by (metis prod.collapse)

lemma set_state_ok:
  "\<exists>w'. aws_iot_mqtt_set_client_state env old new (c, w)
    = (if clientState c = old then AWS_SUCCESS else MQTT_UNEXPECTED_CLIENT_STATE_ERROR,
       if clientState c = old then c\<lparr>clientState := new\<rparr> else c, w') \<and> obs w' = obs w"
proof -
  obtain w1 where w1: "aws_iot_mqtt_client_lock_mutex env c State_change_mutex w = (AWS_SUCCESS, w1)"
      "obs w1 = obs w"
    using lock_ok by blast
  obtain w2 where "aws_iot_mqtt_client_unlock_mutex env State_change_mutex w1 = (AWS_SUCCESS, w2)"
      "obs w2 = obs w1"
    using unlock_ok by blast
  with w1 show ?thesis
    by (simp add: aws_iot_mqtt_set_client_state_def aws_iot_mqtt_get_client_state_def)
qed

text \<open>A packet in the transmit buffer is sent by one write, when the timer has not expired.\<close>

lemma send_packet_ok:
  assumes "client_wf c" "0 < len" "len < AWS_IOT_MQTT_TX_BUF_LEN" "2 \<le> fuel env"
    and unexpired: "\<And>w. \<not> fst (has_timer_expired env timer w)"
  shows "\<exists>w'. aws_iot_mqtt_internal_send_packet env c len timer w = Some (AWS_SUCCESS, w')
    \<and> obs w' = (pending w, sent w @ take len (writeBuf c), seen w)"
proof -
  obtain n where "fuel env = 2 + n"
    using le_Suc_ex [OF assms(4)] by blast
  then have n: "fuel env = Suc (Suc n)"
    by simp
  obtain w1 where w1: "aws_iot_mqtt_client_lock_mutex env c Tls_write_mutex w = (AWS_SUCCESS, w1)"
      "obs w1 = obs w"
    using lock_ok by blast
  obtain w2 where w2: "has_timer_expired env timer w1 = (False, w2)" "obs w2 = obs w1"
    using unexpired [of w1] expired_obs [of timer w1] by (metis prod.collapse)
  define bytes where "bytes = take len (writeBuf c)"
  have bytes: "length bytes = len" "mem_take len (writeBuf c) = Some bytes"
    using assms by (simp_all add: bytes_def mem_take_def client_wf_def)
  obtain w3 where w3: "net_write env bytes timer w2 = (AWS_SUCCESS, of_nat len, w3)"
      "sent w3 = sent w2 @ bytes" "pending w3 = pending w2" "seen w3 = seen w2"
    using write_all [of bytes timer w2] bytes by auto
  obtain w4 where w4: "aws_iot_mqtt_client_unlock_mutex env Tls_write_mutex w3 = (AWS_SUCCESS, w4)"
      "obs w4 = obs w3"
    using unlock_ok by blast
  have "unat (of_nat len :: u32) = len"
    using assms by (intro unat_of_nat_lt) simp
  then have "send_loop (fuel env) env c len timer 0 w1 = Some (of_nat len, w3)"
    using w2 w3 bytes assms(2) by (simp add: n)
  with w1 w2 w3 w4 assms \<open>unat (of_nat len :: u32) = len\<close> show ?thesis
    by (simp add: aws_iot_mqtt_internal_send_packet_def client_wf_def obs_def bytes_def)
qed

end

section \<open>Delivery\<close>

text \<open>The handlers a message on topic \<open>name\<close> is for.\<close>

definition handler_selected :: "byte list \<Rightarrow> MessageHandlers \<Rightarrow> bool" where
  "handler_selected name h \<longleftrightarrow> (\<exists>f. mh_topicName h = Some f \<and> mh_pApplicationHandler h \<noteq> NULL \<and>
     level_match (levels f) (levels name))"

text \<open>A table as \<open>aws_iot_mqtt_subscribe\<close> fills it: filters of the assumed form, with their
  lengths.\<close>

definition handler_ok :: "MessageHandlers \<Rightarrow> bool" where
  "handler_ok h \<longleftrightarrow> (case mh_topicName h of None \<Rightarrow> True
     | Some f \<Rightarrow> wf_filter f \<and> unat (mh_topicNameLen h) = length f)"

lemma level_match_refl: "wf_levels fs \<Longrightarrow> level_match fs fs"
  by (induction fs) auto

text \<open>The two tests of the delivery loop amount to the match of the levels.\<close>

lemma delivery_test:
  assumes "handler_ok h" "mh_topicName h = Some f" "length name = unat len" "0 \<notin> set name"
  shows "(len = mh_topicNameLen h \<and> strncmp_eq (unat len) name f)
      \<or> aws_iot_mqtt_internal_is_topic_matched f name \<longleftrightarrow> level_match (levels f) (levels name)"
proof -
  have wf: "wf_filter f" and f: "unat (mh_topicNameLen h) = length f"
    using assms by (simp_all add: handler_ok_def)
  have "name = f" if "len = mh_topicNameLen h" "strncmp_eq (unat len) name f"
  proof -
    have "length f = unat len"
      using f that(1) by simp
    from strncmp_eq_iff [OF assms(3) this assms(4)] that(2) show ?thesis
      by blast
  qed
  then show ?thesis
    using topic_matched_levels [OF wf, of name] level_match_refl wf by (auto simp: wf_filter_def)
qed

context connected_world begin

definition delivery_of :: "Client \<Rightarrow> nat \<Rightarrow> u16 \<Rightarrow> Received_Publish \<Rightarrow> MessageHandlers \<Rightarrow> delivery" where
  "delivery_of c topic len rx h = (mh_pApplicationHandler h, mh_pApplicationHandlerData h,
     take (unat len) (drop topic (readBuf c)),
     take (unat (rx_payloadLen rx)) (drop (rx_payload rx) (readBuf c)))"

lemma deliver_loop_ok:
  assumes "\<forall>i \<in> set itrs. handler_ok (messageHandlers c ! i)"
    and name: "name = take (unat len) (drop topic (readBuf c))" "topic + unat len \<le> length (readBuf c)"
      "0 \<notin> set name"
  shows "\<exists>w'. deliver_loop env topic len rx itrs (c, w) = Some (c, w')
    \<and> obs w' = (pending w, sent w, seen w @ map (delivery_of c topic len rx)
        (filter (handler_selected name) (map ((!) (messageHandlers c)) itrs)))"
  using assms(1)
proof (induction itrs arbitrary: w)
  case (Cons i itrs)
  let ?h = "messageHandlers c ! i"
  have take: "mem_take (unat len) (drop topic (readBuf c)) = Some name" "length name = unat len"
    using name by (simp_all add: mem_take_def)
  obtain w1 where w1: "app_handler env (mh_pApplicationHandler ?h) topic len rx
        (mh_pApplicationHandlerData ?h) (c, w) = Some (c, w1)"
      "obs w1 = (pending w, sent w, seen w @ [delivery_of c topic len rx ?h])"
    using handler_observes [of "mh_pApplicationHandler ?h" topic len rx "mh_pApplicationHandlerData ?h" c w]
    by (auto simp: obs_def delivery_of_def)
  show ?case
  proof (cases "mh_topicName ?h")
    case None
    then show ?thesis
      using Cons by (simp add: handler_selected_def Let_def)
  next
    case (Some f)
    have test: "(len = mh_topicNameLen ?h \<and> strncmp_eq (unat len) name f)
        \<or> aws_iot_mqtt_internal_is_topic_matched f name \<longleftrightarrow> level_match (levels f) (levels name)"
      using delivery_test [OF _ Some take(2) name(3)] Cons.prems by simp
    show ?thesis
    proof (cases "handler_selected name ?h")
      case True
      then have "level_match (levels f) (levels name)" "mh_pApplicationHandler ?h \<noteq> NULL"
        by (simp_all add: handler_selected_def Some)
      moreover obtain w2 where "deliver_loop env topic len rx itrs (c, w1) = Some (c, w2)"
          "obs w2 = (pending w1, sent w1, seen w1 @ map (delivery_of c topic len rx)
            (filter (handler_selected name) (map ((!) (messageHandlers c)) itrs)))"
        using Cons.IH [of w1] Cons.prems by auto
      ultimately show ?thesis
        using w1 True take test by (simp add: Some Let_def obs_def)
    next
      case False
      then have "\<not> level_match (levels f) (levels name) \<or> mh_pApplicationHandler ?h = NULL"
        by (auto simp: handler_selected_def Some)
      then show ?thesis
        using Cons False take test by (auto simp: Some Let_def)
    qed
  qed
qed (simp add: obs_def)

lemma deliver_message_ok:
  assumes wf: "client_wf c" "\<forall>h \<in> set (messageHandlers c). handler_ok h"
    and name: "name = take (unat len) (drop topic (readBuf c))" "topic + unat len \<le> length (readBuf c)"
      "0 \<notin> set name"
  shows "\<exists>w'. aws_iot_mqtt_internal_deliver_message env topic len rx (c, w) = Some (AWS_SUCCESS, c, w')
    \<and> obs w' = (pending w, sent w, seen w @ map (delivery_of c topic len rx)
        (filter (handler_selected name) (messageHandlers c)))"
proof -
  let ?c = "c\<lparr>clientState := CLIENT_STATE_CONNECTED_WAIT_FOR_CB_RETURN\<rparr>"
  define itrs where "itrs = [0..<AWS_IOT_MQTT_NUM_SUBSCRIBE_HANDLERS]"
  have len: "length (messageHandlers c) = 5"
    using wf by (simp add: client_wf_def)
  have all: "map ((!) (messageHandlers c)) itrs = messageHandlers c"
    using map_nth [of "messageHandlers c"] by (simp only: len itrs_def)
  obtain w1 where w1: "aws_iot_mqtt_set_client_state env (clientState c)
      CLIENT_STATE_CONNECTED_WAIT_FOR_CB_RETURN (c, w) = (AWS_SUCCESS, ?c, w1)" "obs w1 = obs w"
    using set_state_ok [of "clientState c" CLIENT_STATE_CONNECTED_WAIT_FOR_CB_RETURN c w] by auto
  have "\<forall>i \<in> set itrs. handler_ok (messageHandlers ?c ! i)"
    using wf len by (simp add: itrs_def del: upt_rec_numeral)
  then obtain w2 where w2: "deliver_loop env topic len rx itrs (?c, w1) = Some (?c, w2)"
      "obs w2 = (pending w1, sent w1, seen w1 @ map (delivery_of ?c topic len rx)
        (filter (handler_selected name) (map ((!) (messageHandlers ?c)) itrs)))"
    using deliver_loop_ok [of itrs ?c name len topic rx w1] name by auto
  obtain w3 where w3: "aws_iot_mqtt_set_client_state env CLIENT_STATE_CONNECTED_WAIT_FOR_CB_RETURN
      (clientState c) (?c, w2) = (AWS_SUCCESS, c, w3)" "obs w3 = obs w2"
    using set_state_ok [of CLIENT_STATE_CONNECTED_WAIT_FOR_CB_RETURN "clientState c" ?c w2] by auto
  have "delivery_of ?c topic len rx = delivery_of c topic len rx"
    by (simp add: delivery_of_def fun_eq_iff)
  then show ?thesis
    unfolding aws_iot_mqtt_internal_deliver_message_def itrs_def [symmetric]
    using w1 w2 w3 all by (simp add: aws_iot_mqtt_get_client_state_def obs_def)
qed

end

section \<open>Receiving a PUBLISH\<close>

text \<open>The calls a message causes: every handler it is for, once, in the order of the table, with
  the message's topic and payload.\<close>

definition deliveries :: "MessageHandlers list \<Rightarrow> byte list \<Rightarrow> byte list \<Rightarrow> delivery list" where
  "deliveries hs topic pl =
     map (\<lambda>h. (mh_pApplicationHandler h, mh_pApplicationHandlerData h, topic, pl))
       (filter (handler_selected topic) hs)"

text \<open>The body of a PUBLISH as it arrives.\<close>

definition arriving_body :: "byte \<Rightarrow> byte list \<Rightarrow> u16 \<Rightarrow> byte list \<Rightarrow> byte list" where
  "arriving_body h topic pid pl = u16_bytes (of_nat (length topic)) @ topic
     @ (if header_qos h \<noteq> QOS0 then u16_bytes pid else []) @ pl"

definition ack_packet :: "byte \<Rightarrow> u16 \<Rightarrow> byte list" where
  "ack_packet h pid = (if header_qos h \<noteq> QOS0 then mqtt_packet 0x40 (u16_bytes pid) else [])"

context connected_world begin

lemma handle_publish_ok:
  assumes wf: "client_wf c" "\<forall>h \<in> set (messageHandlers c). handler_ok h"
    and body: "body = arriving_body h topic pid pl"
    and fits: "length (mqtt_packet h body) \<le> AWS_IOT_MQTT_RX_BUF_LEN"
    and buf: "readBuf c = mqtt_packet h body @ post"
    and h: "header_type h = type_code PUBLISH" and topic: "0 \<notin> set topic"
    and fuel: "2 \<le> fuel env" and unexpired: "\<And>w. \<not> fst (has_timer_expired env timer w)"
  shows "\<exists>wbuf w'. aws_iot_mqtt_internal_handle_publish env timer (c, w)
      = Some (AWS_SUCCESS, c\<lparr>writeBuf := wbuf\<rparr>, w') \<and> length wbuf = AWS_IOT_MQTT_TX_BUF_LEN
    \<and> obs w' = (pending w, sent w @ ack_packet h pid, seen w @ deliveries (messageHandlers c) topic pl)"
proof -
  define tn where "tn = (of_nat (length topic) :: u16)"
  define tp where "tp = body_offset body + 2"
  define pp where "pp = tp + length topic + (if header_qos h \<noteq> QOS0 then 2 else 0)"
  let ?f = "if header_qos h \<noteq> QOS0 then u16_bytes pid else []"
  define rx where "rx = \<lparr>rx_dup = header_dup h, rx_qos = header_qos h,
        rx_retained = header_retain h,
        rx_id = (if header_qos h \<noteq> QOS0 then Some pid else None),
        rx_topicName = tp, rx_topicNameLen = tn, rx_payload = pp,
        rx_payloadLen = of_nat (length pl)\<rparr>"
  have split: "body = u16_bytes tn @ topic @ ?f @ pl"
    by (simp add: body arriving_body_def tn_def)
  have sizes: "length topic < 1024" "length pl < 1024" "length body < 268435456"
    using fits split by (simp_all add: mqtt_packet_def)
  have tn: "unat tn = length topic"
    unfolding tn_def by (rule unat_of_nat_lt) (use sizes in simp)
  have pl: "unat (of_nat (length pl) :: u32) = length pl"
    by (rule unat_of_nat_lt) (use sizes in simp)
  have size: "readBufSize c = 1024" "writeBufSize c = 1024" "length (writeBuf c) = 1024"
    using wf by (simp_all add: client_wf_def)
  have des: "aws_iot_mqtt_internal_deserialize_publish (readBuf c) (readBufSize c) = success rx"
    using deserialize_publish_packet [OF split tn sizes(3), of 1024 post] h
    by (simp add: size buf rx_def tp_def pp_def)
  have rb: "readBuf c = ((h # encode_len (length body)) @ u16_bytes tn) @ topic @ ?f @ pl @ post"
    "readBuf c = (((h # encode_len (length body)) @ u16_bytes tn) @ topic @ ?f) @ pl @ post"
    unfolding buf mqtt_packet_def using split by simp_all
  have pos: "length ((h # encode_len (length body)) @ u16_bytes tn) = tp"
    "length (((h # encode_len (length body)) @ u16_bytes tn) @ topic @ ?f) = pp"
    by (simp_all add: tp_def pp_def body_offset_def)
  have at_topic: "take (unat tn) (drop tp (readBuf c)) = topic"
    unfolding rb(1) tn by (rule take_drop_at [OF pos(1) refl])
  have at_payload: "take (unat (rx_payloadLen rx)) (drop (rx_payload rx) (readBuf c)) = pl"
    unfolding rb(2) rx_def by (simp only: Received_Publish.simps pl) (rule take_drop_at [OF pos(2) refl])
  have inside: "tp + unat tn \<le> length (readBuf c)"
    using pos(1) tn rb(1) by simp
  obtain w1 where w1: "aws_iot_mqtt_internal_deliver_message env tp tn rx (c, w) = Some (AWS_SUCCESS, c, w1)"
      "obs w1 = (pending w, sent w, seen w @ map (delivery_of c tp tn rx)
        (filter (handler_selected topic) (messageHandlers c)))"
    using deliver_message_ok [OF wf at_topic [symmetric] inside topic, of rx w] by blast
  have calls: "map (delivery_of c tp tn rx) (filter (handler_selected topic) (messageHandlers c))
      = deliveries (messageHandlers c) topic pl"
    by (simp add: delivery_of_def deliveries_def at_topic at_payload)
  show ?thesis
  proof (cases "header_qos h = QOS0")
    case True
    have "aws_iot_mqtt_internal_handle_publish env timer (c, w) = Some (AWS_SUCCESS, c, w1)"
      using des w1 True by (simp add: aws_iot_mqtt_internal_handle_publish_def) (simp add: rx_def)
    moreover have "c\<lparr>writeBuf := writeBuf c\<rparr> = c"
      by simp
    ultimately show ?thesis
      using w1 calls size True by (metis ack_packet_def append_Nil2)
  next
    case False
    let ?ack = "mqtt_packet 0x40 (u16_bytes pid)" and ?wb = "snd"
    define wbuf where "wbuf = ?ack @ drop 4 (writeBuf c)"
    have ack: "length ?ack = 4" "init_byte PUBACK QOS0 0 0 = 0x40"
      by (simp_all add: mqtt_packet_def encode_len.simps init_byte_def header_byte_def)
    have ser: "aws_iot_mqtt_internal_serialize_ack (writeBuf c) (writeBufSize c) PUBACK 0 pid
        = success (wbuf, 4)"
      using serialize_ack [of PUBACK 1024 "writeBuf c" 0 pid] size ack
      by (simp add: emitted_def wbuf_def)
    have wf': "client_wf (c\<lparr>writeBuf := wbuf\<rparr>)" "length wbuf = 1024" "take 4 wbuf = ?ack"
      using wf size ack by (simp_all add: wbuf_def)
    obtain w2 where w2: "aws_iot_mqtt_internal_send_packet env (c\<lparr>writeBuf := wbuf\<rparr>) 4 timer w1
        = Some (AWS_SUCCESS, w2)" "obs w2 = (pending w1, sent w1 @ ?ack, seen w1)"
      using send_packet_ok [OF wf'(1) _ _ fuel unexpired, of 4 w1] wf' by auto
    have "aws_iot_mqtt_internal_handle_publish env timer (c, w)
        = Some (AWS_SUCCESS, c\<lparr>writeBuf := wbuf\<rparr>, w2)"
      using des w1 w2 ser False by (simp add: aws_iot_mqtt_internal_handle_publish_def) (simp add: rx_def)
    with w1 w2 calls wf' False show ?thesis
      by (auto simp: obs_def ack_packet_def)
  qed
qed

text \<open>Reading neither sends nor delivers.\<close>

definition quiet :: "'w \<Rightarrow> 'w \<Rightarrow> bool" where
  "quiet w w' \<longleftrightarrow> sent w' = sent w \<and> seen w' = seen w"

lemma quiet_trans: "quiet w w' \<Longrightarrow> quiet w' w'' \<Longrightarrow> quiet w w''"
  by (simp add: quiet_def)

lemma net_read_quiet: "net_read env n timer w = Some (rc, bs, w') \<Longrightarrow> quiet w w'"
  using read_frame by (simp add: quiet_def)

lemma read_into_quiet: "read_into env p n timer (buf, w) = Some (rc, k, buf', w') \<Longrightarrow> quiet w w'"
  using net_read_quiet by (auto simp: read_into_def bind_eq_Some_conv)

lemma countdown_quiet: "countdown_ms env ms w = (t, w') \<Longrightarrow> quiet w w'"
  using tick_frame [of w] by (auto simp: countdown_ms_def quiet_def split: prod.splits)

lemma remaining_len_loop_quiet:
  "decode_packet_remaining_len_loop n env timer len eb m r w = Some (x, w') \<Longrightarrow> quiet w w'"
proof (induction n arbitrary: len eb m r w)
  case (Suc n)
  show ?case
  proof (cases "net_read env 1 timer w")
    case None
    with Suc.prems show ?thesis
      by (auto simp: quiet_def split: if_splits)
  next
    case (Some y)
    obtain rc bs w1 where y: "y = (rc, bs, w1)" by (cases y)
    have "quiet w w1" using net_read_quiet Some y by simp
    with Suc.prems Some y Suc.IH [of _ _ _ _ w1] show ?thesis
      by (auto simp: bind_eq_Some_conv Let_def quiet_def split: if_splits)
  qed
qed simp

lemma drain_loop_quiet:
  "drain_loop n env sz r timer k t (buf, w) = Some (buf', w') \<Longrightarrow> quiet w w'"
proof (induction n arbitrary: k t buf w)
  case (Suc n)
  from Suc.prems obtain rc l buf1 w1
    where r: "read_into env 0 (unat t) timer (buf, w) = Some (rc, l, buf1, w1)"
    by (auto simp: bind_eq_Some_conv)
  with Suc.prems read_into_quiet [OF r] Suc.IH [of _ _ buf1 w1] show ?case
    by (auto simp: Let_def split: if_splits intro: quiet_trans)
qed simp

lemma read_packet_quiet:
  assumes "aws_iot_mqtt_internal_read_packet env timer ptype (c, w) = Some (x, c', w')"
  shows "quiet w w'"
proof -
  obtain t w1 where w1: "countdown_ms env (packetTimeoutMs c) w = (t, w1)"
    by fastforce
  from assms w1 obtain rc l buf w2
    where w2: "read_into env 0 1 timer (readBuf c, w1) = Some (rc, l, buf, w2)"
    by (auto simp: aws_iot_mqtt_internal_read_packet_def bind_eq_Some_conv)
  have q2: "quiet w w2"
    using countdown_quiet [OF w1] read_into_quiet [OF w2] by (rule quiet_trans)
  show ?thesis
  proof (cases "rc = AWS_SUCCESS")
    case False
    with assms w1 w2 q2 show ?thesis
      by (auto simp: aws_iot_mqtt_internal_read_packet_def Let_def split: if_splits)
  next
    case True
    from assms w1 w2 True obtain rc' rem w3
      where w3: "aws_iot_mqtt_internal_decode_packet_remaining_len env t w2 = Some ((rc', rem), w3)"
      by (auto simp: aws_iot_mqtt_internal_read_packet_def Let_def bind_eq_Some_conv)
    have q3: "quiet w w3"
      using q2 remaining_len_loop_quiet w3 quiet_trans
      unfolding aws_iot_mqtt_internal_decode_packet_remaining_len_def by blast
    from assms w1 w2 w3 True q3 show ?thesis
      by (auto simp: aws_iot_mqtt_internal_read_packet_def Let_def bind_eq_Some_conv split: if_splits
          dest!: drain_loop_quiet read_into_quiet intro: quiet_trans)
  qed
qed

text \<open>One cycle on a stream that starts with a packet: the packet is in the buffer and off the
  stream, nothing is sent or delivered before the packet is looked at.\<close>

lemma read_packet_ok:
  assumes wf: "client_wf c" and fits: "length (mqtt_packet h body) \<le> AWS_IOT_MQTT_RX_BUF_LEN"
    and w: "pending w = mqtt_packet h body @ rest" and fuel: "4 < fuel env"
  shows "\<exists>w'. aws_iot_mqtt_internal_read_packet env timer ptype (c, w)
    = Some ((AWS_SUCCESS, header_type h),
        c\<lparr>readBuf := mqtt_packet h body @ drop (length (mqtt_packet h body)) (readBuf c)\<rparr>, w')
    \<and> obs w' = (rest, sent w, seen w)"
  using read_packet_stream [OF assms, of timer ptype] read_packet_quiet [of timer ptype c w]
  by (fastforce simp: quiet_def obs_def)

lemma cycle_read_packet:
  assumes wf: "client_wf c" and fits: "length (mqtt_packet h body) \<le> AWS_IOT_MQTT_RX_BUF_LEN"
    and w: "pending w = mqtt_packet h body @ rest" and fuel: "4 < fuel env"
    and c': "c' = c\<lparr>readBuf := mqtt_packet h body @ drop (length (mqtt_packet h body)) (readBuf c)\<rparr>"
  shows "\<exists>w'. obs w' = (rest, sent w, seen w) \<and>
    aws_iot_mqtt_internal_cycle_read env timer ptype (c, w)
    = (if header_type h \<in> {2, 4, 9, 11, 5, 7} then Some ((AWS_SUCCESS, header_type h), c', w')
       else if header_type h = 3 then do {
         (rc, c, w) \<leftarrow> aws_iot_mqtt_internal_handle_publish env timer (c', w');
         Some ((rc, 3), c, w)
       }
       else if header_type h = 13 then
         let (t, w) = countdown_sec env (ucast (keepAliveInterval c)) w'
         in Some ((AWS_SUCCESS, 13), c'\<lparr>isPingOutstanding := False, pingTimer := t\<rparr>, w)
       else Some ((MQTT_RX_MESSAGE_PACKET_TYPE_INVALID_ERROR, header_type h), c', w'))"
proof -
  obtain w1 where w1: "aws_iot_mqtt_client_lock_mutex env c Tls_read_mutex w = (AWS_SUCCESS, w1)"
      "obs w1 = obs w"
    using lock_ok by blast
  have "pending w1 = mqtt_packet h body @ rest"
    using w1 w by (simp add: obs_def)
  then obtain w2 where w2: "aws_iot_mqtt_internal_read_packet env timer ptype (c, w1)
      = Some ((AWS_SUCCESS, header_type h), c', w2)" "obs w2 = (rest, sent w1, seen w1)"
    using read_packet_ok [OF wf fits _ fuel] c' by blast
  obtain w3 where w3: "aws_iot_mqtt_client_unlock_mutex env Tls_read_mutex w2 = (AWS_SUCCESS, w3)"
      "obs w3 = obs w2"
    using unlock_ok by blast
  have "obs w3 = (rest, sent w, seen w)"
    using w1 w2 w3 by (simp add: obs_def)
  moreover have "keepAliveInterval c' = keepAliveInterval c"
    by (simp add: c')
  ultimately show ?thesis
    using w1 w2 w3 by (auto simp: aws_iot_mqtt_internal_cycle_read_def Let_def)
qed

lemma cycle_read_publish:
  assumes wf: "client_wf c" "\<forall>h \<in> set (messageHandlers c). handler_ok h"
    and body: "body = arriving_body h topic pid pl"
    and fits: "length (mqtt_packet h body) \<le> AWS_IOT_MQTT_RX_BUF_LEN"
    and w: "pending w = mqtt_packet h body @ rest"
    and h: "header_type h = type_code PUBLISH" and topic: "0 \<notin> set topic"
    and fuel: "4 < fuel env" and unexpired: "\<And>w. \<not> fst (has_timer_expired env timer w)"
  shows "\<exists>c' w'. aws_iot_mqtt_internal_cycle_read env timer ptype (c, w)
      = Some ((AWS_SUCCESS, type_code PUBLISH), c', w') \<and> client_wf c'
    \<and> clientState c' = clientState c \<and> messageHandlers c' = messageHandlers c
    \<and> obs w' = (rest, sent w @ ack_packet h pid, seen w @ deliveries (messageHandlers c) topic pl)"
proof -
  define post where "post = drop (length (mqtt_packet h body)) (readBuf c)"
  define c1 where "c1 = c\<lparr>readBuf := mqtt_packet h body @ post\<rparr>"
  have c1: "client_wf c1" "\<forall>h \<in> set (messageHandlers c1). handler_ok h"
    using wf fits by (simp_all add: c1_def post_def client_wf_def)
  obtain w1 where w1: "obs w1 = (rest, sent w, seen w)"
    "aws_iot_mqtt_internal_cycle_read env timer ptype (c, w) = do {
         (rc, c, w) \<leftarrow> aws_iot_mqtt_internal_handle_publish env timer (c1, w1);
         Some ((rc, 3), c, w)
       }"
    using cycle_read_packet [OF wf(1) fits w fuel, of c1 timer ptype] h
    by (auto simp: c1_def post_def)
  obtain wbuf w2 where "aws_iot_mqtt_internal_handle_publish env timer (c1, w1)
      = Some (AWS_SUCCESS, c1\<lparr>writeBuf := wbuf\<rparr>, w2)" "length wbuf = AWS_IOT_MQTT_TX_BUF_LEN"
      "obs w2 = (pending w1, sent w1 @ ack_packet h pid, seen w1 @ deliveries (messageHandlers c1) topic pl)"
    using handle_publish_ok [OF c1 body fits _ h topic _ unexpired, of post w1] fuel
    by (auto simp: c1_def)
  with w1 c1 show ?thesis
    by (auto simp: obs_def c1_def)
qed

end

section \<open>Invariants of the receiving side\<close>

text \<open>Application callbacks that keep the client object well-formed, as every operation of the
  library does.\<close>

definition handlers_keep_wf :: "'w Env \<Rightarrow> bool" where
  "handlers_keep_wf env \<longleftrightarrow> (\<forall>fn topic len rx d c w c' w'.
     app_handler env fn topic len rx d (c, w) = Some (c', w') \<longrightarrow> client_wf c \<longrightarrow> client_wf c')"

lemma put_bytes_length: "put_bytes bs (buf, p) = Some (buf', q) \<Longrightarrow> length buf' = length buf"
  by (auto simp: put_bytes_def split: if_splits)

lemma read_into_length:
  "read_into env p n timer (buf, w) = Some (rc, k, buf', w') \<Longrightarrow> length buf' = length buf"
  by (auto simp: read_into_def bind_eq_Some_conv put_bytes_length)

lemma drain_loop_length:
  "drain_loop n env sz r timer k t (buf, w) = Some (buf', w') \<Longrightarrow> length buf' = length buf"
proof (induction n arbitrary: k t buf w)
  case (Suc n)
  from Suc.prems obtain rc l buf1 w1
    where r: "read_into env 0 (unat t) timer (buf, w) = Some (rc, l, buf1, w1)"
    by (auto simp: bind_eq_Some_conv)
  with Suc.prems read_into_length [OF r] Suc.IH [of _ _ buf1 w1] show ?case
    by (auto simp: Let_def split: if_splits)
qed simp

lemma client_wf_readBuf:
  "client_wf c \<Longrightarrow> length buf = length (readBuf c) \<Longrightarrow> client_wf (c\<lparr>readBuf := buf\<rparr>)"
  by (simp add: client_wf_def)

lemma read_packet_wf:
  assumes r: "aws_iot_mqtt_internal_read_packet env timer ptype (c, w) = Some (x, c', w')"
    and wf: "client_wf c"
  shows "client_wf c' \<and> c' = c\<lparr>readBuf := readBuf c'\<rparr>"
proof -
  obtain t w1 where w1: "countdown_ms env (packetTimeoutMs c) w = (t, w1)"
    by fastforce
  from r w1 obtain rc l buf w2
    where w2: "read_into env 0 1 timer (readBuf c, w1) = Some (rc, l, buf, w2)"
    by (auto simp: aws_iot_mqtt_internal_read_packet_def bind_eq_Some_conv)
  have buf: "length buf = length (readBuf c)"
    by (rule read_into_length [OF w2])
  have len: "length (readBuf c) = AWS_IOT_MQTT_RX_BUF_LEN"
    using wf by (simp add: client_wf_def)
  show ?thesis
  proof (cases "rc = AWS_SUCCESS")
    case False
    with r w1 w2 wf buf len show ?thesis
      by (auto simp: aws_iot_mqtt_internal_read_packet_def Let_def client_wf_readBuf split: if_splits)
  next
    case True
    let ?c = "c\<lparr>readBuf := buf\<rparr>"
    from r w1 w2 True obtain rc' rem w3
      where w3: "aws_iot_mqtt_internal_decode_packet_remaining_len env t w2 = Some ((rc', rem), w3)"
      by (auto simp: aws_iot_mqtt_internal_read_packet_def Let_def bind_eq_Some_conv)
    consider (err) "rc' \<noteq> AWS_SUCCESS" | (big) "rc' = AWS_SUCCESS" "readBufSize c \<le> unat rem"
      | (fits) "rc' = AWS_SUCCESS" "\<not> readBufSize c \<le> unat rem"
      by blast
    then have "\<exists>b. c' = c\<lparr>readBuf := b\<rparr> \<and> length b = length buf"
    proof cases
      case err
      with r w1 w2 w3 True show ?thesis
        by (auto simp: aws_iot_mqtt_internal_read_packet_def)
    next
      case big
      with r w1 w2 w3 True show ?thesis
        by (auto simp: aws_iot_mqtt_internal_read_packet_def bind_eq_Some_conv dest!: drain_loop_length)
    next
      case fits
      with r w1 w2 w3 True show ?thesis
        by (auto simp: aws_iot_mqtt_internal_read_packet_def bind_eq_Some_conv Let_def write_len_wire
            split: if_splits dest!: read_into_length put_bytes_length)
    qed
    then show ?thesis
      using wf buf len by (auto simp: client_wf_readBuf)
  qed
qed

lemma deliver_loop_wf:
  "deliver_loop env topic len rx itrs (c, w) = Some (c', w') \<Longrightarrow> handlers_keep_wf env \<Longrightarrow>
   client_wf c \<Longrightarrow> client_wf c'"
proof (induction itrs arbitrary: c w)
  case (Cons i itrs)
  note IH = Cons.IH [OF _ Cons.prems(2)]
  from Cons.prems show ?case
    by (auto simp: Let_def bind_eq_Some_conv handlers_keep_wf_def split: option.splits if_splits
        intro: IH) (metis (no_types) IH handlers_keep_wf_def)+
qed simp

lemma serialize_ack_length:
  assumes "aws_iot_mqtt_internal_serialize_ack buf n m dup pid = Some (Inr (buf', len))"
  shows "length buf' = length buf"
  using assms
  by (auto simp: aws_iot_mqtt_internal_serialize_ack_def aws_iot_mqtt_internal_init_header_def fail_def
      success_def bindE_def wire bind_eq_Some_conv dest!: put_bytes_length split: if_splits sum.splits)

lemma deliver_message_wf:
  assumes "aws_iot_mqtt_internal_deliver_message env topic len rx (c, w) = Some (rc, c', w')"
    and "handlers_keep_wf env" "client_wf c"
  shows "client_wf c'"
proof -
  obtain rc1 c1 w1 where s1: "aws_iot_mqtt_set_client_state env (clientState c)
      CLIENT_STATE_CONNECTED_WAIT_FOR_CB_RETURN (c, w) = (rc1, c1, w1)"
    by (metis prod_cases3)
  have "client_wf c1"
    using client_wf_set_state [OF s1] assms by simp
  moreover obtain c2 w2 where
      "deliver_loop env topic len rx [0..<AWS_IOT_MQTT_NUM_SUBSCRIBE_HANDLERS] (c1, w1) = Some (c2, w2)"
      and s2: "aws_iot_mqtt_set_client_state env CLIENT_STATE_CONNECTED_WAIT_FOR_CB_RETURN (clientState c)
        (c2, w2) = (rc, c', w')"
    using assms(1) s1
    by (auto simp: aws_iot_mqtt_internal_deliver_message_def aws_iot_mqtt_get_client_state_def
        bind_eq_Some_conv simp del: upt_rec_numeral)
  ultimately show ?thesis
    using deliver_loop_wf [OF _ assms(2)] client_wf_set_state [OF s2] by blast
qed

lemma handle_publish_wf:
  assumes "aws_iot_mqtt_internal_handle_publish env timer (c, w) = Some (rc, c', w')"
    and "handlers_keep_wf env" "client_wf c"
  shows "client_wf c'"
proof (cases "aws_iot_mqtt_internal_deserialize_publish (readBuf c) (readBufSize c)" rule: result_cases)
  case (success msg)
  obtain rc1 c1 w1 where d: "aws_iot_mqtt_internal_deliver_message env (rx_topicName msg)
      (rx_topicNameLen msg) msg (c, w) = Some (rc1, c1, w1)"
    using assms(1) success
    by (auto simp: aws_iot_mqtt_internal_handle_publish_def bind_eq_Some_conv)
  have c1: "client_wf c1"
    by (rule deliver_message_wf [OF d assms(2,3)])
  show ?thesis
  proof (cases "rc1 = AWS_SUCCESS \<and> rx_qos msg \<noteq> QOS0")
    case False
    with c1 assms(1) success d show ?thesis
      by (auto simp: aws_iot_mqtt_internal_handle_publish_def split: if_splits)
  next
    case True
    then obtain pid where pid: "rx_id msg = Some pid"
      using assms(1) success d
      by (auto simp: aws_iot_mqtt_internal_handle_publish_def bind_eq_Some_conv)
    show ?thesis
    proof (cases "aws_iot_mqtt_internal_serialize_ack (writeBuf c1) (writeBufSize c1) PUBACK 0 pid"
        rule: result_cases)
      case (success x)
      obtain buf len where x: "x = (buf, len)" by fastforce
      have "length buf = length (writeBuf c1)"
        by (rule serialize_ack_length) (use success x in \<open>simp add: success_def\<close>)
      with c1 have "client_wf (c1\<lparr>writeBuf := buf\<rparr>)"
        by (simp add: client_wf_def)
      moreover have "c' = c1\<lparr>writeBuf := buf\<rparr>"
        using assms(1) \<open>_ = success msg\<close> success x True pid d
        by (auto simp: aws_iot_mqtt_internal_handle_publish_def bind_eq_Some_conv)
      ultimately show ?thesis by simp
    qed (use assms(1) success True pid d c1 in
        \<open>auto simp: aws_iot_mqtt_internal_handle_publish_def bind_eq_Some_conv\<close>)
  qed
qed (use assms in \<open>auto simp: aws_iot_mqtt_internal_handle_publish_def\<close>)

lemma cycle_read_wf:
  assumes "aws_iot_mqtt_internal_cycle_read env timer ptype (c, w) = Some (x, c', w')"
    and "handlers_keep_wf env" "client_wf c"
  shows "client_wf c'"
proof -
  obtain rc0 w0 where l: "aws_iot_mqtt_client_lock_mutex env c Tls_read_mutex w = (rc0, w0)"
    by fastforce
  show ?thesis
  proof (cases "rc0 = AWS_SUCCESS")
    case True
    with assms(1) l obtain rc pt c1 w1 where r:
        "aws_iot_mqtt_internal_read_packet env timer ptype (c, w0) = Some ((rc, pt), c1, w1)"
      by (auto simp: aws_iot_mqtt_internal_cycle_read_def bind_eq_Some_conv)
    have c1: "client_wf c1"
      using read_packet_wf [OF r assms(3)] by simp
    with assms(1) l r True show ?thesis
      by (auto simp: aws_iot_mqtt_internal_cycle_read_def Let_def bind_eq_Some_conv
          split: prod.splits if_splits dest: handle_publish_wf [OF _ assms(2)])
  next
    case False
    with assms l show ?thesis
      by (auto simp: aws_iot_mqtt_internal_cycle_read_def)
  qed
qed

lemma wait_loop_wf:
  "wait_loop n env pt timer rt (c, w) = Some (x, c', w') \<Longrightarrow> handlers_keep_wf env \<Longrightarrow>
   client_wf c \<Longrightarrow> client_wf c'"
proof (induction n arbitrary: rt c w)
  case (Suc n)
  obtain b w1 where b: "has_timer_expired env timer w = (b, w1)" by fastforce
  show ?case
  proof (cases b)
    case True
    with Suc.prems b show ?thesis by simp
  next
    case False
    with Suc.prems b obtain rc rt1 c1 w2 where r:
        "aws_iot_mqtt_internal_cycle_read env timer rt (c, w1) = Some ((rc, rt1), c1, w2)"
      by (auto simp: bind_eq_Some_conv)
    have "client_wf c1"
      by (rule cycle_read_wf [OF r Suc.prems(2,3)])
    with Suc.prems Suc.IH [of rt1 c1 w2] b r False show ?thesis
      by (auto split: if_splits)
  qed
qed simp

lemma wait_for_read_wf:
  assumes "aws_iot_mqtt_internal_wait_for_read env packetType timer (c, w) = Some (rc, c', w')"
    and "handlers_keep_wf env" "client_wf c"
  shows "client_wf c'"
proof -
  obtain x where "wait_loop (fuel env) env (type_code packetType) timer 0 (c, w) = Some (x, c', w')"
    using assms(1)
    by (auto simp: aws_iot_mqtt_internal_wait_for_read_def bind_eq_Some_conv split: if_splits)
  from wait_loop_wf [OF this assms(2,3)] show ?thesis .
qed

section \<open>Waiting\<close>

text \<open>The wait succeeds only with a cycle that read a packet of the expected type.\<close>

lemma wait_loop_result:
  "wait_loop n env pt timer rt s = Some ((rc, rt'), s') \<Longrightarrow>
   rc = MQTT_REQUEST_TIMEOUT_ERROR \<or>
   ((rc = NETWORK_DISCONNECTED_ERROR \<or> rt' = pt) \<and>
    (\<exists>rt1 s1. aws_iot_mqtt_internal_cycle_read env timer rt1 s1 = Some ((rc, rt'), s')))"
proof (induction n arbitrary: rt s)
  case (Suc n)
  obtain c w where s: "s = (c, w)" by fastforce
  obtain b w1 where b: "has_timer_expired env timer w = (b, w1)" by fastforce
  show ?case
  proof (cases b)
    case True
    with Suc.prems b s show ?thesis by simp
  next
    case False
    with Suc.prems b s obtain rc1 rt1 s1 where r:
        "aws_iot_mqtt_internal_cycle_read env timer rt (c, w1) = Some ((rc1, rt1), s1)"
      by (auto simp: bind_eq_Some_conv)
    with Suc.prems Suc.IH [of rt1 s1] b s False show ?thesis
      by (auto split: if_splits)
  qed
qed simp

text \<open>A network with nothing to read, and a clock \<open>now\<close> that the operating system's ticks show:
  every look at the clock takes a tick, a read at most a million.\<close>

definition silent_network :: "'w Env \<Rightarrow> ('w \<Rightarrow> nat) \<Rightarrow> bool" where
  "silent_network env now \<longleftrightarrow>
     (\<forall>w. fst (os_ticks_get env w) = of_nat (now w) \<and> now (snd (os_ticks_get env w)) = now w + 1) \<and>
     (\<forall>m x w. fst (os_mutex_get env m x w) = WM_SUCCESS \<and> now (snd (os_mutex_get env m x w)) = now w) \<and>
     (\<forall>m w. fst (os_mutex_put env m w) = WM_SUCCESS \<and> now (snd (os_mutex_put env m w)) = now w) \<and>
     (\<forall>n timer w. \<exists>w'. net_read env n timer w = Some (NETWORK_SSL_NOTHING_TO_READ, [], w') \<and>
        now w \<le> now w' \<and> now w' \<le> now w + 1000000)"

lemma silent_cycle:
  assumes "silent_network env now"
  shows "\<exists>w'. aws_iot_mqtt_internal_cycle_read env timer pt (c, w) = Some ((AWS_SUCCESS, pt), c, w')
    \<and> now w < now w' \<and> now w' \<le> now w + 1000001"
proof -
  obtain w1 where w1: "aws_iot_mqtt_client_lock_mutex env c Tls_read_mutex w = (AWS_SUCCESS, w1)"
      "now w1 = now w"
    using assms by (auto simp: silent_network_def aws_iot_mqtt_client_lock_mutex_def prod_eq_iff
        aws_iot_thread_mutex_lock_def aws_iot_thread_mutex_trylock_def mutex_result_def)
  obtain t w2 where w2: "countdown_ms env (packetTimeoutMs c) w1 = (t, w2)" "now w2 = now w1 + 1"
    using assms by (cases "os_ticks_get env w1")
      (auto simp: countdown_ms_def silent_network_def, metis snd_conv)
  obtain w3 where w3: "net_read env 1 timer w2 = Some (NETWORK_SSL_NOTHING_TO_READ, [], w3)"
      "now w2 \<le> now w3" "now w3 \<le> now w2 + 1000000"
    using assms by (fastforce simp: silent_network_def)
  obtain w4 where w4: "aws_iot_mqtt_client_unlock_mutex env Tls_read_mutex w3 = (AWS_SUCCESS, w4)"
      "now w4 = now w3"
    using assms by (auto simp: silent_network_def aws_iot_mqtt_client_unlock_mutex_def prod_eq_iff
        aws_iot_thread_mutex_unlock_def mutex_result_def)
  have "aws_iot_mqtt_internal_cycle_read env timer pt (c, w) = Some ((AWS_SUCCESS, pt), c, w4)"
    using w1 w2 w3 w4
    by (simp add: aws_iot_mqtt_internal_cycle_read_def aws_iot_mqtt_internal_read_packet_def read_into_def)
  with w1 w2 w3 w4 show ?thesis by auto
qed

lemma silent_expired:
  assumes "silent_network env now" "s0 \<le> now w" "now w - s0 < 4294967296"
  shows "\<exists>w'. has_timer_expired env \<lparr>start_timestamp = of_nat s0, timeout = tmo\<rparr> w
      = (unat tmo \<le> now w - s0, w') \<and> now w' = now w + 1"
proof -
  obtain w1 where w1: "os_ticks_get env w = (of_nat (now w), w1)" "now w1 = now w + 1"
    using assms(1) by (auto simp: silent_network_def) (metis prod.collapse)
  define d where "d = (of_nat (now w - s0) :: u32)"
  have diff: "(of_nat (now w) :: u32) - of_nat s0 = d"
    unfolding d_def using assms(2) by (simp add: of_nat_diff)
  have "unat d = now w - s0"
    unfolding d_def by (rule unat_of_nat_lt) (use assms(3) in simp)
  then have le: "tmo \<le> d \<longleftrightarrow> unat tmo \<le> now w - s0"
    by (simp add: word_le_nat_alt)
  have "has_timer_expired env \<lparr>start_timestamp = of_nat s0, timeout = tmo\<rparr> w = (tmo \<le> d, w1)"
    using w1(1) by (auto simp: has_timer_expired_def left_ms_def word_gt_0 Let_def not_less diff)
  with le w1(2) show ?thesis by simp
qed

lemma wait_loop_silent:
  assumes silent: "silent_network env now" and tmo: "unat tmo \<le> 4000000000" and pt: "pt \<noteq> 0"
  shows "s0 \<le> now w \<Longrightarrow> now w - s0 \<le> unat tmo + 1000002 \<Longrightarrow> unat tmo - (now w - s0) < n \<Longrightarrow>
    \<exists>w'. wait_loop n env pt \<lparr>start_timestamp = of_nat s0, timeout = tmo\<rparr> 0 (c, w)
      = Some ((MQTT_REQUEST_TIMEOUT_ERROR, 0), c, w')"
proof (induction n arbitrary: w)
  case (Suc n)
  let ?t = "\<lparr>start_timestamp = of_nat s0, timeout = tmo\<rparr>"
  obtain w1 where w1: "has_timer_expired env ?t w = (unat tmo \<le> now w - s0, w1)" "now w1 = now w + 1"
    using silent_expired [OF silent Suc.prems(1), of tmo] Suc.prems tmo by auto
  show ?case
  proof (cases "unat tmo \<le> now w - s0")
    case True
    with w1 show ?thesis by simp
  next
    case False
    obtain w2 where w2: "aws_iot_mqtt_internal_cycle_read env ?t 0 (c, w1) = Some ((AWS_SUCCESS, 0), c, w2)"
        "now w1 < now w2" "now w2 \<le> now w1 + 1000001"
      using silent_cycle [OF silent] by blast
    have "s0 \<le> now w2" "now w2 - s0 \<le> unat tmo + 1000002" "unat tmo - (now w2 - s0) < n"
      using w1 w2 False Suc.prems by simp_all
    from Suc.IH [OF this] w1 w2 False pt show ?thesis by simp
  qed
qed simp

section \<open>A loopback world\<close>

text \<open>Input is a list of bytes, output is recorded, the clock stands still, handlers record what
  they get.\<close>

record Loopback =
  lb_in :: "byte list"
  lb_out :: "byte list"
  lb_calls :: "delivery list"

definition loop_env :: "Loopback Env" where
  "loop_env = \<lparr>os_ticks_get = (\<lambda>w. (0, w)), os_mutex_create = (\<lambda>_ w. (0, w)),
     os_mutex_get = (\<lambda>_ _ w. (0, w)), os_mutex_put = (\<lambda>_ w. (0, w)),
     os_mutex_delete = (\<lambda>_ w. (0, w)), iot_tls_init = (\<lambda>_ w. (AWS_SUCCESS, w)),
     net_connect = (\<lambda>w. (AWS_SUCCESS, w)),
     net_read = (\<lambda>n _ w. if n \<le> length (lb_in w)
        then Some (AWS_SUCCESS, take n (lb_in w), w\<lparr>lb_in := drop n (lb_in w)\<rparr>)
        else if lb_in w = [] then Some (NETWORK_SSL_NOTHING_TO_READ, [], w)
        else Some (NETWORK_SSL_READ_TIMEOUT_ERROR, lb_in w, w\<lparr>lb_in := []\<rparr>)),
     net_write = (\<lambda>bs _ w. (AWS_SUCCESS, of_nat (length bs), w\<lparr>lb_out := lb_out w @ bs\<rparr>)),
     net_disconnect = (\<lambda>w. (AWS_SUCCESS, w)),
     net_isConnected = Some (\<lambda>w. (NETWORK_PHYSICAL_LAYER_CONNECTED, w)),
     net_destroy = (\<lambda>w. (AWS_SUCCESS, w)),
     app_handler = (\<lambda>fn topic len rx d (c, w). Some (c, w\<lparr>lb_calls := lb_calls w @
        [(fn, d, take (unat len) (drop topic (readBuf c)),
          take (unat (rx_payloadLen rx)) (drop (rx_payload rx) (readBuf c)))]\<rparr>)),
     disconnect_handler = (\<lambda>_ _ s. Some s), fuel = 10\<rparr>"

interpretation loopback: connected_world loop_env lb_in lb_out lb_calls
  by unfold_locales
    (auto simp: loop_env_def mutexes_work_def split: if_splits)

lemma loopback_timer_step: "tmo \<noteq> 0 \<Longrightarrow>
    has_timer_expired loop_env \<lparr>start_timestamp = 0, timeout = tmo\<rparr> w = (False, w)"
  by (simp add: has_timer_expired_def left_ms_def loop_env_def word_gt_0)

lemma loopback_fuel: "fuel loop_env = Suc 9"
  by (simp add: loop_env_def)

lemmas wait_loop_numeral = wait_loop.simps(2) [of "pred_numeral k" for k, folded numeral_eq_Suc]

lemma loopback_timer: "tmo \<noteq> 0 \<Longrightarrow>
    \<not> fst (has_timer_expired loop_env \<lparr>start_timestamp = 0, timeout = tmo\<rparr> w)"
  by (simp add: has_timer_expired_def left_ms_def loop_env_def word_gt_0)

text \<open>A transport that takes at most \<open>k\<close> bytes a call; the world is what it took.\<close>

definition chunk_env :: "nat \<Rightarrow> byte list Env" where
  "chunk_env k = \<lparr>os_ticks_get = (\<lambda>w. (0, w)), os_mutex_create = (\<lambda>_ w. (0, w)),
     os_mutex_get = (\<lambda>_ _ w. (0, w)), os_mutex_put = (\<lambda>_ w. (0, w)),
     os_mutex_delete = (\<lambda>_ w. (0, w)), iot_tls_init = (\<lambda>_ w. (AWS_SUCCESS, w)),
     net_connect = (\<lambda>w. (AWS_SUCCESS, w)),
     net_read = (\<lambda>_ _ w. Some (NETWORK_SSL_NOTHING_TO_READ, [], w)),
     net_write = (\<lambda>bs _ w. (AWS_SUCCESS, of_nat (length (take k bs)), w @ take k bs)),
     net_disconnect = (\<lambda>w. (AWS_SUCCESS, w)), net_isConnected = None,
     net_destroy = (\<lambda>w. (AWS_SUCCESS, w)), app_handler = (\<lambda>_ _ _ _ _ s. Some s),
     disconnect_handler = (\<lambda>_ _ s. Some s), fuel = 3\<rparr>"

text \<open>Continuation bytes without end.\<close>

lemma continuation_bytes:
  assumes net: "network_stream env pending"
  shows "pending w = replicate k 0x80 @ 0 # rest \<Longrightarrow> k < n \<Longrightarrow> len < 4 \<Longrightarrow>
   \<exists>w'. decode_packet_remaining_len_loop n env timer len eb m r w = Some ((AWS_SUCCESS, r), w')
     \<and> pending w' = rest"
proof (induction k arbitrary: n w len eb m)
  case 0
  obtain n' where n: "n = Suc n'" using 0 by (cases n) auto
  obtain w' where "net_read env 1 timer w = Some (AWS_SUCCESS, [0], w')" "pending w' = rest"
    using network_stream.read_byte [OF net, of w 0 rest] 0 by auto
  with 0 n show ?case by (simp add: MAX_NO_OF_REMAINING_LENGTH_BYTES_def)
next
  case (Suc k)
  obtain n' where n: "n = Suc n'" using Suc.prems by (cases n) auto
  obtain w1 where w1: "net_read env 1 timer w = Some (AWS_SUCCESS, [0x80], w1)"
      "pending w1 = replicate k 0x80 @ 0 # rest"
    using network_stream.read_byte [OF net, of w "0x80" "replicate k 0x80 @ 0 # rest"] Suc.prems by auto
  have "k < n'" "(1::nat) < 4" using Suc.prems n by simp_all
  from Suc.IH [OF w1(2) this, of "Some 0x80" "m * 128"] w1(1) Suc.prems n show ?case
    by (simp add: MAX_NO_OF_REMAINING_LENGTH_BYTES_def)
qed

section \<open>Properties\<close>

text \<open>C8. The packet reader, on a stream that starts with a packet: a packet that fits the
  1024-byte receive buffer with its header is stored there unchanged and its type reported; a
  packet whose body alone exceeds the buffer is dropped completely and reported as too long; in
  both cases the stream is left exactly behind the packet.  In between, for bodies of 1022 and
  1023 bytes, the reader stores past the end of the buffer (undefined behaviour).\<close>

theorem packet_reader:
  assumes "network_stream env pending" "client_wf c"
    and w: "pending w = mqtt_packet h body @ rest" and len: "length body < 268435456"
    and fuel: "4 < fuel env" "length body \<le> 1024 * fuel env"
  shows "if length (mqtt_packet h body) \<le> AWS_IOT_MQTT_RX_BUF_LEN
    then \<exists>w'. aws_iot_mqtt_internal_read_packet env timer ptype (c, w)
        = Some ((AWS_SUCCESS, header_type h),
            c\<lparr>readBuf := mqtt_packet h body @ drop (length (mqtt_packet h body)) (readBuf c)\<rparr>, w')
        \<and> pending w' = rest
    else if length body < AWS_IOT_MQTT_RX_BUF_LEN
    then aws_iot_mqtt_internal_read_packet env timer ptype (c, w) = None
    else \<exists>buf w'. aws_iot_mqtt_internal_read_packet env timer ptype (c, w)
        = Some ((MQTT_RX_BUFFER_TOO_SHORT_ERROR, ptype), c\<lparr>readBuf := buf\<rparr>, w')
        \<and> length buf = AWS_IOT_MQTT_RX_BUF_LEN \<and> pending w' = rest"
proof -
  have mid: "1022 \<le> length body" if "\<not> length (mqtt_packet h body) \<le> AWS_IOT_MQTT_RX_BUF_LEN"
    using that by (auto simp: mqtt_packet_def length_encode_len split: if_splits)
  show ?thesis
    using network_stream.read_packet_stream [OF assms(1,2) _ w fuel(1), where timer = timer and ptype = ptype]
      network_stream.read_packet_overflow [OF assms(1,2) mid _ w fuel(1), where timer = timer and ptype = ptype]
      network_stream.read_packet_too_long [OF assms(1,2) _ len w fuel, where timer = timer and ptype = ptype]
    by (simp only: not_less split: if_split) blast
qed

theorem packet_reader_witness:
  "(\<exists>w'. aws_iot_mqtt_internal_read_packet loop_env init_timer 0
      (new_client, \<lparr>lb_in = mqtt_packet 0xD0 [] @ [], lb_out = [], lb_calls = []\<rparr>)
    = Some ((AWS_SUCCESS, header_type 0xD0), new_client\<lparr>readBuf := mqtt_packet 0xD0 []
        @ drop (length (mqtt_packet 0xD0 [])) (readBuf new_client)\<rparr>, w') \<and> lb_in w' = [])
   \<and> aws_iot_mqtt_internal_read_packet loop_env init_timer 0
      (new_client, \<lparr>lb_in = mqtt_packet 0x30 (replicate 1023 0) @ [], lb_out = [], lb_calls = []\<rparr>) = None"
  using packet_reader [OF loopback.network_stream_axioms new_client_wf,
      of "\<lparr>lb_in = mqtt_packet 0xD0 [] @ [], lb_out = [], lb_calls = []\<rparr>" "0xD0" "[]" "[]" init_timer 0]
    packet_reader [OF loopback.network_stream_axioms new_client_wf,
      of "\<lparr>lb_in = mqtt_packet 0x30 (replicate 1023 0) @ [], lb_out = [], lb_calls = []\<rparr>" "0x30"
        "replicate 1023 0" "[]" init_timer 0]
  by (simp add: mqtt_packet_def length_encode_len encode_len.simps [of 0] loop_env_def)

text \<open>The reader of the remaining length does not stop after the four bytes MQTT allows: its
  counter is overwritten by every read, so any number of continuation bytes is consumed and the
  result is still a success.\<close>

theorem remaining_length_reader_unbounded:
  assumes "network_stream env pending" "pending w = replicate k 0x80 @ 0 # rest" "k < fuel env"
  shows "\<exists>w'. aws_iot_mqtt_internal_decode_packet_remaining_len env timer w
      = Some ((AWS_SUCCESS, 0), w') \<and> pending w' = rest"
  using continuation_bytes [OF assms, of 0 timer None 1 0]
  by (simp add: aws_iot_mqtt_internal_decode_packet_remaining_len_def)

theorem remaining_length_reader_unbounded_witness:
  "\<exists>w'. aws_iot_mqtt_internal_decode_packet_remaining_len loop_env init_timer
        \<lparr>lb_in = replicate 8 0x80 @ 0 # [1], lb_out = [], lb_calls = []\<rparr>
      = Some ((AWS_SUCCESS, 0), w') \<and> lb_in w' = [1]"
  by (rule remaining_length_reader_unbounded [OF loopback.network_stream_axioms, where k = 8])
    (simp_all add: loop_env_def)

text \<open>C7. Receiving a message: with a PUBLISH on the stream that fits the receive buffer, one read
  cycle succeeds; the handlers called are exactly those whose filter matches the topic level by
  level, once each, in the order of the table, each with the topic and payload that were sent; a
  message with a quality of service above 0 is answered with one PUBACK carrying its identifier,
  a quality of service 0 message with nothing; the client's state and handlers are as before and
  the stream is left behind the packet.\<close>

theorem receive_publish:
  assumes "connected_world env pending sent seen" "client_wf c"
    and "\<forall>h \<in> set (messageHandlers c). handler_ok h"
    and "length (mqtt_packet h (arriving_body h topic pid pl)) \<le> AWS_IOT_MQTT_RX_BUF_LEN"
    and "pending w = mqtt_packet h (arriving_body h topic pid pl) @ rest"
    and "header_type h = type_code PUBLISH" "0 \<notin> set topic" "4 < fuel env"
    and "\<And>w. \<not> fst (has_timer_expired env timer w)"
  shows "\<exists>c' w'. aws_iot_mqtt_internal_cycle_read env timer ptype (c, w)
      = Some ((AWS_SUCCESS, type_code PUBLISH), c', w')
    \<and> clientState c' = clientState c \<and> messageHandlers c' = messageHandlers c \<and> client_wf c'
    \<and> pending w' = rest
    \<and> sent w' = sent w @ (if header_qos h \<noteq> QOS0 then mqtt_packet 0x40 (u16_bytes pid) else [])
    \<and> seen w' = seen w @ map (\<lambda>h. (mh_pApplicationHandler h, mh_pApplicationHandlerData h, topic, pl))
        (filter (handler_selected topic) (messageHandlers c))"
proof -
  obtain c' w' where "aws_iot_mqtt_internal_cycle_read env timer ptype (c, w)
      = Some ((AWS_SUCCESS, type_code PUBLISH), c', w')" "client_wf c'"
      "clientState c' = clientState c" "messageHandlers c' = messageHandlers c"
      and obs: "connected_world.obs pending sent seen w'
        = (rest, sent w @ ack_packet h pid, seen w @ deliveries (messageHandlers c) topic pl)"
    using connected_world.cycle_read_publish [OF assms(1-3) refl assms(4-9)] by blast
  moreover have "pending w' = rest" "sent w' = sent w @ ack_packet h pid"
    "seen w' = seen w @ deliveries (messageHandlers c) topic pl"
    using obs by (simp_all add: connected_world.obs_def [OF assms(1)])
  ultimately show ?thesis
    by (auto simp: ack_packet_def deliveries_def)
qed

text \<open>A subscription to \<open>a/+\<close> in the first slot, for the examples.\<close>

definition subscribed_client :: Client where
  "subscribed_client = new_client\<lparr>clientState := CLIENT_STATE_CONNECTED_IDLE,
     messageHandlers := (messageHandlers new_client)[0 :=
       \<lparr>mh_topicName = Some [97, 47, 43], mh_topicNameLen = 3, mh_qos = QOS1,
        mh_pApplicationHandler = 100, mh_pApplicationHandlerData = 200\<rparr>]\<rparr>"

lemma subscribed_client_wf: "client_wf subscribed_client"
  by (simp add: subscribed_client_def client_wf_def new_client_def)

lemma subscribed_handlers: "messageHandlers subscribed_client
    = \<lparr>mh_topicName = Some [97, 47, 43], mh_topicNameLen = 3, mh_qos = QOS1,
        mh_pApplicationHandler = 100, mh_pApplicationHandlerData = 200\<rparr>
      # replicate 4 \<lparr>mh_topicName = None, mh_topicNameLen = 0, mh_qos = QOS0,
        mh_pApplicationHandler = NULL, mh_pApplicationHandlerData = NULL\<rparr>"
  by code_simp

lemma a_plus: "wf_filter [97, 47, 43]" "level_match (levels [97, 47, 43]) (levels [97, 47, 98])"
  by code_simp+

lemma subscribed_client_handlers: "\<forall>h \<in> set (messageHandlers subscribed_client). handler_ok h"
  using a_plus by (auto simp: subscribed_handlers handler_ok_def)

theorem receive_publish_witness:
  "\<exists>c' w'. aws_iot_mqtt_internal_cycle_read loop_env \<lparr>start_timestamp = 0, timeout = 5\<rparr> 0
      (subscribed_client, \<lparr>lb_in = mqtt_packet 0x32 (arriving_body 0x32 [97, 47, 98] 7 [1, 2]) @ [],
         lb_out = [], lb_calls = []\<rparr>)
      = Some ((AWS_SUCCESS, type_code PUBLISH), c', w')
    \<and> lb_out w' = [0x40, 2, 0, 7] \<and> lb_calls w' = [(100, 200, [97, 47, 98], [1, 2])]"
proof -
  let ?w = "\<lparr>lb_in = mqtt_packet 0x32 (arriving_body 0x32 [97, 47, 98] 7 [1, 2]) @ [],
         lb_out = [], lb_calls = []\<rparr>"
  have fits: "length (mqtt_packet 0x32 (arriving_body 0x32 [97, 47, 98] 7 [1, 2])) \<le> AWS_IOT_MQTT_RX_BUF_LEN"
  proof -
    have "mqtt_packet 0x32 (arriving_body 0x32 [97, 47, 98] 7 [1, 2])
        = [0x32, 9, 0, 3, 97, 47, 98, 0, 7, 1, 2]"
      by code_simp
    then show ?thesis by simp
  qed
  have pub: "header_type 0x32 = type_code PUBLISH" "header_qos 0x32 \<noteq> QOS0" "0 \<notin> set [97, 47, 98 :: byte]"
    "4 < fuel loop_env" "lb_in ?w = mqtt_packet 0x32 (arriving_body 0x32 [97, 47, 98] 7 [1, 2]) @ []"
    by (simp_all add: header_type_def header_qos_def loop_env_def)
  have ack: "mqtt_packet 0x40 (u16_bytes 7) = [0x40, 2, 0, 7]"
    by code_simp
  have sel: "map (\<lambda>h. (mh_pApplicationHandler h, mh_pApplicationHandlerData h, [97, 47, 98], [1, 2 :: byte]))
      (filter (handler_selected [97, 47, 98]) (messageHandlers subscribed_client))
    = [(100, 200, [97, 47, 98], [1, 2])]"
    using a_plus by (simp add: subscribed_handlers handler_selected_def)
  show ?thesis
    using receive_publish [OF loopback.connected_world_axioms subscribed_client_wf
        subscribed_client_handlers fits pub(5,1,3,4) loopback_timer, of 5 0] pub(2) ack sel
    by auto
qed

text \<open>Sending: a packet in the transmit buffer is written completely, by one write, when the
  transport takes everything and the command timer has not expired.\<close>

theorem send_packet_complete:
  assumes "connected_world env pending sent seen" "client_wf c" "0 < len"
    "len < AWS_IOT_MQTT_TX_BUF_LEN" "2 \<le> fuel env" "\<And>w. \<not> fst (has_timer_expired env timer w)"
  shows "\<exists>w'. aws_iot_mqtt_internal_send_packet env c len timer w = Some (AWS_SUCCESS, w')
    \<and> sent w' = sent w @ take len (writeBuf c) \<and> pending w' = pending w \<and> seen w' = seen w"
  using connected_world.send_packet_ok [OF assms, of w]
  by (auto simp: connected_world.obs_def [OF assms(1)])

theorem send_packet_complete_witness:
  "\<exists>w'. aws_iot_mqtt_internal_send_packet loop_env new_client 2 \<lparr>start_timestamp = 0, timeout = 5\<rparr>
        \<lparr>lb_in = [], lb_out = [9], lb_calls = []\<rparr> = Some (AWS_SUCCESS, w')
    \<and> lb_out w' = lb_out \<lparr>lb_in = [], lb_out = [9], lb_calls = []\<rparr> @ take 2 (writeBuf new_client)
    \<and> lb_in w' = lb_in \<lparr>lb_in = [], lb_out = [9], lb_calls = []\<rparr>
    \<and> lb_calls w' = lb_calls \<lparr>lb_in = [], lb_out = [9], lb_calls = []\<rparr>"
  by (rule send_packet_complete [OF loopback.connected_world_axioms new_client_wf _ _ _ loopback_timer])
    (simp_all add: loop_env_def)

text \<open>Sending over a transport that takes at most \<open>k\<close> bytes a call, when the packet needs two
  calls and does not end with the second: the second call is offered the whole length again, the
  transport also takes the bytes of the buffer behind the packet, and the call reports a
  failure.\<close>

theorem send_packet_partial_write:
  assumes "client_wf c" "k < len" "len < 2 * k" "k + len \<le> AWS_IOT_MQTT_TX_BUF_LEN" "tmo \<noteq> 0"
  shows "aws_iot_mqtt_internal_send_packet (chunk_env k) c len \<lparr>start_timestamp = 0, timeout = tmo\<rparr> []
    = Some (AWS_FAILURE, take (2 * k) (writeBuf c))"
proof -
  let ?t = "\<lparr>start_timestamp = 0, timeout = tmo\<rparr>" and ?e = "chunk_env k"
  have len: "length (writeBuf c) = 1024" "writeBufSize c = 1024"
    using assms(1) by (simp_all add: client_wf_def)
  have t: "has_timer_expired ?e ?t w = (False, w)" for w
    using assms(5) by (simp add: has_timer_expired_def left_ms_def chunk_env_def word_gt_0)
  have lock: "aws_iot_mqtt_client_lock_mutex ?e c m w = (AWS_SUCCESS, w)"
    "aws_iot_mqtt_client_unlock_mutex ?e m w = (AWS_SUCCESS, w)" for m w
    by (simp_all add: chunk_env_def aws_iot_mqtt_client_lock_mutex_def aws_iot_mqtt_client_unlock_mutex_def
        aws_iot_thread_mutex_lock_def aws_iot_thread_mutex_trylock_def aws_iot_thread_mutex_unlock_def
        mutex_result_def)
  have u: "unat (of_nat k :: u32) = k" "unat (of_nat (2 * k) :: u32) = 2 * k"
    by (rule unat_of_nat_lt, use assms in simp)+
  have wr: "net_write ?e (take len (drop i (writeBuf c))) ?t w
      = (AWS_SUCCESS, of_nat k, w @ take k (drop i (writeBuf c)))" if "i \<le> k" for i w
    using that assms len by (auto simp: chunk_env_def min_def)
  have mem: "mem_take len (drop i (writeBuf c)) = Some (take len (drop i (writeBuf c)))" if "i \<le> k" for i
    using that assms len by (simp add: mem_take_def)
  have sum: "of_nat k + of_nat k = (of_nat (2 * k) :: u32)"
    by simp
  have both: "take k (writeBuf c) @ take k (drop k (writeBuf c)) = take (2 * k) (writeBuf c)"
    by (simp add: mult_2 take_add)
  have fuel: "fuel ?e = Suc (Suc (Suc 0))"
    by (simp add: chunk_env_def)
  have loop: "send_loop (fuel ?e) ?e c len ?t 0 [] = Some (of_nat (2 * k), take (2 * k) (writeBuf c))"
    using t assms u mem [of 0] mem [of k] wr [of 0 "[]"] wr [of k "take k (writeBuf c)"]
    by (simp add: fuel sum both del: of_nat_mult)
  have "unat (of_nat (2 * k) :: u32) \<noteq> len"
    unfolding u(2) using assms by simp
  then show ?thesis
    using assms len
    by (simp add: aws_iot_mqtt_internal_send_packet_def lock loop del: of_nat_mult)
qed

theorem send_packet_partial_write_witness:
  "aws_iot_mqtt_internal_send_packet (chunk_env 2) new_client 3 \<lparr>start_timestamp = 0, timeout = 9\<rparr> []
    = Some (AWS_FAILURE, take (2 * 2) (writeBuf new_client))"
  by (rule send_packet_partial_write [OF new_client_wf]) simp_all

text \<open>A wait for a packet succeeds only when a read cycle succeeded with a packet of the awaited
  type.\<close>

theorem wait_success_means_read:
  assumes "aws_iot_mqtt_internal_wait_for_read env packetType timer s = Some (AWS_SUCCESS, s')"
  shows "\<exists>rt s1. aws_iot_mqtt_internal_cycle_read env timer rt s1
    = Some ((AWS_SUCCESS, type_code packetType), s')"
proof -
  obtain rc rt where loop: "wait_loop (fuel env) env (type_code packetType) timer 0 s = Some ((rc, rt), s')"
    and rc: "rc = AWS_SUCCESS"
    using assms
    by (auto simp: aws_iot_mqtt_internal_wait_for_read_def bind_eq_Some_conv split: if_splits)
  from wait_loop_result [OF loop] rc show ?thesis
    by auto
qed

theorem wait_success_means_read_witness:
  "\<exists>rt s1 s'. aws_iot_mqtt_internal_cycle_read loop_env \<lparr>start_timestamp = 0, timeout = 5\<rparr> rt s1
    = Some ((AWS_SUCCESS, type_code PINGRESP), s')"
proof -
  obtain s' where "aws_iot_mqtt_internal_wait_for_read loop_env PINGRESP \<lparr>start_timestamp = 0, timeout = 5\<rparr>
      (new_client, \<lparr>lb_in = mqtt_packet 0xD0 [] @ [], lb_out = [], lb_calls = []\<rparr>) = Some (AWS_SUCCESS, s')"
  proof -
    obtain w' where "aws_iot_mqtt_internal_cycle_read loop_env \<lparr>start_timestamp = 0, timeout = 5\<rparr> 0
        (new_client, \<lparr>lb_in = mqtt_packet 0xD0 [] @ [], lb_out = [], lb_calls = []\<rparr>)
      = (let (t, w) = countdown_sec loop_env (ucast (keepAliveInterval new_client)) w'
         in Some ((AWS_SUCCESS, 13), new_client\<lparr>readBuf := mqtt_packet 0xD0 []
            @ drop (length (mqtt_packet 0xD0 [])) (readBuf new_client),
            isPingOutstanding := False, pingTimer := t\<rparr>, w))"
      using loopback.cycle_read_packet [OF new_client_wf _ _ _ refl,
          of "0xD0" "[]" "\<lparr>lb_in = mqtt_packet 0xD0 [] @ [], lb_out = [], lb_calls = []\<rparr>" "[]"
          "\<lparr>start_timestamp = 0, timeout = 5\<rparr>" 0]
      by (auto simp: mqtt_packet_def length_encode_len header_type_def loop_env_def)
    then show ?thesis
      using that loopback_timer_step [of 5]
      by (simp add: aws_iot_mqtt_internal_wait_for_read_def loopback_fuel wait_loop_numeral
          split: prod.splits)
  qed
  from wait_success_means_read [OF this] show ?thesis by blast
qed


text \<open>A silent network with a clock.\<close>

definition silent_env :: "nat Env" where
  "silent_env = \<lparr>os_ticks_get = (\<lambda>w. (of_nat w, w + 1)), os_mutex_create = (\<lambda>_ w. (0, w)),
     os_mutex_get = (\<lambda>_ _ w. (0, w)), os_mutex_put = (\<lambda>_ w. (0, w)),
     os_mutex_delete = (\<lambda>_ w. (0, w)), iot_tls_init = (\<lambda>_ w. (AWS_SUCCESS, w)),
     net_connect = (\<lambda>w. (AWS_SUCCESS, w)),
     net_read = (\<lambda>_ _ w. Some (NETWORK_SSL_NOTHING_TO_READ, [], w + 3)),
     net_write = (\<lambda>bs _ w. (AWS_SUCCESS, of_nat (length bs), w)),
     net_disconnect = (\<lambda>w. (AWS_SUCCESS, w)), net_isConnected = None,
     net_destroy = (\<lambda>w. (AWS_SUCCESS, w)), app_handler = (\<lambda>_ _ _ _ _ s. Some s),
     disconnect_handler = (\<lambda>_ _ s. Some s), fuel = 10\<rparr>"

lemma silent_env_ok: "silent_network silent_env (\<lambda>w. w)"
  by (simp add: silent_network_def silent_env_def)




end
