(* ===== verification/Mqtt_Pubsub.thy ===== *)
theory Mqtt_Pubsub
  imports Mqtt_Transport "HOL-Library.Multiset"
begin

text \<open>
  Publishing and subscriptions: \<^verbatim>\<open>aws_iot_mqtt_client_publish.c\<close>,
  \<^verbatim>\<open>aws_iot_mqtt_client_subscribe.c\<close> and \<^verbatim>\<open>aws_iot_mqtt_client_unsubscribe.c\<close>.  The four API
  functions share one bracket of state changes, stated as the locale \<open>api_bracket\<close>; the
  handler table is a \<open>slot_table\<close>.
\<close>

section \<open>Sequencing\<close>

text \<open>Every command serializes into the transmit buffer and sends it.\<close>

definition send_serialized ::
  "'w Env \<Rightarrow> Timer \<Rightarrow> (IoT_Error_t + (byte list \<times> nat)) option \<Rightarrow> Client \<times> 'w
   \<Rightarrow> (IoT_Error_t \<times> Client \<times> 'w) option" where
  "send_serialized env timer packet = (\<lambda>(c, w). case packet of
       None \<Rightarrow> None
     | Some (Inl rc) \<Rightarrow> Some (rc, c, w)
     | Some (Inr (buf, len)) \<Rightarrow> do {
         (rc, w) \<leftarrow> aws_iot_mqtt_internal_send_packet env (c\<lparr>writeBuf := buf\<rparr>) len timer w;
         Some (rc, c\<lparr>writeBuf := buf\<rparr>, w)
       })"

text \<open>The return code of a deserializer whose outputs are not used.\<close>

definition return_code :: "(IoT_Error_t + 'a) option \<Rightarrow> 's \<Rightarrow> (IoT_Error_t \<times> 's) option" where
  "return_code m s = (case m of None \<Rightarrow> None | Some (Inl rc) \<Rightarrow> Some (rc, s)
     | Some (Inr _) \<Rightarrow> Some (AWS_SUCCESS, s))"

section \<open>Publish\<close>

text \<open>The result carries the message parameters, whose identifier a quality of service 1 publish
  sets.\<close>

definition aws_iot_mqtt_internal_publish ::
  "'w Env \<Rightarrow> byte list \<Rightarrow> u16 \<Rightarrow> IoT_Publish_Message_Params \<Rightarrow> Client \<times> 'w
   \<Rightarrow> ((IoT_Error_t \<times> IoT_Publish_Message_Params) \<times> Client \<times> 'w) option" where
  "aws_iot_mqtt_internal_publish env topic topicLen params = (\<lambda>(c, w).
     let (timer, w) = countdown_ms env (commandTimeoutMs c) w;
         (params, c) = (if msg_qos params = QOS1
                        then let (n, c) = aws_iot_mqtt_get_next_packet_id c
                             in (params\<lparr>msg_id := n\<rparr>, c)
                        else (params, c))
     in map_option (\<lambda>(rc, s). ((rc, params), s))
       (on_success
         (send_serialized env timer
           (aws_iot_mqtt_internal_serialize_publish (writeBuf c) (writeBufSize c) 0 (msg_qos params)
             (msg_isRetained params) (msg_id params) topic topicLen (msg_payload params)
             (msg_payloadLen params)) (c, w))
         (\<lambda>s. if msg_qos params = QOS1
              then on_success (aws_iot_mqtt_internal_wait_for_read env PUBACK timer s)
                     (\<lambda>(c, w). return_code
                        (aws_iot_mqtt_internal_deserialize_ack (readBuf c) (readBufSize c)) (c, w))
              else Some (AWS_SUCCESS, s))))"

definition aws_iot_mqtt_publish ::
  "'w Env \<Rightarrow> byte list option \<Rightarrow> u16 \<Rightarrow> IoT_Publish_Message_Params option \<Rightarrow> Client \<times> 'w
   \<Rightarrow> ((IoT_Error_t \<times> IoT_Publish_Message_Params option) \<times> Client \<times> 'w) option" where
  "aws_iot_mqtt_publish env pTopicName topicNameLen pParams = (\<lambda>(c, w).
     case (pTopicName, pParams) of
       (Some topic, Some params) \<Rightarrow>
         if topicNameLen = 0 then Some ((NULL_VALUE_ERROR, pParams), c, w)
         else if \<not> aws_iot_mqtt_is_client_connected c
         then Some ((NETWORK_DISCONNECTED_ERROR, pParams), c, w)
         else
           let clientState = aws_iot_mqtt_get_client_state c
           in if clientState \<noteq> CLIENT_STATE_CONNECTED_IDLE \<and>
                 clientState \<noteq> CLIENT_STATE_CONNECTED_WAIT_FOR_CB_RETURN
              then Some ((MQTT_CLIENT_NOT_IDLE_ERROR, pParams), c, w)
              else
                let (rc, s) = aws_iot_mqtt_set_client_state env clientState
                                CLIENT_STATE_CONNECTED_PUBLISH_IN_PROGRESS (c, w)
                in if rc \<noteq> AWS_SUCCESS then Some ((rc, pParams), s)
                   else do {
                     ((pubRc, params), s) \<leftarrow> aws_iot_mqtt_internal_publish env topic topicNameLen params s;
                     let (rc, s) = aws_iot_mqtt_set_client_state env
                                     CLIENT_STATE_CONNECTED_PUBLISH_IN_PROGRESS clientState s in
                     Some ((if pubRc = AWS_SUCCESS \<and> rc \<noteq> AWS_SUCCESS then rc else pubRc, Some params), s)
                   }
     | _ \<Rightarrow> Some ((NULL_VALUE_ERROR, pParams), c, w))"

section \<open>Subscribe\<close>

fun free_handler_index :: "MessageHandlers list \<Rightarrow> nat" where
  "free_handler_index [] = 0"
| "free_handler_index (h # hs) = (if mh_topicName h = None then 0 else Suc (free_handler_index hs))"

definition aws_iot_mqtt_get_free_message_handler_index :: "Client \<Rightarrow> nat" where
  "aws_iot_mqtt_get_free_message_handler_index c = free_handler_index (messageHandlers c)"

definition aws_iot_mqtt_internal_subscribe ::
  "'w Env \<Rightarrow> byte list \<Rightarrow> u16 \<Rightarrow> QoS \<Rightarrow> ptr \<Rightarrow> ptr \<Rightarrow> Client \<times> 'w
   \<Rightarrow> (IoT_Error_t \<times> Client \<times> 'w) option" where
  "aws_iot_mqtt_internal_subscribe env topic topicLen qos handler handlerData = (\<lambda>(c, w).
     let (timer, w) = countdown_ms env (commandTimeoutMs c) w;
         (txPacketId, c) = aws_iot_mqtt_get_next_packet_id c
     in case aws_iot_mqtt_serialize_subscribe (writeBuf c) (writeBufSize c) 0 txPacketId
               [(topic, topicLen, qos)] of
          None \<Rightarrow> None
        | Some (Inl rc) \<Rightarrow> Some (rc, c, w)
        | Some (Inr (buf, len)) \<Rightarrow>
            let c = c\<lparr>writeBuf := buf\<rparr>;
                i = aws_iot_mqtt_get_free_message_handler_index c
            in if AWS_IOT_MQTT_NUM_SUBSCRIBE_HANDLERS \<le> i
               then Some (MQTT_MAX_SUBSCRIPTIONS_REACHED_ERROR, c, w)
               else
                 on_success (send_serialized env timer (success (buf, len)) (c, w)) (\<lambda>s.
                 on_success (aws_iot_mqtt_internal_wait_for_read env SUBACK timer s) (\<lambda>(c, w).
                 on_success (return_code (aws_iot_mqtt_deserialize_suback 1 [QOS0, QOS0, QOS0]
                     (readBuf c) (readBufSize c)) (c, w)) (\<lambda>(c, w).
                 Some (AWS_SUCCESS, c\<lparr>messageHandlers := (messageHandlers c)[i :=
                     (messageHandlers c ! i)\<lparr>mh_topicName := Some topic, mh_topicNameLen := topicLen,
                       mh_pApplicationHandler := handler,
                       mh_pApplicationHandlerData := handlerData, mh_qos := qos\<rparr>]\<rparr>, w)))))"

definition aws_iot_mqtt_subscribe ::
  "'w Env \<Rightarrow> byte list option \<Rightarrow> u16 \<Rightarrow> QoS \<Rightarrow> ptr \<Rightarrow> ptr \<Rightarrow> Client \<times> 'w
   \<Rightarrow> (IoT_Error_t \<times> Client \<times> 'w) option" where
  "aws_iot_mqtt_subscribe env pTopicName topicNameLen qos handler handlerData = (\<lambda>(c, w).
     case pTopicName of None \<Rightarrow> Some (NULL_VALUE_ERROR, c, w)
     | Some topic \<Rightarrow>
       if handler = NULL then Some (NULL_VALUE_ERROR, c, w)
       else if \<not> aws_iot_mqtt_is_client_connected c then Some (NETWORK_DISCONNECTED_ERROR, c, w)
       else
         let clientState = aws_iot_mqtt_get_client_state c
         in if clientState \<noteq> CLIENT_STATE_CONNECTED_IDLE \<and>
               clientState \<noteq> CLIENT_STATE_CONNECTED_WAIT_FOR_CB_RETURN
            then Some (MQTT_CLIENT_NOT_IDLE_ERROR, c, w)
            else
              let (rc, s) = aws_iot_mqtt_set_client_state env clientState
                              CLIENT_STATE_CONNECTED_SUBSCRIBE_IN_PROGRESS (c, w)
              in if rc \<noteq> AWS_SUCCESS then Some (rc, s)
                 else do {
                   (subRc, s) \<leftarrow> aws_iot_mqtt_internal_subscribe env topic topicNameLen qos handler
                                   handlerData s;
                   let (rc, s) = aws_iot_mqtt_set_client_state env
                                   CLIENT_STATE_CONNECTED_SUBSCRIBE_IN_PROGRESS clientState s in
                   Some (if subRc = AWS_SUCCESS \<and> rc \<noteq> AWS_SUCCESS then rc else subRc, s)
                 })"

section \<open>Resubscribe\<close>

fun resubscribe_loop ::
  "'w Env \<Rightarrow> nat list \<Rightarrow> Client \<times> 'w \<Rightarrow> (IoT_Error_t \<times> Client \<times> 'w) option" where
  "resubscribe_loop env [] s = Some (AWS_SUCCESS, s)"
| "resubscribe_loop env (itr # itrs) (c, w) =
     (let (timer, w) = countdown_ms env (commandTimeoutMs c) w;
          (packetId, c) = aws_iot_mqtt_get_next_packet_id c;
          h = messageHandlers c ! itr
      in on_success (send_serialized env timer
           (aws_iot_mqtt_serialize_subscribe (writeBuf c) (writeBufSize c) 0 packetId
             [(ptr_mem (mh_topicName h), mh_topicNameLen h, mh_qos h)]) (c, w)) (\<lambda>s.
         on_success (aws_iot_mqtt_internal_wait_for_read env SUBACK timer s) (\<lambda>(c, w).
         on_success (return_code (aws_iot_mqtt_deserialize_suback 1 [QOS0, QOS0, QOS0]
           (readBuf c) (readBufSize c)) (c, w)) (\<lambda>s.
         resubscribe_loop env itrs s))))"

definition aws_iot_mqtt_internal_resubscribe ::
  "'w Env \<Rightarrow> Client \<times> 'w \<Rightarrow> (IoT_Error_t \<times> Client \<times> 'w) option" where
  "aws_iot_mqtt_internal_resubscribe env = (\<lambda>(c, w).
     resubscribe_loop env [0..<aws_iot_mqtt_get_free_message_handler_index c] (c, w))"

definition aws_iot_mqtt_resubscribe ::
  "'w Env \<Rightarrow> Client \<times> 'w \<Rightarrow> (IoT_Error_t \<times> Client \<times> 'w) option" where
  "aws_iot_mqtt_resubscribe env = (\<lambda>(c, w).
     if aws_iot_mqtt_is_client_connected c = False then Some (NETWORK_DISCONNECTED_ERROR, c, w)
     else if aws_iot_mqtt_get_client_state c \<noteq> CLIENT_STATE_CONNECTED_IDLE
     then Some (MQTT_CLIENT_NOT_IDLE_ERROR, c, w)
     else
       let (rc, s) = aws_iot_mqtt_set_client_state env CLIENT_STATE_CONNECTED_IDLE
                       CLIENT_STATE_CONNECTED_RESUBSCRIBE_IN_PROGRESS (c, w)
       in if rc \<noteq> AWS_SUCCESS then Some (rc, s)
          else do {
            (resubRc, s) \<leftarrow> aws_iot_mqtt_internal_resubscribe env s;
            let (rc, s) = aws_iot_mqtt_set_client_state env
                 CLIENT_STATE_CONNECTED_RESUBSCRIBE_IN_PROGRESS CLIENT_STATE_CONNECTED_IDLE s in
            Some (if resubRc = AWS_SUCCESS \<and> rc \<noteq> AWS_SUCCESS then rc else resubRc, s)
          })"

section \<open>Unsubscribe\<close>

text \<open>\<^verbatim>\<open>strcmp\<close> of two C strings is equality of their characters.\<close>

definition has_filter :: "byte list \<Rightarrow> MessageHandlers \<Rightarrow> bool" where
  "has_filter f h \<longleftrightarrow> mh_topicName h = Some f"

definition remove_filter :: "byte list \<Rightarrow> MessageHandlers list \<Rightarrow> MessageHandlers list" where
  "remove_filter f hs = map (\<lambda>h. if has_filter f h then h\<lparr>mh_topicName := None\<rparr> else h) hs"

definition aws_iot_mqtt_internal_unsubscribe ::
  "'w Env \<Rightarrow> byte list \<Rightarrow> u16 \<Rightarrow> Client \<times> 'w \<Rightarrow> (IoT_Error_t \<times> Client \<times> 'w) option" where
  "aws_iot_mqtt_internal_unsubscribe env topicFilter topicFilterLen = (\<lambda>(c, w).
     let subscriptionExists = list_ex (has_filter topicFilter) (messageHandlers c)
     in if subscriptionExists = False then Some (AWS_FAILURE, c, w)
        else
          let (timer, w) = countdown_ms env (commandTimeoutMs c) w;
              (packetId, c) = aws_iot_mqtt_get_next_packet_id c
          in on_success (send_serialized env timer
               (aws_iot_mqtt_serialize_unsubscribe (writeBuf c) (writeBufSize c) 0 packetId
                 [(topicFilter, topicFilterLen)]) (c, w)) (\<lambda>s.
             on_success (aws_iot_mqtt_internal_wait_for_read env UNSUBACK timer s) (\<lambda>(c, w).
             on_success (return_code (aws_iot_mqtt_deserialize_unsuback (readBuf c) (readBufSize c))
               (c, w)) (\<lambda>(c, w).
             Some (AWS_SUCCESS, c\<lparr>messageHandlers := remove_filter topicFilter (messageHandlers c)\<rparr>, w)))))"

definition aws_iot_mqtt_unsubscribe ::
  "'w Env \<Rightarrow> byte list option \<Rightarrow> u16 \<Rightarrow> Client \<times> 'w \<Rightarrow> (IoT_Error_t \<times> Client \<times> 'w) option" where
  "aws_iot_mqtt_unsubscribe env pTopicFilter topicFilterLen = (\<lambda>(c, w).
     case pTopicFilter of None \<Rightarrow> Some (NULL_VALUE_ERROR, c, w)
     | Some topicFilter \<Rightarrow>
       if \<not> aws_iot_mqtt_is_client_connected c then Some (NETWORK_DISCONNECTED_ERROR, c, w)
       else
         let clientState = aws_iot_mqtt_get_client_state c
         in if clientState \<noteq> CLIENT_STATE_CONNECTED_IDLE \<and>
               clientState \<noteq> CLIENT_STATE_CONNECTED_WAIT_FOR_CB_RETURN
            then Some (MQTT_CLIENT_NOT_IDLE_ERROR, c, w)
            else
              let (rc, s) = aws_iot_mqtt_set_client_state env clientState
                              CLIENT_STATE_CONNECTED_UNSUBSCRIBE_IN_PROGRESS (c, w)
              in if rc \<noteq> AWS_SUCCESS
                 then Some (aws_iot_mqtt_set_client_state env
                              CLIENT_STATE_CONNECTED_UNSUBSCRIBE_IN_PROGRESS clientState s)
                 else do {
                   (unsubRc, s) \<leftarrow> aws_iot_mqtt_internal_unsubscribe env topicFilter topicFilterLen s;
                   let (rc, s) = aws_iot_mqtt_set_client_state env
                                   CLIENT_STATE_CONNECTED_UNSUBSCRIBE_IN_PROGRESS clientState s in
                   Some (if unsubRc = AWS_SUCCESS \<and> rc \<noteq> AWS_SUCCESS then rc else unsubRc, s)
                 })"

section \<open>What every command keeps\<close>

text \<open>Application handlers that keep the client well-formed and leave its state where they found
  it; API calls from a callback do so (\<open>api_state_restored\<close> below).\<close>

definition handlers_ok :: "'w Env \<Rightarrow> bool" where
  "handlers_ok env \<longleftrightarrow> handlers_keep_wf env \<and> (\<forall>fn topic len rx d c w c' w'.
     app_handler env fn topic len rx d (c, w) = Some (c', w') \<longrightarrow> clientState c' = clientState c)"

lemma deliver_loop_state:
  "deliver_loop env topic len rx itrs (c, w) = Some (c', w') \<Longrightarrow> handlers_ok env \<Longrightarrow>
   clientState c' = clientState c"
proof (induction itrs arbitrary: c w)
  case (Cons i itrs)
  note IH = Cons.IH [OF _ Cons.prems(2)]
  from Cons.prems show ?case
    by (auto simp: Let_def bind_eq_Some_conv handlers_ok_def split: option.splits if_splits
        intro: IH) (metis (no_types) IH handlers_ok_def)+
qed simp

lemma deliver_message_state:
  assumes "aws_iot_mqtt_internal_deliver_message env topic len rx (c, w) = Some (rc, c', w')"
    and "handlers_ok env" "mutexes_work env"
  shows "clientState c' = clientState c"
proof -
  let ?c = "c\<lparr>clientState := CLIENT_STATE_CONNECTED_WAIT_FOR_CB_RETURN\<rparr>"
  obtain w1 where s1: "aws_iot_mqtt_set_client_state env (clientState c)
      CLIENT_STATE_CONNECTED_WAIT_FOR_CB_RETURN (c, w) = (AWS_SUCCESS, ?c, w1)"
    using set_client_state_works [OF assms(3), of "clientState c" _ c w] by fastforce
  obtain c2 w2 where
      d: "deliver_loop env topic len rx [0..<AWS_IOT_MQTT_NUM_SUBSCRIBE_HANDLERS] (?c, w1) = Some (c2, w2)"
      and s2: "aws_iot_mqtt_set_client_state env CLIENT_STATE_CONNECTED_WAIT_FOR_CB_RETURN (clientState c)
        (c2, w2) = (rc, c', w')"
    using assms(1) s1
    by (auto simp: aws_iot_mqtt_internal_deliver_message_def aws_iot_mqtt_get_client_state_def
        bind_eq_Some_conv simp del: upt_rec_numeral)
  have c2: "clientState c2 = CLIENT_STATE_CONNECTED_WAIT_FOR_CB_RETURN"
    using deliver_loop_state [OF d assms(2)] by simp
  obtain w3 where "aws_iot_mqtt_set_client_state env CLIENT_STATE_CONNECTED_WAIT_FOR_CB_RETURN (clientState c)
      (c2, w2) = (AWS_SUCCESS, c2\<lparr>clientState := clientState c\<rparr>, w3)"
    using set_client_state_works [OF assms(3), of CLIENT_STATE_CONNECTED_WAIT_FOR_CB_RETURN
        "clientState c" c2 w2] c2 by (elim exE) (simp only: simp_thms if_True)
  with s2 show ?thesis by auto
qed

text \<open>The results that keep the client well-formed in state \<open>st\<close>.\<close>

definition kept :: "ClientState \<Rightarrow> ('r \<times> Client \<times> 'w) option \<Rightarrow> bool" where
  "kept st m \<longleftrightarrow> (\<forall>r c w. m = Some (r, c, w) \<longrightarrow> client_wf c \<and> clientState c = st)"

named_theorems keeps

lemma kept_Some [simp]: "kept st (Some (r, c, w)) \<longleftrightarrow> client_wf c \<and> clientState c = st"
  by (auto simp: kept_def)

lemma kept_None [simp]: "kept st None"
  by (simp add: kept_def)

lemma kept_bind:
  assumes "kept st m" "\<And>r c w. client_wf c \<Longrightarrow> clientState c = st \<Longrightarrow> kept st (k (r, c, w))"
  shows "kept st (Option.bind m k)"
proof (cases m)
  case (Some x)
  then show ?thesis
    using assms by (cases x) (simp only: kept_Some Option.bind.bind_lunit)
qed simp

lemma kept_on_success [keeps]:
  "kept st m \<Longrightarrow> (\<And>c w. client_wf c \<Longrightarrow> clientState c = st \<Longrightarrow> kept st (k (c, w))) \<Longrightarrow>
   kept st (on_success m k)"
  unfolding on_success_def by (rule kept_bind) auto

lemma kept_return_code [keeps]:
  "client_wf c \<Longrightarrow> clientState c = st \<Longrightarrow> kept st (return_code m (c, w))"
  by (auto simp: return_code_def split: option.splits sum.splits)

lemma kept_send [keeps]:
  assumes "client_wf c" "clientState c = st"
    and "\<And>buf len. packet = Some (Inr (buf, len)) \<Longrightarrow> length buf = AWS_IOT_MQTT_TX_BUF_LEN"
  shows "kept st (send_serialized env timer packet (c, w))"
  using assms
  by (auto simp: send_serialized_def kept_def bind_eq_Some_conv split: option.splits sum.splits)

lemma handle_publish_client:
  assumes "aws_iot_mqtt_internal_handle_publish env timer (c, w) = Some (rc, c', w')"
    and des: "aws_iot_mqtt_internal_deserialize_publish (readBuf c) (readBufSize c) = success msg"
    and d: "aws_iot_mqtt_internal_deliver_message env (rx_topicName msg) (rx_topicNameLen msg) msg (c, w)
      = Some (rc1, c1, w1)"
  shows "c' = c1 \<or> (\<exists>buf. c' = c1\<lparr>writeBuf := buf\<rparr>)"
proof (cases "rc1 = AWS_SUCCESS \<and> rx_qos msg \<noteq> QOS0")
  case False
  with assms show ?thesis
    by (auto simp: aws_iot_mqtt_internal_handle_publish_def split: if_splits)
next
  case True
  then obtain pid where pid: "rx_id msg = Some pid"
    using assms by (auto simp: aws_iot_mqtt_internal_handle_publish_def bind_eq_Some_conv)
  show ?thesis
    by (cases "aws_iot_mqtt_internal_serialize_ack (writeBuf c1) (writeBufSize c1) PUBACK 0 pid"
        rule: result_cases)
      (use assms True pid in \<open>auto simp: aws_iot_mqtt_internal_handle_publish_def bind_eq_Some_conv\<close>)
qed

lemma kept_cycle_read:
  assumes "handlers_ok env" "mutexes_work env" "client_wf c" "clientState c = st"
  shows "kept st (aws_iot_mqtt_internal_cycle_read env timer pt (c, w))"
  unfolding kept_def
proof (intro allI impI)
  fix x c' w'
  assume cyc: "aws_iot_mqtt_internal_cycle_read env timer pt (c, w) = Some (x, c', w')"
  have "clientState c' = st"
  proof -
    obtain rc0 w0 where l: "aws_iot_mqtt_client_lock_mutex env c Tls_read_mutex w = (rc0, w0)"
      by fastforce
    show ?thesis
    proof (cases "rc0 = AWS_SUCCESS")
      case True
      with cyc l obtain rc p c1 w1 where r:
          "aws_iot_mqtt_internal_read_packet env timer pt (c, w0) = Some ((rc, p), c1, w1)"
        by (auto simp: aws_iot_mqtt_internal_cycle_read_def bind_eq_Some_conv)
      have c1: "clientState c1 = st"
        using read_packet_wf [OF r assms(3)] assms(4) by (metis Client.surjective Client.update_convs(15) Client.select_convs(3))
      have pub: "clientState c2 = st"
        if "aws_iot_mqtt_internal_handle_publish env timer (c1, v) = Some (rc2, c2, v2)" for v rc2 c2 v2
      proof (cases "aws_iot_mqtt_internal_deserialize_publish (readBuf c1) (readBufSize c1)"
          rule: result_cases)
        case (success msg)
        with that obtain rc3 c3 v3 where d: "aws_iot_mqtt_internal_deliver_message env (rx_topicName msg)
            (rx_topicNameLen msg) msg (c1, v) = Some (rc3, c3, v3)"
          by (auto simp: aws_iot_mqtt_internal_handle_publish_def bind_eq_Some_conv)
        have "clientState c3 = st"
          using deliver_message_state [OF d assms(1,2)] c1 by simp
        then show ?thesis
          using handle_publish_client [OF that success d] by auto
      qed (use that c1 in \<open>auto simp: aws_iot_mqtt_internal_handle_publish_def\<close>)
      from cyc l r True c1 show ?thesis
        by (auto simp: aws_iot_mqtt_internal_cycle_read_def Let_def bind_eq_Some_conv
            split: prod.splits if_splits dest: pub)
    next
      case False
      with cyc l assms show ?thesis
        by (auto simp: aws_iot_mqtt_internal_cycle_read_def)
    qed
  qed
  then show "client_wf c' \<and> clientState c' = st"
    using cycle_read_wf [OF cyc] assms by (simp add: handlers_ok_def)
qed

lemma kept_wait_loop:
  "handlers_ok env \<Longrightarrow> mutexes_work env \<Longrightarrow> client_wf c \<Longrightarrow> clientState c = st \<Longrightarrow>
   kept st (wait_loop n env pt timer rt (c, w))"
proof (induction n arbitrary: rt c w)
  case (Suc n)
  obtain b w1 where b: "has_timer_expired env timer w = (b, w1)" by fastforce
  show ?case
  proof (cases b)
    case False
    have "kept st (Option.bind (aws_iot_mqtt_internal_cycle_read env timer rt (c, w1))
        (\<lambda>((rc, read_type), s). if rc \<noteq> NETWORK_DISCONNECTED_ERROR \<and> read_type \<noteq> pt
          then wait_loop n env pt timer read_type s else Some ((rc, read_type), s)))"
    proof (rule kept_bind [OF kept_cycle_read [OF Suc.prems]])
      fix r c w
      assume "client_wf c" "clientState c = st"
      with Suc.IH [OF Suc.prems(1,2) this] show "kept st ((\<lambda>((rc, read_type), s).
          if rc \<noteq> NETWORK_DISCONNECTED_ERROR \<and> read_type \<noteq> pt
          then wait_loop n env pt timer read_type s else Some ((rc, read_type), s)) (r, c, w))"
        by (cases r) auto
    qed
    then show ?thesis
      by (simp add: b False)
  qed (use Suc b in auto)
qed simp

lemma kept_wait [keeps]:
  "handlers_ok env \<Longrightarrow> mutexes_work env \<Longrightarrow> client_wf c \<Longrightarrow> clientState c = st \<Longrightarrow>
   kept st (aws_iot_mqtt_internal_wait_for_read env packetType timer (c, w))"
  unfolding aws_iot_mqtt_internal_wait_for_read_def
  by (rule kept_bind [OF kept_wait_loop]) auto

subsection \<open>Serializers keep the length of the buffer\<close>

lemma write_char_length: "aws_iot_mqtt_internal_write_char b c = Some c' \<Longrightarrow> length (fst c') = length (fst c)"
  by (cases c; cases c') (auto simp: write_char_wire put_bytes_length)

lemma write_uint_16_length:
  "aws_iot_mqtt_internal_write_uint_16 n c = Some c' \<Longrightarrow> length (fst c') = length (fst c)"
  by (cases c; cases c') (auto simp: write_uint_16_wire put_bytes_length)

lemma write_len_length:
  "aws_iot_mqtt_internal_write_len_to_buffer n c = Some c' \<Longrightarrow> length (fst c') = length (fst c)"
  by (cases c; cases c') (auto simp: write_len_wire put_bytes_length)

lemma put_bytes_length': "put_bytes bs c = Some c' \<Longrightarrow> length (fst c') = length (fst c)"
  by (cases c; cases c') (auto simp: put_bytes_length)

lemma write_utf8_length:
  "aws_iot_mqtt_internal_write_utf8_string str n c = Some c' \<Longrightarrow> length (fst c') = length (fst c)"
  by (auto simp: aws_iot_mqtt_internal_write_utf8_string_def bind_eq_Some_conv
      dest!: write_uint_16_length put_bytes_length' split: if_splits)

lemma write_topics_length: "write_topics ts c = Some c' \<Longrightarrow> length (fst c') = length (fst c)"
  by (induction ts arbitrary: c)
    (auto simp: bind_eq_Some_conv dest!: write_utf8_length write_char_length)

lemma write_filters_length: "write_filters ts c = Some c' \<Longrightarrow> length (fst c') = length (fst c)"
  by (induction ts arbitrary: c) (auto simp: bind_eq_Some_conv dest!: write_utf8_length)

lemmas writer_lengths = write_char_length write_uint_16_length write_len_length put_bytes_length'
  write_utf8_length write_topics_length write_filters_length

lemma bindE_InrE:
  assumes "bindE m k = Some (Inr y)" obtains x where "m = success x" "k x = Some (Inr y)"
  using assms
  by (cases m rule: result_cases) (simp_all, simp add: fail_def)

lemma serialize_publish_length:
  "aws_iot_mqtt_internal_serialize_publish buf n dup q ret pid topic len pl plen = Some (Inr (buf', k)) \<Longrightarrow>
   length buf' = length buf"
  by (auto simp: aws_iot_mqtt_internal_serialize_publish_def Let_def fail_def success_def bind_eq_Some_conv
      elim!: bindE_InrE dest!: writer_lengths split: if_splits option.splits)

lemma serialize_subscribe_length:
  "aws_iot_mqtt_serialize_subscribe buf n dup pid ts = Some (Inr (buf', k)) \<Longrightarrow> length buf' = length buf"
  by (auto simp: aws_iot_mqtt_serialize_subscribe_def Let_def fail_def success_def bind_eq_Some_conv
      elim!: bindE_InrE dest!: writer_lengths split: if_splits)

lemma serialize_unsubscribe_length:
  "aws_iot_mqtt_serialize_unsubscribe buf n dup pid ts = Some (Inr (buf', k)) \<Longrightarrow> length buf' = length buf"
  by (auto simp: aws_iot_mqtt_serialize_unsubscribe_def Let_def fail_def success_def bind_eq_Some_conv
      elim!: bindE_InrE dest!: writer_lengths split: if_splits)

lemma serialize_connect_length:
  "aws_iot_mqtt_serialize_connect buf n opts = Some (Inr (buf', k)) \<Longrightarrow> length buf' = length buf"
  by (auto simp: aws_iot_mqtt_serialize_connect_def Let_def fail_def success_def bind_eq_Some_conv
      elim!: bindE_InrE dest!: writer_lengths split: if_splits option.splits)

lemma serialize_zero_length:
  "aws_iot_mqtt_internal_serialize_zero buf n m = Some (Inr (buf', k)) \<Longrightarrow> length buf' = length buf"
  by (auto simp: aws_iot_mqtt_internal_serialize_zero_def Let_def fail_def success_def bind_eq_Some_conv
      elim!: bindE_InrE dest!: writer_lengths split: if_splits)

lemmas serializer_lengths = serialize_publish_length serialize_subscribe_length
  serialize_unsubscribe_length serialize_connect_length serialize_zero_length


lemma kept_success [simp]: "kept st (Some (r, s)) \<longleftrightarrow> client_wf (fst s) \<and> clientState (fst s) = st"
  by (cases s) simp

lemma kept_map [simp]: "kept st (map_option (\<lambda>(rc, s). (f rc, s)) m) \<longleftrightarrow> kept st m"
  by (cases m) (auto simp: kept_def)

lemma next_packet_id_keeps:
  "aws_iot_mqtt_get_next_packet_id c = (n, c') \<Longrightarrow> client_wf c' = client_wf c \<and>
   clientState c' = clientState c \<and> writeBuf c' = writeBuf c \<and> messageHandlers c' = messageHandlers c"
  by (auto simp: aws_iot_mqtt_get_next_packet_id_def Let_def)

lemma wf_writeBuf: "client_wf c \<Longrightarrow> length (writeBuf c) = AWS_IOT_MQTT_TX_BUF_LEN"
  by (simp add: client_wf_def)

lemma wf_handlers: "client_wf c \<Longrightarrow> length (messageHandlers c) = AWS_IOT_MQTT_NUM_SUBSCRIBE_HANDLERS"
  by (simp add: client_wf_def)

lemma client_wf_handlers [simp]:
  "length hs = AWS_IOT_MQTT_NUM_SUBSCRIBE_HANDLERS \<Longrightarrow> client_wf c \<Longrightarrow> client_wf (c\<lparr>messageHandlers := hs\<rparr>)"
  by (simp add: client_wf_def)

lemma kept_internal_publish [keeps]:
  assumes "handlers_ok env" "mutexes_work env" "client_wf c" "clientState c = st"
  shows "kept st (aws_iot_mqtt_internal_publish env topic len params (c, w))"
proof -
  obtain timer w1 where [simp]: "countdown_ms env (commandTimeoutMs c) w = (timer, w1)" by fastforce
  obtain n c1 where id: "aws_iot_mqtt_get_next_packet_id c = (n, c1)" by fastforce
  note k = next_packet_id_keeps [OF id]
  show ?thesis
    using assms k
    by (auto simp: aws_iot_mqtt_internal_publish_def id intro!: keeps dest!: serializer_lengths
        simp: wf_writeBuf)
qed

lemma kept_internal_subscribe [keeps]:
  assumes "handlers_ok env" "mutexes_work env" "client_wf c" "clientState c = st"
  shows "kept st (aws_iot_mqtt_internal_subscribe env topic len qos h d (c, w))"
proof -
  obtain timer w1 where [simp]: "countdown_ms env (commandTimeoutMs c) w = (timer, w1)" by fastforce
  obtain n c1 where id: "aws_iot_mqtt_get_next_packet_id c = (n, c1)" by fastforce
  note k = next_packet_id_keeps [OF id]
  show ?thesis
  proof (cases "aws_iot_mqtt_serialize_subscribe (writeBuf c1) (writeBufSize c1) 0 n [(topic, len, qos)]"
      rule: result_cases)
    case (success x)
    obtain buf l where x: "x = (buf, l)" by fastforce
    with success have "length buf = AWS_IOT_MQTT_TX_BUF_LEN"
      using assms k by (auto simp: success_def wf_writeBuf dest!: serializer_lengths)
    then show ?thesis
      using assms k success x
      by (auto simp: aws_iot_mqtt_internal_subscribe_def id success_def Let_def wf_handlers
          intro!: keeps)
  qed (use assms k in \<open>auto simp: aws_iot_mqtt_internal_subscribe_def id fail_def\<close>)
qed

lemma kept_resubscribe_loop [keeps]:
  "handlers_ok env \<Longrightarrow> mutexes_work env \<Longrightarrow> client_wf c \<Longrightarrow> clientState c = st \<Longrightarrow>
   kept st (resubscribe_loop env itrs (c, w))"
proof (induction itrs arbitrary: c w)
  case (Cons i itrs)
  obtain timer w1 where [simp]: "countdown_ms env (commandTimeoutMs c) w = (timer, w1)" by fastforce
  obtain n c1 where id: "aws_iot_mqtt_get_next_packet_id c = (n, c1)" by fastforce
  note k = next_packet_id_keeps [OF id]
  note IH = Cons.IH [OF Cons.prems(1,2)]
  show ?case
    using Cons.prems(1-3) k
    by (auto simp: Cons.prems(4) id Let_def wf_writeBuf intro!: keeps dest!: serializer_lengths)
      (metis IH)
qed simp

lemma kept_internal_resubscribe [keeps]:
  "handlers_ok env \<Longrightarrow> mutexes_work env \<Longrightarrow> client_wf c \<Longrightarrow> clientState c = st \<Longrightarrow>
   kept st (aws_iot_mqtt_internal_resubscribe env (c, w))"
  by (simp add: aws_iot_mqtt_internal_resubscribe_def kept_resubscribe_loop)

lemma kept_internal_unsubscribe [keeps]:
  assumes "handlers_ok env" "mutexes_work env" "client_wf c" "clientState c = st"
  shows "kept st (aws_iot_mqtt_internal_unsubscribe env topic len (c, w))"
proof -
  obtain timer w1 where [simp]: "countdown_ms env (commandTimeoutMs c) w = (timer, w1)" by fastforce
  obtain n c1 where id: "aws_iot_mqtt_get_next_packet_id c = (n, c1)" by fastforce
  note k = next_packet_id_keeps [OF id]
  show ?thesis
    using assms k
    by (auto simp: aws_iot_mqtt_internal_unsubscribe_def id Let_def wf_writeBuf wf_handlers
        remove_filter_def intro!: keeps dest!: serializer_lengths)
qed


section \<open>The state bracket of the API\<close>

text \<open>Every API function checks its arguments, the connection and the state, runs its body between
  two state changes, and reports the body's error before that of the second change.\<close>

locale api_bracket =
  fixes env :: "'w Env" and busy :: ClientState and accepted :: "ClientState \<Rightarrow> bool" and valid :: bool
    and body :: "Client \<times> 'w \<Rightarrow> (IoT_Error_t \<times> Client \<times> 'w) option"
    and api :: "Client \<times> 'w \<Rightarrow> (IoT_Error_t \<times> Client \<times> 'w) option"
  assumes invalid: "\<not> valid \<Longrightarrow> api (c, w) = Some (NULL_VALUE_ERROR, c, w)"
    and disconnected: "valid \<Longrightarrow> \<not> aws_iot_mqtt_is_client_connected c \<Longrightarrow>
      api (c, w) = Some (NETWORK_DISCONNECTED_ERROR, c, w)"
    and not_accepted: "valid \<Longrightarrow> aws_iot_mqtt_is_client_connected c \<Longrightarrow> \<not> accepted (clientState c) \<Longrightarrow>
      api (c, w) = Some (MQTT_CLIENT_NOT_IDLE_ERROR, c, w)"
    and accepted: "valid \<Longrightarrow> aws_iot_mqtt_is_client_connected c \<Longrightarrow> accepted (clientState c) \<Longrightarrow>
      aws_iot_mqtt_set_client_state env (clientState c) busy (c, w) = (AWS_SUCCESS, s) \<Longrightarrow>
      api (c, w) = do { (rc1, s) \<leftarrow> body s;
        let (rc2, s) = aws_iot_mqtt_set_client_state env busy (clientState c) s in
        Some (if rc1 = AWS_SUCCESS \<and> rc2 \<noteq> AWS_SUCCESS then rc2 else rc1, s) }"
    and body_keeps: "handlers_ok env \<Longrightarrow> mutexes_work env \<Longrightarrow> client_wf c \<Longrightarrow> clientState c = busy \<Longrightarrow>
      kept busy (body (c, w))"
begin

lemma runs_body:
  assumes "handlers_ok env" "mutexes_work env" "client_wf c" "valid" "aws_iot_mqtt_is_client_connected c"
    and "accepted (clientState c)"
  shows "\<exists>w1. api (c, w) = None \<and> body (c\<lparr>clientState := busy\<rparr>, w1) = None \<or>
    (\<exists>rc c' w' w''. body (c\<lparr>clientState := busy\<rparr>, w1) = Some (rc, c', w') \<and> client_wf c' \<and>
       api (c, w) = Some (rc, c'\<lparr>clientState := clientState c\<rparr>, w''))"
proof -
  obtain w1 where s1: "aws_iot_mqtt_set_client_state env (clientState c) busy (c, w)
      = (AWS_SUCCESS, c\<lparr>clientState := busy\<rparr>, w1)"
    using set_client_state_works [OF assms(2), of "clientState c" busy c w] by fastforce
  note api = accepted [OF assms(4-6) s1]
  show ?thesis
  proof (cases "body (c\<lparr>clientState := busy\<rparr>, w1)")
    case None
    with api show ?thesis by auto
  next
    case (Some x)
    obtain rc c' w' where x: "x = (rc, c', w')" by (metis prod.collapse)
    have "kept busy (body (c\<lparr>clientState := busy\<rparr>, w1))"
      using assms(3) by (intro body_keeps assms(1,2)) simp_all
    with Some x have c': "client_wf c'" "clientState c' = busy" by simp_all
    obtain w2 where "aws_iot_mqtt_set_client_state env busy (clientState c) (c', w')
        = (AWS_SUCCESS, c'\<lparr>clientState := clientState c\<rparr>, w2)"
      using set_client_state_works [OF assms(2), of busy "clientState c" c' w'] c'(2)
      by (elim exE) (simp only: simp_thms if_True)
    with api Some x c' show ?thesis by auto
  qed
qed

lemma state_restored:
  assumes "handlers_ok env" "mutexes_work env" "client_wf c"
  shows "kept (clientState c) (api (c, w))"
proof (cases "valid \<and> aws_iot_mqtt_is_client_connected c \<and> accepted (clientState c)")
  case True
  then show ?thesis
    using runs_body [OF assms, of w] by auto
next
  case False
  then show ?thesis
    using assms(3) by (cases valid; cases "aws_iot_mqtt_is_client_connected c")
      (simp_all add: invalid disconnected not_accepted)
qed

end

text \<open>The states from which publish, subscribe and unsubscribe start: idle, or in a callback.\<close>

definition accepting :: "ClientState \<Rightarrow> bool" where
  "accepting st \<longleftrightarrow> st = CLIENT_STATE_CONNECTED_IDLE \<or> st = CLIENT_STATE_CONNECTED_WAIT_FOR_CB_RETURN"

text \<open>Publish without the parameters it returns.\<close>

definition publish_rc ::
  "'w Env \<Rightarrow> byte list option \<Rightarrow> u16 \<Rightarrow> IoT_Publish_Message_Params option \<Rightarrow> Client \<times> 'w
   \<Rightarrow> (IoT_Error_t \<times> Client \<times> 'w) option" where
  "publish_rc env topic len params s =
     map_option (\<lambda>((rc, p), s). (rc, s)) (aws_iot_mqtt_publish env topic len params s)"

interpretation publish_api: api_bracket env CLIENT_STATE_CONNECTED_PUBLISH_IN_PROGRESS accepting
  "topic \<noteq> None \<and> params \<noteq> None \<and> len \<noteq> 0"
  "\<lambda>s. map_option (\<lambda>((rc, p), s). (rc, s)) (aws_iot_mqtt_internal_publish env (the topic) len (the params) s)"
  "publish_rc env topic len params"
proof
  fix c w s
  assume "topic \<noteq> None \<and> params \<noteq> None \<and> len \<noteq> 0" "aws_iot_mqtt_is_client_connected c"
    "accepting (clientState c)" "aws_iot_mqtt_set_client_state env (clientState c)
      CLIENT_STATE_CONNECTED_PUBLISH_IN_PROGRESS (c, w) = (AWS_SUCCESS, s)"
  then show "publish_rc env topic len params (c, w) = do {
      (rc1, s) \<leftarrow> map_option (\<lambda>((rc, p), s). (rc, s))
        (aws_iot_mqtt_internal_publish env (the topic) len (the params) s);
      let (rc2, s) = aws_iot_mqtt_set_client_state env CLIENT_STATE_CONNECTED_PUBLISH_IN_PROGRESS (clientState c) s in
      Some (if rc1 = AWS_SUCCESS \<and> rc2 \<noteq> AWS_SUCCESS then rc2 else rc1, s) }"
    by (cases "aws_iot_mqtt_internal_publish env (the topic) len (the params) s")
      (auto simp: publish_rc_def aws_iot_mqtt_publish_def aws_iot_mqtt_get_client_state_def accepting_def
        split: prod.splits)
next
  fix c :: Client and w
  assume "handlers_ok env" "mutexes_work env" "client_wf c"
    "clientState c = CLIENT_STATE_CONNECTED_PUBLISH_IN_PROGRESS"
  from kept_internal_publish [OF this, of "the topic" len "the params" w]
  show "kept CLIENT_STATE_CONNECTED_PUBLISH_IN_PROGRESS (map_option (\<lambda>((rc, p), s). (rc, s))
      (aws_iot_mqtt_internal_publish env (the topic) len (the params) (c, w)))"
    by (cases "aws_iot_mqtt_internal_publish env (the topic) len (the params) (c, w)") (auto simp: kept_def)
qed (auto simp: publish_rc_def aws_iot_mqtt_publish_def aws_iot_mqtt_get_client_state_def accepting_def
    split: option.splits)

interpretation subscribe_api: api_bracket env CLIENT_STATE_CONNECTED_SUBSCRIBE_IN_PROGRESS accepting
  "topic \<noteq> None \<and> h \<noteq> NULL" "aws_iot_mqtt_internal_subscribe env (the topic) len qos h d"
  "aws_iot_mqtt_subscribe env topic len qos h d"
  by standard (auto simp: aws_iot_mqtt_subscribe_def aws_iot_mqtt_get_client_state_def accepting_def
    intro: keeps split: option.splits)

interpretation unsubscribe_api: api_bracket env CLIENT_STATE_CONNECTED_UNSUBSCRIBE_IN_PROGRESS accepting
  "topic \<noteq> None" "aws_iot_mqtt_internal_unsubscribe env (the topic) len"
  "aws_iot_mqtt_unsubscribe env topic len"
  by standard (auto simp: aws_iot_mqtt_unsubscribe_def aws_iot_mqtt_get_client_state_def accepting_def
    intro: keeps split: option.splits)

interpretation resubscribe_api: api_bracket env CLIENT_STATE_CONNECTED_RESUBSCRIBE_IN_PROGRESS
  "\<lambda>st. st = CLIENT_STATE_CONNECTED_IDLE" True "aws_iot_mqtt_internal_resubscribe env"
  "aws_iot_mqtt_resubscribe env"
  by standard (auto simp: aws_iot_mqtt_resubscribe_def aws_iot_mqtt_get_client_state_def
    intro: keeps split: option.splits)

section \<open>A command and its acknowledgement\<close>

text \<open>A timeout of \<open>ms\<close> that is longer than the command takes.\<close>

definition in_time :: "'w Env \<Rightarrow> u32 \<Rightarrow> bool" where
  "in_time env ms \<longleftrightarrow> (\<forall>w w'. \<not> fst (has_timer_expired env (fst (countdown_ms env ms w)) w'))"

lemma in_timeD:
  "in_time env ms \<Longrightarrow> countdown_ms env ms w = (timer, w1) \<Longrightarrow> \<not> fst (has_timer_expired env timer w')"
  unfolding in_time_def by (metis fst_conv)

definition stored_packet :: "byte list \<Rightarrow> byte list \<Rightarrow> byte list" where
  "stored_packet packet buf = packet @ drop (length packet) buf"

lemma length_stored_packet [simp]:
  "length packet \<le> length buf \<Longrightarrow> length (stored_packet packet buf) = length buf"
  by (simp add: stored_packet_def)

lemma take_stored_packet [simp]: "take (length packet) (stored_packet packet buf) = packet"
  by (simp add: stored_packet_def)

lemma emitted_stored: "emitted buf packet = (stored_packet packet buf, length packet)"
  by (simp add: emitted_def stored_packet_def)

context connected_world begin

lemma countdown_obs: "countdown_ms env ms w = (t, w') \<Longrightarrow> obs w' = obs w"
  using tick_obs [of w] by (auto simp: countdown_ms_def split: prod.splits)

lemma send_serialized_ok:
  assumes "client_wf c" "packet \<noteq> []" "length packet < AWS_IOT_MQTT_TX_BUF_LEN" "2 \<le> fuel env"
    and "\<And>w. \<not> fst (has_timer_expired env timer w)"
  shows "\<exists>w'. send_serialized env timer (success (emitted (writeBuf c) packet)) (c, w)
      = Some (AWS_SUCCESS, c\<lparr>writeBuf := stored_packet packet (writeBuf c)\<rparr>, w')
    \<and> obs w' = (pending w, sent w @ packet, seen w)"
proof -
  let ?c = "c\<lparr>writeBuf := stored_packet packet (writeBuf c)\<rparr>"
  have "client_wf ?c" using assms by (simp add: client_wf_def)
  from send_packet_ok [OF this _ assms(3-5), of w] assms(2) show ?thesis
    by (auto simp: send_serialized_def emitted_stored success_def)
qed

lemma wait_ok:
  assumes "client_wf c" "length (mqtt_packet h body) \<le> AWS_IOT_MQTT_RX_BUF_LEN"
    and "pending w = mqtt_packet h body @ rest" "4 < fuel env"
    and "header_type h = type_code ty" "type_code ty \<in> {2, 4, 9, 11}"
    and unexpired: "\<And>w. \<not> fst (has_timer_expired env timer w)"
  shows "\<exists>w'. aws_iot_mqtt_internal_wait_for_read env ty timer (c, w)
      = Some (AWS_SUCCESS, c\<lparr>readBuf := stored_packet (mqtt_packet h body) (readBuf c)\<rparr>, w')
    \<and> obs w' = (rest, sent w, seen w)"
proof -
  obtain n where n: "fuel env = Suc n" using assms(4) by (cases "fuel env") auto
  obtain w1 where w1: "has_timer_expired env timer w = (False, w1)" "obs w1 = obs w"
    using unexpired [of w] expired_obs [of timer w] by (metis prod.collapse)
  have "pending w1 = mqtt_packet h body @ rest" using w1(2) assms(3) by (simp add: obs_def)
  from cycle_read_packet [OF assms(1,2) this assms(4) refl, of timer 0] assms(5,6)
  obtain w2 where w2: "aws_iot_mqtt_internal_cycle_read env timer 0 (c, w1)
      = Some ((AWS_SUCCESS, type_code ty), c\<lparr>readBuf := stored_packet (mqtt_packet h body) (readBuf c)\<rparr>, w2)"
    "obs w2 = (rest, sent w1, seen w1)"
    by (auto simp: stored_packet_def)
  show ?thesis
    using w1 w2 by (simp add: aws_iot_mqtt_internal_wait_for_read_def n obs_def)
qed

end

section \<open>Commands in a connected world\<close>

lemma command_fits:
  assumes "length body < 1020"
  shows "length (mqtt_packet h body) < AWS_IOT_MQTT_TX_BUF_LEN"
    and "unat (aws_iot_mqtt_internal_get_final_packet_length_from_remaining_length (of_nat (length body))) \<le> 1024"
proof -
  have u: "unat (of_nat (length body) :: u32) = length body"
    using assms by (intro unat_of_nat_length) simp
  have "length (encode_len (length body)) \<le> 2"
    using assms by (simp add: length_encode_len)
  then show "length (mqtt_packet h body) < AWS_IOT_MQTT_TX_BUF_LEN"
    using assms by (simp add: mqtt_packet_def)
  show "unat (aws_iot_mqtt_internal_get_final_packet_length_from_remaining_length (of_nat (length body))) \<le> 1024"
    using assms final_packet_length [of "of_nat (length body)", unfolded u] by simp
qed

lemma mqtt_packet_not_Nil [simp]: "mqtt_packet h body \<noteq> []"
  by (simp add: mqtt_packet_def)

lemma command_headers:
  "init_byte SUBSCRIBE QOS1 0 0 = 0x82" "init_byte UNSUBSCRIBE QOS1 0 0 = 0xA2"
  by (simp_all add: init_byte_def header_byte_def)

lemma wf_sizes:
  "client_wf c \<Longrightarrow> length (writeBuf c) = 1024" "client_wf c \<Longrightarrow> writeBufSize c = 1024"
  "client_wf c \<Longrightarrow> length (readBuf c) = 1024" "client_wf c \<Longrightarrow> readBufSize c = 1024"
  by (simp_all add: client_wf_def)

lemma subscribe_packet:
  assumes "client_wf c" "unat len \<le> length topic" "unat len \<le> 1000"
  shows "aws_iot_mqtt_serialize_subscribe (writeBuf c) (writeBufSize c) 0 pid [(topic, len, qos)]
    = success (emitted (writeBuf c) (mqtt_packet 0x82 (subscribe_body pid [(topic, len, qos)])))"
proof -
  have "length (subscribe_body pid [(topic, len, qos)]) = 5 + unat len"
    using assms by (simp add: subscribe_body_def length_str_field)
  then show ?thesis
    using serialize_subscribe [of "[(topic, len, qos)]" pid "writeBufSize c" "writeBuf c" 0] assms
      command_fits(2) [of "subscribe_body pid [(topic, len, qos)]"]
    by (simp add: wf_sizes command_headers)
qed

lemma unsubscribe_packet:
  assumes "client_wf c" "unat len \<le> length topic" "unat len \<le> 1000"
  shows "aws_iot_mqtt_serialize_unsubscribe (writeBuf c) (writeBufSize c) 0 pid [(topic, len)]
    = success (emitted (writeBuf c) (mqtt_packet 0xA2 (unsubscribe_body pid [(topic, len)])))"
proof -
  have "length (unsubscribe_body pid [(topic, len)]) = 4 + unat len"
    using assms by (simp add: unsubscribe_body_def length_str_field)
  then show ?thesis
    using serialize_unsubscribe [of "[(topic, len)]" pid "writeBufSize c" "writeBuf c" 0] assms
      command_fits(2) [of "unsubscribe_body pid [(topic, len)]"]
    by (simp add: wf_sizes command_headers)
qed

text \<open>A SUBACK and an UNSUBACK at the front of the receive buffer.\<close>

lemma suback_accepted:
  assumes "client_wf c"
  shows "return_code (aws_iot_mqtt_deserialize_suback 1 [QOS0, QOS0, QOS0]
      (stored_packet (mqtt_packet 0x90 (u16_bytes pid @ [g])) (readBuf c)) (readBufSize c)) s
    = Some (AWS_SUCCESS, s)"
  using deserialize_suback_packet [of "[g]" 1 "[QOS0, QOS0, QOS0]" "readBufSize c" "0x90" pid
      "drop (length (mqtt_packet 0x90 (u16_bytes pid @ [g]))) (readBuf c)"] assms
  by (simp add: stored_packet_def wf_sizes return_code_def success_def header_type_def)

lemma unsuback_accepted:
  assumes "client_wf c"
  shows "return_code (aws_iot_mqtt_deserialize_unsuback
      (stored_packet (mqtt_packet 0xB0 (u16_bytes pid)) (readBuf c)) (readBufSize c)) s
    = Some (AWS_SUCCESS, s)"
  using deserialize_ack_packet [of "u16_bytes pid" pid "[]" "readBufSize c" "0xB0"
      "drop (length (mqtt_packet 0xB0 (u16_bytes pid))) (readBuf c)"] assms
  by (simp add: aws_iot_mqtt_deserialize_unsuback_def stored_packet_def wf_sizes return_code_def
      header_type_def)

lemma puback_accepted:
  assumes "client_wf c"
  shows "return_code (aws_iot_mqtt_internal_deserialize_ack
      (stored_packet (mqtt_packet 0x40 (u16_bytes pid)) (readBuf c)) (readBufSize c)) s
    = Some (AWS_SUCCESS, s)"
  using deserialize_ack_packet [of "u16_bytes pid" pid "[]" "readBufSize c" "0x40"
      "drop (length (mqtt_packet 0x40 (u16_bytes pid))) (readBuf c)"] assms
  by (simp add: stored_packet_def wf_sizes return_code_def header_type_def success_def)

lemma short_ack_fits:
  "length body \<le> 4 \<Longrightarrow> length (mqtt_packet h body) \<le> AWS_IOT_MQTT_RX_BUF_LEN"
  by (simp add: mqtt_packet_def length_encode_len)

lemma send_serialized_writeBuf [simp]:
  "send_serialized env timer (Some (Inr packet)) (c\<lparr>writeBuf := buf\<rparr>, w)
   = send_serialized env timer (Some (Inr packet)) (c, w)"
  by (cases packet) (simp add: send_serialized_def)

lemma handler_overwritten [simp]:
  "h\<lparr>mh_topicName := t, mh_topicNameLen := l, mh_pApplicationHandler := fn,
     mh_pApplicationHandlerData := d, mh_qos := q\<rparr>
   = \<lparr>mh_topicName = t, mh_topicNameLen = l, mh_qos = q, mh_pApplicationHandler = fn,
      mh_pApplicationHandlerData = d\<rparr>"
  by (cases h) simp

text \<open>The packet of a publish call, with the identifier the call uses.\<close>

definition published :: "byte list \<Rightarrow> u16 \<Rightarrow> IoT_Publish_Message_Params \<Rightarrow> u16 \<Rightarrow> byte list \<Rightarrow> byte list" where
  "published topic len params n pl = mqtt_packet (init_byte PUBLISH (msg_qos params) 0 (msg_isRetained params))
     (publish_body topic len (msg_qos params) n (take (unat (msg_payloadLen params)) pl))"

lemma publish_packet:
  assumes "client_wf c" "unat len \<le> length topic" "msg_payload params = Some pl"
    "unat (msg_payloadLen params) \<le> length pl" "unat len + unat (msg_payloadLen params) \<le> 1000"
  shows "aws_iot_mqtt_internal_serialize_publish (writeBuf c) (writeBufSize c) 0 (msg_qos params)
      (msg_isRetained params) n topic len (msg_payload params) (msg_payloadLen params)
    = success (emitted (writeBuf c) (published topic len params n pl))"
    and "length (publish_body topic len (msg_qos params) n (take (unat (msg_payloadLen params)) pl)) < 1020"
proof -
  let ?body = "publish_body topic len (msg_qos params) n (take (unat (msg_payloadLen params)) pl)"
  show len: "length ?body < 1020"
    using assms by (simp add: publish_body_def length_str_field)
  show "aws_iot_mqtt_internal_serialize_publish (writeBuf c) (writeBufSize c) 0 (msg_qos params)
      (msg_isRetained params) n topic len (msg_payload params) (msg_payloadLen params)
    = success (emitted (writeBuf c) (published topic len params n pl))"
    using serialize_publish [OF assms(2,4) _ _ refl, of "writeBufSize c" "writeBuf c" 0 "msg_qos params"
        "msg_isRetained params" n] assms command_fits(2) [OF len]
    by (simp add: published_def wf_sizes)
qed

context connected_world begin

text \<open>Sending a command and waiting for its acknowledgement.\<close>

lemma exchange_ok:
  assumes "client_wf c" "length cmd < 1020" "length body \<le> 4"
    and "pending w = mqtt_packet h body @ rest" "4 < fuel env"
    and "header_type h = type_code ty" "type_code ty \<in> {2, 4, 9, 11}"
    and "\<And>w. \<not> fst (has_timer_expired env timer w)"
  shows "\<exists>w1 w2. send_serialized env timer (success (emitted (writeBuf c) (mqtt_packet h' cmd))) (c, w)
      = Some (AWS_SUCCESS, c\<lparr>writeBuf := stored_packet (mqtt_packet h' cmd) (writeBuf c)\<rparr>, w1) \<and>
    aws_iot_mqtt_internal_wait_for_read env ty timer
        (c\<lparr>writeBuf := stored_packet (mqtt_packet h' cmd) (writeBuf c)\<rparr>, w1)
      = Some (AWS_SUCCESS, c\<lparr>writeBuf := stored_packet (mqtt_packet h' cmd) (writeBuf c),
          readBuf := stored_packet (mqtt_packet h body) (readBuf c)\<rparr>, w2)
    \<and> obs w2 = (rest, sent w @ mqtt_packet h' cmd, seen w)"
proof -
  let ?c = "c\<lparr>writeBuf := stored_packet (mqtt_packet h' cmd) (writeBuf c)\<rparr>"
  have fits: "length (mqtt_packet h' cmd) < AWS_IOT_MQTT_TX_BUF_LEN"
    by (rule command_fits(1) [OF assms(2)])
  then have c: "client_wf ?c"
    using assms(1) by (simp add: client_wf_def)
  have fuel: "2 \<le> fuel env" using assms(5) by simp
  obtain w1 where w1: "send_serialized env timer (success (emitted (writeBuf c) (mqtt_packet h' cmd))) (c, w)
      = Some (AWS_SUCCESS, ?c, w1)" "obs w1 = (pending w, sent w @ mqtt_packet h' cmd, seen w)"
    using send_serialized_ok [OF assms(1) mqtt_packet_not_Nil fits fuel assms(8)] by blast
  then have "pending w1 = mqtt_packet h body @ rest"
    using assms(4) by (simp add: obs_def)
  from wait_ok [OF c short_ack_fits [OF assms(3)] this assms(5-8)] w1 show ?thesis
    by (fastforce simp: obs_def)
qed

lemma internal_subscribe_ok:
  assumes c: "client_wf c" and topic: "unat len \<le> length topic" "unat len \<le> 1000"
    and free: "free_handler_index (messageHandlers c) < AWS_IOT_MQTT_NUM_SUBSCRIBE_HANDLERS"
    and time: "in_time env (commandTimeoutMs c)" and fuel: "4 < fuel env"
    and w: "pending w = mqtt_packet 0x90 (u16_bytes pid @ [g]) @ rest"
    and id: "aws_iot_mqtt_get_next_packet_id c = (n, c1)"
  shows "\<exists>c' w'. aws_iot_mqtt_internal_subscribe env topic len qos fn d (c, w) = Some (AWS_SUCCESS, c', w')
    \<and> messageHandlers c' = (messageHandlers c)[free_handler_index (messageHandlers c) :=
        \<lparr>mh_topicName = Some topic, mh_topicNameLen = len, mh_qos = qos, mh_pApplicationHandler = fn,
         mh_pApplicationHandlerData = d\<rparr>]
    \<and> clientState c' = clientState c
    \<and> obs w' = (rest, sent w @ mqtt_packet 0x82 (subscribe_body n [(topic, len, qos)]), seen w)"
proof -
  obtain timer w0 where t: "countdown_ms env (commandTimeoutMs c) w = (timer, w0)" by fastforce
  have w0: "obs w0 = obs w" by (rule countdown_obs [OF t])
  note k = next_packet_id_keeps [OF id]
  have c1: "client_wf c1" using k c by simp
  let ?body = "subscribe_body n [(topic, len, qos)]"
  have len: "length ?body < 1020" "length (u16_bytes pid @ [g]) \<le> 4"
    using topic by (simp_all add: subscribe_body_def length_str_field)
  have "pending w0 = mqtt_packet 0x90 (u16_bytes pid @ [g]) @ rest"
    using w w0 by (simp add: obs_def)
  from exchange_ok [OF c1 len this fuel, of SUBACK timer "0x82"]
  obtain w1 w2 where ex:
    "send_serialized env timer (success (emitted (writeBuf c1) (mqtt_packet 0x82 ?body))) (c1, w0)
      = Some (AWS_SUCCESS, c1\<lparr>writeBuf := stored_packet (mqtt_packet 0x82 ?body) (writeBuf c1)\<rparr>, w1)"
    "aws_iot_mqtt_internal_wait_for_read env SUBACK timer
        (c1\<lparr>writeBuf := stored_packet (mqtt_packet 0x82 ?body) (writeBuf c1)\<rparr>, w1)
      = Some (AWS_SUCCESS, c1\<lparr>writeBuf := stored_packet (mqtt_packet 0x82 ?body) (writeBuf c1),
          readBuf := stored_packet (mqtt_packet 0x90 (u16_bytes pid @ [g])) (readBuf c1)\<rparr>, w2)"
    "obs w2 = (rest, sent w0 @ mqtt_packet 0x82 ?body, seen w0)"
    using in_timeD [OF time t] by (auto simp: header_type_def)
  have i: "free_handler_index (messageHandlers c1) < length (messageHandlers c1)"
    using free k c by (simp add: wf_handlers)
  have table: "messageHandlers c1 = messageHandlers c" "clientState c1 = clientState c"
    using k by blast+
  show ?thesis
    using ex i w0 table free
    by (simp add: aws_iot_mqtt_internal_subscribe_def t id subscribe_packet [OF c1 topic]
        aws_iot_mqtt_get_free_message_handler_index_def emitted_stored
        on_success_def obs_def success_def Let_def suback_accepted [OF c1] del: One_nat_def)
qed

lemma internal_unsubscribe_ok:
  assumes c: "client_wf c" and topic: "len = of_nat (length topic)" "length topic \<le> 1000"
    and present: "list_ex (has_filter topic) (messageHandlers c)"
    and time: "in_time env (commandTimeoutMs c)" and fuel: "4 < fuel env"
    and w: "pending w = mqtt_packet 0xB0 (u16_bytes pid) @ rest"
    and id: "aws_iot_mqtt_get_next_packet_id c = (n, c1)"
  shows "\<exists>c' w'. aws_iot_mqtt_internal_unsubscribe env topic len (c, w) = Some (AWS_SUCCESS, c', w')
    \<and> messageHandlers c' = remove_filter topic (messageHandlers c)
    \<and> clientState c' = clientState c
    \<and> obs w' = (rest, sent w @ mqtt_packet 0xA2 (unsubscribe_body n [(topic, len)]), seen w)"
proof -
  obtain timer w0 where t: "countdown_ms env (commandTimeoutMs c) w = (timer, w0)" by fastforce
  have w0: "obs w0 = obs w" by (rule countdown_obs [OF t])
  note k = next_packet_id_keeps [OF id]
  have c1: "client_wf c1" using k c by simp
  have "unat len = length topic"
    using topic by (simp add: unat_of_nat_lt)
  then have mem: "unat len \<le> length topic" "unat len \<le> 1000"
    using topic by simp_all
  let ?body = "unsubscribe_body n [(topic, len)]"
  have len: "length ?body < 1020" "length (u16_bytes pid) \<le> 4"
    using mem by (simp_all add: unsubscribe_body_def length_str_field)
  have "pending w0 = mqtt_packet 0xB0 (u16_bytes pid) @ rest"
    using w w0 by (simp add: obs_def)
  from exchange_ok [OF c1 len this fuel, of UNSUBACK timer "0xA2"]
  obtain w1 w2 where ex:
    "send_serialized env timer (success (emitted (writeBuf c1) (mqtt_packet 0xA2 ?body))) (c1, w0)
      = Some (AWS_SUCCESS, c1\<lparr>writeBuf := stored_packet (mqtt_packet 0xA2 ?body) (writeBuf c1)\<rparr>, w1)"
    "aws_iot_mqtt_internal_wait_for_read env UNSUBACK timer
        (c1\<lparr>writeBuf := stored_packet (mqtt_packet 0xA2 ?body) (writeBuf c1)\<rparr>, w1)
      = Some (AWS_SUCCESS, c1\<lparr>writeBuf := stored_packet (mqtt_packet 0xA2 ?body) (writeBuf c1),
          readBuf := stored_packet (mqtt_packet 0xB0 (u16_bytes pid)) (readBuf c1)\<rparr>, w2)"
    "obs w2 = (rest, sent w0 @ mqtt_packet 0xA2 ?body, seen w0)"
    using in_timeD [OF time t] by (auto simp: header_type_def)
  have table: "messageHandlers c1 = messageHandlers c" "clientState c1 = clientState c"
    using k by blast+
  show ?thesis
    using ex w0 table present
    by (simp add: aws_iot_mqtt_internal_unsubscribe_def t id unsubscribe_packet [OF c1 mem]
        on_success_def obs_def Let_def unsuback_accepted [OF c1])
qed

lemma internal_publish_qos0_ok:
  assumes c: "client_wf c" and topic: "unat len \<le> length topic" "msg_payload params = Some pl"
    "unat (msg_payloadLen params) \<le> length pl" "unat len + unat (msg_payloadLen params) \<le> 1000"
    and q: "msg_qos params = QOS0"
    and time: "in_time env (commandTimeoutMs c)" and fuel: "4 < fuel env"
  shows "\<exists>c' w'. aws_iot_mqtt_internal_publish env topic len params (c, w) = Some ((AWS_SUCCESS, params), c', w')
    \<and> clientState c' = clientState c \<and> messageHandlers c' = messageHandlers c
    \<and> obs w' = (pending w, sent w @ published topic len params (msg_id params) pl, seen w)"
proof -
  obtain timer w0 where t: "countdown_ms env (commandTimeoutMs c) w = (timer, w0)" by fastforce
  have w0: "obs w0 = obs w" by (rule countdown_obs [OF t])
  let ?p = "published topic len params (msg_id params) pl"
  have "?p \<noteq> []" "length ?p < AWS_IOT_MQTT_TX_BUF_LEN" "2 \<le> fuel env"
    using command_fits(1) [OF publish_packet(2) [OF c topic]] fuel by (simp_all add: published_def)
  from send_serialized_ok [OF c this in_timeD [OF time t], of w0] w0 show ?thesis
    using q publish_packet(1) [OF c topic, of "msg_id params", unfolded q]
    by (auto simp: aws_iot_mqtt_internal_publish_def t on_success_def obs_def)
qed

lemma internal_publish_qos1_ok:
  assumes c: "client_wf c" and topic: "unat len \<le> length topic" "msg_payload params = Some pl"
    "unat (msg_payloadLen params) \<le> length pl" "unat len + unat (msg_payloadLen params) \<le> 1000"
    and q: "msg_qos params = QOS1"
    and time: "in_time env (commandTimeoutMs c)" and fuel: "4 < fuel env"
    and w: "pending w = mqtt_packet 0x40 (u16_bytes pid) @ rest"
    and id: "aws_iot_mqtt_get_next_packet_id c = (n, c1)"
  shows "\<exists>c' w'. aws_iot_mqtt_internal_publish env topic len params (c, w)
      = Some ((AWS_SUCCESS, params\<lparr>msg_id := n\<rparr>), c', w')
    \<and> clientState c' = clientState c \<and> messageHandlers c' = messageHandlers c
    \<and> obs w' = (rest, sent w @ published topic len params n pl, seen w)"
proof -
  obtain timer w0 where t: "countdown_ms env (commandTimeoutMs c) w = (timer, w0)" by fastforce
  have w0: "obs w0 = obs w" by (rule countdown_obs [OF t])
  note k = next_packet_id_keeps [OF id]
  have c1: "client_wf c1" using k c by simp
  let ?body = "publish_body topic len (msg_qos params) n (take (unat (msg_payloadLen params)) pl)"
  let ?h = "init_byte PUBLISH (msg_qos params) 0 (msg_isRetained params)"
  have "length (u16_bytes pid) \<le> 4" "pending w0 = mqtt_packet 0x40 (u16_bytes pid) @ rest"
    using w w0 by (simp_all add: obs_def)
  from exchange_ok [OF c1 publish_packet(2) [OF c topic, where n = n] this fuel, of PUBACK timer ?h]
  obtain w1 w2 where ex:
    "send_serialized env timer (success (emitted (writeBuf c1) (mqtt_packet ?h ?body))) (c1, w0)
      = Some (AWS_SUCCESS, c1\<lparr>writeBuf := stored_packet (mqtt_packet ?h ?body) (writeBuf c1)\<rparr>, w1)"
    "aws_iot_mqtt_internal_wait_for_read env PUBACK timer
        (c1\<lparr>writeBuf := stored_packet (mqtt_packet ?h ?body) (writeBuf c1)\<rparr>, w1)
      = Some (AWS_SUCCESS, c1\<lparr>writeBuf := stored_packet (mqtt_packet ?h ?body) (writeBuf c1),
          readBuf := stored_packet (mqtt_packet 0x40 (u16_bytes pid)) (readBuf c1)\<rparr>, w2)"
    "obs w2 = (rest, sent w0 @ mqtt_packet ?h ?body, seen w0)"
    using in_timeD [OF time t] by (auto simp: header_type_def)
  have ser: "aws_iot_mqtt_internal_serialize_publish (writeBuf c1) (writeBufSize c1) 0 QOS1
      (msg_isRetained params) n topic len (msg_payload params) (msg_payloadLen params)
    = success (emitted (writeBuf c1) (mqtt_packet ?h ?body))"
    using publish_packet(1) [OF c1 topic, of n] q by (simp add: published_def)
  have table: "messageHandlers c1 = messageHandlers c" "clientState c1 = clientState c"
    using k by blast+
  show ?thesis
    using ex w0 q table
    by (simp add: aws_iot_mqtt_internal_publish_def t id ser on_success_def obs_def
        puback_accepted [OF c1] published_def)
qed

end

section \<open>The handler table as a multiset\<close>

text \<open>A bounded table with keys: what the subscription functions promise of the handler table.\<close>

datatype ('e, 'k) table_op = Insert 'e | Delete 'k

fun run_table :: "('e \<Rightarrow> 't \<Rightarrow> 't option) \<Rightarrow> ('k \<Rightarrow> 't \<Rightarrow> 't) \<Rightarrow> ('e, 'k) table_op list \<Rightarrow> 't \<Rightarrow> 't option" where
  "run_table add remove [] t = Some t"
| "run_table add remove (Insert e # ops) t = Option.bind (add e t) (run_table add remove ops)"
| "run_table add remove (Delete k # ops) t = run_table add remove ops (remove k t)"

fun run_mset :: "('e \<Rightarrow> 'k) \<Rightarrow> ('e, 'k) table_op list \<Rightarrow> 'e multiset \<Rightarrow> 'e multiset" where
  "run_mset key [] M = M"
| "run_mset key (Insert e # ops) M = run_mset key ops (add_mset e M)"
| "run_mset key (Delete k # ops) M = run_mset key ops {#e \<in># M. key e \<noteq> k#}"

locale slot_table =
  fixes entries :: "'t \<Rightarrow> 'e multiset" and capacity :: "'t \<Rightarrow> nat"
    and add :: "'e \<Rightarrow> 't \<Rightarrow> 't option" and remove :: "'k \<Rightarrow> 't \<Rightarrow> 't" and key :: "'e \<Rightarrow> 'k"
    and storable :: "'e \<Rightarrow> bool"
  assumes within_capacity: "size (entries t) \<le> capacity t"
    and add_entries: "add e t = Some t' \<Longrightarrow> storable e \<Longrightarrow> entries t' = add_mset e (entries t)"
    and add_capacity: "add e t = Some t' \<Longrightarrow> capacity t' = capacity t"
    and add_full: "add e t = None \<longleftrightarrow> size (entries t) = capacity t"
    and remove_entries: "entries (remove k t) = {#e \<in># entries t. key e \<noteq> k#}"
    and remove_capacity: "capacity (remove k t) = capacity t"
begin

lemma add_then_remove:
  assumes "add e t = Some t'" "storable e" "key e \<notin># image_mset key (entries t)"
  shows "entries (remove (key e) t') = entries t"
proof -
  have "{#x \<in># entries t. key x \<noteq> key e#} = entries t"
    using assms(3) by (auto simp: filter_mset_eq_conv) (metis image_eqI)
  then show ?thesis
    using add_entries [OF assms(1,2)] by (simp add: remove_entries)
qed

lemma run_refines:
  "run_table add remove ops t = Some t' \<Longrightarrow> (\<And>e. Insert e \<in> set ops \<Longrightarrow> storable e) \<Longrightarrow>
   entries t' = run_mset key ops (entries t) \<and> capacity t' = capacity t"
proof (induction ops arbitrary: t)
  case (Cons op ops)
  then show ?case
    by (cases op) (auto simp: bind_eq_Some_conv add_entries add_capacity remove_entries remove_capacity)
qed simp

end

definition in_use :: "MessageHandlers \<Rightarrow> bool" where
  "in_use h \<longleftrightarrow> mh_topicName h \<noteq> None"

definition subscriptions :: "MessageHandlers list \<Rightarrow> MessageHandlers multiset" where
  "subscriptions hs = mset (filter in_use hs)"

definition store_handler :: "MessageHandlers \<Rightarrow> MessageHandlers list \<Rightarrow> MessageHandlers list option" where
  "store_handler h hs = (let i = free_handler_index hs in if i < length hs then Some (hs[i := h]) else None)"

lemma free_handler_index_le: "free_handler_index hs \<le> length hs"
  by (induction hs) auto

lemma free_handler_index_full: "free_handler_index hs = length hs \<longleftrightarrow> size (subscriptions hs) = length hs"
proof (induction hs)
  case (Cons h hs)
  have "length (filter in_use hs) \<noteq> Suc (length hs)"
    by (metis Suc_n_not_le_n length_filter_le)
  with Cons show ?case
    by (auto simp: subscriptions_def in_use_def [of h] simp del: mset_filter)
qed (simp add: subscriptions_def)

lemma store_handler_subscriptions:
  "free_handler_index hs < length hs \<Longrightarrow> in_use h \<Longrightarrow>
   subscriptions (hs[free_handler_index hs := h]) = add_mset h (subscriptions hs)"
  by (induction hs) (auto simp: subscriptions_def in_use_def)

lemma remove_filter_subscriptions:
  "subscriptions (remove_filter f hs) = {#h \<in># subscriptions hs. \<not> has_filter f h#}"
  by (induction hs) (auto simp: subscriptions_def remove_filter_def has_filter_def in_use_def)

interpretation handlers: slot_table subscriptions length store_handler remove_filter
  "\<lambda>h. the (mh_topicName h)" in_use
proof
  fix f hs
  show "subscriptions (remove_filter f hs) = {#h \<in># subscriptions hs. the (mh_topicName h) \<noteq> f#}"
    unfolding remove_filter_subscriptions
    by (rule filter_mset_cong) (auto simp: subscriptions_def in_use_def has_filter_def)
next
  fix h hs
  show "store_handler h hs = None \<longleftrightarrow> size (subscriptions hs) = length hs"
    using free_handler_index_le [of hs] free_handler_index_full [of hs]
    by (auto simp: store_handler_def)
next
  fix hs :: "MessageHandlers list"
  show "size (subscriptions hs) \<le> length hs"
    by (simp add: subscriptions_def del: mset_filter)
qed (auto simp: store_handler_def Let_def remove_filter_def store_handler_subscriptions
    split: if_splits)

section \<open>The API in a connected world\<close>

context connected_world begin

text \<open>An API call runs its body between two state changes that nobody sees.\<close>

lemma api_ok:
  assumes api: "api_bracket env busy acc valid body api" and "valid" "aws_iot_mqtt_is_client_connected c"
    and "acc (clientState c)"
    and body: "\<And>w1. obs w1 = obs w \<Longrightarrow> \<exists>c' w'. body (c\<lparr>clientState := busy\<rparr>, w1) = Some (rc, c', w')
      \<and> messageHandlers c' = hs \<and> clientState c' = busy \<and> obs w' = o'"
  shows "\<exists>c' w'. api (c, w) = Some (rc, c', w') \<and> clientState c' = clientState c
    \<and> messageHandlers c' = hs \<and> obs w' = o'"
proof -
  obtain w1 where w1: "aws_iot_mqtt_set_client_state env (clientState c) busy (c, w)
      = (AWS_SUCCESS, c\<lparr>clientState := busy\<rparr>, w1)" "obs w1 = obs w"
    using set_state_ok [of "clientState c" busy c w] by auto
  obtain c' w' where c': "body (c\<lparr>clientState := busy\<rparr>, w1) = Some (rc, c', w')"
      "messageHandlers c' = hs" "clientState c' = busy" "obs w' = o'"
    using body [OF w1(2)] by blast
  obtain w2 where "aws_iot_mqtt_set_client_state env busy (clientState c) (c', w')
      = (AWS_SUCCESS, c'\<lparr>clientState := clientState c\<rparr>, w2)" "obs w2 = obs w'"
    using set_state_ok [of busy "clientState c" c' w'] c'(3) by auto
  with api_bracket.accepted [OF api assms(2-4) w1(1)] c' show ?thesis
    by auto
qed

lemma internal_subscribe_full:
  assumes c: "client_wf c" and topic: "unat len \<le> length topic" "unat len \<le> 1000"
    and full: "free_handler_index (messageHandlers c) = AWS_IOT_MQTT_NUM_SUBSCRIBE_HANDLERS"
  shows "\<exists>c' w'. aws_iot_mqtt_internal_subscribe env topic len qos fn d (c, w)
      = Some (MQTT_MAX_SUBSCRIPTIONS_REACHED_ERROR, c', w')
    \<and> messageHandlers c' = messageHandlers c \<and> clientState c' = clientState c \<and> obs w' = obs w"
proof -
  obtain timer w0 where t: "countdown_ms env (commandTimeoutMs c) w = (timer, w0)" by fastforce
  obtain n c1 where id: "aws_iot_mqtt_get_next_packet_id c = (n, c1)" by fastforce
  note k = next_packet_id_keeps [OF id]
  have c1: "client_wf c1" "messageHandlers c1 = messageHandlers c" "clientState c1 = clientState c"
    using k c by blast+
  then show ?thesis
    using countdown_obs [OF t] full
    by (simp add: aws_iot_mqtt_internal_subscribe_def t id subscribe_packet [OF c1(1) topic]
        aws_iot_mqtt_get_free_message_handler_index_def emitted_stored Let_def success_def)
qed

end

lemma next_packet_id_fst [simp]:
  "fst (aws_iot_mqtt_get_next_packet_id (c\<lparr>clientState := st\<rparr>)) = fst (aws_iot_mqtt_get_next_packet_id c)"
  by (simp add: aws_iot_mqtt_get_next_packet_id_def Let_def)

section \<open>Properties\<close>


lemma loopback_handlers_ok: "handlers_ok loop_env" "mutexes_work loop_env"
  by (simp_all add: handlers_ok_def handlers_keep_wf_def loop_env_def mutexes_work_def)


text \<open>API calls are refused with the documented error, and change nothing, when the client is not
  connected or is neither idle nor in a callback.\<close>

theorem api_refused:
  assumes "\<not> aws_iot_mqtt_is_client_connected c \<or> \<not> accepting (clientState c)" "len \<noteq> 0" "fn \<noteq> NULL"
    and rc: "rc = (if aws_iot_mqtt_is_client_connected c then MQTT_CLIENT_NOT_IDLE_ERROR
      else NETWORK_DISCONNECTED_ERROR)"
  shows "aws_iot_mqtt_publish env (Some topic) len (Some params) (c, w) = Some ((rc, Some params), c, w)
    \<and> aws_iot_mqtt_subscribe env (Some topic) len qos fn d (c, w) = Some (rc, c, w)
    \<and> aws_iot_mqtt_unsubscribe env (Some topic) len (c, w) = Some (rc, c, w)
    \<and> aws_iot_mqtt_resubscribe env (c, w) = Some (rc, c, w)"
  using assms
  by (auto simp: aws_iot_mqtt_publish_def aws_iot_mqtt_subscribe_def aws_iot_mqtt_unsubscribe_def
      aws_iot_mqtt_resubscribe_def aws_iot_mqtt_get_client_state_def accepting_def)

theorem api_refused_witness:
  "aws_iot_mqtt_subscribe loop_env (Some [97]) 1 QOS1 7 0
      (new_client, \<lparr>lb_in = [], lb_out = [], lb_calls = []\<rparr>)
    = Some (NETWORK_DISCONNECTED_ERROR, new_client, \<lparr>lb_in = [], lb_out = [], lb_calls = []\<rparr>)"
  using api_refused [of new_client 1 7 _ loop_env "[97]" _ "\<lparr>lb_in = [], lb_out = [], lb_calls = []\<rparr>" QOS1 0, OF _ _ _ refl]
  by (simp add: new_client_def aws_iot_mqtt_is_client_connected_def)

text \<open>A client from which a command can be issued.\<close>

definition ready :: "'w Env \<Rightarrow> Client \<Rightarrow> bool" where
  "ready env c \<longleftrightarrow> client_wf c \<and> accepting (clientState c) \<and> in_time env (commandTimeoutMs c) \<and> 4 < fuel env"

lemma accepting_connected: "accepting (clientState c) \<Longrightarrow> aws_iot_mqtt_is_client_connected c"
  by (auto simp: accepting_def aws_iot_mqtt_is_client_connected_def)

lemma readyD:
  assumes "ready env c"
  shows "client_wf c" "accepting (clientState c)" "aws_iot_mqtt_is_client_connected c" "4 < fuel env"
    "in_time env (commandTimeoutMs (c\<lparr>clientState := st\<rparr>))" "client_wf (c\<lparr>clientState := st\<rparr>)"
  using assms accepting_connected by (simp_all add: ready_def)

lemma handlers_not_full:
  "client_wf c \<Longrightarrow> size (subscriptions (messageHandlers c)) < AWS_IOT_MQTT_NUM_SUBSCRIBE_HANDLERS \<longleftrightarrow>
   free_handler_index (messageHandlers c) < AWS_IOT_MQTT_NUM_SUBSCRIBE_HANDLERS"
  using free_handler_index_full [of "messageHandlers c"] free_handler_index_le [of "messageHandlers c"]
    handlers.within_capacity [of "messageHandlers c"] wf_handlers [of c] by (simp del: One_nat_def) linarith

lemma loopback_in_time: "ms \<noteq> 0 \<Longrightarrow> in_time loop_env ms"
  by (simp add: in_time_def countdown_ms_def has_timer_expired_def left_ms_def loop_env_def word_gt_0)

lemma subscribed_client_ready: "ready loop_env subscribed_client"
proof -
  have "commandTimeoutMs subscribed_client = 20000" "clientState subscribed_client = CLIENT_STATE_CONNECTED_IDLE"
    by (simp_all add: subscribed_client_def new_client_def)
  then show ?thesis
    by (simp add: ready_def subscribed_client_wf accepting_def loopback_in_time loopback_fuel)
qed

lemma next_packet_id_of_state:
  "aws_iot_mqtt_get_next_packet_id (c\<lparr>clientState := st\<rparr>)
   = (fst (aws_iot_mqtt_get_next_packet_id c), snd (aws_iot_mqtt_get_next_packet_id (c\<lparr>clientState := st\<rparr>)))"
  by (metis next_packet_id_fst prod.collapse)

text \<open>C13. Subscribing: with a free slot, one SUBSCRIBE packet with the next packet identifier is sent,
  the SUBACK is consumed, the handler joins the subscriptions of the table and the client is
  again in the state of the call.  The result is the same for every identifier and every return
  code in the SUBACK, also for the refusal 128: the client does not look at them.\<close>

theorem subscribe_exchange:
  assumes "connected_world env pending sent seen" "ready env c"
    and "unat len \<le> length topic" "unat len \<le> 1000" "fn \<noteq> NULL"
    and free: "size (subscriptions (messageHandlers c)) < AWS_IOT_MQTT_NUM_SUBSCRIBE_HANDLERS"
    and w: "pending w = mqtt_packet 0x90 (u16_bytes pid @ [granted]) @ rest"
  shows "\<exists>c' w'. aws_iot_mqtt_subscribe env (Some topic) len qos fn d (c, w) = Some (AWS_SUCCESS, c', w')
    \<and> clientState c' = clientState c
    \<and> subscriptions (messageHandlers c') = add_mset \<lparr>mh_topicName = Some topic, mh_topicNameLen = len,
        mh_qos = qos, mh_pApplicationHandler = fn, mh_pApplicationHandlerData = d\<rparr>
        (subscriptions (messageHandlers c))
    \<and> sent w' = sent w @ mqtt_packet 0x82
        (subscribe_body (fst (aws_iot_mqtt_get_next_packet_id c)) [(topic, len, qos)])
    \<and> pending w' = rest \<and> seen w' = seen w"
proof -
  let ?hs = "messageHandlers c" and ?h = "\<lparr>mh_topicName = Some topic, mh_topicNameLen = len,
        mh_qos = qos, mh_pApplicationHandler = fn, mh_pApplicationHandlerData = d\<rparr>"
  note ready = readyD [OF assms(2)]
  note world = connected_world.obs_def [OF assms(1)]
  have slot: "free_handler_index ?hs < AWS_IOT_MQTT_NUM_SUBSCRIBE_HANDLERS"
    using free handlers_not_full [OF ready(1)] by blast
  have "\<exists>c' w'. aws_iot_mqtt_subscribe env (Some topic) len qos fn d (c, w) = Some (AWS_SUCCESS, c', w')
    \<and> clientState c' = clientState c \<and> messageHandlers c' = ?hs[free_handler_index ?hs := ?h]
    \<and> connected_world.obs pending sent seen w' = (rest, sent w @ mqtt_packet 0x82
        (subscribe_body (fst (aws_iot_mqtt_get_next_packet_id c)) [(topic, len, qos)]), seen w)"
  proof (rule connected_world.api_ok [OF assms(1) subscribe_api.api_bracket_axioms _ ready(3,2)])
    fix w1
    assume w1: "connected_world.obs pending sent seen w1 = connected_world.obs pending sent seen w"
    then have "pending w1 = mqtt_packet 0x90 (u16_bytes pid @ [granted]) @ rest"
      using w by (simp add: world)
    from connected_world.internal_subscribe_ok [OF assms(1) ready(6) assms(3,4) _ ready(5,4) this
        next_packet_id_of_state] slot w1
    show "\<exists>c' w'. aws_iot_mqtt_internal_subscribe env (the (Some topic)) len qos fn d
          (c\<lparr>clientState := CLIENT_STATE_CONNECTED_SUBSCRIBE_IN_PROGRESS\<rparr>, w1) = Some (AWS_SUCCESS, c', w')
        \<and> messageHandlers c' = ?hs[free_handler_index ?hs := ?h]
        \<and> clientState c' = CLIENT_STATE_CONNECTED_SUBSCRIBE_IN_PROGRESS
        \<and> connected_world.obs pending sent seen w' = (rest, sent w @ mqtt_packet 0x82
            (subscribe_body (fst (aws_iot_mqtt_get_next_packet_id c)) [(topic, len, qos)]), seen w)"
      by (simp add: world)
  qed (use assms(5) in simp)
  moreover have "subscriptions (?hs[free_handler_index ?hs := ?h]) = add_mset ?h (subscriptions ?hs)"
    using slot wf_handlers [OF ready(1)] by (intro store_handler_subscriptions) (simp_all add: in_use_def)
  ultimately show ?thesis
    by (auto simp: world)
qed

theorem subscribe_exchange_witness:
  "\<exists>c' w'. aws_iot_mqtt_subscribe loop_env (Some [97]) 1 QOS1 7 0
        (subscribed_client, \<lparr>lb_in = mqtt_packet 0x90 (u16_bytes 2 @ [128]) @ [], lb_out = [], lb_calls = []\<rparr>)
      = Some (AWS_SUCCESS, c', w') \<and> lb_out w' = [0x82, 6, 0, 2, 0, 1, 97, 1]"
proof -
  have "size (subscriptions (messageHandlers subscribed_client)) < AWS_IOT_MQTT_NUM_SUBSCRIBE_HANDLERS"
    by (simp add: subscribed_handlers subscriptions_def in_use_def)
  moreover have "mqtt_packet 0x82 (subscribe_body (fst (aws_iot_mqtt_get_next_packet_id subscribed_client))
      [([97], 1, QOS1)]) = [0x82, 6, 0, 2, 0, 1, 97, 1]"
    by code_simp
  ultimately show ?thesis
    using subscribe_exchange [OF loopback.connected_world_axioms subscribed_client_ready, of 1 "[97]" 7
        "\<lparr>lb_in = mqtt_packet 0x90 (u16_bytes 2 @ [128]) @ [], lb_out = [], lb_calls = []\<rparr>" 2 128 "[]" QOS1 0]
    by auto
qed

text \<open>A full table: subscribing fails with the documented error, sends nothing, reads nothing and
  leaves the table as it is.\<close>

theorem subscribe_table_full:
  assumes "connected_world env pending sent seen" "ready env c"
    and "unat len \<le> length topic" "unat len \<le> 1000" "fn \<noteq> NULL"
    and full: "size (subscriptions (messageHandlers c)) = AWS_IOT_MQTT_NUM_SUBSCRIBE_HANDLERS"
  shows "\<exists>c' w'. aws_iot_mqtt_subscribe env (Some topic) len qos fn d (c, w)
      = Some (MQTT_MAX_SUBSCRIPTIONS_REACHED_ERROR, c', w')
    \<and> clientState c' = clientState c \<and> messageHandlers c' = messageHandlers c
    \<and> sent w' = sent w \<and> pending w' = pending w \<and> seen w' = seen w"
proof -
  note ready = readyD [OF assms(2)]
  note world = connected_world.obs_def [OF assms(1)]
  have slot: "free_handler_index (messageHandlers c) = AWS_IOT_MQTT_NUM_SUBSCRIBE_HANDLERS"
    using full free_handler_index_full [of "messageHandlers c"] wf_handlers [OF ready(1)] by simp
  have "\<exists>c' w'. aws_iot_mqtt_subscribe env (Some topic) len qos fn d (c, w)
      = Some (MQTT_MAX_SUBSCRIPTIONS_REACHED_ERROR, c', w')
    \<and> clientState c' = clientState c \<and> messageHandlers c' = messageHandlers c
    \<and> connected_world.obs pending sent seen w' = connected_world.obs pending sent seen w"
  proof (rule connected_world.api_ok [OF assms(1) subscribe_api.api_bracket_axioms _ ready(3,2)])
    fix w1
    assume "connected_world.obs pending sent seen w1 = connected_world.obs pending sent seen w"
    then show "\<exists>c' w'. aws_iot_mqtt_internal_subscribe env (the (Some topic)) len qos fn d
          (c\<lparr>clientState := CLIENT_STATE_CONNECTED_SUBSCRIBE_IN_PROGRESS\<rparr>, w1)
            = Some (MQTT_MAX_SUBSCRIPTIONS_REACHED_ERROR, c', w')
        \<and> messageHandlers c' = messageHandlers c
        \<and> clientState c' = CLIENT_STATE_CONNECTED_SUBSCRIBE_IN_PROGRESS
        \<and> connected_world.obs pending sent seen w' = connected_world.obs pending sent seen w"
      using connected_world.internal_subscribe_full [OF assms(1) ready(6) assms(3,4), of
          CLIENT_STATE_CONNECTED_SUBSCRIBE_IN_PROGRESS qos fn d w1] slot by simp
  qed (use assms(5) in simp)
  then show ?thesis
    by (auto simp: world)
qed

text \<open>A client with five subscriptions.\<close>

definition full_client :: Client where
  "full_client = subscribed_client\<lparr>messageHandlers :=
     replicate AWS_IOT_MQTT_NUM_SUBSCRIBE_HANDLERS (hd (messageHandlers subscribed_client))\<rparr>"

lemma full_client_ready: "ready loop_env full_client"
  using subscribed_client_ready by (simp add: ready_def full_client_def)

theorem subscribe_table_full_witness:
  "\<exists>c' w'. aws_iot_mqtt_subscribe loop_env (Some [97]) 1 QOS1 7 0
        (full_client, \<lparr>lb_in = [1, 2], lb_out = [], lb_calls = []\<rparr>)
      = Some (MQTT_MAX_SUBSCRIPTIONS_REACHED_ERROR, c', w') \<and> lb_out w' = [] \<and> lb_in w' = [1, 2]"
proof -
  have "size (subscriptions (messageHandlers full_client)) = AWS_IOT_MQTT_NUM_SUBSCRIBE_HANDLERS"
    by (simp add: full_client_def subscribed_handlers subscriptions_def in_use_def numeral_eq_Suc)
  then show ?thesis
    using subscribe_table_full [OF loopback.connected_world_axioms full_client_ready, of 1 "[97]" 7 QOS1 0
        "\<lparr>lb_in = [1, 2], lb_out = [], lb_calls = []\<rparr>"]
    by auto
qed

text \<open>Unsubscribing from a filter that is in the table: one UNSUBSCRIBE packet is sent, the
  UNSUBACK consumed, and exactly the subscriptions with that filter leave the table; a filter that
  is not in the table is an error that sends nothing.\<close>

theorem unsubscribe_exchange:
  assumes "connected_world env pending sent seen" "ready env c"
    and "len = of_nat (length topic)" "length topic \<le> 1000"
    and w: "pending w = mqtt_packet 0xB0 (u16_bytes pid) @ rest"
  shows "\<exists>rc c' w'. aws_iot_mqtt_unsubscribe env (Some topic) len (c, w) = Some (rc, c', w')
    \<and> clientState c' = clientState c
    \<and> subscriptions (messageHandlers c') = {#h \<in># subscriptions (messageHandlers c). \<not> has_filter topic h#}
    \<and> (if list_ex (has_filter topic) (messageHandlers c)
       then rc = AWS_SUCCESS \<and> pending w' = rest \<and> sent w' = sent w @ mqtt_packet 0xA2
          (unsubscribe_body (fst (aws_iot_mqtt_get_next_packet_id c)) [(topic, len)])
       else rc = AWS_FAILURE \<and> pending w' = pending w \<and> sent w' = sent w)
    \<and> seen w' = seen w"
proof -
  let ?hs = "messageHandlers c"
  note ready = readyD [OF assms(2)]
  note world = connected_world.obs_def [OF assms(1)]
  define found where "found = list_ex (has_filter topic) ?hs"
  define o' where "o' = (if found then (rest, sent w @ mqtt_packet 0xA2
          (unsubscribe_body (fst (aws_iot_mqtt_get_next_packet_id c)) [(topic, len)]), seen w)
      else (pending w, sent w, seen w))"
  have none: "remove_filter topic ?hs = ?hs" if "\<not> found"
    using that by (auto simp: found_def remove_filter_def list_ex_iff intro: map_idI)
  have "\<exists>c' w'. aws_iot_mqtt_unsubscribe env (Some topic) len (c, w)
      = Some (if found then AWS_SUCCESS else AWS_FAILURE, c', w')
    \<and> clientState c' = clientState c \<and> messageHandlers c' = remove_filter topic ?hs
    \<and> connected_world.obs pending sent seen w' = o'"
  proof (rule connected_world.api_ok [OF assms(1) unsubscribe_api.api_bracket_axioms _ ready(3,2)])
    fix w1
    assume w1: "connected_world.obs pending sent seen w1 = connected_world.obs pending sent seen w"
    let ?c = "c\<lparr>clientState := CLIENT_STATE_CONNECTED_UNSUBSCRIBE_IN_PROGRESS\<rparr>"
    show "\<exists>c' w'. aws_iot_mqtt_internal_unsubscribe env (the (Some topic)) len (?c, w1)
          = Some (if found then AWS_SUCCESS else AWS_FAILURE, c', w')
        \<and> messageHandlers c' = remove_filter topic ?hs
        \<and> clientState c' = CLIENT_STATE_CONNECTED_UNSUBSCRIBE_IN_PROGRESS
        \<and> connected_world.obs pending sent seen w' = o'"
    proof (cases found)
      case True
      then have present: "list_ex (has_filter topic) (messageHandlers ?c)" by (simp add: found_def)
      have "pending w1 = mqtt_packet 0xB0 (u16_bytes pid) @ rest"
        using w w1 by (simp add: world)
      from connected_world.internal_unsubscribe_ok [OF assms(1) ready(6) assms(3,4) present ready(5,4) this
          next_packet_id_of_state] w1 True
      show ?thesis
        by (simp add: world o'_def)
    next
      case False
      then show ?thesis
        using w1 none by (simp add: aws_iot_mqtt_internal_unsubscribe_def found_def o'_def world)
    qed
  qed simp
  then show ?thesis
    by (auto simp: world o'_def found_def remove_filter_subscriptions split: if_splits)
qed

theorem unsubscribe_exchange_witness:
  "\<exists>c' w'. aws_iot_mqtt_unsubscribe loop_env (Some [97, 47, 43]) 3
        (subscribed_client, \<lparr>lb_in = mqtt_packet 0xB0 (u16_bytes 2) @ [], lb_out = [], lb_calls = []\<rparr>)
      = Some (AWS_SUCCESS, c', w') \<and> subscriptions (messageHandlers c') = {#}
    \<and> lb_out w' = [0xA2, 7, 0, 2, 0, 3, 97, 47, 43]"
proof -
  have "list_ex (has_filter [97, 47, 43]) (messageHandlers subscribed_client)"
    "{#h \<in># subscriptions (messageHandlers subscribed_client). \<not> has_filter [97, 47, 43] h#} = {#}"
    by (simp_all add: subscribed_handlers has_filter_def subscriptions_def in_use_def numeral_eq_Suc)
  moreover have "mqtt_packet 0xA2 (unsubscribe_body (fst (aws_iot_mqtt_get_next_packet_id subscribed_client))
      [([97, 47, 43], 3)]) = [0xA2, 7, 0, 2, 0, 3, 97, 47, 43]"
    by code_simp
  ultimately show ?thesis
    using unsubscribe_exchange [OF loopback.connected_world_axioms subscribed_client_ready, of 3 "[97, 47, 43]"
        "\<lparr>lb_in = mqtt_packet 0xB0 (u16_bytes 2) @ [], lb_out = [], lb_calls = []\<rparr>" 2 "[]"]
    by auto
qed

text \<open>A publish on a working connection.\<close>

lemma publish_connected:
  assumes "connected_world env pending sent seen" "ready env c"
    and topic: "len \<noteq> 0" "unat len \<le> length topic" "msg_payload params = Some pl"
      "unat (msg_payloadLen params) \<le> length pl" "unat len + unat (msg_payloadLen params) \<le> 1000"
    and q: "msg_qos params = QOS0 \<and> rest = pending w
      \<or> msg_qos params = QOS1 \<and> pending w = mqtt_packet 0x40 (u16_bytes pid) @ rest"
    and n: "n = (if msg_qos params = QOS1 then fst (aws_iot_mqtt_get_next_packet_id c) else msg_id params)"
  shows "\<exists>p c' w'. aws_iot_mqtt_publish env (Some topic) len (Some params) (c, w) = Some ((AWS_SUCCESS, p), c', w')
    \<and> clientState c' = clientState c \<and> messageHandlers c' = messageHandlers c
    \<and> sent w' = sent w @ published topic len params n pl \<and> pending w' = rest \<and> seen w' = seen w"
proof -
  note ready = readyD [OF assms(2)]
  note world = connected_world.obs_def [OF assms(1)]
  have "\<exists>c' w'. publish_rc env (Some topic) len (Some params) (c, w) = Some (AWS_SUCCESS, c', w')
    \<and> clientState c' = clientState c \<and> messageHandlers c' = messageHandlers c
    \<and> connected_world.obs pending sent seen w' = (rest, sent w @ published topic len params n pl, seen w)"
  proof (rule connected_world.api_ok [OF assms(1) publish_api.api_bracket_axioms _ ready(3,2)])
    fix w1
    assume w1: "connected_world.obs pending sent seen w1 = connected_world.obs pending sent seen w"
    have "\<exists>p c' w'. aws_iot_mqtt_internal_publish env topic len params
        (c\<lparr>clientState := CLIENT_STATE_CONNECTED_PUBLISH_IN_PROGRESS\<rparr>, w1) = Some ((AWS_SUCCESS, p), c', w')
      \<and> messageHandlers c' = messageHandlers c \<and> clientState c' = CLIENT_STATE_CONNECTED_PUBLISH_IN_PROGRESS
      \<and> connected_world.obs pending sent seen w' = (rest, sent w @ published topic len params n pl, seen w)"
      using q
    proof
      assume "msg_qos params = QOS0 \<and> rest = pending w"
      with connected_world.internal_publish_qos0_ok [OF assms(1) ready(6) topic(2-5) _ ready(5,4), of
          CLIENT_STATE_CONNECTED_PUBLISH_IN_PROGRESS w1] w1 n
      show ?thesis
        by (fastforce simp: world)
    next
      assume q1: "msg_qos params = QOS1 \<and> pending w = mqtt_packet 0x40 (u16_bytes pid) @ rest"
      then have "pending w1 = mqtt_packet 0x40 (u16_bytes pid) @ rest"
        using w1 by (simp add: world)
      from connected_world.internal_publish_qos1_ok [OF assms(1) ready(6) topic(2-5) _ ready(5,4) this
          next_packet_id_of_state] q1 w1 n
      show ?thesis
        by (fastforce simp: world)
    qed
    then show "\<exists>c' w'. map_option (\<lambda>((rc, p), s). (rc, s)) (aws_iot_mqtt_internal_publish env
          (the (Some topic)) len (the (Some params))
          (c\<lparr>clientState := CLIENT_STATE_CONNECTED_PUBLISH_IN_PROGRESS\<rparr>, w1)) = Some (AWS_SUCCESS, c', w')
      \<and> messageHandlers c' = messageHandlers c \<and> clientState c' = CLIENT_STATE_CONNECTED_PUBLISH_IN_PROGRESS
      \<and> connected_world.obs pending sent seen w' = (rest, sent w @ published topic len params n pl, seen w)"
      by auto
  qed (use topic(1) in simp)
  then show ?thesis
    by (auto simp: world publish_rc_def)
qed

text \<open>C14. Publishing: the packet sent is the PUBLISH of the message.  With quality of service 0
  nothing is read; with quality of service 1 the packet carries the next packet identifier and
  the PUBACK is consumed (whatever identifier it acknowledges).\<close>

theorem publish_exchange:
  assumes "connected_world env pending sent seen" "ready env c"
    and topic: "len \<noteq> 0" "unat len \<le> length topic" "msg_payload params = Some pl"
      "unat (msg_payloadLen params) \<le> length pl" "unat len + unat (msg_payloadLen params) \<le> 1000"
    and q: "msg_qos params = QOS0 \<and> rest = pending w
      \<or> msg_qos params = QOS1 \<and> pending w = mqtt_packet 0x40 (u16_bytes pid) @ rest"
    and n: "n = (if msg_qos params = QOS1 then fst (aws_iot_mqtt_get_next_packet_id c) else msg_id params)"
  shows "\<exists>p c' w'. aws_iot_mqtt_publish env (Some topic) len (Some params) (c, w) = Some ((AWS_SUCCESS, p), c', w')
    \<and> clientState c' = clientState c \<and> messageHandlers c' = messageHandlers c
    \<and> sent w' = sent w @ published topic len params n pl \<and> pending w' = rest \<and> seen w' = seen w"
  using assms by (rule publish_connected)

theorem publish_exchange_witness:
  "(\<exists>p c' w'. aws_iot_mqtt_publish loop_env (Some [97]) 1 (Some \<lparr>msg_qos = QOS1, msg_isRetained = 0,
        msg_isDup = 0, msg_id = 0, msg_payload = Some [1, 2], msg_payloadLen = 2\<rparr>)
      (subscribed_client, \<lparr>lb_in = mqtt_packet 0x40 (u16_bytes 2) @ [], lb_out = [], lb_calls = []\<rparr>)
    = Some ((AWS_SUCCESS, p), c', w') \<and> lb_out w' = [0x32, 7, 0, 1, 97, 0, 2, 1, 2])"
proof -
  let ?p = "\<lparr>msg_qos = QOS1, msg_isRetained = 0, msg_isDup = 0, msg_id = 0, msg_payload = Some [1, 2],
    msg_payloadLen = 2\<rparr>"
  have "published [97] 1 ?p (fst (aws_iot_mqtt_get_next_packet_id subscribed_client)) [1, 2]
      = [0x32, 7, 0, 1, 97, 0, 2, 1, 2]"
    by code_simp
  then show ?thesis
    using publish_exchange [OF loopback.connected_world_axioms subscribed_client_ready, of 1 "[97]" ?p "[1, 2]"
        "[]" "\<lparr>lb_in = mqtt_packet 0x40 (u16_bytes 2) @ [], lb_out = [], lb_calls = []\<rparr>" 2, OF _ _ _ _ _ _ refl]
    by auto
qed

text \<open>Resubscribing after a reconnection stops at the first free slot of the table: with the first
  slot free nothing is sent and the call succeeds, whatever subscriptions the other slots hold.\<close>

theorem resubscribe_stops_at_free_slot:
  assumes "connected_world env pending sent seen" "client_wf c"
    and "clientState c = CLIENT_STATE_CONNECTED_IDLE" "mh_topicName (hd (messageHandlers c)) = None"
  shows "\<exists>w'. aws_iot_mqtt_resubscribe env (c, w) = Some (AWS_SUCCESS, c, w')
    \<and> sent w' = sent w \<and> pending w' = pending w"
proof -
  note world = connected_world.obs_def [OF assms(1)]
  let ?busy = CLIENT_STATE_CONNECTED_RESUBSCRIBE_IN_PROGRESS
  have conn: "aws_iot_mqtt_is_client_connected c"
    using assms(3) by (simp add: aws_iot_mqtt_is_client_connected_def)
  have free: "free_handler_index (messageHandlers c) = 0"
    using assms(2,4) by (cases "messageHandlers c") (auto simp: client_wf_def)
  obtain w1 where w1: "aws_iot_mqtt_set_client_state env CLIENT_STATE_CONNECTED_IDLE ?busy (c, w)
      = (AWS_SUCCESS, c\<lparr>clientState := ?busy\<rparr>, w1)"
      "connected_world.obs pending sent seen w1 = connected_world.obs pending sent seen w"
    using connected_world.set_state_ok [OF assms(1), of CLIENT_STATE_CONNECTED_IDLE ?busy c w] assms(3) by auto
  obtain w2 where w2: "aws_iot_mqtt_set_client_state env ?busy CLIENT_STATE_CONNECTED_IDLE (c\<lparr>clientState := ?busy\<rparr>, w1)
      = (AWS_SUCCESS, c\<lparr>clientState := CLIENT_STATE_CONNECTED_IDLE\<rparr>, w2)"
      "connected_world.obs pending sent seen w2 = connected_world.obs pending sent seen w1"
    using connected_world.set_state_ok [OF assms(1), of ?busy CLIENT_STATE_CONNECTED_IDLE
        "c\<lparr>clientState := ?busy\<rparr>" w1] by auto
  have "c\<lparr>clientState := CLIENT_STATE_CONNECTED_IDLE\<rparr> = c"
    using assms(3) by (cases c) simp
  with w1 w2 conn free show ?thesis
    by (simp add: aws_iot_mqtt_resubscribe_def aws_iot_mqtt_get_client_state_def assms(3) world
        aws_iot_mqtt_internal_resubscribe_def aws_iot_mqtt_get_free_message_handler_index_def)
qed

theorem resubscribe_stops_at_free_slot_witness:
  "\<exists>w'. aws_iot_mqtt_resubscribe loop_env (subscribed_client\<lparr>messageHandlers
        := rev (messageHandlers subscribed_client)\<rparr>, \<lparr>lb_in = [], lb_out = [], lb_calls = []\<rparr>)
      = Some (AWS_SUCCESS, subscribed_client\<lparr>messageHandlers := rev (messageHandlers subscribed_client)\<rparr>, w')
    \<and> lb_out w' = [] \<and> lb_in w' = []"
  using resubscribe_stops_at_free_slot [OF loopback.connected_world_axioms, of "subscribed_client\<lparr>messageHandlers
        := rev (messageHandlers subscribed_client)\<rparr>" "\<lparr>lb_in = [], lb_out = [], lb_calls = []\<rparr>"]
    subscribed_client_wf
  by (simp add: subscribed_client_def client_wf_def new_client_def numeral_eq_Suc)


text \<open>A subscription to \<open>f\<close>, for the examples.\<close>

definition handler_for :: "byte list \<Rightarrow> MessageHandlers" where
  "handler_for f = \<lparr>mh_topicName = Some f, mh_topicNameLen = of_nat (length f), mh_qos = QOS0,
     mh_pApplicationHandler = 1, mh_pApplicationHandlerData = NULL\<rparr>"


end
