(* ===== verification/Mqtt_Connect.thy ===== *)
theory Mqtt_Connect
  imports Mqtt_Pubsub
begin

text \<open>
  Connecting, disconnecting and one attempt to reconnect: the operations of
  \<^verbatim>\<open>aws_iot_mqtt_client_connect.c\<close> (its packets are in \<open>Mqtt_Packets\<close>).  The locale
  \<open>connecting_world\<close> adds to a connected world a network stack whose connect and destroy succeed.
\<close>

section \<open>Connect\<close>

definition aws_iot_mqtt_is_client_state_valid_for_connect :: "ClientState \<Rightarrow> bool" where
  "aws_iot_mqtt_is_client_state_valid_for_connect st = (case st of
       CLIENT_STATE_INVALID \<Rightarrow> False
     | CLIENT_STATE_INITIALIZED \<Rightarrow> True
     | CLIENT_STATE_DISCONNECTED_ERROR \<Rightarrow> True
     | CLIENT_STATE_DISCONNECTED_MANUALLY \<Rightarrow> True
     | CLIENT_STATE_PENDING_RECONNECT \<Rightarrow> True
     | _ \<Rightarrow> False)"

text \<open>\<open>None\<close> for the parameters keeps the options of the last call.\<close>

definition aws_iot_mqtt_internal_connect ::
  "'w Env \<Rightarrow> IoT_Client_Connect_Params option \<Rightarrow> Client \<times> 'w \<Rightarrow> (IoT_Error_t \<times> Client \<times> 'w) option" where
  "aws_iot_mqtt_internal_connect env pConnectParams = (\<lambda>(c, w).
     let (rc, c) = (case pConnectParams of None \<Rightarrow> (AWS_SUCCESS, c)
                    | Some params \<Rightarrow> aws_iot_mqtt_set_connect_params params c)
     in if rc \<noteq> AWS_SUCCESS then Some (MQTT_CONNECTION_ERROR, c, w)
     else
       let (rc, w) = net_connect env w
       in if rc \<noteq> AWS_SUCCESS then Some (rc, c, w)
       else
         let (connect_timer, w) = countdown_ms env (commandTimeoutMs c) w;
             c = c\<lparr>keepAliveInterval := keepAliveIntervalInSec (options c)\<rparr>
         in case aws_iot_mqtt_serialize_connect (writeBuf c) (writeBufSize c) (options c) of
              None \<Rightarrow> None
            | Some (Inl rc) \<Rightarrow> Some (rc, c, w)
            | Some (Inr (buf, len)) \<Rightarrow>
                if len \<le> 0 then Some (AWS_SUCCESS, c\<lparr>writeBuf := buf\<rparr>, w)
                else
                  on_success (send_serialized env connect_timer (success (buf, len)) (c, w)) (\<lambda>s.
                  on_success (aws_iot_mqtt_internal_wait_for_read env CONNACK connect_timer s) (\<lambda>(c, w).
                  case aws_iot_mqtt_deserialize_connack (readBuf c) (readBufSize c) of
                    None \<Rightarrow> None
                  | Some (Inl rc) \<Rightarrow> Some (rc, c, w)
                  | Some (Inr (sessionPresent, connack_rc)) \<Rightarrow>
                      if connack_rc \<noteq> MQTT_CONNACK_CONNECTION_ACCEPTED then Some (connack_rc, c, w)
                      else
                        let c = c\<lparr>isPingOutstanding := False\<rparr>;
                            (timer, w) = countdown_sec env (ucast (keepAliveInterval c)) w
                        in Some (AWS_SUCCESS, c\<lparr>pingTimer := timer\<rparr>, w))))"

definition aws_iot_mqtt_connect ::
  "'w Env \<Rightarrow> IoT_Client_Connect_Params option \<Rightarrow> Client \<times> 'w \<Rightarrow> (IoT_Error_t \<times> Client \<times> 'w) option" where
  "aws_iot_mqtt_connect env pConnectParams = (\<lambda>(c, w).
     let clientState = aws_iot_mqtt_get_client_state c
     in if aws_iot_mqtt_is_client_state_valid_for_connect clientState = False
        then Some (NETWORK_ALREADY_CONNECTED_ERROR, c, w)
        else
          let (_, s) = aws_iot_mqtt_set_client_state env clientState CLIENT_STATE_CONNECTING (c, w)
          in do {
            (rc, c, w) \<leftarrow> aws_iot_mqtt_internal_connect env pConnectParams s;
            if rc \<noteq> AWS_SUCCESS then
              let (_, w) = net_disconnect env w;
                  (disconRc, w) = net_destroy env w;
                  rc = (if disconRc \<noteq> AWS_SUCCESS then disconRc else rc);
                  (_, s) = aws_iot_mqtt_set_client_state env CLIENT_STATE_CONNECTING
                             CLIENT_STATE_DISCONNECTED_ERROR (c, w)
              in Some (rc, s)
            else
              let (_, s) = aws_iot_mqtt_set_client_state env CLIENT_STATE_CONNECTING
                             CLIENT_STATE_CONNECTED_IDLE (c, w)
              in Some (rc, s)
          })"

section \<open>Disconnect\<close>

definition aws_iot_mqtt_internal_disconnect ::
  "'w Env \<Rightarrow> Client \<times> 'w \<Rightarrow> (IoT_Error_t \<times> Client \<times> 'w) option" where
  "aws_iot_mqtt_internal_disconnect env = (\<lambda>(c, w).
     case aws_iot_mqtt_internal_serialize_zero (writeBuf c) (writeBufSize c) DISCONNECT of
       None \<Rightarrow> None
     | Some (Inl rc) \<Rightarrow> Some (rc, c, w)
     | Some (Inr (buf, serialized_len)) \<Rightarrow>
         let (timer, w) = countdown_ms env (commandTimeoutMs c) w
         in on_success (if serialized_len > 0
                        then send_serialized env timer (success (buf, serialized_len)) (c, w)
                        else Some (AWS_SUCCESS, c\<lparr>writeBuf := buf\<rparr>, w))
              (\<lambda>(c, w).
                let (_, w) = net_disconnect env w;
                    (rc, w) = net_destroy env w
                in Some (if rc \<noteq> AWS_SUCCESS then AWS_FAILURE else AWS_SUCCESS, c, w)))"

definition aws_iot_mqtt_disconnect ::
  "'w Env \<Rightarrow> Client \<times> 'w \<Rightarrow> (IoT_Error_t \<times> Client \<times> 'w) option" where
  "aws_iot_mqtt_disconnect env = (\<lambda>(c, w).
     let st = aws_iot_mqtt_get_client_state c
     in if \<not> aws_iot_mqtt_is_client_connected c then Some (NETWORK_DISCONNECTED_ERROR, c, w)
        else
          let (rc, s) = aws_iot_mqtt_set_client_state env st CLIENT_STATE_DISCONNECTING (c, w)
          in if rc \<noteq> AWS_SUCCESS then Some (rc, s)
             else do {
               (rc, c, w) \<leftarrow> aws_iot_mqtt_internal_disconnect env s;
               Some (rc, c\<lparr>clientState := if rc \<noteq> AWS_SUCCESS then st
                            else CLIENT_STATE_DISCONNECTED_MANUALLY\<rparr>, w)
             })"

section \<open>One attempt to reconnect\<close>

definition aws_iot_mqtt_attempt_reconnect ::
  "'w Env \<Rightarrow> Client \<times> 'w \<Rightarrow> (IoT_Error_t \<times> Client \<times> 'w) option" where
  "aws_iot_mqtt_attempt_reconnect env = (\<lambda>(c, w).
     if aws_iot_mqtt_is_client_connected c then Some (NETWORK_ALREADY_CONNECTED_ERROR, c, w)
     else do {
       (_, c, w) \<leftarrow> aws_iot_mqtt_connect env None (c, w);
       if CLIENT_STATE_CONNECTED_IDLE \<noteq> aws_iot_mqtt_get_client_state c then
         let (_, s) = aws_iot_mqtt_set_client_state env CLIENT_STATE_DISCONNECTED_ERROR
                        CLIENT_STATE_PENDING_RECONNECT (c, w)
         in Some (NETWORK_ATTEMPTING_RECONNECT, s)
       else
         on_success (aws_iot_mqtt_resubscribe env (c, w)) (\<lambda>s. Some (NETWORK_RECONNECTED, s))
     })"

section \<open>What the operations keep\<close>

lemma kept_set_params:
  "aws_iot_mqtt_set_connect_params p c = (rc, c') \<Longrightarrow> rc = AWS_SUCCESS \<and> client_wf c' = client_wf c \<and>
   clientState c' = clientState c"
  by (auto simp: aws_iot_mqtt_set_connect_params_def client_wf_def)

lemma client_wf_connect_fields [simp]:
  "client_wf (c\<lparr>keepAliveInterval := k\<rparr>) = client_wf c"
  "client_wf (c\<lparr>pingTimer := t\<rparr>) = client_wf c"
  "client_wf (c\<lparr>reconnectDelayTimer := t\<rparr>) = client_wf c"
  "client_wf (c\<lparr>currentReconnectWaitInterval := n\<rparr>) = client_wf c"
  "client_wf (c\<lparr>counterNetworkDisconnected := n\<rparr>) = client_wf c"
  by (simp_all add: client_wf_def)

lemma kept_connack [keeps]:
  "client_wf c \<Longrightarrow> clientState c = st \<Longrightarrow> (\<And>a b. kept st (k a b)) \<Longrightarrow>
   kept st (case m of None \<Rightarrow> None | Some (Inl rc) \<Rightarrow> Some (rc, c, w) | Some (Inr (a, b)) \<Rightarrow> k a b)"
  by (auto split: option.splits sum.splits)

lemma kept_internal_connect [keeps]:
  assumes "handlers_ok env" "mutexes_work env" "client_wf c" "clientState c = st"
  shows "kept st (aws_iot_mqtt_internal_connect env params (c, w))"
proof -
  obtain rc c1 where p: "(case params of None \<Rightarrow> (AWS_SUCCESS, c)
      | Some params \<Rightarrow> aws_iot_mqtt_set_connect_params params c) = (rc, c1)" by fastforce
  have c1: "rc = AWS_SUCCESS" "client_wf c1" "clientState c1 = st"
    using p assms(3,4) kept_set_params by (fastforce split: option.splits)+
  obtain rc2 w2 where n: "net_connect env w = (rc2, w2)" by fastforce
  obtain t w3 where t: "countdown_ms env (commandTimeoutMs c1) w2 = (t, w3)" by fastforce
  let ?c = "c1\<lparr>keepAliveInterval := keepAliveIntervalInSec (options c1)\<rparr>"
  show ?thesis
  proof (cases "aws_iot_mqtt_serialize_connect (writeBuf c1) (writeBufSize c1) (options c1)"
      rule: result_cases)
    case (success x)
    obtain buf l where x: "x = (buf, l)" by fastforce
    with success have "length buf = AWS_IOT_MQTT_TX_BUF_LEN"
      using c1 by (auto simp: success_def wf_writeBuf dest!: serializer_lengths)
    then show ?thesis
      using c1 success x assms(1,2)
      by (auto simp: aws_iot_mqtt_internal_connect_def p n t success_def Let_def
          split: prod.split intro!: keeps)
  qed (use c1 in \<open>auto simp: aws_iot_mqtt_internal_connect_def p n t fail_def Let_def\<close>)
qed

text \<open>A state change by \<^verbatim>\<open>aws_iot_mqtt_set_client_state\<close> from the state the client is in.\<close>

lemma set_state_from:
  assumes "mutexes_work env" "clientState c = old"
  obtains w' where "aws_iot_mqtt_set_client_state env old new (c, w) = (AWS_SUCCESS, c\<lparr>clientState := new\<rparr>, w')"
  using set_client_state_works [OF assms(1), of old new c w] assms(2)
  by (elim exE) (simp only: simp_thms if_True)

lemma set_state_other:
  assumes "mutexes_work env" "clientState c \<noteq> old"
  obtains w' where "aws_iot_mqtt_set_client_state env old new (c, w) = (MQTT_UNEXPECTED_CLIENT_STATE_ERROR, c, w')"
  using set_client_state_works [OF assms(1), of old new c w] assms(2)
  by (elim exE) (simp only: simp_thms if_False)

lemma connect_cases:
  assumes "handlers_ok env" "mutexes_work env" "client_wf c"
    and "aws_iot_mqtt_connect env params (c, w) = Some (rc, c', w')"
    and valid: "aws_iot_mqtt_is_client_state_valid_for_connect (clientState c)"
  shows "client_wf c' \<and> clientState c' = (if rc = AWS_SUCCESS then CLIENT_STATE_CONNECTED_IDLE
      else CLIENT_STATE_DISCONNECTED_ERROR)"
proof -
  let ?cc = "c\<lparr>clientState := CLIENT_STATE_CONNECTING\<rparr>"
  obtain w1 where s1: "aws_iot_mqtt_set_client_state env (clientState c) CLIENT_STATE_CONNECTING (c, w)
      = (AWS_SUCCESS, ?cc, w1)"
    using set_state_from [OF assms(2) refl] by blast
  obtain rc2 c2 w2 where i: "aws_iot_mqtt_internal_connect env params (?cc, w1) = Some (rc2, c2, w2)"
    using assms(4) valid s1
    by (auto simp: aws_iot_mqtt_connect_def aws_iot_mqtt_get_client_state_def bind_eq_Some_conv)
  have k: "kept CLIENT_STATE_CONNECTING (aws_iot_mqtt_internal_connect env params (?cc, w1))"
    using assms(3) by (intro kept_internal_connect assms(1,2)) simp_all
  then have c2: "client_wf c2" "clientState c2 = CLIENT_STATE_CONNECTING"
    using i by simp_all
  obtain rd wd where d: "net_disconnect env w2 = (rd, wd)" by fastforce
  obtain rx wx where x: "net_destroy env wd = (rx, wx)" by fastforce
  obtain w3 where s3: "aws_iot_mqtt_set_client_state env CLIENT_STATE_CONNECTING
      CLIENT_STATE_DISCONNECTED_ERROR (c2, wx) = (AWS_SUCCESS, c2\<lparr>clientState := CLIENT_STATE_DISCONNECTED_ERROR\<rparr>, w3)"
    using set_state_from [OF assms(2) c2(2)] by blast
  obtain w4 where s4: "aws_iot_mqtt_set_client_state env CLIENT_STATE_CONNECTING
      CLIENT_STATE_CONNECTED_IDLE (c2, w2) = (AWS_SUCCESS, c2\<lparr>clientState := CLIENT_STATE_CONNECTED_IDLE\<rparr>, w4)"
    using set_state_from [OF assms(2) c2(2)] by blast
  show ?thesis
    using assms(4) valid s1 i d x s3 s4 c2
    by (auto simp: aws_iot_mqtt_connect_def aws_iot_mqtt_get_client_state_def split: if_splits)
qed

lemma connect_refused_state:
  "\<not> aws_iot_mqtt_is_client_state_valid_for_connect (clientState c) \<Longrightarrow>
   aws_iot_mqtt_connect env params (c, w) = Some (NETWORK_ALREADY_CONNECTED_ERROR, c, w)"
  by (simp add: aws_iot_mqtt_connect_def aws_iot_mqtt_get_client_state_def)

lemma valid_for_connect_iff:
  "aws_iot_mqtt_is_client_state_valid_for_connect st \<longleftrightarrow>
   st \<in> {CLIENT_STATE_INITIALIZED, CLIENT_STATE_DISCONNECTED_ERROR,
         CLIENT_STATE_DISCONNECTED_MANUALLY, CLIENT_STATE_PENDING_RECONNECT}"
  by (cases st) (simp_all add: aws_iot_mqtt_is_client_state_valid_for_connect_def)

lemma internal_disconnect_kept:
  assumes "client_wf c" "clientState c = st"
  shows "kept st (aws_iot_mqtt_internal_disconnect env (c, w))"
proof -
  obtain t w2 where t: "countdown_ms env (commandTimeoutMs c) w = (t, w2)" by fastforce
  have "kept st (let (_, w) = net_disconnect env w; (rc, w) = net_destroy env w
      in Some (if rc \<noteq> AWS_SUCCESS then AWS_FAILURE else AWS_SUCCESS, c, w))"
    if "client_wf c" "clientState c = st" for c w
    using that by (simp add: Let_def split: prod.split)
  moreover have "client_wf (c\<lparr>writeBuf := buf\<rparr>)"
    if "aws_iot_mqtt_internal_serialize_zero (writeBuf c) (writeBufSize c) DISCONNECT = Some (Inr (buf, l))" for buf l
    using that assms by (auto dest!: serializer_lengths simp: client_wf_def)
  moreover have "length buf = AWS_IOT_MQTT_TX_BUF_LEN"
    if "aws_iot_mqtt_internal_serialize_zero (writeBuf c) (writeBufSize c) DISCONNECT = Some (Inr (buf, l))" for buf l
    using that assms by (auto dest!: serializer_lengths simp: wf_writeBuf)
  ultimately show ?thesis
    using assms
    by (auto simp: aws_iot_mqtt_internal_disconnect_def t success_def intro!: keeps
        split: option.splits sum.splits)
qed

lemma disconnect_cases:
  assumes "mutexes_work env" "client_wf c" "aws_iot_mqtt_is_client_connected c"
    and "aws_iot_mqtt_disconnect env (c, w) = Some (rc, c', w')"
  shows "client_wf c' \<and> clientState c' = (if rc = AWS_SUCCESS then CLIENT_STATE_DISCONNECTED_MANUALLY
      else clientState c)"
proof -
  let ?cc = "c\<lparr>clientState := CLIENT_STATE_DISCONNECTING\<rparr>"
  obtain w1 where s1: "aws_iot_mqtt_set_client_state env (clientState c) CLIENT_STATE_DISCONNECTING (c, w)
      = (AWS_SUCCESS, ?cc, w1)"
    using set_state_from [OF assms(1) refl] by blast
  have "kept CLIENT_STATE_DISCONNECTING (aws_iot_mqtt_internal_disconnect env (?cc, w1))"
    using assms(2) by (intro internal_disconnect_kept) simp_all
  then show ?thesis
    using assms(3,4) s1
    by (auto simp: aws_iot_mqtt_disconnect_def aws_iot_mqtt_get_client_state_def bind_eq_Some_conv kept_def)
qed

lemma attempt_reconnect_cases:
  assumes "handlers_ok env" "mutexes_work env" "client_wf c"
    and valid: "aws_iot_mqtt_is_client_state_valid_for_connect (clientState c)"
    and "aws_iot_mqtt_attempt_reconnect env (c, w) = Some (rc, c', w')"
  shows "client_wf c' \<and> (rc = NETWORK_ATTEMPTING_RECONNECT \<and> clientState c' = CLIENT_STATE_PENDING_RECONNECT
      \<or> rc \<noteq> AWS_SUCCESS \<and> clientState c' = CLIENT_STATE_CONNECTED_IDLE)"
proof -
  have "\<not> aws_iot_mqtt_is_client_connected c"
    using valid by (auto simp: valid_for_connect_iff aws_iot_mqtt_is_client_connected_def)
  then obtain rc1 c1 w1 where con: "aws_iot_mqtt_connect env None (c, w) = Some (rc1, c1, w1)"
    using assms(5) by (auto simp: aws_iot_mqtt_attempt_reconnect_def bind_eq_Some_conv)
  have c1: "client_wf c1" "clientState c1 = (if rc1 = AWS_SUCCESS then CLIENT_STATE_CONNECTED_IDLE
      else CLIENT_STATE_DISCONNECTED_ERROR)"
    using connect_cases [OF assms(1-3) con valid] by simp_all
  show ?thesis
  proof (cases "rc1 = AWS_SUCCESS")
    case True
    have "kept CLIENT_STATE_CONNECTED_IDLE (aws_iot_mqtt_resubscribe env (c1, w1))"
      using resubscribe_api.state_restored [OF assms(1,2) c1(1), of w1] c1(2) True by simp
    then show ?thesis
      using assms(5) con c1 True \<open>\<not> aws_iot_mqtt_is_client_connected c\<close>
      by (auto simp: aws_iot_mqtt_attempt_reconnect_def aws_iot_mqtt_get_client_state_def on_success_def
          bind_eq_Some_conv kept_def split: if_splits)
  next
    case False
    obtain w2 where "aws_iot_mqtt_set_client_state env CLIENT_STATE_DISCONNECTED_ERROR
        CLIENT_STATE_PENDING_RECONNECT (c1, w1)
        = (AWS_SUCCESS, c1\<lparr>clientState := CLIENT_STATE_PENDING_RECONNECT\<rparr>, w2)"
      using set_state_from [OF assms(2), of c1 CLIENT_STATE_DISCONNECTED_ERROR] c1(2) False by (metis)
    then show ?thesis
      using assms(5) con c1 False \<open>\<not> aws_iot_mqtt_is_client_connected c\<close>
      by (auto simp: aws_iot_mqtt_attempt_reconnect_def aws_iot_mqtt_get_client_state_def)
  qed
qed

section \<open>A world that can be connected\<close>

locale connecting_world = connected_world env pending sent seen
  for env :: "'w Env" and pending sent :: "'w \<Rightarrow> byte list" and seen :: "'w \<Rightarrow> delivery list" +
  assumes connect_works: "\<exists>w'. net_connect env w = (AWS_SUCCESS, w') \<and> obs w' = obs w"
    and disconnect_frame: "obs (snd (net_disconnect env w)) = obs w"
    and destroy_works: "\<exists>w'. net_destroy env w = (AWS_SUCCESS, w') \<and> obs w' = obs w"
begin

lemma hang_up:
  "\<exists>rc w1 w2. net_disconnect env w = (rc, w1) \<and> net_destroy env w1 = (AWS_SUCCESS, w2) \<and> obs w2 = obs w"
proof -
  obtain rc w1 where w1: "net_disconnect env w = (rc, w1)" by fastforce
  obtain w2 where "net_destroy env w1 = (AWS_SUCCESS, w2)" "obs w2 = obs w1"
    using destroy_works by blast
  then show ?thesis
    using w1 disconnect_frame [of w] by auto
qed

end

interpretation loopback: connecting_world loop_env lb_in lb_out lb_calls
  by unfold_locales (simp_all add: loop_env_def loopback.obs_def)

text \<open>The options a connect uses: those given, whose password is the user name, or the old ones.\<close>

definition effective_options :: "IoT_Client_Connect_Params option \<Rightarrow> Client \<Rightarrow> IoT_Client_Connect_Params" where
  "effective_options params c = (case params of None \<Rightarrow> options c | Some p \<Rightarrow> p\<lparr>pPassword := pUsername p\<rparr>)"

lemma set_params_eq:
  "(case params of None \<Rightarrow> (AWS_SUCCESS, c) | Some p \<Rightarrow> aws_iot_mqtt_set_connect_params p c)
   = (AWS_SUCCESS, c\<lparr>options := effective_options params c\<rparr>)"
  by (cases params) (simp_all add: effective_options_def aws_iot_mqtt_set_connect_params_def)

lemma connack_packet:
  assumes "client_wf c"
  shows "aws_iot_mqtt_deserialize_connack
      (stored_packet (mqtt_packet 0x20 [flags, code]) (readBuf c)) (readBufSize c)
    = success (drop_bit 7 flags, connack_return_code code)"
  using assms by (simp add: stored_packet_def deserialize_connack_packet header_type_def wf_sizes)

lemma connack_accepted: "connack_return_code code = MQTT_CONNACK_CONNECTION_ACCEPTED \<longleftrightarrow> code = 0"
  "connack_return_code code \<noteq> AWS_SUCCESS"
  by (simp_all add: connack_return_code_def)

lemma wf_options [simp]: "client_wf (c\<lparr>options := opts\<rparr>) = client_wf c"
  by (simp add: client_wf_def)

context connecting_world begin

lemma internal_connect_ok:
  assumes c: "client_wf c" and opts: "opts = effective_options params c" "connect_params_ok opts"
    and small: "length (connect_body opts) < 1020"
    and time: "in_time env (commandTimeoutMs c)" and fuel: "4 < fuel env"
    and w: "pending w = mqtt_packet 0x20 [flags, code] @ rest"
  shows "\<exists>rc c' w'. aws_iot_mqtt_internal_connect env params (c, w) = Some (rc, c', w')
    \<and> rc = (if code = 0 then AWS_SUCCESS else connack_return_code code)
    \<and> messageHandlers c' = messageHandlers c \<and> options c' = opts
    \<and> keepAliveInterval c' = keepAliveIntervalInSec opts
    \<and> client_wf c' \<and> commandTimeoutMs c' = commandTimeoutMs c \<and> nextPacketId c' = nextPacketId c
    \<and> clientState c' = clientState c
    \<and> obs w' = (rest, sent w @ mqtt_packet 0x10 (connect_body opts), seen w)"
proof -
  let ?c = "c\<lparr>options := opts, keepAliveInterval := keepAliveIntervalInSec opts\<rparr>"
  obtain w0 where n: "net_connect env w = (AWS_SUCCESS, w0)" "obs w0 = obs w"
    using connect_works by blast
  obtain timer w1 where t: "countdown_ms env (commandTimeoutMs c) w0 = (timer, w1)" by fastforce
  have w1: "obs w1 = obs w" using countdown_obs [OF t] n by simp
  have c1: "client_wf ?c" using c by simp
  have ser: "aws_iot_mqtt_serialize_connect (writeBuf c) (writeBufSize c) opts
      = success (stored_packet (mqtt_packet 0x10 (connect_body opts)) (writeBuf c),
          length (mqtt_packet 0x10 (connect_body opts)))"
    using serialize_connect [OF opts(2), of "writeBufSize c" "writeBuf c"] command_fits(2) [OF small] c
    by (simp add: wf_sizes emitted_stored)
  have "length [flags, code] \<le> 4" "pending w1 = mqtt_packet 0x20 [flags, code] @ rest"
    using w w1 by (simp_all add: obs_def)
  from exchange_ok [OF c1 small this fuel, of CONNACK timer "0x10"]
  obtain w2 w3 where ex:
    "send_serialized env timer (success (emitted (writeBuf c) (mqtt_packet 0x10 (connect_body opts)))) (?c, w1)
      = Some (AWS_SUCCESS, ?c\<lparr>writeBuf := stored_packet (mqtt_packet 0x10 (connect_body opts)) (writeBuf c)\<rparr>, w2)"
    "aws_iot_mqtt_internal_wait_for_read env CONNACK timer
        (?c\<lparr>writeBuf := stored_packet (mqtt_packet 0x10 (connect_body opts)) (writeBuf c)\<rparr>, w2)
      = Some (AWS_SUCCESS, ?c\<lparr>writeBuf := stored_packet (mqtt_packet 0x10 (connect_body opts)) (writeBuf c),
          readBuf := stored_packet (mqtt_packet 0x20 [flags, code]) (readBuf c)\<rparr>, w3)"
    "obs w3 = (rest, sent w1 @ mqtt_packet 0x10 (connect_body opts), seen w1)"
    using in_timeD [OF time t] by (auto simp: header_type_def)
  obtain t2 w4 where t2: "countdown_sec env (ucast (keepAliveIntervalInSec opts)) w3 = (t2, w4)" by fastforce
  have w4: "obs w4 = obs w3"
    using tick_obs [of w3] t2 by (auto simp: countdown_sec_def split: prod.splits)
  have pos: "mqtt_packet 0x10 (connect_body opts) \<noteq> []" by simp
  have wf: "client_wf (?c\<lparr>writeBuf := stored_packet (mqtt_packet 0x10 (connect_body opts)) (writeBuf c),
      readBuf := stored_packet (mqtt_packet 0x20 [flags, code]) (readBuf c)\<rparr>)"
    using c command_fits(1) [OF small, of "0x10"] short_ack_fits [of "[flags, code]" "0x20"]
    by (simp add: client_wf_def)
  show ?thesis
    using ex n t w1 w4 t2 pos wf
    by (auto simp: aws_iot_mqtt_internal_connect_def set_params_eq opts(1) [symmetric] ser success_def
        on_success_def connack_packet [OF c, unfolded success_def] obs_def connack_accepted emitted_stored Let_def)
qed

end

context connecting_world begin

lemma connect_ok:
  assumes c: "client_wf c" and opts: "opts = effective_options params c" "connect_params_ok opts"
    and small: "length (connect_body opts) < 1020"
    and time: "in_time env (commandTimeoutMs c)" and fuel: "4 < fuel env"
    and w: "pending w = mqtt_packet 0x20 [flags, code] @ rest"
    and valid: "aws_iot_mqtt_is_client_state_valid_for_connect (clientState c)"
  shows "\<exists>c' w'. aws_iot_mqtt_connect env params (c, w)
      = Some (if code = 0 then AWS_SUCCESS else connack_return_code code, c', w')
    \<and> messageHandlers c' = messageHandlers c \<and> options c' = opts
    \<and> keepAliveInterval c' = keepAliveIntervalInSec opts
    \<and> client_wf c' \<and> commandTimeoutMs c' = commandTimeoutMs c \<and> nextPacketId c' = nextPacketId c
    \<and> clientState c' = (if code = 0 then CLIENT_STATE_CONNECTED_IDLE else CLIENT_STATE_DISCONNECTED_ERROR)
    \<and> obs w' = (rest, sent w @ mqtt_packet 0x10 (connect_body opts), seen w)"
proof -
  let ?cc = "c\<lparr>clientState := CLIENT_STATE_CONNECTING\<rparr>"
  obtain w1 where s1: "aws_iot_mqtt_set_client_state env (clientState c) CLIENT_STATE_CONNECTING (c, w)
      = (AWS_SUCCESS, ?cc, w1)" "obs w1 = obs w"
    using set_state_ok [of "clientState c" CLIENT_STATE_CONNECTING c w] by auto
  have cc: "client_wf ?cc" "opts = effective_options params ?cc" "in_time env (commandTimeoutMs ?cc)"
    "pending w1 = mqtt_packet 0x20 [flags, code] @ rest"
    using c opts time w s1(2) by (auto simp: effective_options_def obs_def split: option.splits)
  obtain rc c2 w2 where i: "aws_iot_mqtt_internal_connect env params (?cc, w1) = Some (rc, c2, w2)"
      "rc = (if code = 0 then AWS_SUCCESS else connack_return_code code)"
      "messageHandlers c2 = messageHandlers c" "options c2 = opts"
      "keepAliveInterval c2 = keepAliveIntervalInSec opts" "clientState c2 = CLIENT_STATE_CONNECTING"
      "client_wf c2" "commandTimeoutMs c2 = commandTimeoutMs c" "nextPacketId c2 = nextPacketId c"
      "obs w2 = (rest, sent w @ mqtt_packet 0x10 (connect_body opts), seen w)"
    using internal_connect_ok [OF cc(1,2) opts(2) small cc(3) fuel cc(4)] s1(2) by (auto simp: obs_def)
  obtain rd wd wx where d: "net_disconnect env w2 = (rd, wd)" "net_destroy env wd = (AWS_SUCCESS, wx)"
      "obs wx = obs w2"
    using hang_up by blast
  obtain w3 where s3: "aws_iot_mqtt_set_client_state env CLIENT_STATE_CONNECTING
      CLIENT_STATE_DISCONNECTED_ERROR (c2, wx) = (AWS_SUCCESS, c2\<lparr>clientState := CLIENT_STATE_DISCONNECTED_ERROR\<rparr>, w3)"
      "obs w3 = obs wx"
    using set_state_ok [of CLIENT_STATE_CONNECTING CLIENT_STATE_DISCONNECTED_ERROR c2 wx] i(6) by auto
  obtain w4 where s4: "aws_iot_mqtt_set_client_state env CLIENT_STATE_CONNECTING
      CLIENT_STATE_CONNECTED_IDLE (c2, w2) = (AWS_SUCCESS, c2\<lparr>clientState := CLIENT_STATE_CONNECTED_IDLE\<rparr>, w4)"
      "obs w4 = obs w2"
    using set_state_ok [of CLIENT_STATE_CONNECTING CLIENT_STATE_CONNECTED_IDLE c2 w2] i(6) by auto
  show ?thesis
    using valid s1 i d s3 s4
    by (simp add: aws_iot_mqtt_connect_def aws_iot_mqtt_get_client_state_def connack_accepted)
qed

lemma disconnect_ok:
  assumes c: "client_wf c" and time: "in_time env (commandTimeoutMs c)" and fuel: "4 < fuel env"
    and connected: "aws_iot_mqtt_is_client_connected c"
  shows "\<exists>c' w'. aws_iot_mqtt_disconnect env (c, w) = Some (AWS_SUCCESS, c', w')
    \<and> clientState c' = CLIENT_STATE_DISCONNECTED_MANUALLY \<and> messageHandlers c' = messageHandlers c
    \<and> disconnectHandler c' = disconnectHandler c
    \<and> obs w' = (pending w, sent w @ [0xE0, 0], seen w)"
proof -
  let ?cc = "c\<lparr>clientState := CLIENT_STATE_DISCONNECTING\<rparr>"
  obtain w1 where s1: "aws_iot_mqtt_set_client_state env (clientState c) CLIENT_STATE_DISCONNECTING (c, w)
      = (AWS_SUCCESS, ?cc, w1)" "obs w1 = obs w"
    using set_state_ok [of "clientState c" CLIENT_STATE_DISCONNECTING c w] by auto
  have cc: "client_wf ?cc" using c by simp
  have pkt: "mqtt_packet (init_byte DISCONNECT QOS0 0 0) [] = [0xE0, 0]"
    by (simp add: mqtt_packet_def init_byte_def header_byte_def encode_len_small)
  have ser: "aws_iot_mqtt_internal_serialize_zero (writeBuf c) (writeBufSize c) DISCONNECT
      = success (emitted (writeBuf c) [0xE0, 0])"
    using serialize_zero [of DISCONNECT "writeBufSize c" "writeBuf c"] c by (simp add: wf_sizes pkt)
  obtain timer w2 where t: "countdown_ms env (commandTimeoutMs c) w1 = (timer, w2)" by fastforce
  have w2: "obs w2 = obs w1" by (rule countdown_obs [OF t])
  have "[0xE0, 0 :: byte] \<noteq> []" "length [0xE0, 0 :: byte] < AWS_IOT_MQTT_TX_BUF_LEN" "2 \<le> fuel env"
    using fuel by simp_all
  from send_serialized_ok [OF cc this in_timeD [OF time t], of w2]
  obtain w3 where w3: "send_serialized env timer (success (emitted (writeBuf c) [0xE0, 0])) (?cc, w2)
      = Some (AWS_SUCCESS, ?cc\<lparr>writeBuf := stored_packet [0xE0, 0] (writeBuf c)\<rparr>, w3)"
      "obs w3 = (pending w2, sent w2 @ [0xE0, 0], seen w2)"
    by auto
  obtain rd wd wx where d: "net_disconnect env w3 = (rd, wd)" "net_destroy env wd = (AWS_SUCCESS, wx)"
      "obs wx = obs w3"
    using hang_up by blast
  show ?thesis
    using connected s1 ser t w2 w3 d
    by (auto simp: aws_iot_mqtt_disconnect_def aws_iot_mqtt_get_client_state_def
        aws_iot_mqtt_internal_disconnect_def success_def emitted_stored on_success_def obs_def)
qed

end

section \<open>Resubscribing\<close>

text \<open>The SUBSCRIBE packets for a list of handlers, numbered from the last packet identifier.\<close>

fun resubscribe_packets :: "u16 \<Rightarrow> MessageHandlers list \<Rightarrow> byte list" where
  "resubscribe_packets n [] = []"
| "resubscribe_packets n (h # hs) =
     (let n = (if n = MAX_PACKET_ID then 1 else n + 1)
      in mqtt_packet 0x82 (subscribe_body n [(ptr_mem (mh_topicName h), mh_topicNameLen h, mh_qos h)])
         @ resubscribe_packets n hs)"

text \<open>SUBACK packets with any identifiers and return codes.\<close>

definition subacks :: "(u16 \<times> byte) list \<Rightarrow> byte list" where
  "subacks acks = concat (map (\<lambda>(pid, g). mqtt_packet 0x90 (u16_bytes pid @ [g])) acks)"

definition sendable :: "MessageHandlers \<Rightarrow> bool" where
  "sendable h \<longleftrightarrow> unat (mh_topicNameLen h) \<le> length (ptr_mem (mh_topicName h)) \<and> unat (mh_topicNameLen h) \<le> 1000"

lemma free_handler_index_takeWhile: "free_handler_index hs = length (takeWhile in_use hs)"
  by (induction hs) (auto simp: in_use_def)

lemma used_prefix:
  "map ((!) hs) [0..<length (takeWhile in_use hs)] = takeWhile in_use hs"
  by (rule nth_equalityI) (simp_all add: takeWhile_nth)

context connected_world begin

lemma resubscribe_loop_ok:
  assumes time: "in_time env (commandTimeoutMs c0)" and fuel: "4 < fuel env"
  shows "client_wf c \<Longrightarrow> commandTimeoutMs c = commandTimeoutMs c0 \<Longrightarrow>
    list_all sendable (map ((!) (messageHandlers c)) itrs) \<Longrightarrow> length acks = length itrs \<Longrightarrow>
    pending w = subacks acks @ rest \<Longrightarrow>
    \<exists>c' w'. resubscribe_loop env itrs (c, w) = Some (AWS_SUCCESS, c', w')
      \<and> messageHandlers c' = messageHandlers c \<and> clientState c' = clientState c \<and> client_wf c'
      \<and> obs w' = (rest, sent w @ resubscribe_packets (nextPacketId c) (map ((!) (messageHandlers c)) itrs), seen w)"
proof (induction itrs arbitrary: c w acks)
  case Nil
  then show ?case by (simp add: subacks_def obs_def)
next
  case (Cons i itrs)
  obtain pid g acks' where acks: "acks = (pid, g) # acks'" "length acks' = length itrs"
    using Cons.prems(4) by (cases acks) auto
  let ?h = "messageHandlers c ! i"
  define n where "n = (if nextPacketId c = MAX_PACKET_ID then 1 else nextPacketId c + 1)"
  define c1 where "c1 = c\<lparr>nextPacketId := n\<rparr>"
  have id: "aws_iot_mqtt_get_next_packet_id c = (n, c1)"
    by (simp add: aws_iot_mqtt_get_next_packet_id_def n_def c1_def Let_def)
  have c1: "client_wf c1" using Cons.prems(1) by (simp add: c1_def)
  let ?body = "subscribe_body n [(ptr_mem (mh_topicName ?h), mh_topicNameLen ?h, mh_qos ?h)]"
  let ?P = "mqtt_packet 0x82 ?body" and ?A = "mqtt_packet 0x90 (u16_bytes pid @ [g])"
  let ?c2 = "c1\<lparr>writeBuf := stored_packet ?P (writeBuf c1), readBuf := stored_packet ?A (readBuf c1)\<rparr>"
  obtain timer w0 where t: "countdown_ms env (commandTimeoutMs c) w = (timer, w0)" by fastforce
  have w0: "obs w0 = obs w" by (rule countdown_obs [OF t])
  have h: "unat (mh_topicNameLen ?h) \<le> length (ptr_mem (mh_topicName ?h))" "unat (mh_topicNameLen ?h) \<le> 1000"
    using Cons.prems(3) by (simp_all add: sendable_def)
  have len: "length ?body < 1020" "length (u16_bytes pid @ [g]) \<le> 4"
    using h by (simp_all add: subscribe_body_def length_str_field)
  have "pending w0 = ?A @ subacks acks' @ rest"
    using Cons.prems(5) w0 acks by (simp add: obs_def subacks_def)
  from exchange_ok [OF c1 len this fuel, of SUBACK timer "0x82"]
  obtain w1 w2 where ex:
    "send_serialized env timer (success (emitted (writeBuf c1) ?P)) (c1, w0)
      = Some (AWS_SUCCESS, c1\<lparr>writeBuf := stored_packet ?P (writeBuf c1)\<rparr>, w1)"
    "aws_iot_mqtt_internal_wait_for_read env SUBACK timer (c1\<lparr>writeBuf := stored_packet ?P (writeBuf c1)\<rparr>, w1)
      = Some (AWS_SUCCESS, ?c2, w2)"
    "obs w2 = (subacks acks' @ rest, sent w0 @ ?P, seen w0)"
    using in_timeD [OF time, of w timer w0] t Cons.prems(2) by (auto simp: header_type_def)
  have c2: "client_wf ?c2"
    using c1 command_fits(1) [OF len(1), of "0x82"] short_ack_fits [OF len(2), of "0x90"]
    by (simp add: client_wf_def)
  have same: "messageHandlers ?c2 = messageHandlers c" "clientState ?c2 = clientState c"
    "nextPacketId ?c2 = n" "commandTimeoutMs ?c2 = commandTimeoutMs c0"
    using Cons.prems(2) by (simp_all add: c1_def)
  have "list_all sendable (map ((!) (messageHandlers ?c2)) itrs)" "pending w2 = subacks acks' @ rest"
    using Cons.prems(3) ex(3) by (simp_all add: same(1) obs_def)
  from Cons.IH [OF c2 same(4) this(1) acks(2) this(2)]
  obtain c' w' where ih: "resubscribe_loop env itrs (?c2, w2) = Some (AWS_SUCCESS, c', w')"
      "messageHandlers c' = messageHandlers c" "clientState c' = clientState c" "client_wf c'"
      "obs w' = (rest, sent w2 @ resubscribe_packets n (map ((!) (messageHandlers c)) itrs), seen w2)"
    by (auto simp: same)
  have step: "resubscribe_loop env (i # itrs) (c, w) = resubscribe_loop env itrs (?c2, w2)"
  proof -
    have hs: "messageHandlers c1 ! i = ?h" by (simp add: c1_def)
    show ?thesis
      using ex(1,2) by (simp add: t id hs subscribe_packet [OF c1 h] on_success_def
          suback_accepted [OF c1] Let_def del: One_nat_def)
  qed
  show ?case
    using ih ex(3) w0 by (simp add: step obs_def n_def [symmetric] Let_def del: resubscribe_loop.simps)
qed

lemma internal_resubscribe_ok:
  assumes "client_wf c" "in_time env (commandTimeoutMs c)" "4 < fuel env"
    and "list_all sendable (takeWhile in_use (messageHandlers c))"
    and "length acks = length (takeWhile in_use (messageHandlers c))" "pending w = subacks acks @ rest"
  shows "\<exists>c' w'. aws_iot_mqtt_internal_resubscribe env (c, w) = Some (AWS_SUCCESS, c', w')
      \<and> messageHandlers c' = messageHandlers c \<and> clientState c' = clientState c
      \<and> obs w' = (rest, sent w @ resubscribe_packets (nextPacketId c) (takeWhile in_use (messageHandlers c)), seen w)"
  using resubscribe_loop_ok [OF assms(2,3,1) refl, of "[0..<free_handler_index (messageHandlers c)]" acks w rest]
    assms(4-6)
  by (auto simp: used_prefix aws_iot_mqtt_internal_resubscribe_def
      aws_iot_mqtt_get_free_message_handler_index_def free_handler_index_takeWhile)

end

context connecting_world begin

lemma attempt_reconnect_ok:
  assumes c: "client_wf c" and opts: "connect_params_ok (options c)" "length (connect_body (options c)) < 1020"
    and time: "in_time env (commandTimeoutMs c)" and fuel: "4 < fuel env"
    and valid: "aws_iot_mqtt_is_client_state_valid_for_connect (clientState c)"
    and subs: "subs = takeWhile in_use (messageHandlers c)" "list_all sendable subs" "length acks = length subs"
    and w: "pending w = mqtt_packet 0x20 [flags, 0] @ subacks acks @ rest"
  shows "\<exists>c' w'. aws_iot_mqtt_attempt_reconnect env (c, w) = Some (NETWORK_RECONNECTED, c', w')
    \<and> messageHandlers c' = messageHandlers c \<and> clientState c' = CLIENT_STATE_CONNECTED_IDLE
    \<and> obs w' = (rest, sent w @ mqtt_packet 0x10 (connect_body (options c))
        @ resubscribe_packets (nextPacketId c) subs, seen w)"
proof -
  have off: "\<not> aws_iot_mqtt_is_client_connected c"
    using valid by (auto simp: valid_for_connect_iff aws_iot_mqtt_is_client_connected_def)
  have eff: "options c = effective_options None c" by (simp add: effective_options_def)
  obtain c1 w1 where con: "aws_iot_mqtt_connect env None (c, w) = Some (AWS_SUCCESS, c1, w1)"
      "messageHandlers c1 = messageHandlers c" "client_wf c1" "commandTimeoutMs c1 = commandTimeoutMs c"
      "nextPacketId c1 = nextPacketId c" "clientState c1 = CLIENT_STATE_CONNECTED_IDLE"
      "obs w1 = (subacks acks @ rest, sent w @ mqtt_packet 0x10 (connect_body (options c)), seen w)"
    using connect_ok [OF c eff opts time fuel w valid] by auto
  have conn: "aws_iot_mqtt_is_client_connected c1"
    using con(6) by (simp add: aws_iot_mqtt_is_client_connected_def)
  have "\<exists>c' w'. aws_iot_mqtt_resubscribe env (c1, w1) = Some (AWS_SUCCESS, c', w')
    \<and> clientState c' = clientState c1 \<and> messageHandlers c' = messageHandlers c
    \<and> obs w' = (rest, sent w1 @ resubscribe_packets (nextPacketId c) subs, seen w1)"
  proof (rule api_ok [OF resubscribe_api.api_bracket_axioms _ conn])
    fix w2
    assume w2: "obs w2 = obs w1"
    let ?c = "c1\<lparr>clientState := CLIENT_STATE_CONNECTED_RESUBSCRIBE_IN_PROGRESS\<rparr>"
    have "client_wf ?c" "in_time env (commandTimeoutMs ?c)" "list_all sendable (takeWhile in_use (messageHandlers ?c))"
      "length acks = length (takeWhile in_use (messageHandlers ?c))" "pending w2 = subacks acks @ rest"
      using con time subs w2 by (simp_all add: obs_def)
    from internal_resubscribe_ok [OF this(1,2) fuel this(3-5)] w2 con subs(1)
    show "\<exists>c' w'. aws_iot_mqtt_internal_resubscribe env (?c, w2) = Some (AWS_SUCCESS, c', w')
      \<and> messageHandlers c' = messageHandlers c
      \<and> clientState c' = CLIENT_STATE_CONNECTED_RESUBSCRIBE_IN_PROGRESS
      \<and> obs w' = (rest, sent w1 @ resubscribe_packets (nextPacketId c) subs, seen w1)"
      by (simp add: obs_def)
  qed (use con(6) in simp_all)
  then show ?thesis
    using con off by (auto simp: aws_iot_mqtt_attempt_reconnect_def aws_iot_mqtt_get_client_state_def
        on_success_def obs_def)
qed

end

section \<open>Properties\<close>


text \<open>A client that connects as \<open>cl\<close> with user name \<open>u\<close> and password \<open>p\<close>.\<close>

definition example_params :: IoT_Client_Connect_Params where
  "example_params = IoT_Client_Connect_Params_initializer\<lparr>pClientID := Some [99, 108], clientIDLen := 2,
     pUsername := Some [117], usernameLen := 1, pPassword := Some [112], passwordLen := 1\<rparr>"


text \<open>Every connect, disconnect and reconnect attempt ends in the state its result names, on any
  network: connected and idle or in the error state; disconnected by hand, or, when a disconnect
  fails, the state before it; waiting to reconnect, or connected and idle.\<close>

theorem connection_outcomes:
  assumes "handlers_ok env" "mutexes_work env" "client_wf c"
  shows "(case aws_iot_mqtt_connect env params (c, w) of None \<Rightarrow> True | Some (rc, c', w') \<Rightarrow>
      client_wf c' \<and> clientState c' =
        (if \<not> aws_iot_mqtt_is_client_state_valid_for_connect (clientState c) then clientState c
         else if rc = AWS_SUCCESS then CLIENT_STATE_CONNECTED_IDLE else CLIENT_STATE_DISCONNECTED_ERROR))
    \<and> (case aws_iot_mqtt_disconnect env (c, w) of None \<Rightarrow> True | Some (rc, c', w') \<Rightarrow>
      client_wf c' \<and> clientState c' =
        (if rc = AWS_SUCCESS then CLIENT_STATE_DISCONNECTED_MANUALLY else clientState c))
    \<and> (case aws_iot_mqtt_attempt_reconnect env (c\<lparr>clientState := CLIENT_STATE_PENDING_RECONNECT\<rparr>, w) of
       None \<Rightarrow> True | Some (rc, c', w') \<Rightarrow> client_wf c' \<and>
         (rc = NETWORK_ATTEMPTING_RECONNECT \<and> clientState c' = CLIENT_STATE_PENDING_RECONNECT
          \<or> rc \<noteq> AWS_SUCCESS \<and> clientState c' = CLIENT_STATE_CONNECTED_IDLE))"
    (is "?C \<and> ?D \<and> ?R")
proof (intro conjI)
  show ?C
    using connect_cases [OF assms] connect_refused_state [of c env params w] assms(3)
    by (cases "aws_iot_mqtt_is_client_state_valid_for_connect (clientState c)") (auto split: option.splits)
  show ?D
  proof (cases "aws_iot_mqtt_is_client_connected c")
    case True
    then show ?thesis
      using disconnect_cases [OF assms(2,3)] by (auto split: option.splits)
  next
    case False
    then show ?thesis
      using assms(3) by (simp add: aws_iot_mqtt_disconnect_def)
  qed
  show ?R
    using attempt_reconnect_cases [of env "c\<lparr>clientState := CLIENT_STATE_PENDING_RECONNECT\<rparr>" w] assms
    by (auto simp: valid_for_connect_iff split: option.splits)
qed

theorem connection_outcomes_witness:
  "\<exists>rc c' w'. aws_iot_mqtt_disconnect loop_env (subscribed_client, \<lparr>lb_in = [], lb_out = [], lb_calls = []\<rparr>)
      = Some (rc, c', w') \<and> client_wf c'
    \<and> clientState c' = (if rc = AWS_SUCCESS then CLIENT_STATE_DISCONNECTED_MANUALLY else CLIENT_STATE_CONNECTED_IDLE)"
proof -
  let ?w = "\<lparr>lb_in = [], lb_out = [], lb_calls = []\<rparr>"
  have con: "aws_iot_mqtt_is_client_connected subscribed_client"
    "in_time loop_env (commandTimeoutMs subscribed_client)" "4 < fuel loop_env"
    "clientState subscribed_client = CLIENT_STATE_CONNECTED_IDLE"
    using subscribed_client_ready accepting_connected
    by (simp_all add: ready_def) (simp add: subscribed_client_def)
  obtain rc c' w' where d: "aws_iot_mqtt_disconnect loop_env (subscribed_client, ?w) = Some (rc, c', w')"
    using loopback.disconnect_ok [OF subscribed_client_wf con(2,3,1), of ?w] by auto
  show ?thesis
    using connection_outcomes [OF loopback_handlers_ok subscribed_client_wf, of None ?w] d con(4) by simp
qed

end
