(* ===== verification/Mqtt_Yield.thy ===== *)
theory Mqtt_Yield
  imports Mqtt_Connect
begin

text \<open>
  The background work of the client, \<^verbatim>\<open>aws_iot_mqtt_client_yield.c\<close>: reading what arrives,
  keeping the connection alive, detecting its loss and reconnecting.  The \<^verbatim>\<open>do ... while\<close> of the
  internal yield is \<open>yield_loop\<close>, whose fuel is the environment's.
\<close>

section \<open>Losing the connection\<close>

definition aws_iot_mqtt_force_client_disconnect :: "'w Env \<Rightarrow> Client \<times> 'w \<Rightarrow> Client \<times> 'w" where
  "aws_iot_mqtt_force_client_disconnect env = (\<lambda>(c, w).
     let c = c\<lparr>clientState := CLIENT_STATE_DISCONNECTED_ERROR\<rparr>;
         (_, w) = net_disconnect env w;
         (_, w) = net_destroy env w
     in (c, w))"

definition aws_iot_mqtt_handle_disconnect ::
  "'w Env \<Rightarrow> Client \<times> 'w \<Rightarrow> (IoT_Error_t \<times> Client \<times> 'w) option" where
  "aws_iot_mqtt_handle_disconnect env s = do {
     (rc, s) \<leftarrow> aws_iot_mqtt_disconnect env s;
     let (c, w) = (if rc \<noteq> AWS_SUCCESS then aws_iot_mqtt_force_client_disconnect env s else s) in do {
       (c, w) \<leftarrow> (if NULL \<noteq> disconnectHandler c
                  then disconnect_handler env (disconnectHandler c) (disconnectHandlerData c) (c, w)
                  else Some (c, w));
       Some (NETWORK_DISCONNECTED_ERROR, c\<lparr>clientState := CLIENT_STATE_DISCONNECTED_ERROR\<rparr>, w)
     }
   }"

section \<open>Reconnecting\<close>

definition aws_iot_mqtt_handle_reconnect ::
  "'w Env \<Rightarrow> Client \<times> 'w \<Rightarrow> (IoT_Error_t \<times> Client \<times> 'w) option" where
  "aws_iot_mqtt_handle_reconnect env = (\<lambda>(c, w).
     let (expired, w) = has_timer_expired env (reconnectDelayTimer c) w
     in if \<not> expired then Some (NETWORK_ATTEMPTING_RECONNECT, c, w)
     else
       let (rc, w) = (case net_isConnected env of
                        None \<Rightarrow> (NETWORK_PHYSICAL_LAYER_DISCONNECTED, w)
                      | Some isConnected \<Rightarrow> isConnected w);
           delay = (\<lambda>rc (c, w).
             let (timer, w) = countdown_ms env (currentReconnectWaitInterval c) w
             in Some (rc, c\<lparr>reconnectDelayTimer := timer\<rparr>, w))
       in if NETWORK_PHYSICAL_LAYER_CONNECTED = rc then do {
            (rc, s) \<leftarrow> aws_iot_mqtt_attempt_reconnect env (c, w);
            if NETWORK_RECONNECTED = rc then
              let (rc, s) = aws_iot_mqtt_set_client_state env CLIENT_STATE_CONNECTED_IDLE
                              CLIENT_STATE_CONNECTED_YIELD_IN_PROGRESS s
              in Some (if rc \<noteq> AWS_SUCCESS then rc else NETWORK_RECONNECTED, s)
            else delay rc s
          }
          else delay rc (c, w))"

section \<open>Keep-alive\<close>

definition aws_iot_mqtt_keep_alive ::
  "'w Env \<Rightarrow> Client \<times> 'w \<Rightarrow> (IoT_Error_t \<times> Client \<times> 'w) option" where
  "aws_iot_mqtt_keep_alive env = (\<lambda>(c, w).
     if 0 = keepAliveInterval c then Some (AWS_SUCCESS, c, w)
     else
       let (expired, w) = has_timer_expired env (pingTimer c) w
       in if \<not> expired then Some (AWS_SUCCESS, c, w)
       else if isPingOutstanding c then aws_iot_mqtt_handle_disconnect env (c, w)
       else
         let (timer, w) = countdown_ms env (commandTimeoutMs c) w
         in case aws_iot_mqtt_internal_serialize_zero (writeBuf c) (writeBufSize c) PINGREQ of
              None \<Rightarrow> None
            | Some (Inl rc) \<Rightarrow> Some (rc, c, w)
            | Some (Inr (buf, serialized_len)) \<Rightarrow> do {
                (rc, c, w) \<leftarrow> send_serialized env timer (success (buf, serialized_len)) (c, w);
                if rc \<noteq> AWS_SUCCESS then aws_iot_mqtt_handle_disconnect env (c, w)
                else
                  let c = c\<lparr>isPingOutstanding := True\<rparr>;
                      (timer, w) = countdown_sec env (ucast (keepAliveInterval c) div 2) w
                  in Some (AWS_SUCCESS, c\<lparr>pingTimer := timer\<rparr>, w)
              })"

section \<open>Yield\<close>

abbreviation AWS_IOT_MQTT_MIN_RECONNECT_WAIT_INTERVAL :: u32
  where "AWS_IOT_MQTT_MIN_RECONNECT_WAIT_INTERVAL \<equiv> 1000"

text \<open>The errors of the transport after which the connection is given up.\<close>

definition terminal_error :: "IoT_Error_t \<Rightarrow> bool" where
  "terminal_error rc \<longleftrightarrow> NETWORK_SSL_READ_ERROR = rc \<or> NETWORK_SSL_READ_TIMEOUT_ERROR = rc \<or>
     NETWORK_SSL_WRITE_ERROR = rc \<or> NETWORK_SSL_WRITE_TIMEOUT_ERROR = rc"

text \<open>One round of a client that is not waiting to reconnect: read, and keep alive or disconnect.\<close>

definition yield_read ::
  "'w Env \<Rightarrow> Timer \<Rightarrow> byte \<Rightarrow> Client \<times> 'w \<Rightarrow> ((IoT_Error_t \<times> byte) \<times> Client \<times> 'w) option" where
  "yield_read env timer packet_type s = do {
     ((yieldRc, packet_type), s) \<leftarrow> aws_iot_mqtt_internal_cycle_read env timer packet_type s;
     (yieldRc, s) \<leftarrow> (if AWS_SUCCESS = yieldRc then aws_iot_mqtt_keep_alive env s
                     else if terminal_error yieldRc then aws_iot_mqtt_handle_disconnect env s
                     else Some (yieldRc, s));
     Some ((yieldRc, packet_type), s)
   }"

text \<open>\<open>continue\<close> in C goes to the loop's condition.\<close>

fun yield_loop ::
  "nat \<Rightarrow> 'w Env \<Rightarrow> Timer \<Rightarrow> byte \<Rightarrow> Client \<times> 'w \<Rightarrow> (IoT_Error_t \<times> Client \<times> 'w) option" where
  "yield_loop 0 env timer packet_type s = None"
| "yield_loop (Suc n) env timer packet_type (c, w) =
     (let while = (\<lambda>yieldRc packet_type (c, w).
            let (expired, w) = has_timer_expired env timer w
            in if \<not> expired then yield_loop n env timer packet_type (c, w) else Some (yieldRc, c, w))
      in if CLIENT_STATE_PENDING_RECONNECT = aws_iot_mqtt_get_client_state c then do {
           (yieldRc, s) \<leftarrow> aws_iot_mqtt_handle_reconnect env (c, w);
           while yieldRc packet_type s
         }
         else do {
           ((yieldRc, packet_type), c, w) \<leftarrow> yield_read env timer packet_type (c, w);
           if NETWORK_DISCONNECTED_ERROR = yieldRc then
             let c = c\<lparr>counterNetworkDisconnected := counterNetworkDisconnected c + 1\<rparr>
             in if isAutoReconnectEnabled c then
                  let (yieldRc, c, w) = aws_iot_mqtt_set_client_state env CLIENT_STATE_DISCONNECTED_ERROR
                                          CLIENT_STATE_PENDING_RECONNECT (c, w)
                  in if yieldRc \<noteq> AWS_SUCCESS then Some (yieldRc, c, w)
                     else
                       let c = c\<lparr>currentReconnectWaitInterval := AWS_IOT_MQTT_MIN_RECONNECT_WAIT_INTERVAL\<rparr>;
                           (delay, w) = countdown_ms env (currentReconnectWaitInterval c) w
                       in while NETWORK_ATTEMPTING_RECONNECT packet_type
                            (c\<lparr>reconnectDelayTimer := delay\<rparr>, w)
                else Some (yieldRc, c, w)
           else if yieldRc \<noteq> AWS_SUCCESS then Some (yieldRc, c, w)
           else while yieldRc packet_type (c, w)
         })"

text \<open>\<open>packet_type\<close> is not initialised; its value does not matter, the read sets it or fails.\<close>

definition aws_iot_mqtt_internal_yield ::
  "'w Env \<Rightarrow> u32 \<Rightarrow> Client \<times> 'w \<Rightarrow> (IoT_Error_t \<times> Client \<times> 'w) option" where
  "aws_iot_mqtt_internal_yield env timeout_ms = (\<lambda>(c, w).
     let (timer, w) = countdown_ms env timeout_ms w
     in yield_loop (fuel env) env timer 0 (c, w))"

definition aws_iot_mqtt_yield ::
  "'w Env \<Rightarrow> u32 \<Rightarrow> Client \<times> 'w \<Rightarrow> (IoT_Error_t \<times> Client \<times> 'w) option" where
  "aws_iot_mqtt_yield env timeout_ms = (\<lambda>(c, w).
     if 0 = timeout_ms then Some (NULL_VALUE_ERROR, c, w)
     else
       let clientState = aws_iot_mqtt_get_client_state c
       in if CLIENT_STATE_DISCONNECTED_MANUALLY = clientState
          then Some (NETWORK_MANUALLY_DISCONNECTED, c, w)
          else if CLIENT_STATE_PENDING_RECONNECT \<noteq> clientState \<and> \<not> aws_iot_mqtt_is_client_connected c
          then Some (NETWORK_DISCONNECTED_ERROR, c, w)
          else if CLIENT_STATE_PENDING_RECONNECT \<noteq> clientState \<and> CLIENT_STATE_CONNECTED_IDLE \<noteq> clientState
          then Some (MQTT_CLIENT_NOT_IDLE_ERROR, c, w)
          else
            let (rc, s) = (if CLIENT_STATE_PENDING_RECONNECT \<noteq> clientState
                           then aws_iot_mqtt_set_client_state env CLIENT_STATE_CONNECTED_IDLE
                                  CLIENT_STATE_CONNECTED_YIELD_IN_PROGRESS (c, w)
                           else (AWS_SUCCESS, c, w))
            in if rc \<noteq> AWS_SUCCESS then Some (rc, s)
               else do {
                 (yieldRc, s) \<leftarrow> aws_iot_mqtt_internal_yield env timeout_ms s;
                 if NETWORK_DISCONNECTED_ERROR \<noteq> yieldRc \<and> NETWORK_ATTEMPTING_RECONNECT \<noteq> yieldRc then
                   let (rc, s) = aws_iot_mqtt_set_client_state env
                                   CLIENT_STATE_CONNECTED_YIELD_IN_PROGRESS CLIENT_STATE_CONNECTED_IDLE s
                   in Some (if AWS_SUCCESS = yieldRc \<and> AWS_SUCCESS \<noteq> rc then rc else yieldRc, s)
                 else Some (yieldRc, s)
               })"

section \<open>Errors the transport may report\<close>

text \<open>Reads that report the state of the connection by the codes of the transport only, never by
  those the client itself uses for its state.\<close>

definition client_codes :: "IoT_Error_t set" where
  "client_codes = {NETWORK_DISCONNECTED_ERROR, NETWORK_ATTEMPTING_RECONNECT}"

definition transport_codes :: "'w Env \<Rightarrow> bool" where
  "transport_codes env \<longleftrightarrow>
     (\<forall>n timer w rc bs w'. net_read env n timer w = Some (rc, bs, w') \<longrightarrow> rc \<notin> client_codes)"

lemma transport_codesD:
  "transport_codes env \<Longrightarrow> net_read env n timer w = Some (rc, bs, w') \<Longrightarrow> rc \<notin> client_codes"
  unfolding transport_codes_def by blast

lemma client_codes_simps [simp]:
  "AWS_SUCCESS \<notin> client_codes" "AWS_FAILURE \<notin> client_codes" "MQTT_RX_BUFFER_TOO_SHORT_ERROR \<notin> client_codes"
  "MQTT_TX_BUFFER_TOO_SHORT_ERROR \<notin> client_codes" "MQTT_DECODE_REMAINING_LENGTH_ERROR \<notin> client_codes"
  "MUTEX_LOCK_ERROR \<notin> client_codes" "MQTT_UNEXPECTED_CLIENT_STATE_ERROR \<notin> client_codes"
  "MQTT_RX_MESSAGE_PACKET_TYPE_INVALID_ERROR \<notin> client_codes" "MQTT_NOTHING_TO_READ \<notin> client_codes"
  "NETWORK_DISCONNECTED_ERROR \<in> client_codes" "NETWORK_ATTEMPTING_RECONNECT \<in> client_codes"
  by (simp_all add: client_codes_def)

lemma read_into_codes:
  "transport_codes env \<Longrightarrow> read_into env p n timer s = Some (rc, l, buf, w') \<Longrightarrow> rc \<notin> client_codes"
  by (cases s) (auto simp: read_into_def bind_eq_Some_conv dest: transport_codesD)

lemma remaining_len_codes:
  "transport_codes env \<Longrightarrow>
   decode_packet_remaining_len_loop n env timer len eb m r w = Some ((rc, l), w') \<Longrightarrow> rc \<notin> client_codes"
proof (induction n arbitrary: len eb m r w)
  case (Suc n)
  then show ?case
    by (auto simp: bind_eq_Some_conv Let_def dest: transport_codesD split: if_splits list.splits)
qed simp

lemma lock_codes:
  "aws_iot_mqtt_client_lock_mutex env c m w = (rc, w') \<Longrightarrow> rc \<notin> client_codes"
  "aws_iot_mqtt_client_unlock_mutex env m w = (rc, w') \<Longrightarrow> rc \<notin> client_codes"
  by (auto simp: aws_iot_mqtt_client_lock_mutex_def aws_iot_mqtt_client_unlock_mutex_def mutex_result_def
      aws_iot_thread_mutex_lock_def aws_iot_thread_mutex_trylock_def aws_iot_thread_mutex_unlock_def
      split: if_splits)

lemma set_state_codes:
  "aws_iot_mqtt_set_client_state env old new s = (rc, s') \<Longrightarrow> rc \<notin> client_codes"
  by (cases s) (auto simp: aws_iot_mqtt_set_client_state_def dest: lock_codes split: prod.splits if_splits)

lemma read_packet_codes:
  assumes "transport_codes env"
    and r: "aws_iot_mqtt_internal_read_packet env timer pt (c, w) = Some ((rc, pt'), c', w')"
  shows "rc \<notin> client_codes"
proof -
  obtain t w1 where w1: "countdown_ms env (packetTimeoutMs c) w = (t, w1)" by fastforce
  obtain rc1 l buf w2 where w2: "read_into env 0 1 timer (readBuf c, w1) = Some (rc1, l, buf, w2)"
    using r w1 by (auto simp: aws_iot_mqtt_internal_read_packet_def bind_eq_Some_conv)
  have rc1: "rc1 \<notin> client_codes" by (rule read_into_codes [OF assms(1) w2])
  show ?thesis
  proof (cases "rc1 = AWS_SUCCESS")
    case False
    with r w1 w2 rc1 show ?thesis
      by (auto simp: aws_iot_mqtt_internal_read_packet_def Let_def split: if_splits)
  next
    case True
    with r w1 w2 obtain rc2 rl w3 where w3:
        "aws_iot_mqtt_internal_decode_packet_remaining_len env t w2 = Some ((rc2, rl), w3)"
      by (auto simp: aws_iot_mqtt_internal_read_packet_def Let_def bind_eq_Some_conv)
    have rc2: "rc2 \<notin> client_codes"
      using remaining_len_codes [OF assms(1)] w3
      by (auto simp: aws_iot_mqtt_internal_decode_packet_remaining_len_def)
    show ?thesis
      using r w1 w2 w3 True rc2
      by (auto simp: aws_iot_mqtt_internal_read_packet_def bind_eq_Some_conv Let_def
          dest: read_into_codes [OF assms(1)] split: if_splits)
  qed
qed

lemma decode_loop_codes:
  "decode_remaining_length_loop buf p len m d = fail rc \<Longrightarrow> rc \<notin> client_codes"
proof (induction buf p len m d rule: decode_remaining_length_loop.induct)
  case (1 buf p len m d)
  note d = decode_remaining_length_loop.simps [of buf p len m d]
  show ?case
    using "1.prems" "1.IH" unfolding d
    by (auto simp: fail_def success_def bind_eq_Some_conv Let_def split: if_splits)
qed

lemma deserialize_publish_codes:
  assumes "aws_iot_mqtt_internal_deserialize_publish buf n = fail rc"
  shows "rc \<notin> client_codes"
proof (cases "4 > n")
  case True
  with assms show ?thesis by (auto simp: aws_iot_mqtt_internal_deserialize_publish_def fail_def)
next
  case False
  then obtain h cur where h: "aws_iot_mqtt_internal_read_char (buf, 0) = Some (h, cur)"
    using assms by (auto simp: aws_iot_mqtt_internal_deserialize_publish_def fail_def bind_eq_Some_conv)
  show ?thesis
  proof (cases "aws_iot_mqtt_internal_decode_remaining_length_from_buffer cur" rule: result_cases)
    case (fail rc')
    then have "rc' \<notin> client_codes"
      by (cases cur) (auto simp: aws_iot_mqtt_internal_decode_remaining_length_from_buffer_def
          dest: decode_loop_codes)
    with assms False h fail show ?thesis
      by (auto simp: aws_iot_mqtt_internal_deserialize_publish_def split: if_splits)
  next
    case (success x)
    with assms False h show ?thesis
      by (cases x) (auto simp: aws_iot_mqtt_internal_deserialize_publish_def Let_def
          success_def fail_def bindE_def bind_eq_Some_conv split: if_splits option.splits sum.splits)
  qed (use assms False h in \<open>auto simp: aws_iot_mqtt_internal_deserialize_publish_def fail_def split: if_splits\<close>)
qed

lemma serialize_ack_codes:
  "aws_iot_mqtt_internal_serialize_ack buf n m d i = Some (Inl rc) \<Longrightarrow> rc \<notin> client_codes"
  by (auto simp: aws_iot_mqtt_internal_serialize_ack_def aws_iot_mqtt_internal_init_header_def bindE_def
      fail_def success_def Let_def bind_eq_Some_conv split: if_splits)

lemma send_packet_codes:
  assumes "aws_iot_mqtt_internal_send_packet env c len timer w = Some (rc, w')"
  shows "rc \<notin> client_codes"
proof -
  obtain rc1 w1 where l: "aws_iot_mqtt_client_lock_mutex env c Tls_write_mutex w = (rc1, w1)" by fastforce
  show ?thesis
  proof (cases "len \<ge> writeBufSize c \<or> rc1 \<noteq> AWS_SUCCESS")
    case True
    with assms l lock_codes(1) [OF l] show ?thesis
      by (auto simp: aws_iot_mqtt_internal_send_packet_def split: if_splits)
  next
    case False
    with assms l obtain sent w2 where s: "send_loop (fuel env) env c len timer 0 w1 = Some (sent, w2)"
      by (auto simp: aws_iot_mqtt_internal_send_packet_def bind_eq_Some_conv)
    obtain rc3 w3 where u: "aws_iot_mqtt_client_unlock_mutex env Tls_write_mutex w2 = (rc3, w3)" by fastforce
    with assms l s False lock_codes(2) [OF u] show ?thesis
      by (auto simp: aws_iot_mqtt_internal_send_packet_def split: if_splits)
  qed
qed

lemma handle_publish_codes:
  assumes "aws_iot_mqtt_internal_handle_publish env timer (c, w) = Some (rc, c', w')"
  shows "rc \<notin> client_codes"
proof (cases "aws_iot_mqtt_internal_deserialize_publish (readBuf c) (readBufSize c)" rule: result_cases)
  case (fail rc')
  with assms deserialize_publish_codes [OF fail] show ?thesis
    by (auto simp: aws_iot_mqtt_internal_handle_publish_def fail_def)
next
  case (success msg)
  with assms obtain rc1 c1 w1 where d: "aws_iot_mqtt_internal_deliver_message env (rx_topicName msg)
      (rx_topicNameLen msg) msg (c, w) = Some (rc1, c1, w1)"
    by (auto simp: aws_iot_mqtt_internal_handle_publish_def success_def bind_eq_Some_conv)
  have "rc1 \<notin> client_codes"
    using d by (auto simp: aws_iot_mqtt_internal_deliver_message_def bind_eq_Some_conv Let_def
        dest: set_state_codes split: prod.splits)
  then show ?thesis
  proof (cases "rc1 = AWS_SUCCESS \<and> rx_qos msg \<noteq> QOS0")
    case True
    then obtain pid where pid: "rx_id msg = Some pid"
      using assms success d by (auto simp: aws_iot_mqtt_internal_handle_publish_def bind_eq_Some_conv)
    show ?thesis
    proof (cases "aws_iot_mqtt_internal_serialize_ack (writeBuf c1) (writeBufSize c1) PUBACK 0 pid"
        rule: result_cases)
      case (fail rc2)
      with assms success d pid True serialize_ack_codes [of "writeBuf c1" "writeBufSize c1" PUBACK 0 pid rc2]
      show ?thesis
        by (simp add: aws_iot_mqtt_internal_handle_publish_def fail_def)
    next
      case ok: (success x)
      with assms success d pid True show ?thesis
        by (cases x) (auto simp: aws_iot_mqtt_internal_handle_publish_def bind_eq_Some_conv
            dest: send_packet_codes)
    qed (use assms success d pid True in \<open>simp add: aws_iot_mqtt_internal_handle_publish_def\<close>)
  qed (use assms success d in \<open>auto simp: aws_iot_mqtt_internal_handle_publish_def split: if_splits\<close>)
qed (use assms in \<open>auto simp: aws_iot_mqtt_internal_handle_publish_def\<close>)

lemma cycle_read_codes:
  assumes "transport_codes env"
    and "aws_iot_mqtt_internal_cycle_read env timer pt (c, w) = Some ((rc, pt'), c', w')"
  shows "rc \<notin> client_codes"
proof -
  obtain rc0 w0 where l: "aws_iot_mqtt_client_lock_mutex env c Tls_read_mutex w = (rc0, w0)"
    by fastforce
  show ?thesis
  proof (cases "rc0 = AWS_SUCCESS")
    case False
    with assms(2) l lock_codes(1) [OF l] show ?thesis
      by (auto simp: aws_iot_mqtt_internal_cycle_read_def)
  next
    case True
    with assms(2) l obtain rc1 p c1 w1 where r:
        "aws_iot_mqtt_internal_read_packet env timer pt (c, w0) = Some ((rc1, p), c1, w1)"
      by (auto simp: aws_iot_mqtt_internal_cycle_read_def bind_eq_Some_conv)
    obtain rc2 w2 where u: "aws_iot_mqtt_client_unlock_mutex env Tls_read_mutex w1 = (rc2, w2)" by fastforce
    show ?thesis
      using assms(2) l True r u read_packet_codes [OF assms(1) r] lock_codes(2) [OF u]
      by (auto simp: aws_iot_mqtt_internal_cycle_read_def Let_def bind_eq_Some_conv
          dest: handle_publish_codes split: if_splits prod.splits)
  qed
qed

section \<open>The states of the background work\<close>

text \<open>Disconnect handlers that keep the client well-formed; what they do to the state is
  overwritten.\<close>

definition disconnect_keeps_wf :: "'w Env \<Rightarrow> bool" where
  "disconnect_keeps_wf env \<longleftrightarrow> (\<forall>fn d c w c' w'.
     disconnect_handler env fn d (c, w) = Some (c', w') \<longrightarrow> client_wf c \<longrightarrow> client_wf c')"

lemma force_disconnect:
  "aws_iot_mqtt_force_client_disconnect env (c, w) = (c', w') \<Longrightarrow> client_wf c' = client_wf c"
  by (auto simp: aws_iot_mqtt_force_client_disconnect_def Let_def split: prod.splits)

lemma handle_disconnect_state:
  assumes "mutexes_work env" "disconnect_keeps_wf env" "client_wf c"
    and "aws_iot_mqtt_handle_disconnect env (c, w) = Some (rc, c', w')"
  shows "rc = NETWORK_DISCONNECTED_ERROR \<and> client_wf c' \<and> clientState c' = CLIENT_STATE_DISCONNECTED_ERROR"
proof -
  obtain rc1 c1 w1 where d: "aws_iot_mqtt_disconnect env (c, w) = Some (rc1, c1, w1)"
    using assms(4) by (auto simp: aws_iot_mqtt_handle_disconnect_def bind_eq_Some_conv)
  have c1: "client_wf c1"
  proof (cases "aws_iot_mqtt_is_client_connected c")
    case True
    with disconnect_cases [OF assms(1,3) True d] show ?thesis by simp
  next
    case False
    with d assms(3) show ?thesis by (simp add: aws_iot_mqtt_disconnect_def)
  qed
  obtain c2 w2 where f: "(if rc1 \<noteq> AWS_SUCCESS then aws_iot_mqtt_force_client_disconnect env (c1, w1)
      else (c1, w1)) = (c2, w2)" by fastforce
  have c2: "client_wf c2"
    using f c1 by (auto dest: force_disconnect split: if_splits)
  show ?thesis
    using assms(2,4) d f c2
    by (auto simp: aws_iot_mqtt_handle_disconnect_def bind_eq_Some_conv disconnect_keeps_wf_def
        split: if_splits) metis+
qed

lemma keep_alive_state:
  assumes "mutexes_work env" "disconnect_keeps_wf env" "client_wf c"
    and k: "aws_iot_mqtt_keep_alive env (c, w) = Some (rc, c', w')"
  shows "client_wf c' \<and> (rc = NETWORK_DISCONNECTED_ERROR \<and> clientState c' = CLIENT_STATE_DISCONNECTED_ERROR
    \<or> rc = AWS_SUCCESS \<and> clientState c' = clientState c)"
proof -
  obtain b w1 where e: "has_timer_expired env (pingTimer c) w = (b, w1)" by fastforce
  obtain t w2 where t: "countdown_ms env (commandTimeoutMs c) w1 = (t, w2)" by fastforce
  have ser: "aws_iot_mqtt_internal_serialize_zero (writeBuf c) (writeBufSize c) PINGREQ
      = Some (Inr (emitted (writeBuf c) (mqtt_packet (init_byte PINGREQ QOS0 0 0) [])))"
    using serialize_zero [of PINGREQ "writeBufSize c" "writeBuf c"] assms(3)
    by (simp add: wf_sizes success_def)
  let ?p = "mqtt_packet (init_byte PINGREQ QOS0 0 0) []"
  show ?thesis
  proof (cases "keepAliveInterval c = 0 \<or> \<not> b \<or> isPingOutstanding c")
    case True
    with k e assms(3) handle_disconnect_state [OF assms(1-3), of w1 rc c' w'] show ?thesis
      by (auto simp: aws_iot_mqtt_keep_alive_def split: if_splits)
  next
    case False
    with k e t ser obtain rc2 c2 w3 where s:
        "send_serialized env t (success (emitted (writeBuf c) ?p)) (c, w2) = Some (rc2, c2, w3)"
      by (auto simp: aws_iot_mqtt_keep_alive_def emitted_stored bind_eq_Some_conv)
    have "length (fst (emitted (writeBuf c) ?p)) = AWS_IOT_MQTT_TX_BUF_LEN"
      using assms(3) by (simp add: emitted_def wf_sizes mqtt_packet_def encode_len_small)
    then have "kept (clientState c) (send_serialized env t (success (emitted (writeBuf c) ?p)) (c, w2))"
      using assms(3) by (intro kept_send) (auto simp: success_def emitted_def)
    with s have c2: "client_wf c2" "clientState c2 = clientState c" by simp_all
    show ?thesis
      using k e t ser s False c2 handle_disconnect_state [OF assms(1,2) c2(1), of w3 rc c' w']
      by (auto simp: aws_iot_mqtt_keep_alive_def emitted_stored Let_def split: if_splits prod.splits)
  qed
qed

lemma handle_reconnect_state:
  assumes "handlers_ok env" "mutexes_work env" "client_wf c" "clientState c = CLIENT_STATE_PENDING_RECONNECT"
    and r: "aws_iot_mqtt_handle_reconnect env (c, w) = Some (rc, c', w')"
  shows "client_wf c' \<and> (clientState c' = CLIENT_STATE_PENDING_RECONNECT
    \<or> clientState c' = CLIENT_STATE_CONNECTED_IDLE
    \<or> clientState c' = CLIENT_STATE_CONNECTED_YIELD_IN_PROGRESS \<and> rc = NETWORK_RECONNECTED)"
proof -
  obtain b w1 where e: "has_timer_expired env (reconnectDelayTimer c) w = (b, w1)" by fastforce
  obtain rc1 w2 where i: "(case net_isConnected env of None \<Rightarrow> (NETWORK_PHYSICAL_LAYER_DISCONNECTED, w1)
      | Some isConnected \<Rightarrow> isConnected w1) = (rc1, w2)" by fastforce
  show ?thesis
  proof (cases "b \<and> rc1 = NETWORK_PHYSICAL_LAYER_CONNECTED")
    case False
    with r e i assms(3,4) show ?thesis
      by (auto simp: aws_iot_mqtt_handle_reconnect_def split: if_splits prod.splits)
  next
    case True
    with r e i obtain rc3 c3 w3 where a: "aws_iot_mqtt_attempt_reconnect env (c, w2) = Some (rc3, c3, w3)"
      by (auto simp: aws_iot_mqtt_handle_reconnect_def bind_eq_Some_conv)
    have c3: "client_wf c3" "rc3 = NETWORK_ATTEMPTING_RECONNECT \<and> clientState c3 = CLIENT_STATE_PENDING_RECONNECT
        \<or> clientState c3 = CLIENT_STATE_CONNECTED_IDLE"
      using attempt_reconnect_cases [OF assms(1-3) _ a] assms(4) by (auto simp: valid_for_connect_iff)
    show ?thesis
    proof (cases "rc3 = NETWORK_RECONNECTED")
      case True
      with c3 obtain w4 where "aws_iot_mqtt_set_client_state env CLIENT_STATE_CONNECTED_IDLE
          CLIENT_STATE_CONNECTED_YIELD_IN_PROGRESS (c3, w3)
          = (AWS_SUCCESS, c3\<lparr>clientState := CLIENT_STATE_CONNECTED_YIELD_IN_PROGRESS\<rparr>, w4)"
        using set_state_from [OF assms(2), of c3 CLIENT_STATE_CONNECTED_IDLE] by (metis IoT_Error_t.distinct)
      with r e i a True \<open>b \<and> _\<close> c3 show ?thesis
        by (auto simp: aws_iot_mqtt_handle_reconnect_def)
    next
      case False
      with r e i a \<open>b \<and> _\<close> c3 show ?thesis
        by (auto simp: aws_iot_mqtt_handle_reconnect_def split: prod.splits)
    qed
  qed
qed

text \<open>What a round of reading leaves.\<close>

lemma yield_read_state:
  assumes "handlers_ok env" "mutexes_work env" "disconnect_keeps_wf env" "transport_codes env" "client_wf c"
    and r: "yield_read env timer pt (c, w) = Some ((rc, pt'), c', w')"
  shows "client_wf c' \<and> (rc = NETWORK_DISCONNECTED_ERROR \<and> clientState c' = CLIENT_STATE_DISCONNECTED_ERROR
    \<or> rc \<notin> client_codes \<and> clientState c' = clientState c)"
proof -
  obtain rc1 pt1 c1 w1 where cyc:
      "aws_iot_mqtt_internal_cycle_read env timer pt (c, w) = Some ((rc1, pt1), c1, w1)"
    using r by (auto simp: yield_read_def bind_eq_Some_conv)
  have c1: "client_wf c1" "clientState c1 = clientState c"
    using kept_cycle_read [OF assms(1,2,5) refl, of timer pt w] cyc by simp_all
  have rc1: "rc1 \<notin> client_codes" by (rule cycle_read_codes [OF assms(4) cyc])
  consider (alive) "rc1 = AWS_SUCCESS" | (gone) "rc1 \<noteq> AWS_SUCCESS" "terminal_error rc1"
    | (other) "rc1 \<noteq> AWS_SUCCESS" "\<not> terminal_error rc1" by blast
  then show ?thesis
  proof cases
    case alive
    with r cyc have "aws_iot_mqtt_keep_alive env (c1, w1) = Some (rc, c', w')"
      by (auto simp: yield_read_def bind_eq_Some_conv)
    from keep_alive_state [OF assms(2,3) c1(1) this] c1(2) show ?thesis by auto
  next
    case gone
    with r cyc have "aws_iot_mqtt_handle_disconnect env (c1, w1) = Some (rc, c', w')"
      by (auto simp: yield_read_def bind_eq_Some_conv)
    from handle_disconnect_state [OF assms(2,3) c1(1) this] show ?thesis by simp
  next
    case other
    with r cyc c1 rc1 show ?thesis by (auto simp: yield_read_def bind_eq_Some_conv)
  qed
qed

text \<open>The states between the rounds of a yield, and those in which it ends.\<close>

definition yielding :: "ClientState \<Rightarrow> bool" where
  "yielding st \<longleftrightarrow> st = CLIENT_STATE_CONNECTED_YIELD_IN_PROGRESS \<or> st = CLIENT_STATE_CONNECTED_IDLE
     \<or> st = CLIENT_STATE_PENDING_RECONNECT"

definition yield_end :: "IoT_Error_t \<Rightarrow> Client \<Rightarrow> bool" where
  "yield_end rc c \<longleftrightarrow> client_wf c \<and>
     (if clientState c = CLIENT_STATE_DISCONNECTED_ERROR then rc = NETWORK_DISCONNECTED_ERROR
      else yielding (clientState c) \<and>
        (clientState c = CLIENT_STATE_CONNECTED_YIELD_IN_PROGRESS \<longrightarrow> rc \<notin> client_codes))"

lemma yield_loop_end:
  assumes ok: "handlers_ok env" "mutexes_work env" "disconnect_keeps_wf env" "transport_codes env"
  shows "client_wf c \<Longrightarrow> yielding (clientState c) \<Longrightarrow>
    yield_loop n env timer pt (c, w) = Some (rc, c', w') \<Longrightarrow> yield_end rc c'"
proof (induction n arbitrary: pt c w)
  case (Suc n)
  let ?while = "\<lambda>yieldRc packet_type (c, w).
            let (expired, w) = has_timer_expired env timer w
            in if \<not> expired then yield_loop n env timer packet_type (c, w) else Some (yieldRc, c, w)"
  have while_end: "yield_end rc c'"
    if "?while r p (d, v) = Some (rc, c', w')" "client_wf d" "yielding (clientState d)"
      "clientState d = CLIENT_STATE_CONNECTED_YIELD_IN_PROGRESS \<Longrightarrow> r \<notin> client_codes" for r p d v
  proof -
    obtain b v1 where b: "has_timer_expired env timer v = (b, v1)" by fastforce
    show ?thesis
    proof (cases b)
      case True
      with that b show ?thesis by (auto simp: yield_end_def yielding_def)
    next
      case False
      with that(1) b have "yield_loop n env timer p (d, v1) = Some (rc, c', w')" by simp
      from Suc.IH [OF that(2,3) this] show ?thesis .
    qed
  qed
  show ?case
  proof (cases "clientState c = CLIENT_STATE_PENDING_RECONNECT")
    case True
    with Suc.prems(3) obtain r d v where r: "aws_iot_mqtt_handle_reconnect env (c, w) = Some (r, d, v)"
        "?while r pt (d, v) = Some (rc, c', w')"
      by (auto simp: aws_iot_mqtt_get_client_state_def bind_eq_Some_conv simp del: case_prod_conv)
    have "client_wf d" "yielding (clientState d)"
      "clientState d = CLIENT_STATE_CONNECTED_YIELD_IN_PROGRESS \<Longrightarrow> r \<notin> client_codes"
      using handle_reconnect_state [OF ok(1,2) Suc.prems(1) True r(1)]
      by (auto simp: yielding_def client_codes_def)
    from while_end [OF r(2) this] show ?thesis .
  next
    case False
    with Suc.prems(3) obtain r p d v where r: "yield_read env timer pt (c, w) = Some ((r, p), d, v)"
      by (auto simp: aws_iot_mqtt_get_client_state_def bind_eq_Some_conv)
    have d: "client_wf d" "r = NETWORK_DISCONNECTED_ERROR \<and> clientState d = CLIENT_STATE_DISCONNECTED_ERROR
        \<or> r \<notin> client_codes \<and> clientState d = clientState c"
      using yield_read_state [OF ok Suc.prems(1) r] by blast+
    let ?d = "d\<lparr>counterNetworkDisconnected := counterNetworkDisconnected d + 1\<rparr>"
    let ?p = "?d\<lparr>clientState := CLIENT_STATE_PENDING_RECONNECT,
        currentReconnectWaitInterval := AWS_IOT_MQTT_MIN_RECONNECT_WAIT_INTERVAL\<rparr>"
    show ?thesis
    proof (cases "r = NETWORK_DISCONNECTED_ERROR")
      case True
      with d have st: "clientState d = CLIENT_STATE_DISCONNECTED_ERROR" by auto
      obtain v1 where s: "aws_iot_mqtt_set_client_state env CLIENT_STATE_DISCONNECTED_ERROR
          CLIENT_STATE_PENDING_RECONNECT (?d, v)
          = (AWS_SUCCESS, ?d\<lparr>clientState := CLIENT_STATE_PENDING_RECONNECT\<rparr>, v1)"
        using set_state_from [OF ok(2), of ?d CLIENT_STATE_DISCONNECTED_ERROR CLIENT_STATE_PENDING_RECONNECT v] st by auto
      obtain t v2 where t: "countdown_ms env AWS_IOT_MQTT_MIN_RECONNECT_WAIT_INTERVAL v1 = (t, v2)" by fastforce
      show ?thesis
      proof (cases "isAutoReconnectEnabled d")
        case auto: True
        have "?while NETWORK_ATTEMPTING_RECONNECT p (?p\<lparr>reconnectDelayTimer := t\<rparr>, v2) = Some (rc, c', w')"
          using Suc.prems(3) False r True auto s t
          by (simp add: aws_iot_mqtt_get_client_state_def Let_def)
        from while_end [OF this] d(1) show ?thesis by (simp add: yielding_def)
      next
        case False': False
        with Suc.prems(3) False r True d st show ?thesis
          by (auto simp: aws_iot_mqtt_get_client_state_def yield_end_def)
      qed
    next
      case no: False
      with d have st: "r \<notin> client_codes" "clientState d = clientState c" by auto
      show ?thesis
      proof (cases "r = AWS_SUCCESS")
        case True
        have "?while AWS_SUCCESS p (d, v) = Some (rc, c', w')"
          using Suc.prems(3) False r no True by (simp add: aws_iot_mqtt_get_client_state_def)
        from while_end [OF this d(1)] st Suc.prems(2) show ?thesis by simp
      next
        case err: False
        with Suc.prems(2,3) False r no d(1) st show ?thesis
          by (auto simp: aws_iot_mqtt_get_client_state_def yield_end_def yielding_def)
      qed
    qed
  qed
qed simp


lemma yield_states:
  assumes "handlers_ok env" "mutexes_work env" "disconnect_keeps_wf env" "transport_codes env" "client_wf c"
    and start: "clientState c = CLIENT_STATE_CONNECTED_IDLE \<or> clientState c = CLIENT_STATE_PENDING_RECONNECT"
    and "tmo \<noteq> 0" and y: "aws_iot_mqtt_yield env tmo (c, w) = Some (rc, c', w')"
  shows "client_wf c' \<and> (clientState c' = CLIENT_STATE_CONNECTED_IDLE
      \<or> clientState c' = CLIENT_STATE_PENDING_RECONNECT \<and> rc \<noteq> AWS_SUCCESS
      \<or> clientState c' = CLIENT_STATE_DISCONNECTED_ERROR \<and> rc = NETWORK_DISCONNECTED_ERROR)"
proof -
  let ?busy = CLIENT_STATE_CONNECTED_YIELD_IN_PROGRESS
  obtain c1 w1 where s: "(if CLIENT_STATE_PENDING_RECONNECT \<noteq> clientState c
      then aws_iot_mqtt_set_client_state env CLIENT_STATE_CONNECTED_IDLE ?busy (c, w)
      else (AWS_SUCCESS, c, w)) = (AWS_SUCCESS, c1, w1)" "client_wf c1" "yielding (clientState c1)"
  proof (cases "CLIENT_STATE_PENDING_RECONNECT = clientState c")
    case True
    with that [of c w] assms(5) show ?thesis by (simp add: yielding_def)
  next
    case False
    with start have "clientState c = CLIENT_STATE_CONNECTED_IDLE" by simp
    then obtain w' where "aws_iot_mqtt_set_client_state env CLIENT_STATE_CONNECTED_IDLE ?busy (c, w)
        = (AWS_SUCCESS, c\<lparr>clientState := ?busy\<rparr>, w')"
      by (rule set_state_from [OF assms(2)])
    with that [of "c\<lparr>clientState := ?busy\<rparr>" w'] assms(5) False show ?thesis by (simp add: yielding_def)
  qed
  have conn: "clientState c = CLIENT_STATE_CONNECTED_IDLE \<Longrightarrow> aws_iot_mqtt_is_client_connected c"
    by (simp add: aws_iot_mqtt_is_client_connected_def)
  obtain t w2 where t: "countdown_ms env tmo w1 = (t, w2)" by fastforce
  obtain rc3 c3 w3 where l: "yield_loop (fuel env) env t 0 (c1, w2) = Some (rc3, c3, w3)"
      and fin: "(if NETWORK_DISCONNECTED_ERROR \<noteq> rc3 \<and> NETWORK_ATTEMPTING_RECONNECT \<noteq> rc3 then
         let (rc, s) = aws_iot_mqtt_set_client_state env ?busy CLIENT_STATE_CONNECTED_IDLE (c3, w3)
         in Some (if AWS_SUCCESS = rc3 \<and> AWS_SUCCESS \<noteq> rc then rc else rc3, s)
         else Some (rc3, c3, w3)) = Some (rc, c', w')"
    using y assms(7) start s(1) conn t
    by (cases "CLIENT_STATE_PENDING_RECONNECT = clientState c")
      (auto simp: aws_iot_mqtt_yield_def aws_iot_mqtt_internal_yield_def aws_iot_mqtt_get_client_state_def
        bind_eq_Some_conv)
  have "yield_end rc3 c3"
    by (rule yield_loop_end [OF assms(1-4) s(2,3) l])
  then have c3: "client_wf c3" "clientState c3 = CLIENT_STATE_DISCONNECTED_ERROR \<and> rc3 = NETWORK_DISCONNECTED_ERROR
      \<or> clientState c3 = ?busy \<and> rc3 \<notin> client_codes
      \<or> clientState c3 = CLIENT_STATE_CONNECTED_IDLE \<or> clientState c3 = CLIENT_STATE_PENDING_RECONNECT"
    by (auto simp: yield_end_def yielding_def split: if_splits)
  show ?thesis
  proof (cases "clientState c3 = ?busy")
    case True
    then obtain w4 where "aws_iot_mqtt_set_client_state env ?busy CLIENT_STATE_CONNECTED_IDLE (c3, w3)
        = (AWS_SUCCESS, c3\<lparr>clientState := CLIENT_STATE_CONNECTED_IDLE\<rparr>, w4)"
      using set_state_from [OF assms(2) True] by blast
    with fin True c3 show ?thesis by (auto simp: client_codes_def)
  next
    case False
    then obtain w4 where "aws_iot_mqtt_set_client_state env ?busy CLIENT_STATE_CONNECTED_IDLE (c3, w3)
        = (MQTT_UNEXPECTED_CLIENT_STATE_ERROR, c3, w4)"
      using set_state_other [OF assms(2) False] by blast
    with fin False c3 show ?thesis by (auto split: if_splits)
  qed
qed

section \<open>Keep-alive and reconnection in a connecting world\<close>

text \<open>The physical layer is up.\<close>

definition physical_layer_up :: "'w Env \<Rightarrow> ('w \<Rightarrow> 'o) \<Rightarrow> bool" where
  "physical_layer_up env obs \<longleftrightarrow> (case net_isConnected env of None \<Rightarrow> False
     | Some f \<Rightarrow> (\<forall>w. fst (f w) = NETWORK_PHYSICAL_LAYER_CONNECTED \<and> obs (snd (f w)) = obs w))"

lemma pingreq_packet: "mqtt_packet (init_byte PINGREQ QOS0 0 0) [] = [0xC0, 0]"
  by (simp add: mqtt_packet_def init_byte_def header_byte_def encode_len_small)

context connecting_world begin

lemma handle_reconnect_ok:
  assumes c: "client_wf c" and opts: "connect_params_ok (options c)" "length (connect_body (options c)) < 1020"
    and time: "in_time env (commandTimeoutMs c)" and fuel: "4 < fuel env"
    and st: "clientState c = CLIENT_STATE_PENDING_RECONNECT"
    and delay: "fst (has_timer_expired env (reconnectDelayTimer c) w)" and up: "physical_layer_up env obs"
    and subs: "subs = takeWhile in_use (messageHandlers c)" "list_all sendable subs" "length acks = length subs"
    and w: "pending w = mqtt_packet 0x20 [flags, 0] @ subacks acks @ rest"
  shows "\<exists>c' w'. aws_iot_mqtt_handle_reconnect env (c, w) = Some (NETWORK_RECONNECTED, c', w')
    \<and> messageHandlers c' = messageHandlers c \<and> clientState c' = CLIENT_STATE_CONNECTED_YIELD_IN_PROGRESS
    \<and> obs w' = (rest, sent w @ mqtt_packet 0x10 (connect_body (options c))
        @ resubscribe_packets (nextPacketId c) subs, seen w)"
proof -
  obtain w1 where w1: "has_timer_expired env (reconnectDelayTimer c) w = (True, w1)" "obs w1 = obs w"
    using delay expired_obs [of "reconnectDelayTimer c" w] by (metis prod.collapse)
  obtain f where f: "net_isConnected env = Some f"
    using up by (auto simp: physical_layer_up_def split: option.splits)
  obtain w2 where w2: "f w1 = (NETWORK_PHYSICAL_LAYER_CONNECTED, w2)" "obs w2 = obs w1"
    using up f by (simp add: physical_layer_up_def) (metis prod.collapse)
  have valid: "aws_iot_mqtt_is_client_state_valid_for_connect (clientState c)"
    using st by (simp add: valid_for_connect_iff)
  have "pending w2 = mqtt_packet 0x20 [flags, 0] @ subacks acks @ rest"
    using w w1 w2 by (simp add: obs_def)
  from attempt_reconnect_ok [OF c opts time fuel valid subs this]
  obtain c3 w3 where a: "aws_iot_mqtt_attempt_reconnect env (c, w2) = Some (NETWORK_RECONNECTED, c3, w3)"
      "messageHandlers c3 = messageHandlers c" "clientState c3 = CLIENT_STATE_CONNECTED_IDLE"
      "obs w3 = (rest, sent w2 @ mqtt_packet 0x10 (connect_body (options c))
        @ resubscribe_packets (nextPacketId c) subs, seen w2)"
    by blast
  obtain w4 where "aws_iot_mqtt_set_client_state env CLIENT_STATE_CONNECTED_IDLE
      CLIENT_STATE_CONNECTED_YIELD_IN_PROGRESS (c3, w3)
      = (AWS_SUCCESS, c3\<lparr>clientState := CLIENT_STATE_CONNECTED_YIELD_IN_PROGRESS\<rparr>, w4)" "obs w4 = obs w3"
    using set_state_ok [of CLIENT_STATE_CONNECTED_IDLE CLIENT_STATE_CONNECTED_YIELD_IN_PROGRESS c3 w3] a(3) by auto
  then show ?thesis
    using w1 f w2 a by (simp add: aws_iot_mqtt_handle_reconnect_def obs_def)
qed

lemma keep_alive_pings:
  assumes c: "client_wf c" and time: "in_time env (commandTimeoutMs c)" and fuel: "4 < fuel env"
    and "keepAliveInterval c \<noteq> 0" "fst (has_timer_expired env (pingTimer c) w)" "\<not> isPingOutstanding c"
  shows "\<exists>c' w'. aws_iot_mqtt_keep_alive env (c, w) = Some (AWS_SUCCESS, c', w')
    \<and> isPingOutstanding c' \<and> clientState c' = clientState c \<and> messageHandlers c' = messageHandlers c
    \<and> timeout (pingTimer c') = ucast (keepAliveInterval c) div 2 * 1000
    \<and> obs w' = (pending w, sent w @ [0xC0, 0], seen w)"
proof -
  obtain w1 where w1: "has_timer_expired env (pingTimer c) w = (True, w1)" "obs w1 = obs w"
    using assms(5) expired_obs [of "pingTimer c" w] by (metis prod.collapse)
  obtain timer w2 where t: "countdown_ms env (commandTimeoutMs c) w1 = (timer, w2)" by fastforce
  have w2: "obs w2 = obs w1" by (rule countdown_obs [OF t])
  have ser: "aws_iot_mqtt_internal_serialize_zero (writeBuf c) (writeBufSize c) PINGREQ
      = success (emitted (writeBuf c) [0xC0, 0])"
    using serialize_zero [of PINGREQ "writeBufSize c" "writeBuf c"] c by (simp add: wf_sizes pingreq_packet)
  have "[0xC0, 0 :: byte] \<noteq> []" "length [0xC0, 0 :: byte] < AWS_IOT_MQTT_TX_BUF_LEN" "2 \<le> fuel env"
    using fuel by simp_all
  from send_serialized_ok [OF c this in_timeD [OF time t], of w2]
  obtain w3 where w3: "send_serialized env timer (success (emitted (writeBuf c) [0xC0, 0])) (c, w2)
      = Some (AWS_SUCCESS, c\<lparr>writeBuf := stored_packet [0xC0, 0] (writeBuf c)\<rparr>, w3)"
      "obs w3 = (pending w2, sent w2 @ [0xC0, 0], seen w2)"
    by auto
  obtain t2 w4 where t2: "countdown_sec env (ucast (keepAliveInterval c) div 2) w3 = (t2, w4)" by fastforce
  have w4: "obs w4 = obs w3"
    using tick_obs [of w3] t2 by (auto simp: countdown_sec_def split: prod.splits)
  have "timeout t2 = ucast (keepAliveInterval c) div 2 * 1000"
    using t2 by (auto simp: countdown_sec_def split: prod.splits)
  then show ?thesis
    using w1 t w2 ser w3 t2 w4 assms(4,6)
    by (auto simp: aws_iot_mqtt_keep_alive_def success_def emitted_stored obs_def Let_def)
qed

lemma keep_alive_gives_up:
  assumes c: "client_wf c" and time: "in_time env (commandTimeoutMs c)" and fuel: "4 < fuel env"
    and "keepAliveInterval c \<noteq> 0" "fst (has_timer_expired env (pingTimer c) w)" "isPingOutstanding c"
    and connected: "aws_iot_mqtt_is_client_connected c" and handler: "disconnectHandler c = NULL"
  shows "\<exists>c' w'. aws_iot_mqtt_keep_alive env (c, w) = Some (NETWORK_DISCONNECTED_ERROR, c', w')
    \<and> clientState c' = CLIENT_STATE_DISCONNECTED_ERROR \<and> messageHandlers c' = messageHandlers c
    \<and> obs w' = (pending w, sent w @ [0xE0, 0], seen w)"
proof -
  obtain w1 where w1: "has_timer_expired env (pingTimer c) w = (True, w1)" "obs w1 = obs w"
    using assms(5) expired_obs [of "pingTimer c" w] by (metis prod.collapse)
  obtain c2 w2 where d: "aws_iot_mqtt_disconnect env (c, w1) = Some (AWS_SUCCESS, c2, w2)"
      "messageHandlers c2 = messageHandlers c" "disconnectHandler c2 = disconnectHandler c"
      "obs w2 = (pending w1, sent w1 @ [0xE0, 0], seen w1)"
    using disconnect_ok [OF c time fuel connected, of w1] by auto
  then show ?thesis
    using w1 d assms(4,6) handler
    by (simp add: aws_iot_mqtt_keep_alive_def aws_iot_mqtt_handle_disconnect_def obs_def)
qed

end

section \<open>A quiet connection\<close>

lemma yield_loop_silent:
  assumes silent: "silent_network env now" and tmo: "unat tmo \<le> 4000000000" and "keepAliveInterval c = 0"
    and "clientState c \<noteq> CLIENT_STATE_PENDING_RECONNECT"
  shows "s0 \<le> now w \<Longrightarrow> now w - s0 \<le> unat tmo + 1 \<Longrightarrow> unat tmo - (now w - s0) < n \<Longrightarrow>
    \<exists>w'. yield_loop n env \<lparr>start_timestamp = of_nat s0, timeout = tmo\<rparr> pt (c, w) = Some (AWS_SUCCESS, c, w')"
proof (induction n arbitrary: w)
  case (Suc n)
  let ?t = "\<lparr>start_timestamp = of_nat s0, timeout = tmo\<rparr>"
  obtain w1 where w1: "aws_iot_mqtt_internal_cycle_read env ?t pt (c, w) = Some ((AWS_SUCCESS, pt), c, w1)"
      "now w < now w1" "now w1 \<le> now w + 1000001"
    using silent_cycle [OF silent] by blast
  have read: "yield_read env ?t pt (c, w) = Some ((AWS_SUCCESS, pt), c, w1)"
    using w1(1) assms(3) by (simp add: yield_read_def aws_iot_mqtt_keep_alive_def)
  have "s0 \<le> now w1" "now w1 - s0 < 4294967296"
    using w1 Suc.prems tmo by simp_all
  from silent_expired [OF silent this, of tmo]
  obtain w2 where w2: "has_timer_expired env ?t w1 = (unat tmo \<le> now w1 - s0, w2)" "now w2 = now w1 + 1"
    by blast
  show ?case
  proof (cases "unat tmo \<le> now w1 - s0")
    case True
    with read w2 assms(4) show ?thesis
      by (simp add: aws_iot_mqtt_get_client_state_def)
  next
    case False
    then have "s0 \<le> now w2" "now w2 - s0 \<le> unat tmo + 1" "unat tmo - (now w2 - s0) < n"
      using w1 w2 Suc.prems by simp_all
    from Suc.IH [OF this] read w2 False assms(4) show ?thesis
      by (simp add: aws_iot_mqtt_get_client_state_def)
  qed
qed simp

lemma silent_mutexes: "silent_network env now \<Longrightarrow> mutexes_work env"
  by (simp add: silent_network_def mutexes_work_def)

lemma yield_silent:
  assumes silent: "silent_network env now" and tmo: "tmo \<noteq> 0" "unat tmo \<le> 4000000000" "unat tmo < fuel env"
    and "keepAliveInterval c = 0" and st: "clientState c = CLIENT_STATE_CONNECTED_IDLE"
  shows "\<exists>w'. aws_iot_mqtt_yield env tmo (c, w) = Some (AWS_SUCCESS, c, w')"
proof -
  let ?c = "c\<lparr>clientState := CLIENT_STATE_CONNECTED_YIELD_IN_PROGRESS\<rparr>"
  note mutexes = silent_mutexes [OF silent]
  obtain w1 where s1: "aws_iot_mqtt_set_client_state env CLIENT_STATE_CONNECTED_IDLE
      CLIENT_STATE_CONNECTED_YIELD_IN_PROGRESS (c, w) = (AWS_SUCCESS, ?c, w1)"
    using set_state_from [OF mutexes st] by blast
  have tick: "fst (os_ticks_get env w1) = of_nat (now w1) \<and> now (snd (os_ticks_get env w1)) = now w1 + 1"
    using silent by (simp add: silent_network_def)
  obtain w2 where t: "countdown_ms env tmo w1 = (\<lparr>start_timestamp = of_nat (now w1), timeout = tmo\<rparr>, w2)"
      "now w2 = now w1 + 1"
    using tick by (cases "os_ticks_get env w1") (auto simp: countdown_ms_def)
  have "now w1 \<le> now w2" "now w2 - now w1 \<le> unat tmo + 1" "unat tmo - (now w2 - now w1) < fuel env"
    using t tmo by simp_all
  from yield_loop_silent [OF silent tmo(2) _ _ this, of ?c 0] assms(5)
  obtain w3 where l: "yield_loop (fuel env) env \<lparr>start_timestamp = of_nat (now w1), timeout = tmo\<rparr> 0 (?c, w2)
      = Some (AWS_SUCCESS, ?c, w3)"
    by auto
  obtain w4 where s4: "aws_iot_mqtt_set_client_state env CLIENT_STATE_CONNECTED_YIELD_IN_PROGRESS
      CLIENT_STATE_CONNECTED_IDLE (?c, w3) = (AWS_SUCCESS, ?c\<lparr>clientState := CLIENT_STATE_CONNECTED_IDLE\<rparr>, w4)"
    using set_state_from [OF mutexes, of ?c CLIENT_STATE_CONNECTED_YIELD_IN_PROGRESS] by (metis Client.select_convs(3) Client.surjective Client.update_convs(3))
  have "?c\<lparr>clientState := CLIENT_STATE_CONNECTED_IDLE\<rparr> = c"
    using st by (cases c) simp
  then show ?thesis
    using tmo(1) st s1 t l s4
    by (simp add: aws_iot_mqtt_yield_def aws_iot_mqtt_internal_yield_def aws_iot_mqtt_get_client_state_def
        aws_iot_mqtt_is_client_connected_def)
qed

section \<open>Properties\<close>


lemma silent_env_codes: "transport_codes silent_env" "disconnect_keeps_wf silent_env" "handlers_ok silent_env"
  by (simp_all add: transport_codes_def client_codes_def disconnect_keeps_wf_def handlers_ok_def
      handlers_keep_wf_def silent_env_def)


text \<open>A yield returns: on a connection on which nothing arrives and with keep-alive off, it comes
  back with success when its time is over, and the client is as before.\<close>

theorem yield_times_out:
  assumes "silent_network env now" "tmo \<noteq> 0" "unat tmo \<le> 4000000000" "unat tmo < fuel env"
    and "keepAliveInterval c = 0" "clientState c = CLIENT_STATE_CONNECTED_IDLE"
  shows "\<exists>w'. aws_iot_mqtt_yield env tmo (c, w) = Some (AWS_SUCCESS, c, w')"
  by (rule yield_silent [OF assms])

theorem yield_times_out_witness:
  "\<exists>w'. aws_iot_mqtt_yield silent_env 1 (subscribed_client\<lparr>keepAliveInterval := 0\<rparr>, 7)
    = Some (AWS_SUCCESS, subscribed_client\<lparr>keepAliveInterval := 0\<rparr>, w')"
  by (rule yield_times_out [OF silent_env_ok]) (simp_all add: silent_env_def subscribed_client_def)

text \<open>C19. Reconnection succeeds when it can: a client waiting to reconnect whose delay is over, with the
  physical layer up, a server that accepts and acknowledges, sends CONNECT with its old options and one
  SUBSCRIBE, with consecutive identifiers, for each handler before the first free slot, and is
  connected again with its handlers.\<close>

theorem reconnection_restores:
  assumes "connecting_world env pending sent seen" "client_wf c"
    and "connect_params_ok (options c)" "length (connect_body (options c)) < 1020"
    and "in_time env (commandTimeoutMs c)" "4 < fuel env"
    and "clientState c = CLIENT_STATE_PENDING_RECONNECT" "fst (has_timer_expired env (reconnectDelayTimer c) w)"
    and "physical_layer_up env (\<lambda>w. (pending w, sent w, seen w))"
    and "subs = takeWhile in_use (messageHandlers c)" "list_all sendable subs" "length acks = length subs"
    and "pending w = mqtt_packet 0x20 [flags, 0] @ subacks acks @ rest"
  shows "\<exists>c' w'. aws_iot_mqtt_handle_reconnect env (c, w) = Some (NETWORK_RECONNECTED, c', w')
    \<and> messageHandlers c' = messageHandlers c \<and> clientState c' = CLIENT_STATE_CONNECTED_YIELD_IN_PROGRESS
    \<and> sent w' = sent w @ mqtt_packet 0x10 (connect_body (options c))
        @ resubscribe_packets (nextPacketId c) subs
    \<and> pending w' = rest \<and> seen w' = seen w"
proof -
  have world: "connected_world env pending sent seen"
    using assms(1) by (rule connecting_world.axioms)
  have "physical_layer_up env (connected_world.obs pending sent seen)"
    using assms(9) by (simp add: connected_world.obs_def [OF world, abs_def])
  from connecting_world.handle_reconnect_ok [OF assms(1-8) this assms(10-13)] show ?thesis
    by (auto simp: connected_world.obs_def [OF world])
qed

theorem reconnection_restores_witness:
  "\<exists>c' w'. aws_iot_mqtt_handle_reconnect loop_env (subscribed_client\<lparr>clientState := CLIENT_STATE_PENDING_RECONNECT\<rparr>,
      \<lparr>lb_in = mqtt_packet 0x20 [0, 0] @ subacks [(2, 1)] @ [], lb_out = [], lb_calls = []\<rparr>)
      = Some (NETWORK_RECONNECTED, c', w') \<and> clientState c' = CLIENT_STATE_CONNECTED_YIELD_IN_PROGRESS
    \<and> lb_out w' = [0x10, 12, 0, 4, 77, 81, 84, 84, 4, 2, 0, 60, 0, 0, 0x82, 8, 0, 2, 0, 3, 97, 47, 43, 1]"
proof -
  let ?c = "subscribed_client\<lparr>clientState := CLIENT_STATE_PENDING_RECONNECT\<rparr>"
  let ?w = "\<lparr>lb_in = mqtt_packet 0x20 [0, 0] @ subacks [(2, 1)] @ [], lb_out = [], lb_calls = []\<rparr>"
  let ?subs = "takeWhile in_use (messageHandlers ?c)"
  have c: "client_wf ?c" "commandTimeoutMs ?c = 20000"
    using subscribed_client_wf by simp_all (simp add: subscribed_client_def new_client_def)
  have opts: "connect_params_ok (options ?c)" "length (connect_body (options ?c)) < 1020"
    by code_simp+
  have time: "in_time loop_env (commandTimeoutMs ?c)" "4 < fuel loop_env"
    by (simp_all add: c loopback_in_time loopback_fuel)
  have delay: "fst (has_timer_expired loop_env (reconnectDelayTimer ?c) ?w)"
    "physical_layer_up loop_env (\<lambda>w. (lb_in w, lb_out w, lb_calls w))"
    by (simp_all add: subscribed_client_def new_client_def init_timer_def has_timer_expired_def left_ms_def
        loop_env_def physical_layer_up_def)
  have subs: "list_all sendable ?subs" "length [(2, 1)] = length ?subs"
    by (simp_all add: subscribed_handlers in_use_def sendable_def ptr_mem_def)
  have out: "mqtt_packet 0x10 (connect_body (options ?c)) @ resubscribe_packets (nextPacketId ?c) ?subs
      = [0x10, 12, 0, 4, 77, 81, 84, 84, 4, 2, 0, 60, 0, 0, 0x82, 8, 0, 2, 0, 3, 97, 47, 43, 1]"
    by code_simp
  show ?thesis
    using reconnection_restores [OF loopback.connecting_world_axioms c(1) opts time _ delay refl subs, of 0 "[]"] out
    by auto
qed

text \<open>C21. Keep-alive: with the ping timer running, or keep-alive off, nothing happens; when the
  timer has expired, a PINGREQ is sent and half the interval, in whole seconds, is given for the answer;
  when it expires again before the answer, the client says DISCONNECT, gives the connection up and
  reports it.  An interval of one second gives the answer no time at all.\<close>

theorem keep_alive_protocol:
  assumes world: "connecting_world env pending sent seen" and c: "client_wf c"
    and time: "in_time env (commandTimeoutMs c)" "4 < fuel env"
    and connected: "aws_iot_mqtt_is_client_connected c" "disconnectHandler c = NULL"
  shows "\<exists>rc c' w'. aws_iot_mqtt_keep_alive env (c, w) = Some (rc, c', w')
    \<and> pending w' = pending w \<and> seen w' = seen w \<and> messageHandlers c' = messageHandlers c
    \<and> (if keepAliveInterval c = 0 \<or> \<not> fst (has_timer_expired env (pingTimer c) w)
       then rc = AWS_SUCCESS \<and> c' = c \<and> sent w' = sent w
       else if \<not> isPingOutstanding c
       then rc = AWS_SUCCESS \<and> clientState c' = clientState c \<and> isPingOutstanding c'
         \<and> timeout (pingTimer c') = ucast (keepAliveInterval c) div 2 * 1000 \<and> sent w' = sent w @ [0xC0, 0]
       else rc = NETWORK_DISCONNECTED_ERROR \<and> clientState c' = CLIENT_STATE_DISCONNECTED_ERROR
         \<and> sent w' = sent w @ [0xE0, 0])"
proof -
  have cw: "connected_world env pending sent seen"
    using world by (rule connecting_world.axioms)
  note obs = connected_world.obs_def [OF cw]
  obtain b w1 where e: "has_timer_expired env (pingTimer c) w = (b, w1)" by fastforce
  have "connected_world.obs pending sent seen w1 = connected_world.obs pending sent seen w"
    using connected_world.expired_obs [OF cw, of "pingTimer c" w] e by simp
  then have w1: "pending w1 = pending w" "sent w1 = sent w" "seen w1 = seen w"
    by (simp_all add: obs)
  consider (off) "keepAliveInterval c = 0" | (running) "keepAliveInterval c \<noteq> 0" "\<not> b"
    | (ping) "keepAliveInterval c \<noteq> 0" "b" "\<not> isPingOutstanding c"
    | (lost) "keepAliveInterval c \<noteq> 0" "b" "isPingOutstanding c" by blast
  then show ?thesis
  proof cases
    case off
    then show ?thesis by (simp add: aws_iot_mqtt_keep_alive_def)
  next
    case running
    with e w1 show ?thesis by (simp add: aws_iot_mqtt_keep_alive_def)
  next
    case ping
    with e have "fst (has_timer_expired env (pingTimer c) w)" by simp
    from connecting_world.keep_alive_pings [OF world c time ping(1) this ping(3)] ping e show ?thesis
      by (auto simp: obs)
  next
    case lost
    with e have "fst (has_timer_expired env (pingTimer c) w)" by simp
    from connecting_world.keep_alive_gives_up [OF world c time lost(1) this lost(3) connected] lost e
    show ?thesis by (auto simp: obs)
  qed
qed


theorem keep_alive_protocol_witness:
  "\<exists>rc c' w'. aws_iot_mqtt_keep_alive loop_env (subscribed_client\<lparr>keepAliveInterval := 1\<rparr>,
      \<lparr>lb_in = [], lb_out = [], lb_calls = []\<rparr>) = Some (rc, c', w')
    \<and> rc = AWS_SUCCESS \<and> lb_out w' = [0xC0, 0] \<and> timeout (pingTimer c') = 0"
proof -
  let ?c = "subscribed_client\<lparr>keepAliveInterval := 1\<rparr>" and ?w = "\<lparr>lb_in = [], lb_out = [], lb_calls = []\<rparr>"
  have c: "client_wf ?c" "in_time loop_env (commandTimeoutMs ?c)" "4 < fuel loop_env"
    "aws_iot_mqtt_is_client_connected ?c" "disconnectHandler ?c = NULL" "\<not> isPingOutstanding ?c"
    using subscribed_client_wf by (simp_all add: loopback_fuel)
      (simp_all add: subscribed_client_def new_client_def loopback_in_time aws_iot_mqtt_is_client_connected_def)
  have "fst (has_timer_expired loop_env (pingTimer ?c) ?w)"
    by (simp add: subscribed_client_def new_client_def init_timer_def has_timer_expired_def left_ms_def loop_env_def)
  then show ?thesis
    using keep_alive_protocol [OF loopback.connecting_world_axioms c(1-5), of ?w] c(6) by auto
qed

end
