(* ===== verification/Net_Port.thy ===== *)
theory Net_Port
  imports Mqtt_Yield
begin

text \<open>
  The network port \<^verbatim>\<open>platform/wmsdk/network/network_interface.c\<close>: the functions behind the
  pointers of \<^verbatim>\<open>struct Network\<close>, over the sockets and the TLS library of the SDK, which are the
  fields of the record \<open>Port\<close>.  The locale \<open>tls_session\<close> states what is documented of a TLS
  session; that the port turns it into the byte stream the MQTT client expects is the sublocale
  \<open>network_stream\<close> at its end.
\<close>

section \<open>Data\<close>

record TLSConnectParams =
  pRootCALocation :: "byte list option"
  pDeviceCertLocation :: "byte list option"
  pDevicePrivateKeyLocation :: "byte list option"
  pDestinationURL :: "byte list option"
  DestinationPort :: u16
  tls_timeout_ms :: u32
  ServerVerificationFlag :: bool

text \<open>The function pointers always hold the functions of this file; \<^verbatim>\<open>tls_hd\<close>, a static handle, is in
  the world.\<close>

record Network =
  my_socket :: int
  tlsConnectParams :: TLSConnectParams

text \<open>The libraries: a TLS read stores at most the bytes it was asked for and gives their number, or
  a negative error; a write gives the number of bytes it wrote, or a negative error.\<close>

record 'w Port =
  wm_mbedtls_lib_init :: "'w \<Rightarrow> 'w"
  lwip_socket :: "'w \<Rightarrow> int \<times> 'w"
  lwip_gethostbyname :: "byte list option \<Rightarrow> 'w \<Rightarrow> u32 option \<times> 'w"
  lwip_connect :: "int \<Rightarrow> u32 \<Rightarrow> u16 \<Rightarrow> 'w \<Rightarrow> int \<times> 'w"
  lwip_close :: "int \<Rightarrow> 'w \<Rightarrow> 'w"
  wm_tls_client_open :: "byte list option \<Rightarrow> byte list option \<Rightarrow> byte list option \<Rightarrow> int \<Rightarrow> 'w \<Rightarrow> int \<times> 'w"
  wm_tls_client_close :: "'w \<Rightarrow> 'w"
  wm_tls_reset_read_timer :: "'w \<Rightarrow> 'w"
  wm_tls_set_read_timeout :: "u32 \<Rightarrow> 'w \<Rightarrow> 'w"
  wm_tls_client_read :: "nat \<Rightarrow> 'w \<Rightarrow> (int + byte list) \<times> 'w"
  wm_tls_client_write :: "byte list \<Rightarrow> 'w \<Rightarrow> int \<times> 'w"

section \<open>Connecting\<close>

text \<open>The flag for the verification of the server's name is not stored.\<close>

definition Populate_ConnectParams :: "Network \<Rightarrow> TLSConnectParams \<Rightarrow> Network" where
  "Populate_ConnectParams net params = net\<lparr>tlsConnectParams := (tlsConnectParams net)\<lparr>
     DestinationPort := DestinationPort params, pDestinationURL := pDestinationURL params,
     pDeviceCertLocation := pDeviceCertLocation params,
     pDevicePrivateKeyLocation := pDevicePrivateKeyLocation params,
     pRootCALocation := pRootCALocation params, tls_timeout_ms := tls_timeout_ms params\<rparr>\<rparr>"

definition port_iot_tls_init ::
  "'w Port \<Rightarrow> TLSConnectParams \<Rightarrow> Network \<times> 'w \<Rightarrow> IoT_Error_t \<times> Network \<times> 'w" where
  "port_iot_tls_init port params = (\<lambda>(net, w).
     let w = wm_mbedtls_lib_init port w;
         net = Populate_ConnectParams net params
     in (AWS_SUCCESS, net\<lparr>my_socket := 0\<rparr>, w))"

definition Create_TCPSocket :: "'w Port \<Rightarrow> 'w \<Rightarrow> int \<times> 'w" where
  "Create_TCPSocket port w = lwip_socket port w"

definition Close_TCPSocket :: "'w Port \<Rightarrow> Network \<times> 'w \<Rightarrow> Network \<times> 'w" where
  "Close_TCPSocket port = (\<lambda>(net, w).
     if my_socket net = -1 then (net, w)
     else (net\<lparr>my_socket := -1\<rparr>, lwip_close port (my_socket net) w))"

definition Connect_TCPSocket ::
  "'w Port \<Rightarrow> int \<Rightarrow> byte list option \<Rightarrow> u16 \<Rightarrow> 'w \<Rightarrow> IoT_Error_t \<times> 'w" where
  "Connect_TCPSocket port socket_fd url dest_port w =
     (let (host, w) = lwip_gethostbyname port url w
      in case host of None \<Rightarrow> (TCP_CONNECTION_ERROR, w)
         | Some addr \<Rightarrow>
             let (connect_status, w) = lwip_connect port socket_fd addr dest_port w
             in (if connect_status \<noteq> -1 then AWS_SUCCESS else TCP_CONNECTION_ERROR, w))"

text \<open>\<^verbatim>\<open>-WM_FAIL\<close> is -1, which is \<open>AWS_FAILURE\<close>; \<^verbatim>\<open>WM_SUCCESS\<close> is \<open>AWS_SUCCESS\<close>.\<close>

definition iot_tls_connect ::
  "'w Port \<Rightarrow> TLSConnectParams option \<Rightarrow> Network \<times> 'w \<Rightarrow> IoT_Error_t \<times> Network \<times> 'w" where
  "iot_tls_connect port params = (\<lambda>(net, w).
     let net = (case params of None \<Rightarrow> net | Some p \<Rightarrow> Populate_ConnectParams net p);
         (fd, w) = Create_TCPSocket port w;
         net = net\<lparr>my_socket := fd\<rparr>
     in if -1 = my_socket net then (TCP_CONNECTION_ERROR, net, w)
        else
          let p = tlsConnectParams net;
              (ret_val, w) = Connect_TCPSocket port (my_socket net) (pDestinationURL p) (DestinationPort p) w
          in if AWS_SUCCESS \<noteq> ret_val then (ret_val, Close_TCPSocket port (net, w))
             else
               let (ret, w) = wm_tls_client_open port (pRootCALocation p) (pDeviceCertLocation p)
                                (pDevicePrivateKeyLocation p) (my_socket net) w
               in if ret \<noteq> WM_SUCCESS
                  then (AWS_FAILURE, Close_TCPSocket port (net, wm_tls_client_close port w))
                  else (AWS_SUCCESS, net, w))"

section \<open>Reading and writing\<close>

text \<open>The \<^verbatim>\<open>do ... while\<close> of \<^verbatim>\<open>iot_tls_read\<close>: it goes on until an error or until \<open>len\<close> bytes are
  there; a TLS layer that keeps returning 0 bytes keeps it forever.  The result is what was stored,
  \<^verbatim>\<open>error_flag\<close> and \<^verbatim>\<open>complete_flag\<close>.\<close>

partial_function (option) tls_read_loop ::
  "'w Port \<Rightarrow> nat \<Rightarrow> byte list \<Rightarrow> 'w \<Rightarrow> ((byte list \<times> bool \<times> bool) \<times> 'w) option" where
  "tls_read_loop port len received w =
     (case wm_tls_client_read port (len - length received) w of
        (Inr bytes, w) \<Rightarrow>
          if length (received @ bytes) \<ge> len then Some ((received @ bytes, False, True), w)
          else tls_read_loop port len (received @ bytes) w
      | (Inl e, w) \<Rightarrow> Some ((received, True, length received \<ge> len), w))"

definition iot_tls_read ::
  "'w Port \<Rightarrow> (Network \<times> 'w) Env \<Rightarrow> nat \<Rightarrow> Timer \<Rightarrow> Network \<times> 'w
   \<Rightarrow> (IoT_Error_t \<times> byte list \<times> Network \<times> 'w) option" where
  "iot_tls_read port os len timer = (\<lambda>(net, w).
     let w = wm_tls_reset_read_timer port w;
         w = wm_tls_set_read_timeout port (timeout timer) w
     in do {
       ((received, error_flag, complete_flag), w) \<leftarrow> tls_read_loop port len [] w;
       if length received = 0 \<and> error_flag then Some (NETWORK_SSL_NOTHING_TO_READ, received, net, w)
       else
         let (expired, s) = has_timer_expired os timer (net, w)
         in Some (if expired \<and> \<not> complete_flag then NETWORK_SSL_READ_TIMEOUT_ERROR else AWS_SUCCESS, received, s)
     })"

text \<open>\<^verbatim>\<open>*written_len\<close> is unsigned: the comparison with 0 always holds, an error wraps.\<close>

definition iot_tls_write ::
  "'w Port \<Rightarrow> byte list \<Rightarrow> Timer \<Rightarrow> Network \<times> 'w \<Rightarrow> IoT_Error_t \<times> u32 \<times> Network \<times> 'w" where
  "iot_tls_write port msg timer = (\<lambda>(net, w).
     let (n, w) = wm_tls_client_write port msg w;
         written_len = word_of_int n
     in (if written_len \<ge> 0 then AWS_SUCCESS else AWS_FAILURE, written_len, net, w))"

section \<open>Closing\<close>

definition iot_tls_disconnect :: "'w Port \<Rightarrow> Network \<times> 'w \<Rightarrow> IoT_Error_t \<times> Network \<times> 'w" where
  "iot_tls_disconnect port = (\<lambda>(net, w). (AWS_SUCCESS, Close_TCPSocket port (net, wm_tls_client_close port w)))"

definition iot_tls_destroy :: "Network \<times> 'w \<Rightarrow> IoT_Error_t \<times> Network \<times> 'w" where
  "iot_tls_destroy s = (AWS_SUCCESS, s)"

definition iot_tls_is_connected :: "Network \<times> 'w \<Rightarrow> IoT_Error_t \<times> Network \<times> 'w" where
  "iot_tls_is_connected s = (NETWORK_PHYSICAL_LAYER_CONNECTED, s)"

section \<open>The client on the port\<close>

text \<open>\<^verbatim>\<open>aws_iot_mqtt_init\<close> passes its parameters to \<^verbatim>\<open>iot_tls_init\<close>.\<close>

definition init_tls_params :: "IoT_Client_Init_Params \<Rightarrow> TLSConnectParams" where
  "init_tls_params p = \<lparr>pRootCALocation = ip_pRootCALocation p, pDeviceCertLocation = ip_pDeviceCertLocation p,
     pDevicePrivateKeyLocation = ip_pDevicePrivateKeyLocation p, pDestinationURL = ip_pHostURL p,
     DestinationPort = ip_port p, tls_timeout_ms = ip_tlsHandshakeTimeout_ms p,
     ServerVerificationFlag = ip_isSSLHostnameVerify p\<rparr>"

text \<open>An operating system and callbacks, with the port as network stack.\<close>

definition port_env :: "'w Port \<Rightarrow> (Network \<times> 'w) Env \<Rightarrow> (Network \<times> 'w) Env" where
  "port_env port os = os\<lparr>iot_tls_init := \<lambda>p. port_iot_tls_init port (init_tls_params p),
     net_connect := iot_tls_connect port None, net_read := iot_tls_read port os,
     net_write := iot_tls_write port, net_disconnect := iot_tls_disconnect port,
     net_isConnected := Some iot_tls_is_connected, net_destroy := iot_tls_destroy\<rparr>"

section \<open>TLS sessions\<close>

text \<open>\<open>incoming\<close> is what the peer has sent and the session has not yet given: a read takes some of
  it, as much as it likes, and reports an error when there is none.  Timers, clock and mutexes
  leave it alone.\<close>

locale tls_session =
  fixes port :: "'w Port" and os :: "(Network \<times> 'w) Env" and incoming :: "'w \<Rightarrow> byte list"
  assumes read_some: "0 < n \<Longrightarrow> incoming w \<noteq> [] \<Longrightarrow>
      \<exists>bytes w'. wm_tls_client_read port n w = (Inr bytes, w') \<and> bytes \<noteq> [] \<and> length bytes \<le> n
        \<and> incoming w = bytes @ incoming w'"
    and read_none: "0 < n \<Longrightarrow> incoming w = [] \<Longrightarrow>
      \<exists>e w'. wm_tls_client_read port n w = (Inl e, w') \<and> incoming w' = []"
    and read_nothing: "\<exists>w'. wm_tls_client_read port 0 w = (Inr [], w') \<and> incoming w' = incoming w"
    and timers: "incoming (wm_tls_reset_read_timer port w) = incoming w"
      "incoming (wm_tls_set_read_timeout port t w) = incoming w"
    and ticks: "incoming (snd (snd (os_ticks_get os s))) = incoming (snd s)"
    and mutex_get: "incoming (snd (snd (os_mutex_get os m x s))) = incoming (snd s)"
    and mutex_put: "incoming (snd (snd (os_mutex_put os m s))) = incoming (snd s)"
begin

lemma read_loop_available:
  "length received \<le> len \<Longrightarrow> len - length received \<le> length (incoming w) \<Longrightarrow>
   \<exists>w'. tls_read_loop port len received w
     = Some ((received @ take (len - length received) (incoming w), False, True), w')
   \<and> incoming w' = drop (len - length received) (incoming w)"
proof (induction "len - length received" arbitrary: received w rule: less_induct)
  case less
  let ?n = "len - length received"
  show ?case
  proof (cases "?n = 0")
    case True
    obtain w' where "wm_tls_client_read port 0 w = (Inr [], w')" "incoming w' = incoming w"
      using read_nothing by blast
    with True show ?thesis by (simp add: tls_read_loop.simps)
  next
    case False
    then have "incoming w \<noteq> []" using less.prems by auto
    with False obtain bytes w1 where r: "wm_tls_client_read port ?n w = (Inr bytes, w1)" "bytes \<noteq> []"
        "length bytes \<le> ?n" "incoming w = bytes @ incoming w1"
      using read_some [of ?n w] by auto
    show ?thesis
    proof (cases "length bytes = ?n")
      case True
      with r less.prems show ?thesis by (simp add: tls_read_loop.simps)
    next
      case more: False
      then have shorter: "len - length (received @ bytes) < ?n" "length (received @ bytes) \<le> len"
        "len - length (received @ bytes) \<le> length (incoming w1)"
        using r less.prems length_greater_0_conv [of bytes] by (simp_all, linarith+)
      have "tls_read_loop port len received w = tls_read_loop port len (received @ bytes) w1"
        using r(1,3) more less.prems(1) by (auto simp: tls_read_loop.simps [of port len received w])
      moreover have "take ?n (incoming w) = bytes @ take (len - length (received @ bytes)) (incoming w1)"
        "drop ?n (incoming w) = drop (len - length (received @ bytes)) (incoming w1)"
        using r(3) by (simp_all add: r(4) diff_diff_left)
      ultimately show ?thesis
        using less.hyps [OF shorter] by auto
    qed
  qed
qed

text \<open>When the session runs dry, the loop keeps what it got and stops.\<close>

lemma read_loop_short:
  "length received + length (incoming w) < len \<Longrightarrow>
   \<exists>w'. tls_read_loop port len received w = Some ((received @ incoming w, True, False), w')
   \<and> incoming w' = []"
proof (induction "length (incoming w)" arbitrary: received w rule: less_induct)
  case less
  let ?n = "len - length received"
  show ?case
  proof (cases "incoming w = []")
    case True
    with less.prems obtain e w' where "wm_tls_client_read port ?n w = (Inl e, w')" "incoming w' = []"
      using read_none [of ?n w] by auto
    with True less.prems show ?thesis by (simp add: tls_read_loop.simps)
  next
    case False
    with less.prems obtain bytes w1 where r: "wm_tls_client_read port ?n w = (Inr bytes, w1)" "bytes \<noteq> []"
        "length bytes \<le> ?n" "incoming w = bytes @ incoming w1"
      using read_some [of ?n w] by auto
    then have "tls_read_loop port len received w = tls_read_loop port len (received @ bytes) w1"
      using less.prems by (simp add: tls_read_loop.simps [of port len received w])
    moreover have "length (incoming w1) < length (incoming w)"
      "length (received @ bytes) + length (incoming w1) < len"
      using r less.prems by simp_all
    ultimately show ?thesis
      using less.hyps [of w1 "received @ bytes"] r(4) by auto
  qed
qed

lemma read_loop_bounded:
  assumes "tls_read_loop port len received w = Some ((got, e, f), w')" "length received \<le> len"
  shows "length got \<le> len"
proof (cases "len - length received \<le> length (incoming w)")
  case True
  then show ?thesis
    using read_loop_available [OF assms(2) True] assms by auto
next
  case False
  then show ?thesis
    using read_loop_short [of received w len] assms by auto
qed

lemma expired_incoming: "incoming (snd (snd (has_timer_expired os timer s))) = incoming (snd s)"
  using ticks [of s] by (cases "os_ticks_get os s") (simp add: has_timer_expired_def left_ms_def Let_def)

end

lemma port_env_os [simp]:
  "os_ticks_get (port_env port os) = os_ticks_get os" "os_mutex_get (port_env port os) = os_mutex_get os"
  "os_mutex_put (port_env port os) = os_mutex_put os" "net_read (port_env port os) = iot_tls_read port os"
  "net_write (port_env port os) = iot_tls_write port" "fuel (port_env port os) = fuel os"
  by (simp_all add: port_env_def)

text \<open>The port makes a byte stream of every TLS session, however the session cuts its data.\<close>

sublocale tls_session \<subseteq> stream: network_stream "port_env port os" "\<lambda>s. incoming (snd s)"
proof
  fix n and timer :: Timer and s :: "Network \<times> 'w"
  obtain net w where s: "s = (net, w)" by fastforce
  let ?w = "wm_tls_set_read_timeout port (timeout timer) (wm_tls_reset_read_timer port w)"
  have w: "incoming ?w = incoming w" by (simp add: timers)
  have v: "incoming (snd (snd (has_timer_expired os timer (net, w1)))) = incoming w1" for w1
    using expired_incoming [of timer "(net, w1)"] by simp
  show "\<exists>s'. net_read (port_env port os) n timer s = Some (AWS_SUCCESS, take n (incoming (snd s)), s')
      \<and> incoming (snd s') = drop n (incoming (snd s))" if avail: "n \<le> length (incoming (snd s))"
  proof -
    obtain w' where "tls_read_loop port n [] ?w = Some ((take n (incoming w), False, True), w')"
        "incoming w' = drop n (incoming w)"
      using read_loop_available [of "[]" n ?w] avail by (auto simp: s w)
    then show ?thesis
      using v [of w'] by (cases "has_timer_expired os timer (net, w')") (simp add: s iot_tls_read_def)
  qed
  show "\<exists>s'. net_read (port_env port os) n timer s = Some (NETWORK_SSL_NOTHING_TO_READ, [], s')
      \<and> incoming (snd s') = []" if empty: "incoming (snd s) = []" "0 < n"
  proof -
    obtain w' where "tls_read_loop port n [] ?w = Some (([], True, False), w')" "incoming w' = []"
      using read_loop_short [of "[]" ?w n] empty by (auto simp: s w)
    then show ?thesis
      by (simp add: s iot_tls_read_def)
  qed
  show "length bs \<le> n" if read: "net_read (port_env port os) n timer s = Some (rc, bs, s')" for rc bs s'
  proof -
    obtain a b c w' where "tls_read_loop port n [] ?w = Some ((a, b, c), w')"
      using read by (auto simp: s iot_tls_read_def bind_eq_Some_conv)
    then show ?thesis
      using read read_loop_bounded [of n "[]" ?w a b c w']
      by (auto simp: s iot_tls_read_def Let_def split: if_splits prod.splits)
  qed
qed (simp_all add: ticks mutex_get mutex_put)

context tls_session begin

lemma is_stream: "network_stream (port_env port os) (\<lambda>s. incoming (snd s))"
  by (rule stream.network_stream_axioms)

end

section \<open>A session that gives its data in pieces\<close>

text \<open>The world is the data still to come; a read gives at most \<open>k + 1\<close> bytes, every write fails
  with the error -1 when it offers more than ten bytes.\<close>

definition piece_port :: "nat \<Rightarrow> byte list Port" where
  "piece_port k = \<lparr>wm_mbedtls_lib_init = (\<lambda>w. w), lwip_socket = (\<lambda>w. (5, w)),
     lwip_gethostbyname = (\<lambda>url w. (map_option (\<lambda>_. 0x7F000001) url, w)),
     lwip_connect = (\<lambda>fd addr p w. (if p = 0 then -1 else 0, w)), lwip_close = (\<lambda>fd w. w),
     wm_tls_client_open = (\<lambda>_ _ _ _ w. (if w = [] then -1 else 0, w)), wm_tls_client_close = (\<lambda>w. w),
     wm_tls_reset_read_timer = (\<lambda>w. w), wm_tls_set_read_timeout = (\<lambda>_ w. w),
     wm_tls_client_read = (\<lambda>n w. if n = 0 then (Inr [], w) else if w = [] then (Inl (-1), w)
        else (Inr (take (min n (Suc k)) w), drop (min n (Suc k)) w)),
     wm_tls_client_write = (\<lambda>bs w. (if length bs > 10 then -1 else int (length bs), w))\<rparr>"

text \<open>An operating system whose clock stands still.\<close>

definition still_os :: "(Network \<times> byte list) Env" where
  "still_os = \<lparr>os_ticks_get = (\<lambda>w. (0, w)), os_mutex_create = (\<lambda>_ w. (0, w)),
     os_mutex_get = (\<lambda>_ _ w. (0, w)), os_mutex_put = (\<lambda>_ w. (0, w)), os_mutex_delete = (\<lambda>_ w. (0, w)),
     iot_tls_init = (\<lambda>_ w. (AWS_SUCCESS, w)), net_connect = (\<lambda>w. (AWS_SUCCESS, w)),
     net_read = (\<lambda>n _ w. None), net_write = (\<lambda>bs _ w. (AWS_FAILURE, 0, w)),
     net_disconnect = (\<lambda>w. (AWS_SUCCESS, w)), net_isConnected = None, net_destroy = (\<lambda>w. (AWS_SUCCESS, w)),
     app_handler = (\<lambda>_ _ _ _ _ s. Some s), disconnect_handler = (\<lambda>_ _ s. Some s), fuel = 10\<rparr>"

interpretation pieces: tls_session "piece_port k" still_os "\<lambda>w. w"
  by unfold_locales (auto simp: piece_port_def still_os_def)

definition closed_network :: Network where
  "closed_network = \<lparr>my_socket = -1, tlsConnectParams = \<lparr>pRootCALocation = None, pDeviceCertLocation = None,
     pDevicePrivateKeyLocation = None, pDestinationURL = Some [104], DestinationPort = 8883,
     tls_timeout_ms = 5000, ServerVerificationFlag = True\<rparr>\<rparr>"

section \<open>Properties\<close>

text \<open>C16. A read through the port, whatever pieces the TLS session gives: with enough data it returns
  exactly the bytes asked for; with none it says that there is nothing to read; with some, but too few,
  it returns those, as a timeout when the timer has expired, and otherwise as a success.\<close>

theorem port_read:
  assumes "tls_session port os incoming" and n: "0 < n"
  shows "\<exists>rc net' w'. iot_tls_read port os n timer (net, w) = Some (rc, take n (incoming w), net', w')
    \<and> incoming w' = drop n (incoming w)
    \<and> (if n \<le> length (incoming w) then rc = AWS_SUCCESS
       else if incoming w = [] then rc = NETWORK_SSL_NOTHING_TO_READ
       else \<exists>w1. rc = (if fst (has_timer_expired os timer (net, w1)) then NETWORK_SSL_READ_TIMEOUT_ERROR
          else AWS_SUCCESS))"
proof -
  note session = assms(1)
  let ?w = "wm_tls_set_read_timeout port (timeout timer) (wm_tls_reset_read_timer port w)"
  have w: "incoming ?w = incoming w" by (simp add: tls_session.timers [OF session])
  have expired: "incoming (snd (snd (has_timer_expired os timer (net, v)))) = incoming v" for v
    using tls_session.expired_incoming [OF session, of timer "(net, v)"] by simp
  show ?thesis
  proof (cases "n \<le> length (incoming w)")
    case True
    then obtain w' where "tls_read_loop port n [] ?w = Some ((take n (incoming w), False, True), w')"
        "incoming w' = drop n (incoming w)"
      using tls_session.read_loop_available [OF session, of "[]" n ?w] by (auto simp: w)
    with True expired [of w'] show ?thesis
      by (cases "has_timer_expired os timer (net, w')") (simp add: iot_tls_read_def)
  next
    case False
    then obtain w' where "tls_read_loop port n [] ?w = Some ((incoming w, True, False), w')" "incoming w' = []"
      using tls_session.read_loop_short [OF session, of "[]" ?w n] by (auto simp: w)
    moreover obtain b net' v where e: "has_timer_expired os timer (net, w') = (b, net', v)" by (metis prod.collapse)
    ultimately show ?thesis
      using False expired [of w'] by (auto simp: iot_tls_read_def) (metis fst_conv)+
  qed
qed

theorem port_read_witness:
  "\<exists>rc net' w'. iot_tls_read (piece_port 1) still_os 5 init_timer (closed_network, [1, 2, 3, 4, 5, 6, 7])
    = Some (rc, [1, 2, 3, 4, 5], net', w') \<and> rc = AWS_SUCCESS \<and> w' = [6, 7]"
  using port_read [OF pieces.tls_session_axioms, of 5 1 init_timer closed_network "[1, 2, 3, 4, 5, 6, 7]"] by auto

text \<open>The client on the port: a packet that fits the receive buffer is read unchanged from any TLS
  session, however its bytes are cut into pieces, and the session is left behind it.\<close>

theorem client_reads_from_tls:
  assumes "tls_session port os incoming" "client_wf c"
    and "length (mqtt_packet h body) \<le> AWS_IOT_MQTT_RX_BUF_LEN" "4 < fuel os"
    and "incoming w = mqtt_packet h body @ rest"
  shows "\<exists>net' w'. aws_iot_mqtt_internal_read_packet (port_env port os) timer ptype (c, net, w)
    = Some ((AWS_SUCCESS, header_type h),
        c\<lparr>readBuf := mqtt_packet h body @ drop (length (mqtt_packet h body)) (readBuf c)\<rparr>, net', w')
    \<and> incoming w' = rest"
proof -
  have stream: "network_stream (port_env port os) (\<lambda>s. incoming (snd s))"
    by (rule tls_session.is_stream [OF assms(1)])
  have "\<exists>s'. aws_iot_mqtt_internal_read_packet (port_env port os) timer ptype (c, net, w)
    = Some ((AWS_SUCCESS, header_type h),
        c\<lparr>readBuf := mqtt_packet h body @ drop (length (mqtt_packet h body)) (readBuf c)\<rparr>, s')
    \<and> incoming (snd s') = rest"
    by (rule network_stream.read_packet_stream [OF stream assms(2,3)]) (simp_all add: assms(4,5))
  then show ?thesis by auto
qed

theorem client_reads_from_tls_witness:
  "\<exists>net' w'. aws_iot_mqtt_internal_read_packet (port_env (piece_port 0) still_os) init_timer 0
      (new_client, closed_network, mqtt_packet 0xD0 [] @ [7])
    = Some ((AWS_SUCCESS, header_type 0xD0), new_client\<lparr>readBuf := mqtt_packet 0xD0 []
        @ drop (length (mqtt_packet 0xD0 [])) (readBuf new_client)\<rparr>, net', w') \<and> w' = [7]"
  by (rule client_reads_from_tls [OF pieces.tls_session_axioms new_client_wf])
    (simp_all add: mqtt_packet_def encode_len_small still_os_def)

text \<open>A failed TLS write is reported by the port as a success with a wrapped number of bytes, and
  the client's send as an unspecific failure, not as an error of the transport.\<close>

theorem port_write_error:
  assumes e: "wm_tls_client_write port (take len (writeBuf c)) w1 = (e, w2)" "e < 0" "- 2147483648 \<le> e"
    and c: "client_wf c" "0 < len" "len < AWS_IOT_MQTT_TX_BUF_LEN" and fuel: "2 \<le> fuel os"
    and os: "os_mutex_get os Tls_write_mutex OS_WAIT_FOREVER (net, w) = (0, net, w0)" "isBlockOnThreadLockEnabled c"
      "has_timer_expired (port_env port os) timer (net, w0) = (False, net, w1)"
      "os_mutex_put os Tls_write_mutex (net, w2) = (0, net, w3)"
  shows "iot_tls_write port (take len (writeBuf c)) timer (net, w1) = (AWS_SUCCESS, word_of_int e, net, w2)
    \<and> aws_iot_mqtt_internal_send_packet (port_env port os) c len timer (net, w) = Some (AWS_FAILURE, net, w3)"
proof -
  have wr: "iot_tls_write port (take len (writeBuf c)) timer (net, w1) = (AWS_SUCCESS, word_of_int e, net, w2)"
    using e(1) by (simp add: iot_tls_write_def)
  have "uint (word_of_int e :: u32) = e + 4294967296"
    using e(2,3) mod_add_self2 [of e 4294967296] mod_pos_pos_trivial [of "e + 4294967296" 4294967296]
    by (simp add: uint_word_of_int)
  then have "int (unat (word_of_int e :: u32)) = e + 4294967296"
    by simp
  then have big: "unat (word_of_int e :: u32) = nat (e + 4294967296)"
    by (metis nat_int)
  have past: "\<not> nat (e + 4294967296) < len" "nat (e + 4294967296) \<noteq> len"
    using e(3) c(3) by linarith+
  obtain n where n: "fuel os = Suc (Suc n)"
    using fuel by (metis add_2_eq_Suc le_Suc_ex)
  have buf: "mem_take len (writeBuf c) = Some (take len (writeBuf c))" "length (writeBuf c) = 1024"
    using c by (simp_all add: mem_take_def client_wf_def)
  have "send_loop (fuel os) (port_env port os) c len timer 0 (net, w0) = Some (word_of_int e, net, w2)"
    using os(3) wr buf c big past by (simp add: n)
  then show ?thesis
    using os wr c big past
    by (simp add: aws_iot_mqtt_internal_send_packet_def aws_iot_mqtt_client_lock_mutex_def client_wf_def
        aws_iot_thread_mutex_lock_def mutex_result_def aws_iot_mqtt_client_unlock_mutex_def
        aws_iot_thread_mutex_unlock_def)
qed

theorem port_write_error_witness:
  "aws_iot_mqtt_internal_send_packet (port_env (piece_port 0) still_os) new_client 20
      \<lparr>start_timestamp = 0, timeout = 5\<rparr> (closed_network, []) = Some (AWS_FAILURE, closed_network, [])"
proof -
  have "wm_tls_client_write (piece_port 0) (take 20 (writeBuf new_client)) [] = (-1, [])"
    by (simp add: piece_port_def new_client_def)
  then show ?thesis
    using port_write_error [where c = new_client and len = 20 and port = "piece_port 0" and w = "[]" and w0 = "[]"
        and net = closed_network and os = still_os and timer = "\<lparr>start_timestamp = 0, timeout = 5\<rparr>"] new_client_wf
    by (simp add: still_os_def has_timer_expired_def left_ms_def) (simp add: new_client_def port_env_def)
qed

text \<open>Connecting through the port: a success holds the socket it opened; every failure, of the
  name lookup, the TCP connection or the TLS handshake, leaves no socket open; the flag that asks for the
  verification of the server's name is never taken over.\<close>

theorem port_connect_socket:
  assumes "iot_tls_connect port params (net, w) = (rc, net', w')" "lwip_socket port w = (fd, w1)"
  shows "(if rc = AWS_SUCCESS then my_socket net' = fd \<and> fd \<noteq> -1 else my_socket net' = -1)
    \<and> ServerVerificationFlag (tlsConnectParams net') = ServerVerificationFlag (tlsConnectParams net)"
  using assms
  by (auto simp: iot_tls_connect_def Create_TCPSocket_def Connect_TCPSocket_def Close_TCPSocket_def
      Populate_ConnectParams_def Let_def split: prod.splits option.splits if_splits)

theorem port_connect_socket_witness:
  "\<exists>net'. iot_tls_connect (piece_port 0) None (closed_network, []) = (AWS_FAILURE, net', []) \<and> my_socket net' = -1"
proof -
  have r: "iot_tls_connect (piece_port 0) None (closed_network, []) = (AWS_FAILURE, closed_network, [])"
    "lwip_socket (piece_port 0) [] = (5, [])"
    by (simp_all add: iot_tls_connect_def Create_TCPSocket_def Connect_TCPSocket_def Close_TCPSocket_def
        piece_port_def closed_network_def)
  show ?thesis
    using port_connect_socket [OF r] r(1) by simp
qed

end
