(* ===== verification/C_Strings.thy ===== *)
theory C_Strings
  imports Prelude
begin

text \<open>
  The part of the C library the Shadow service uses: strings in character arrays
  (\<^verbatim>\<open>strlen\<close>, \<^verbatim>\<open>strcmp\<close>, \<^verbatim>\<open>strstr\<close>, \<^verbatim>\<open>strncpy\<close>), bounded printing (\<^verbatim>\<open>snprintf\<close>, \<^verbatim>\<open>sprintf\<close>),
  integers in decimal and their scanning with \<^verbatim>\<open>sscanf\<close>, and typed access to the object a
  \<^verbatim>\<open>void *\<close> points to.

  An array is its bytes; the string in it ends at its first zero byte.  An access outside the
  array, or a string without end, is undefined (\<open>None\<close>).
\<close>

named_theorems cstr

section \<open>Strings in arrays\<close>

definition ascii :: "string \<Rightarrow> byte list" where
  "ascii s = map of_char s"

definition c_str :: "byte list \<Rightarrow> byte list option" where
  "c_str m = (if 0 \<in> set m then Some (takeWhile (\<lambda>b. b \<noteq> 0) m) else None)"

definition c_strlen :: "byte list \<Rightarrow> nat option" where
  "c_strlen m = map_option length (c_str m)"

text \<open>\<^verbatim>\<open>strstr(s, t) != NULL\<close>\<close>

fun c_strstr :: "byte list \<Rightarrow> byte list \<Rightarrow> bool" where
  "c_strstr [] t = (t = [])"
| "c_strstr (b # s) t = (take (length t) (b # s) = t \<or> c_strstr s t)"

text \<open>\<^verbatim>\<open>strncpy(dst, src, n)\<close> pads with zeros, and leaves no terminator when \<open>src\<close> is too long.\<close>

definition c_strncpy :: "byte list \<Rightarrow> byte list \<Rightarrow> nat \<Rightarrow> byte list option" where
  "c_strncpy dst src n = map_option fst (put_bytes (take n (src @ replicate n 0)) (dst, 0))"

section \<open>Printing\<close>

text \<open>\<^verbatim>\<open>snprintf(buf + off, n, ...)\<close> of a text: at most \<open>n - 1\<close> characters and a terminator; the
  result is the length of the whole text.\<close>

definition snprintf :: "byte list \<Rightarrow> nat \<Rightarrow> u32 \<Rightarrow> byte list \<Rightarrow> (int \<times> byte list) option" where
  "snprintf buf off n text =
     (let r = (if length text < 2 ^ 31 then int (length text) else -1) in
      if n = 0 then Some (r, buf)
      else map_option (\<lambda>c. (r, fst c)) (put_bytes (take (unat n - 1) text @ [0]) (buf, off)))"

definition sprintf :: "byte list \<Rightarrow> nat \<Rightarrow> byte list \<Rightarrow> byte list option" where
  "sprintf buf off text = map_option fst (put_bytes (text @ [0]) (buf, off))"

fun show_nat :: "nat \<Rightarrow> byte list" where
  "show_nat n = (if n < 10 then [48 + of_nat n]
                 else show_nat (n div 10) @ [48 + of_nat (n mod 10)])"

declare show_nat.simps [simp del]

definition show_int :: "int \<Rightarrow> byte list" where
  "show_int i = (if i < 0 then 45 # show_nat (nat (- i)) else show_nat (nat i))"

section \<open>Scanning\<close>

definition is_space :: "byte \<Rightarrow> bool" where
  "is_space b \<longleftrightarrow> b = 32 \<or> 9 \<le> b \<and> b \<le> 13"

definition digit_val :: "byte \<Rightarrow> nat" where
  "digit_val b =
     (if 48 \<le> b \<and> b \<le> 57 then unat b - 48
      else if 97 \<le> b \<and> b \<le> 122 then unat b - 87
      else if 65 \<le> b \<and> b \<le> 90 then unat b - 55 else 36)"

definition digits :: "nat \<Rightarrow> byte list \<Rightarrow> byte list" where
  "digits base s = takeWhile (\<lambda>b. digit_val b < base) s"

definition number :: "nat \<Rightarrow> byte list \<Rightarrow> nat" where
  "number base ds = foldl (\<lambda>n b. base * n + digit_val b) 0 ds"

text \<open>The base of \<^verbatim>\<open>%i\<close> is that of a C literal, the base of \<^verbatim>\<open>%u\<close> is ten.\<close>

definition scan_base :: "bool \<Rightarrow> byte list \<Rightarrow> nat" where
  "scan_base literal s =
     (if \<not> literal then 10
      else if take 2 s = [48, 120] \<or> take 2 s = [48, 88] then 16
      else if take 1 s = [48] then 8 else 10)"

definition scan_nat :: "bool \<Rightarrow> byte list \<Rightarrow> nat option" where
  "scan_nat literal s =
     (let base = scan_base literal s;
          ds = digits base (if base = 16 then drop 2 s else s)
      in if ds = [] then None else Some (number base ds))"

definition scan_sign :: "byte list \<Rightarrow> int \<times> byte list" where
  "scan_sign s = (case s of [] \<Rightarrow> (1, []) | b # t \<Rightarrow>
     if b = 45 then (-1, t) else if b = 43 then (1, t) else (1, s))"

text \<open>\<^verbatim>\<open>sscanf(s, "%i", ...)\<close> (\<open>literal\<close>) and \<^verbatim>\<open>"%u"\<close>: the integer read, or \<open>None\<close> when the
  result of \<^verbatim>\<open>sscanf\<close> is not 1.\<close>

definition sscanf_int :: "bool \<Rightarrow> byte list \<Rightarrow> int option" where
  "sscanf_int literal s =
     (let (sgn, t) = scan_sign (dropWhile is_space s)
      in map_option (\<lambda>n. sgn * int n) (scan_nat literal t))"

section \<open>Objects behind a void pointer\<close>

text \<open>The target stores integers with the least significant byte first.\<close>

fun le_val :: "byte list \<Rightarrow> nat" where
  "le_val [] = 0"
| "le_val (b # bs) = unat b + 256 * le_val bs"

fun nat_bytes :: "nat \<Rightarrow> nat \<Rightarrow> byte list" where
  "nat_bytes 0 n = []"
| "nat_bytes (Suc k) n = of_nat n # nat_bytes k (n div 256)"

definition mem_word :: "byte list \<Rightarrow> 'a :: len word option" where
  "mem_word m = (if LENGTH('a) div 8 \<le> length m
                 then Some (of_nat (le_val (take (LENGTH('a) div 8) m))) else None)"

definition word_bytes :: "'a :: len word \<Rightarrow> byte list" where
  "word_bytes w = nat_bytes (LENGTH('a) div 8) (unat w)"

text \<open>\<^verbatim>\<open>*p = x\<close> for an object \<open>x\<close> of these bytes.\<close>

definition store :: "byte list \<Rightarrow> byte list \<Rightarrow> byte list option" where
  "store m bs = map_option fst (put_bytes bs (m, 0))"

section \<open>Laws\<close>

lemma c_str_mem [cstr]: "0 \<notin> set s \<Longrightarrow> c_str (s @ 0 # rest) = Some s"
proof -
  assume "0 \<notin> set s"
  then have "takeWhile (\<lambda>b. b \<noteq> 0) (s @ 0 # rest) = s"
    by (induction s) auto
  then show ?thesis
    by (simp add: c_str_def)
qed

lemma c_strlen_mem [cstr]: "0 \<notin> set s \<Longrightarrow> c_strlen (s @ 0 # rest) = Some (length s)"
  by (simp add: c_strlen_def c_str_mem)

lemma c_str_no_zero: "c_str m = Some s \<Longrightarrow> 0 \<notin> set s"
  by (auto simp: c_str_def split: if_splits dest: set_takeWhileD)

text \<open>An array that holds a string is the string, the terminator and a rest.\<close>

lemma c_str_split:
  assumes "c_str m = Some s"
  obtains rest where "m = s @ 0 # rest"
proof -
  have z: "0 \<in> set m" and s: "s = takeWhile (\<lambda>b. b \<noteq> 0) m"
    using assms by (auto simp: c_str_def split: if_splits)
  have "dropWhile (\<lambda>b. b \<noteq> 0) m \<noteq> []"
    using z by (simp add: dropWhile_eq_Nil_conv)
  moreover from this have "hd (dropWhile (\<lambda>b. b \<noteq> 0) m) = 0"
    using hd_dropWhile [of "\<lambda>b. b \<noteq> 0" m] by simp
  ultimately obtain rest where "dropWhile (\<lambda>b. b \<noteq> 0) m = 0 # rest"
    by (metis list.collapse)
  then show ?thesis
    using that [of rest] s takeWhile_dropWhile_id [of "\<lambda>b. b \<noteq> 0" m] by simp
qed

lemma c_str_length:
  assumes "c_str m = Some s"
  shows "length s < length m"
proof -
  obtain rest where "m = s @ 0 # rest"
    using assms by (rule c_str_split)
  then show ?thesis
    by simp
qed

lemma c_strstr_iff: "c_strstr s t \<longleftrightarrow> (\<exists>u v. s = u @ t @ v)"
proof (induction s)
  case Nil
  then show ?case by auto
next
  case (Cons b s)
  have "take (length t) (b # s) = t \<longleftrightarrow> (\<exists>v. b # s = t @ v)"
    by (metis append_eq_conv_conj)
  moreover have "(\<exists>u v. b # s = u @ t @ v) \<longleftrightarrow>
      (\<exists>v. b # s = t @ v) \<or> (\<exists>u v. s = u @ t @ v)" (is "?l \<longleftrightarrow> ?r")
  proof
    assume ?l
    then obtain u v where "b # s = u @ t @ v"
      by blast
    then show ?r
      by (cases u) auto
  next
    assume ?r
    then show ?l
    proof
      assume "\<exists>v. b # s = t @ v"
      then show ?l
        by (metis append_Nil)
    next
      assume "\<exists>u v. s = u @ t @ v"
      then show ?l
        by (metis append_Cons)
    qed
  qed
  ultimately show ?case
    using Cons.IH by simp
qed

text \<open>Printing behind the string an array holds: the text is appended when it and its
  terminator fit; the bound \<open>n\<close> alone does not keep the write inside the array.\<close>

lemma snprintf_fits [cstr]:
  assumes "length text < unat n" "length text \<le> length rest" "length text < 2 ^ 31"
  shows "snprintf (s @ b # rest) (length s) n text
         = Some (int (length text), s @ text @ 0 # drop (length text) rest)"
proof -
  have "take (unat n - 1) text = text"
    using assms by simp
  moreover have "n \<noteq> 0"
    using assms(1) by auto
  ultimately show ?thesis
    using assms(2,3) by (simp add: snprintf_def put_bytes_def)
qed

lemma snprintf_truncated:
  assumes "unat n \<le> length text" "0 < unat n" "length text < 2 ^ 31" "unat n - 1 \<le> length rest"
  shows "snprintf (s @ b # rest) (length s) n text
         = Some (int (length text), s @ take (unat n - 1) text @ 0 # drop (unat n - 1) rest)"
proof -
  have "n \<noteq> 0"
    using assms(2) by auto
  moreover obtain k where "unat n = Suc k"
    using assms(2) by (cases "unat n") auto
  ultimately show ?thesis
    using assms by (simp add: snprintf_def put_bytes_def)
qed

lemma snprintf_overrun:
  assumes "n \<noteq> 0" "length buf < off + min (length text + 1) (unat n)"
  shows "snprintf buf off n text = None"
proof -
  have "0 < unat n"
    using assms(1) by (simp add: unat_gt_0)
  then have "length (take (unat n - 1) text @ [0]) = min (length text + 1) (unat n)"
    by (auto simp: min_def)
  then have "put_bytes (take (unat n - 1) text @ [0]) (buf, off) = None"
    using assms(2) by (simp add: put_bytes_overrun del: length_append)
  then show ?thesis
    using assms(1) by (simp add: snprintf_def)
qed

lemma snprintf_length: "snprintf buf off n text = Some (r, buf') \<Longrightarrow> length buf' = length buf"
  by (auto simp: snprintf_def put_bytes_def Let_def split: if_splits)

section \<open>Decimal numbers\<close>

lemma less_10_cases:
  "d < (10 :: nat) \<Longrightarrow>
   d = 0 \<or> d = 1 \<or> d = 2 \<or> d = 3 \<or> d = 4 \<or> d = 5 \<or> d = 6 \<or> d = 7 \<or> d = 8 \<or> d = 9"
  by auto

lemma digit_char [simp]: "d < 10 \<Longrightarrow> digit_val (48 + of_nat d) = d"
proof -
  assume d: "d < 10"
  show ?thesis
    using less_10_cases [OF d] by (elim disjE) (simp_all add: digit_val_def)
qed

lemma show_nat_digits: "b \<in> set (show_nat n) \<Longrightarrow> digit_val b < 10 \<and> 48 \<le> b \<and> b \<le> 57"
proof (induction n rule: show_nat.induct)
  case (1 n)
  have d: "digit_val (48 + of_nat d) < 10 \<and> 48 \<le> (48 + of_nat d :: byte) \<and> (48 + of_nat d :: byte) \<le> 57"
    if "d < 10" for d
    using less_10_cases [OF that] by (elim disjE) (simp_all add: digit_val_def)
  show ?case
  proof (cases "n < 10")
    case True
    then show ?thesis
      using 1 d [of n] by (simp add: show_nat.simps [of n])
  next
    case False
    have "n mod 10 < 10"
      by simp
    then show ?thesis
      using 1 False d [of "n mod 10"] by (auto simp: show_nat.simps [of n])
  qed
qed

lemma show_nat_not_Nil [simp]: "show_nat n \<noteq> []"
  by (subst show_nat.simps) simp

lemma number_show_nat: "number 10 (show_nat n) = n"
proof (induction n rule: show_nat.induct)
  case (1 n)
  show ?case
  proof (cases "n < 10")
    case True
    then show ?thesis
      by (simp add: show_nat.simps [of n] number_def)
  next
    case False
    moreover have "n mod 10 < 10"
      by simp
    ultimately show ?thesis
      using 1 by (simp add: show_nat.simps [of n] number_def)
  qed
qed

lemma show_nat_leading: "n \<noteq> 0 \<Longrightarrow> hd (show_nat n) \<noteq> 48"
proof (induction n rule: show_nat.induct)
  case (1 n)
  show ?case
  proof (cases "n < 10")
    case True
    then show ?thesis
      using less_10_cases [OF True] 1(2) by (elim disjE) (simp_all add: show_nat.simps)
  next
    case False
    then have "n div 10 \<noteq> 0"
      by (simp add: div_eq_0_iff)
    then show ?thesis
      using 1(1) False by (simp add: show_nat.simps [of n])
  qed
qed

lemma show_nat_0 [simp]: "show_nat 0 = [48]"
  by (simp add: show_nat.simps)

lemma digits_show_nat:
  assumes "10 \<le> digit_val c"
  shows "digits 10 (show_nat n @ c # rest) = show_nat n"
proof -
  have "takeWhile (\<lambda>b. digit_val b < 10) (ds @ c # rest) = ds"
    if "\<forall>b\<in>set ds. digit_val b < 10" for ds
    using that assms by (induction ds) auto
  moreover have "\<forall>b\<in>set (show_nat n). digit_val b < 10"
    using show_nat_digits by blast
  ultimately show ?thesis
    unfolding digits_def by blast
qed

text \<open>What \<^verbatim>\<open>%i\<close> or \<^verbatim>\<open>%u\<close> prints, \<^verbatim>\<open>%i\<close> or \<^verbatim>\<open>%u\<close> reads: a printed number never looks like a
  hexadecimal or octal literal.\<close>

lemma scan_nat_show:
  assumes "10 \<le> digit_val c" "c \<noteq> 120" "c \<noteq> 88"
  shows "scan_nat literal (show_nat n @ c # rest) = Some n"
proof (cases "n = 0")
  case True
  then show ?thesis
    using assms by (auto simp: scan_nat_def scan_base_def digits_def digit_val_def number_def)
next
  case False
  obtain b ds where s: "show_nat n = b # ds"
    using show_nat_not_Nil [of n] by (cases "show_nat n") auto
  have "b \<noteq> 48"
    using show_nat_leading [OF False] s by simp
  then have "scan_base literal (show_nat n @ c # rest) = 10"
    by (simp add: s scan_base_def)
  then show ?thesis
    using digits_show_nat [OF assms(1)] number_show_nat by (simp add: scan_nat_def)
qed

lemma sscanf_show_int:
  assumes "10 \<le> digit_val c" "c \<noteq> 120" "c \<noteq> 88"
  shows "sscanf_int literal (show_int i @ c # rest) = Some i"
proof (cases "i < 0")
  case True
  then show ?thesis
    using scan_nat_show [OF assms] by (simp add: show_int_def sscanf_int_def is_space_def scan_sign_def)
next
  case False
  obtain b ds where s: "show_nat (nat i) = b # ds"
    using show_nat_not_Nil [of "nat i"] by (cases "show_nat (nat i)") auto
  have b: "48 \<le> b" "b \<le> 57"
    using show_nat_digits [of b "nat i"] s by simp_all
  have "\<not> is_space b" "b \<noteq> 45" "b \<noteq> 43"
    using b by (auto simp: is_space_def word_le_nat_alt)
  then have "scan_sign (dropWhile is_space (show_nat (nat i) @ c # rest)) = (1, show_nat (nat i) @ c # rest)"
    by (simp add: s scan_sign_def)
  then show ?thesis
    using False scan_nat_show [OF assms] by (simp add: show_int_def sscanf_int_def)
qed

lemma show_int_nonzero: "0 \<notin> set (show_int i)"
proof -
  have "0 \<notin> set (show_nat n)" for n
    using show_nat_digits [of 0 n] by auto
  then show ?thesis
    by (simp add: show_int_def)
qed

section \<open>Typed access\<close>

lemma length_nat_bytes [simp]: "length (nat_bytes k n) = k"
  by (induction k arbitrary: n) simp_all

lemma nat_bytes_le_val: "nat_bytes (length m) (le_val m) = m"
proof (induction m)
  case (Cons b m)
  have "(unat b + 256 * le_val m) div 256 = le_val m"
    using unat_byte_lt [of b] by linarith
  moreover have "(of_nat (unat b + 256 * le_val m) :: byte) = b"
    by (simp add: word_arith_nat_mult)
  ultimately show ?case
    using Cons by simp
qed simp

lemma le_val_less: "le_val m < 256 ^ length m"
proof (induction m)
  case (Cons b m)
  then have "le_val m + 1 \<le> 256 ^ length m"
    by simp
  then have "256 * (le_val m + 1) \<le> 256 * 256 ^ length m"
    by (rule mult_le_mono2)
  then have "unat b + 256 * le_val m < 256 * 256 ^ length m"
    using unat_byte_lt [of b] by (simp only: distrib_left)
  then show ?case
    by simp
qed simp

text \<open>Writing back the word that was read from an object restores the object.\<close>

lemma word_bytes_mem_word:
  assumes "mem_word m = Some (w :: 'a :: len word)" "8 dvd LENGTH('a)"
  shows "word_bytes w = take (LENGTH('a) div 8) m"
proof -
  let ?k = "LENGTH('a) div 8"
  have k: "?k \<le> length m" and w: "w = of_nat (le_val (take ?k m))"
    using assms(1) by (auto simp: mem_word_def split: if_splits)
  have "(2 :: nat) ^ LENGTH('a) = 2 ^ (8 * ?k)"
    using assms(2) by simp
  also have "\<dots> = 256 ^ ?k"
    by (simp only: power_mult) simp
  finally have "le_val (take ?k m) < 2 ^ LENGTH('a)"
    using le_val_less [of "take ?k m"] k by simp
  then have "unat w = le_val (take ?k m)"
    by (simp add: w unat_of_nat_lt)
  then show ?thesis
    using k nat_bytes_le_val [of "take ?k m"] by (simp add: word_bytes_def)
qed

lemma ascii_simps [simp]:
  "ascii [] = []" "length (ascii s) = length s"
  by (simp_all add: ascii_def)

lemma length_show_nat: "n < 10 ^ k \<Longrightarrow> 0 < k \<Longrightarrow> length (show_nat n) \<le> k"
proof (induction n arbitrary: k rule: show_nat.induct)
  case (1 n)
  show ?case
  proof (cases "n < 10")
    case True
    then show ?thesis
      using 1(3) by (simp add: show_nat.simps [of n])
  next
    case False
    then obtain j where k: "k = Suc j" "0 < j"
      using 1(2,3) by (cases k; cases "k - 1") auto
    then have "n div 10 < 10 ^ j"
      using 1(2) by (simp add: less_mult_imp_div_less mult.commute)
    then show ?thesis
      using 1(1) [OF False _ k(2)] k False by (simp add: show_nat.simps [of n])
  qed
qed

lemma sprintf_fits:
  "length text \<le> length rest \<Longrightarrow>
   sprintf (s @ b # rest) (length s) text = Some (s @ text @ 0 # drop (length text) rest)"
  by (simp add: sprintf_def put_bytes_def)

lemma sprintf_at_start:
  "length text < length buf \<Longrightarrow> sprintf buf 0 text = Some (text @ 0 # drop (Suc (length text)) buf)"
  by (simp add: sprintf_def put_bytes_def)

lemma snprintf_at_start:
  assumes "length text < unat n" "length text < length buf" "length text < 2 ^ 31"
  shows "snprintf buf 0 n text = Some (int (length text), text @ 0 # drop (Suc (length text)) buf)"
proof -
  obtain b rest where "buf = [] @ b # rest"
    using assms(2) by (cases buf) auto
  then show ?thesis
    using snprintf_fits [of "text" n rest "[]" b] assms by simp
qed

lemma length_show_byte: "length (show_int (uint (b :: byte))) \<le> 3"
proof -
  have "unat b < 1000"
    by (rule less_le_trans [OF unsigned_less]) simp
  then have "nat (uint b) < 10 ^ 3"
    by simp
  then show ?thesis
    using length_show_nat [of "nat (uint b)" 3] by (simp add: show_int_def)
qed

text \<open>A property of every byte, by evaluation.\<close>

lemma all_bytes:
  assumes "list_all (\<lambda>n. P (of_nat n)) [0..<256]"
  shows "P (b :: byte)"
proof -
  have "\<forall>n\<in>set [0..<256]. P (of_nat n)"
    using assms by (simp only: list_all_iff)
  moreover have "unat b \<in> set [0..<256]"
    by simp
  ultimately have "P (of_nat (unat b))"
    by (rule bspec)
  then show ?thesis
    by simp
qed

end
