(* ===== verification/Shadow_Json.thy ===== *)
theory Shadow_Json
  imports C_Strings
begin

text \<open>
  The JSON documents of the Thing Shadow: \<^verbatim>\<open>aws_iot_json_utils.c\<close> (typed values of parsed
  tokens) and \<^verbatim>\<open>aws_iot_shadow_json.c\<close> (building a document in an array, reading one with the
  tokens of the jsmn parser).

  The parser jsmn (only its header is in the repository) and the conversions between IEEE numbers
  and text are fields of the record \<open>Libs\<close>.  A document that is only read is the C string of its
  characters; an array a document is built in is its bytes.
\<close>

section \<open>Data\<close>

datatype jsmntype_t = JSMN_UNDEFINED | JSMN_OBJECT | JSMN_ARRAY | JSMN_STRING | JSMN_PRIMITIVE

record jsmntok_t =
  tok_type :: jsmntype_t
  tok_start :: int
  tok_end :: int
  tok_size :: int

text \<open>\<open>jsmn_parse js n\<close>: the result of the parser on \<open>js\<close> with room for \<open>n\<close> tokens, and the tokens
  it stores.\<close>

record Libs =
  jsmn_parse :: "byte list \<Rightarrow> nat \<Rightarrow> int \<times> jsmntok_t list"
  print_float :: "32 word \<Rightarrow> byte list"
  print_double :: "64 word \<Rightarrow> byte list"
  scan_float :: "byte list \<Rightarrow> 32 word option"
  scan_double :: "byte list \<Rightarrow> 64 word option"

datatype JsonPrimitiveType = SHADOW_JSON_INT32 | SHADOW_JSON_INT16 | SHADOW_JSON_INT8
  | SHADOW_JSON_UINT32 | SHADOW_JSON_UINT16 | SHADOW_JSON_UINT8
  | SHADOW_JSON_FLOAT | SHADOW_JSON_DOUBLE | SHADOW_JSON_BOOL | SHADOW_JSON_STRING
  | SHADOW_JSON_OBJECT

text \<open>\<open>js_pData\<close> is the object behind the data pointer.\<close>

record jsonStruct_t =
  js_pKey :: "byte list option"
  js_pData :: "byte list option"
  js_type :: JsonPrimitiveType
  js_cb :: u32

section \<open>Values of tokens\<close>

text \<open>The string at \<open>json + p\<close>.\<close>

definition str_at :: "byte list \<Rightarrow> int \<Rightarrow> byte list option" where
  "str_at json p = (if 0 \<le> p \<and> p \<le> int (length json) then Some (drop (nat p) json) else None)"

definition jsoneq :: "byte list \<Rightarrow> jsmntok_t \<Rightarrow> byte list option \<Rightarrow> int option" where
  "jsoneq json tok key =
     (if tok_type tok = JSMN_STRING then do {
        s \<leftarrow> key;
        if int (length s) = tok_end tok - tok_start tok then do {
          j \<leftarrow> str_at json (tok_start tok);
          Some (if strncmp_eq (nat (tok_end tok - tok_start tok)) j s then 0 else -1) }
        else Some (-1) }
      else Some (-1))"

text \<open>Storing an integer the object cannot represent is undefined.\<close>

definition parse_unsigned ::
  "byte list \<Rightarrow> jsmntok_t \<Rightarrow> (IoT_Error_t + 'a :: len word) option" where
  "parse_unsigned json tok =
     (if tok_type tok \<noteq> JSMN_PRIMITIVE then fail JSON_PARSE_ERROR
      else do {
        j \<leftarrow> str_at json (tok_start tok);
        if take 1 j = [45] then fail JSON_PARSE_ERROR
        else case sscanf_int False j of None \<Rightarrow> fail JSON_PARSE_ERROR
          | Some v \<Rightarrow> if \<bar>v\<bar> < 2 ^ LENGTH('a) then success (word_of_int v) else None })"

definition parse_signed ::
  "byte list \<Rightarrow> jsmntok_t \<Rightarrow> (IoT_Error_t + 'a :: len word) option" where
  "parse_signed json tok =
     (if tok_type tok \<noteq> JSMN_PRIMITIVE then fail JSON_PARSE_ERROR
      else do {
        j \<leftarrow> str_at json (tok_start tok);
        case sscanf_int True j of None \<Rightarrow> fail JSON_PARSE_ERROR
        | Some v \<Rightarrow> if - (2 ^ (LENGTH('a) - 1)) \<le> v \<and> v < 2 ^ (LENGTH('a) - 1)
                    then success (word_of_int v) else None })"

definition parseUnsignedInteger32Value :: "byte list \<Rightarrow> jsmntok_t \<Rightarrow> (IoT_Error_t + 32 word) option"
  where "parseUnsignedInteger32Value = parse_unsigned"

definition parseUnsignedInteger16Value :: "byte list \<Rightarrow> jsmntok_t \<Rightarrow> (IoT_Error_t + 16 word) option"
  where "parseUnsignedInteger16Value = parse_unsigned"

definition parseUnsignedInteger8Value :: "byte list \<Rightarrow> jsmntok_t \<Rightarrow> (IoT_Error_t + 8 word) option"
  where "parseUnsignedInteger8Value = parse_unsigned"

definition parseInteger32Value :: "byte list \<Rightarrow> jsmntok_t \<Rightarrow> (IoT_Error_t + 32 word) option"
  where "parseInteger32Value = parse_signed"

definition parseInteger16Value :: "byte list \<Rightarrow> jsmntok_t \<Rightarrow> (IoT_Error_t + 16 word) option"
  where "parseInteger16Value = parse_signed"

definition parseInteger8Value :: "byte list \<Rightarrow> jsmntok_t \<Rightarrow> (IoT_Error_t + 8 word) option"
  where "parseInteger8Value = parse_signed"

definition parseFloatValue ::
  "Libs \<Rightarrow> byte list \<Rightarrow> jsmntok_t \<Rightarrow> (IoT_Error_t + 32 word) option" where
  "parseFloatValue lib json tok =
     (if tok_type tok \<noteq> JSMN_PRIMITIVE then fail JSON_PARSE_ERROR
      else do {
        j \<leftarrow> str_at json (tok_start tok);
        case scan_float lib j of None \<Rightarrow> fail JSON_PARSE_ERROR | Some v \<Rightarrow> success v })"

definition parseDoubleValue ::
  "Libs \<Rightarrow> byte list \<Rightarrow> jsmntok_t \<Rightarrow> (IoT_Error_t + 64 word) option" where
  "parseDoubleValue lib json tok =
     (if tok_type tok \<noteq> JSMN_PRIMITIVE then fail JSON_PARSE_ERROR
      else do {
        j \<leftarrow> str_at json (tok_start tok);
        case scan_double lib j of None \<Rightarrow> fail JSON_PARSE_ERROR | Some v \<Rightarrow> success v })"

definition parseBooleanValue :: "byte list \<Rightarrow> jsmntok_t \<Rightarrow> (IoT_Error_t + bool) option" where
  "parseBooleanValue json tok =
     (if tok_type tok \<noteq> JSMN_PRIMITIVE then fail JSON_PARSE_ERROR
      else do {
        j \<leftarrow> str_at json (tok_start tok);
        if take 4 j = ascii ''true'' then success True
        else if take 5 j = ascii ''false'' then success False
        else fail JSON_PARSE_ERROR })"

text \<open>The copy of a string value; its length is cut to 16 bits.\<close>

definition parseStringValue ::
  "byte list \<Rightarrow> byte list \<Rightarrow> jsmntok_t \<Rightarrow> (IoT_Error_t + byte list) option" where
  "parseStringValue buf json tok =
     (if tok_type tok \<noteq> JSMN_STRING then fail JSON_PARSE_ERROR
      else
        let n = unat (word_of_int (tok_end tok - tok_start tok) :: u16)
        in do {
          j \<leftarrow> str_at json (tok_start tok);
          v \<leftarrow> mem_take n (cstr_mem j);
          (buf, _) \<leftarrow> put_bytes (v @ [0]) (buf, 0);
          success buf })"

section \<open>Building a document\<close>

definition checkReturnValueOfSnPrintf :: "int \<Rightarrow> u32 \<Rightarrow> IoT_Error_t" where
  "checkReturnValueOfSnPrintf snPrintfReturn maxSizeOfJsonDocument =
     (if snPrintfReturn < 0 then SHADOW_JSON_ERROR
      else if word_of_int snPrintfReturn \<ge> maxSizeOfJsonDocument then SHADOW_JSON_BUFFER_TRUNCATED
      else AWS_SUCCESS)"

text \<open>\<^verbatim>\<open>snprintf\<close> followed by the check of its result.\<close>

definition print_checked :: "byte list \<Rightarrow> nat \<Rightarrow> u32 \<Rightarrow> byte list \<Rightarrow> (IoT_Error_t \<times> byte list) option"
  where
  "print_checked buf off n text = do {
     (snPrintfReturn, buf) \<leftarrow> snprintf buf off n text;
     Some (checkReturnValueOfSnPrintf snPrintfReturn n, buf) }"

definition aws_iot_shadow_init_json_document ::
  "byte list option \<Rightarrow> u32 \<Rightarrow> (IoT_Error_t \<times> byte list option) option" where
  "aws_iot_shadow_init_json_document pJsonDocument maxSizeOfJsonDocument =
     (case pJsonDocument of None \<Rightarrow> Some (NULL_VALUE_ERROR, None)
      | Some buf \<Rightarrow> map_option (\<lambda>(rc, buf). (rc, Some buf))
          (print_checked buf 0 maxSizeOfJsonDocument (ascii ''{\"state\":{'')))"

definition data_text :: "Libs \<Rightarrow> JsonPrimitiveType \<Rightarrow> byte list \<Rightarrow> byte list option" where
  "data_text lib type pData = (case type of
     SHADOW_JSON_INT32 \<Rightarrow> map_option (\<lambda>w :: 32 word. show_int (sint w)) (mem_word pData)
   | SHADOW_JSON_INT16 \<Rightarrow> map_option (\<lambda>w :: 16 word. show_int (sint w)) (mem_word pData)
   | SHADOW_JSON_INT8 \<Rightarrow> map_option (\<lambda>w :: 8 word. show_int (sint w)) (mem_word pData)
   | SHADOW_JSON_UINT32 \<Rightarrow> map_option (\<lambda>w :: 32 word. show_int (uint w)) (mem_word pData)
   | SHADOW_JSON_UINT16 \<Rightarrow> map_option (\<lambda>w :: 16 word. show_int (uint w)) (mem_word pData)
   | SHADOW_JSON_UINT8 \<Rightarrow> map_option (\<lambda>w :: 8 word. show_int (uint w)) (mem_word pData)
   | SHADOW_JSON_DOUBLE \<Rightarrow> map_option (print_double lib) (mem_word pData)
   | SHADOW_JSON_FLOAT \<Rightarrow> map_option (print_float lib) (mem_word pData)
   | SHADOW_JSON_BOOL \<Rightarrow> map_option (\<lambda>b :: 8 word. ascii (if b \<noteq> 0 then ''true'' else ''false''))
                            (mem_word pData)
   | SHADOW_JSON_STRING \<Rightarrow> map_option (\<lambda>s. ascii ''\"'' @ s @ ascii ''\"'') (c_str pData)
   | SHADOW_JSON_OBJECT \<Rightarrow> None)"

text \<open>A type without a branch of its own (\<open>SHADOW_JSON_OBJECT\<close>) prints nothing and succeeds.\<close>

definition convertDataToString ::
  "Libs \<Rightarrow> byte list \<Rightarrow> nat \<Rightarrow> u32 \<Rightarrow> JsonPrimitiveType \<Rightarrow> byte list \<Rightarrow> (IoT_Error_t \<times> byte list) option"
  where
  "convertDataToString lib buf off maxSizoStringBuffer type pData =
     (if maxSizoStringBuffer = 0 then Some (SHADOW_JSON_ERROR, buf)
      else if type = SHADOW_JSON_OBJECT
      then Some (checkReturnValueOfSnPrintf 0 maxSizoStringBuffer, buf)
      else do {
        text \<leftarrow> data_text lib type pData;
        print_checked buf off maxSizoStringBuffer (text @ ascii '','') })"

text \<open>The loop over the variable arguments, whose counter is an \<^verbatim>\<open>int8_t\<close>.  The remaining size
  computed for the last argument outlives the loop.\<close>

fun add_entries ::
  "Libs \<Rightarrow> u32 \<Rightarrow> byte \<Rightarrow> byte \<Rightarrow> jsonStruct_t option list \<Rightarrow> byte list \<times> u32
   \<Rightarrow> (IoT_Error_t \<times> byte list \<times> u32) option" where
  "add_entries lib maxSizeOfJsonDocument count i args (buf, rem) =
     (if \<not> sint i < uint count then Some (AWS_SUCCESS, buf, rem)
      else do {
        len \<leftarrow> c_strlen buf;
        let tempSize = maxSizeOfJsonDocument - of_nat len in
        if tempSize \<le> 1 then Some (SHADOW_JSON_ERROR, buf, rem)
        else case args of
          [] \<Rightarrow> None
        | None # _ \<Rightarrow> Some (NULL_VALUE_ERROR, buf, tempSize)
        | Some pTemporary # args \<Rightarrow> (case js_pKey pTemporary of None \<Rightarrow> None
            | Some key \<Rightarrow> do {
              (rc, buf) \<leftarrow> print_checked buf len tempSize (ascii ''\"'' @ key @ ascii ''\":'');
              if rc \<noteq> AWS_SUCCESS then Some (rc, buf, tempSize)
              else case js_pData pTemporary of None \<Rightarrow> Some (NULL_VALUE_ERROR, buf, tempSize)
                | Some pData \<Rightarrow> do {
                  len \<leftarrow> c_strlen buf;
                  (rc, buf) \<leftarrow> convertDataToString lib buf len tempSize (js_type pTemporary) pData;
                  if rc \<noteq> AWS_SUCCESS then Some (rc, buf, tempSize)
                  else add_entries lib maxSizeOfJsonDocument count (i + 1) args (buf, tempSize) } }) })"

declare add_entries.simps [simp del]

text \<open>The two functions differ in the name of the section only.  The closing text goes over the last
  comma, under the stale bound.\<close>

definition add_section ::
  "string \<Rightarrow> Libs \<Rightarrow> byte list option \<Rightarrow> u32 \<Rightarrow> byte \<Rightarrow> jsonStruct_t option list
   \<Rightarrow> (IoT_Error_t \<times> byte list option) option" where
  "add_section title lib pJsonDocument maxSizeOfJsonDocument count args =
     (case pJsonDocument of None \<Rightarrow> Some (NULL_VALUE_ERROR, None)
      | Some buf \<Rightarrow> map_option (\<lambda>(rc, buf). (rc, Some buf)) (do {
          len \<leftarrow> c_strlen buf;
          let tempSize = maxSizeOfJsonDocument - of_nat len in
          if tempSize \<le> 1 then Some (SHADOW_JSON_ERROR, buf)
          else do {
            (rc, buf) \<leftarrow> print_checked buf len tempSize (ascii title);
            if rc \<noteq> AWS_SUCCESS then Some (rc, buf)
            else do {
              (rc, buf, rem) \<leftarrow> add_entries lib maxSizeOfJsonDocument count 0 args (buf, tempSize);
              if rc \<noteq> AWS_SUCCESS then Some (rc, buf)
              else do {
                len \<leftarrow> c_strlen buf;
                if len = 0 then None
                else print_checked buf (len - 1) rem (ascii ''},'') } } } }))"

definition aws_iot_shadow_add_desired ::
  "Libs \<Rightarrow> byte list option \<Rightarrow> u32 \<Rightarrow> byte \<Rightarrow> jsonStruct_t option list
   \<Rightarrow> (IoT_Error_t \<times> byte list option) option" where
  "aws_iot_shadow_add_desired = add_section ''\"desired\":{''"

definition aws_iot_shadow_add_reported ::
  "Libs \<Rightarrow> byte list option \<Rightarrow> u32 \<Rightarrow> byte \<Rightarrow> jsonStruct_t option list
   \<Rightarrow> (IoT_Error_t \<times> byte list option) option" where
  "aws_iot_shadow_add_reported = add_section ''\"reported\":{''"

section \<open>Client tokens\<close>

text \<open>The text of a client token and the successor of the sequence number.\<close>

definition client_token :: "byte list \<Rightarrow> u32 \<Rightarrow> byte list option" where
  "client_token clientID num = map_option (\<lambda>s. s @ [45] @ show_int (sint num)) (c_str clientID)"

definition FillWithClientTokenSize ::
  "byte list \<Rightarrow> byte list \<Rightarrow> nat \<Rightarrow> u32 \<Rightarrow> u32 \<Rightarrow> (int \<times> byte list \<times> u32) option" where
  "FillWithClientTokenSize clientID buf off maxSizeOfJsonDocument num = do {
     token \<leftarrow> client_token clientID num;
     (snPrintfReturn, buf) \<leftarrow> snprintf buf off maxSizeOfJsonDocument token;
     Some (snPrintfReturn, buf, num + 1) }"

definition aws_iot_fill_with_client_token ::
  "byte list \<Rightarrow> byte list \<Rightarrow> u32 \<Rightarrow> u32 \<Rightarrow> (IoT_Error_t \<times> byte list \<times> u32) option" where
  "aws_iot_fill_with_client_token clientID buf maxSizeOfJsonDocument num = do {
     (snPrintfRet, buf, num) \<leftarrow> FillWithClientTokenSize clientID buf 0 maxSizeOfJsonDocument num;
     Some (checkReturnValueOfSnPrintf snPrintfRet maxSizeOfJsonDocument, buf, num) }"

definition FillWithClientToken :: "byte list \<Rightarrow> byte list \<Rightarrow> nat \<Rightarrow> u32 \<Rightarrow> (byte list \<times> u32) option" where
  "FillWithClientToken clientID buf off num = do {
     token \<leftarrow> client_token clientID num;
     buf \<leftarrow> sprintf buf off token;
     Some (buf, num + 1) }"

definition emptyJsonWithClientToken :: "byte list \<Rightarrow> byte list \<Rightarrow> u32 \<Rightarrow> (byte list \<times> u32) option" where
  "emptyJsonWithClientToken clientID buf num = do {
     buf \<leftarrow> sprintf buf 0 (ascii ''{\"clientToken\":\"'');
     len \<leftarrow> c_strlen buf;
     (buf, num) \<leftarrow> FillWithClientToken clientID buf len num;
     len \<leftarrow> c_strlen buf;
     buf \<leftarrow> sprintf buf len (ascii ''\"}'');
     Some (buf, num) }"

definition aws_iot_shadow_internal_get_request_json ::
  "byte list \<Rightarrow> byte list \<Rightarrow> u32 \<Rightarrow> (byte list \<times> u32) option" where
  "aws_iot_shadow_internal_get_request_json = emptyJsonWithClientToken"

definition aws_iot_shadow_internal_delete_request_json ::
  "byte list \<Rightarrow> byte list \<Rightarrow> u32 \<Rightarrow> (byte list \<times> u32) option" where
  "aws_iot_shadow_internal_delete_request_json = emptyJsonWithClientToken"

definition aws_iot_finalize_json_document ::
  "byte list \<Rightarrow> byte list option \<Rightarrow> u32 \<Rightarrow> u32 \<Rightarrow> (IoT_Error_t \<times> byte list option \<times> u32) option" where
  "aws_iot_finalize_json_document clientID pJsonDocument maxSizeOfJsonDocument num =
     (case pJsonDocument of None \<Rightarrow> Some (NULL_VALUE_ERROR, None, num)
      | Some buf \<Rightarrow> map_option (\<lambda>(rc, buf, num). (rc, Some buf, num)) (do {
          len \<leftarrow> c_strlen buf;
          let tempSize = maxSizeOfJsonDocument - of_nat len in
          if tempSize \<le> 1 then Some (SHADOW_JSON_ERROR, buf, num)
          else if len = 0 then None
          else do {
            (rc, buf) \<leftarrow> print_checked buf (len - 1) tempSize (ascii ''}, \"clientToken\":\"'');
            if rc \<noteq> AWS_SUCCESS then Some (rc, buf, num)
            else do {
              len \<leftarrow> c_strlen buf;
              let tempSize = maxSizeOfJsonDocument - of_nat len in
              if tempSize \<le> 1 then Some (SHADOW_JSON_ERROR, buf, num)
              else do {
                (r, buf, num) \<leftarrow> FillWithClientTokenSize clientID buf len tempSize num;
                let rc = checkReturnValueOfSnPrintf r tempSize in
                if rc \<noteq> AWS_SUCCESS then Some (rc, buf, num)
                else do {
                  len \<leftarrow> c_strlen buf;
                  let tempSize = maxSizeOfJsonDocument - of_nat len in
                  if tempSize \<le> 1 then Some (SHADOW_JSON_ERROR, buf, num)
                  else do {
                    (rc, buf) \<leftarrow> print_checked buf len tempSize (ascii ''\"}'');
                    Some (rc, buf, num) } } } } } }))"

section \<open>Reading a document\<close>

abbreviation MAX_JSON_TOKEN_EXPECTED :: nat where "MAX_JSON_TOKEN_EXPECTED \<equiv> 120"

abbreviation SHADOW_CLIENT_TOKEN_STRING :: "byte list"
  where "SHADOW_CLIENT_TOKEN_STRING \<equiv> ascii ''clientToken''"

abbreviation SHADOW_VERSION_STRING :: "byte list"
  where "SHADOW_VERSION_STRING \<equiv> ascii ''version''"

text \<open>The array \<open>jsonTokenStruct\<close> keeps its old tokens behind those the parser stores.\<close>

definition parse_document :: "Libs \<Rightarrow> byte list \<Rightarrow> jsmntok_t list \<Rightarrow> int \<times> jsmntok_t list" where
  "parse_document lib doc toks =
     (let (tokenCount, ts) = jsmn_parse lib doc MAX_JSON_TOKEN_EXPECTED
      in (tokenCount, ts @ drop (length ts) toks))"

text \<open>The number of tokens when the document is an object.\<close>

definition isJsonValidAndParse ::
  "Libs \<Rightarrow> byte list \<Rightarrow> jsmntok_t list \<Rightarrow> int option \<times> jsmntok_t list" where
  "isJsonValidAndParse lib doc toks =
     (let (tokenCount, toks) = parse_document lib doc toks
      in (if tokenCount < 0 then None
          else if tokenCount < 1 \<or> tok_type (toks ! 0) \<noteq> JSMN_OBJECT then None
          else Some tokenCount, toks))"

definition isReceivedJsonValid :: "Libs \<Rightarrow> byte list \<Rightarrow> jsmntok_t list \<Rightarrow> bool \<times> jsmntok_t list" where
  "isReceivedJsonValid lib doc toks =
     (let (tokenCount, toks) = parse_document lib doc toks
      in (if tokenCount < 0 then False
          else if tokenCount < 1 \<or> tok_type (toks ! 0) \<noteq> JSMN_OBJECT then False
          else True, toks))"

definition update_with ::
  "(IoT_Error_t + 'a) option \<Rightarrow> ('a \<Rightarrow> byte list) \<Rightarrow> jsonStruct_t
   \<Rightarrow> (IoT_Error_t \<times> jsonStruct_t) option" where
  "update_with parsed enc p = (case parsed of None \<Rightarrow> None
     | Some (Inl rc) \<Rightarrow> Some (rc, p)
     | Some (Inr v) \<Rightarrow> do {
         d \<leftarrow> js_pData p;
         d \<leftarrow> store d (enc v);
         Some (AWS_SUCCESS, p\<lparr>js_pData := Some d\<rparr>) })"

definition UpdateValueIfNoObject ::
  "Libs \<Rightarrow> byte list \<Rightarrow> jsonStruct_t \<Rightarrow> jsmntok_t \<Rightarrow> (IoT_Error_t \<times> jsonStruct_t) option" where
  "UpdateValueIfNoObject lib json p tok = (case js_type p of
     SHADOW_JSON_BOOL \<Rightarrow> update_with (parseBooleanValue json tok) (\<lambda>b. [if b then 1 else 0]) p
   | SHADOW_JSON_INT32 \<Rightarrow> update_with (parseInteger32Value json tok) word_bytes p
   | SHADOW_JSON_INT16 \<Rightarrow> update_with (parseInteger16Value json tok) word_bytes p
   | SHADOW_JSON_INT8 \<Rightarrow> update_with (parseInteger8Value json tok) word_bytes p
   | SHADOW_JSON_UINT32 \<Rightarrow> update_with (parseUnsignedInteger32Value json tok) word_bytes p
   | SHADOW_JSON_UINT16 \<Rightarrow> update_with (parseUnsignedInteger16Value json tok) word_bytes p
   | SHADOW_JSON_UINT8 \<Rightarrow> update_with (parseUnsignedInteger8Value json tok) word_bytes p
   | SHADOW_JSON_FLOAT \<Rightarrow> update_with (parseFloatValue lib json tok) word_bytes p
   | SHADOW_JSON_DOUBLE \<Rightarrow> update_with (parseDoubleValue lib json tok) word_bytes p
   | SHADOW_JSON_STRING \<Rightarrow> Some (AWS_SUCCESS, p)
   | SHADOW_JSON_OBJECT \<Rightarrow> Some (AWS_SUCCESS, p))"

text \<open>The first of the given token indices whose token is the key.\<close>

fun find_key ::
  "byte list \<Rightarrow> jsmntok_t list \<Rightarrow> byte list option \<Rightarrow> nat list \<Rightarrow> nat option option" where
  "find_key json toks key [] = Some None"
| "find_key json toks key (i # is) =
     (if i < length toks then do {
        r \<leftarrow> jsoneq json (toks ! i) key;
        if r = 0 then Some (Some i) else find_key json toks key is }
      else None)"

text \<open>The length and position of the value when the key is there, and the updated structure; the
  result of the update itself is dropped.\<close>

definition isJsonKeyMatchingAndUpdateValue ::
  "Libs \<Rightarrow> byte list \<Rightarrow> jsmntok_t list \<Rightarrow> int \<Rightarrow> jsonStruct_t
   \<Rightarrow> ((u32 \<times> int) option \<times> jsonStruct_t) option" where
  "isJsonKeyMatchingAndUpdateValue lib json toks tokenCount p = do {
     r \<leftarrow> find_key json toks (js_pKey p) [1..<nat tokenCount];
     case r of None \<Rightarrow> Some (None, p)
     | Some i \<Rightarrow>
         if i + 1 < length toks then do {
           (_, p) \<leftarrow> UpdateValueIfNoObject lib json p (toks ! (i + 1));
           Some (Some (word_of_int (tok_end (toks ! (i + 1)) - tok_start (toks ! (i + 1))),
                       tok_start (toks ! (i + 1))), p) }
         else None }"

text \<open>The copy of a token of at most 255 characters into a caller's array.\<close>

definition extractClientToken ::
  "Libs \<Rightarrow> byte list \<Rightarrow> byte list \<Rightarrow> jsmntok_t list
   \<Rightarrow> (bool \<times> byte list \<times> jsmntok_t list) option" where
  "extractClientToken lib doc pExtractedClientToken toks =
     (let (tokenCount, toks) = parse_document lib doc toks in
      if tokenCount < 0 then Some (False, pExtractedClientToken, toks)
      else if tokenCount < 1 \<or> tok_type (toks ! 0) \<noteq> JSMN_OBJECT
      then Some (False, pExtractedClientToken, toks)
      else do {
        r \<leftarrow> find_key doc toks (Some SHADOW_CLIENT_TOKEN_STRING) [1..<nat tokenCount];
        case r of None \<Rightarrow> Some (False, pExtractedClientToken, toks)
        | Some i \<Rightarrow>
            if i + 1 < length toks then
              let ClientJsonToken = toks ! (i + 1);
                  n = unat (word_of_int (tok_end ClientJsonToken - tok_start ClientJsonToken) :: byte)
              in do {
                j \<leftarrow> str_at doc (tok_start ClientJsonToken);
                out \<leftarrow> c_strncpy pExtractedClientToken j n;
                if n < length out then Some (True, out[n := 0], toks) else None }
            else None })"

fun version_loop :: "byte list \<Rightarrow> jsmntok_t list \<Rightarrow> nat list \<Rightarrow> u32 option option" where
  "version_loop json toks [] = Some None"
| "version_loop json toks (i # is) =
     (if i < length toks then do {
        r \<leftarrow> jsoneq json (toks ! i) (Some SHADOW_VERSION_STRING);
        if r = 0 then
          if i + 1 < length toks then
            (case parseUnsignedInteger32Value json (toks ! (i + 1)) of None \<Rightarrow> None
             | Some (Inl rc) \<Rightarrow> version_loop json toks is
             | Some (Inr v) \<Rightarrow> Some (Some v))
          else None
        else version_loop json toks is }
      else None)"

definition extractVersionNumber :: "byte list \<Rightarrow> jsmntok_t list \<Rightarrow> int \<Rightarrow> u32 option option" where
  "extractVersionNumber json toks tokenCount = version_loop json toks [1..<nat tokenCount]"

section \<open>Appending to a document\<close>

named_theorems texts

lemma literal_texts [texts]:
  "0 \<notin> set (ascii ''},'')" "0 \<notin> set (ascii ''\"'')" "0 \<notin> set (ascii ''\":'')" "0 \<notin> set (ascii '','')"
  "0 \<notin> set (ascii ''true'')" "0 \<notin> set (ascii ''false'')" "0 \<notin> set (ascii ''\"}'')"
  "0 \<notin> set (ascii ''{\"state\":{'')" "0 \<notin> set (ascii ''\"desired\":{'')"
  "0 \<notin> set (ascii ''\"reported\":{'')" "0 \<notin> set (ascii ''}, \"clientToken\":\"'')"
  "0 \<notin> set (ascii ''{\"clientToken\":\"'')"
  by (simp_all add: ascii_def)

text \<open>The remaining size in the code's arithmetic is the room behind the string.\<close>

lemma remaining_size:
  assumes "n < m" "m < 2 ^ 31"
  shows "unat (of_nat m - of_nat n :: u32) = m - n"
    "(of_nat m - of_nat n :: u32) \<le> 1 \<longleftrightarrow> m - n \<le> 1" "(of_nat m - of_nat n :: u32) \<noteq> 0"
proof -
  have "(of_nat m - of_nat n :: u32) = of_nat (m - n)"
    using assms(1) by simp
  then show u: "unat (of_nat m - of_nat n :: u32) = m - n"
    using assms(2) unat_of_nat_lt [of "m - n", where ?'a = 32] by (simp del: of_nat_diff)
  show "(of_nat m - of_nat n :: u32) \<le> 1 \<longleftrightarrow> m - n \<le> 1"
    by (simp add: word_le_nat_alt u)
  show "(of_nat m - of_nat n :: u32) \<noteq> 0"
    using u assms(1) by (metis unat_0 zero_less_diff less_irrefl)
qed

lemma check_success:
  "k < unat n \<Longrightarrow> k < 2 ^ 31 \<Longrightarrow> checkReturnValueOfSnPrintf (int k) n = AWS_SUCCESS"
  by (simp add: checkReturnValueOfSnPrintf_def word_le_nat_alt unat_of_nat_lt not_le)

lemma check_truncated:
  "unat n \<le> k \<Longrightarrow> k < 2 ^ 31 \<Longrightarrow> checkReturnValueOfSnPrintf (int k) n = SHADOW_JSON_BUFFER_TRUNCATED"
  by (simp add: checkReturnValueOfSnPrintf_def word_le_nat_alt unat_of_nat_lt)

lemma print_fits:
  assumes "length text < unat n" "length text \<le> length rest" "length text < 2 ^ 31"
  shows "print_checked (s @ b # rest) (length s) n text
         = Some (AWS_SUCCESS, s @ text @ 0 # drop (length text) rest)"
  using assms by (simp add: print_checked_def snprintf_fits check_success)

lemma print_truncated:
  assumes "unat n \<le> length text" "0 < unat n" "length text < 2 ^ 31" "unat n - 1 \<le> length rest"
  shows "print_checked (s @ b # rest) (length s) n text
         = Some (SHADOW_JSON_BUFFER_TRUNCATED, s @ take (unat n - 1) text @ 0 # drop (unat n - 1) rest)"
  using assms by (simp add: print_checked_def snprintf_truncated check_truncated)

lemma print_overrun:
  "n \<noteq> 0 \<Longrightarrow> length buf < off + min (length text + 1) (unat n) \<Longrightarrow> print_checked buf off n text = None"
  by (simp add: print_checked_def snprintf_overrun)

section \<open>Entries of a section\<close>

text \<open>The key part and the value part an argument adds to the document.\<close>

definition entry_text :: "Libs \<Rightarrow> jsonStruct_t \<Rightarrow> (byte list \<times> byte list) option" where
  "entry_text lib p = do {
     key \<leftarrow> js_pKey p;
     pData \<leftarrow> js_pData p;
     value \<leftarrow> (if js_type p = SHADOW_JSON_OBJECT then Some []
               else map_option (\<lambda>t. t @ ascii '','') (data_text lib (js_type p) pData));
     Some (ascii ''\"'' @ key @ ascii ''\":'', value) }"

definition entry_ok :: "Libs \<Rightarrow> jsonStruct_t \<Rightarrow> bool" where
  "entry_ok lib p = (case entry_text lib p of None \<Rightarrow> False
     | Some (k, v) \<Rightarrow> 0 \<notin> set k \<and> 0 \<notin> set v \<and> length k + length v < 2 ^ 31)"

definition entry_bytes :: "Libs \<Rightarrow> jsonStruct_t \<Rightarrow> byte list" where
  "entry_bytes lib p = (case entry_text lib p of None \<Rightarrow> [] | Some (k, v) \<Rightarrow> k @ v)"

lemma sint_of_small: "n < 128 \<Longrightarrow> sint (of_nat n :: byte) = int n"
  by (simp add: signed_of_nat signed_take_bit_int_eq_self)

lemma uint_of_small: "n < 256 \<Longrightarrow> uint (of_nat n :: byte) = int n"
  by (simp add: unsigned_of_nat take_bit_nat_eq_self)

text \<open>One round of the loop on an argument that is printable: it is added when it fits with its
  terminator; a key that does not fit is reported; a value that does not fit is written past the
  end of the array, because its bound forgets the key.\<close>

lemma add_entries_step:
  assumes i: "sint i < uint count" and s: "0 \<notin> set s"
    and len: "length s + 1 + length rest = m" "m < 2 ^ 31"
    and p: "entry_text lib p = Some (k, v)" "entry_ok lib p"
  shows "length s + length k + length v < m \<Longrightarrow>
           add_entries lib (of_nat m) count i (Some p # args) (s @ 0 # rest, rem)
           = add_entries lib (of_nat m) count (i + 1) args
               ((s @ k @ v) @ 0 # drop (length k + length v) rest, of_nat m - of_nat (length s))"
    and "length s + length k < m \<Longrightarrow> m \<le> length s + length k + length v \<Longrightarrow>
           add_entries lib (of_nat m) count i (Some p # args) (s @ 0 # rest, rem) = None"
    and "m \<le> length s + length k \<Longrightarrow> \<exists>rc buf rem'.
           add_entries lib (of_nat m) count i (Some p # args) (s @ 0 # rest, rem) = Some (rc, buf, rem') \<and>
           (rc = SHADOW_JSON_ERROR \<or> rc = SHADOW_JSON_BUFFER_TRUNCATED)"
proof -
  obtain key d where key: "js_pKey p = Some key" and d: "js_pData p = Some d"
    and k: "k = ascii ''\"'' @ key @ ascii ''\":''"
    and v: "(if js_type p = SHADOW_JSON_OBJECT then Some []
             else map_option (\<lambda>t. t @ ascii '','') (data_text lib (js_type p) d)) = Some v"
    using p(1) by (auto simp: entry_text_def bind_eq_Some_conv)
  have kv: "0 \<notin> set k" "0 \<notin> set v" "length k + length v < 2 ^ 31"
    using p by (auto simp: entry_ok_def)
  have kl: "3 \<le> length k"
    by (simp add: k)
  have sm: "length s < m"
    using len by simp
  note room = remaining_size [OF sm len(2)]
  have strlen: "c_strlen (s @ 0 # rest) = Some (length s)"
    using s by (simp add: c_strlen_mem)
  note body = add_entries.simps [of lib "of_nat m" count i "Some p # args" "s @ 0 # rest" rem]
  have convert: "convertDataToString lib buf off n (js_type p) d =
      (if v = [] then Some (AWS_SUCCESS, buf) else print_checked buf off n v)" if "n \<noteq> 0" for buf off n
  proof (cases "js_type p = SHADOW_JSON_OBJECT")
    case True
    then have "v = []"
      using v by simp
    then show ?thesis
      using that True by (simp add: convertDataToString_def checkReturnValueOfSnPrintf_def)
  next
    case False
    then obtain t where t: "data_text lib (js_type p) d = Some t" "v = t @ ascii '',''"
      using v by auto
    then have "v \<noteq> []"
      by (simp add: ascii_def)
    then show ?thesis
      by (simp add: convertDataToString_def that False t(1) t(2) [symmetric])
  qed
  have key_fits: "print_checked (s @ 0 # rest) (length s) (of_nat m - of_nat (length s)) k
      = Some (AWS_SUCCESS, s @ k @ 0 # drop (length k) rest)" if "length s + length k < m"
    using that len kv by (intro print_fits) (simp_all add: room)
  have after_key: "add_entries lib (of_nat m) count i (Some p # args) (s @ 0 # rest, rem) = (do {
        (rc, buf) \<leftarrow> (if v = [] then Some (AWS_SUCCESS, s @ k @ 0 # drop (length k) rest)
                     else print_checked (s @ k @ 0 # drop (length k) rest) (length s + length k)
                            (of_nat m - of_nat (length s)) v);
        if rc \<noteq> AWS_SUCCESS then Some (rc, buf, of_nat m - of_nat (length s))
        else add_entries lib (of_nat m) count (i + 1) args (buf, of_nat m - of_nat (length s)) })"
    if fits: "length s + length k < m"
  proof -
    have "\<not> m - length s \<le> 1"
      using fits kl by linarith
    moreover have "c_strlen (s @ k @ 0 # drop (length k) rest) = Some (length s + length k)"
      using s kv c_strlen_mem [of "s @ k"] by simp
    ultimately show ?thesis
      using i key_fits [OF fits] room strlen
      by (simp add: body key d k [symmetric] convert Let_def)
  qed
  show "add_entries lib (of_nat m) count i (Some p # args) (s @ 0 # rest, rem)
           = add_entries lib (of_nat m) count (i + 1) args
               ((s @ k @ v) @ 0 # drop (length k + length v) rest, of_nat m - of_nat (length s))"
    if fits: "length s + length k + length v < m"
  proof -
    have "print_checked ((s @ k) @ 0 # drop (length k) rest) (length (s @ k)) (of_nat m - of_nat (length s)) v
        = Some (AWS_SUCCESS, (s @ k) @ v @ 0 # drop (length v) (drop (length k) rest))"
      using fits len kv by (intro print_fits) (simp_all add: room)
    then show ?thesis
      using fits after_key by (simp add: add.commute)
  qed
  show "add_entries lib (of_nat m) count i (Some p # args) (s @ 0 # rest, rem) = None"
    if fits: "length s + length k < m" and over: "m \<le> length s + length k + length v"
  proof -
    have "print_checked (s @ k @ 0 # drop (length k) rest) (length s + length k) (of_nat m - of_nat (length s)) v = None"
      using fits over len kl room by (intro print_overrun) simp_all
    moreover have "v \<noteq> []"
      using fits over by auto
    ultimately show ?thesis
      using after_key [OF fits] by simp
  qed
  show "\<exists>rc buf rem'.
           add_entries lib (of_nat m) count i (Some p # args) (s @ 0 # rest, rem) = Some (rc, buf, rem') \<and>
           (rc = SHADOW_JSON_ERROR \<or> rc = SHADOW_JSON_BUFFER_TRUNCATED)"
    if over: "m \<le> length s + length k"
  proof (cases "m - length s \<le> 1")
    case True
    then show ?thesis
      using i room strlen by (simp add: body)
  next
    case False
    have "print_checked (s @ 0 # rest) (length s) (of_nat m - of_nat (length s)) k
        = Some (SHADOW_JSON_BUFFER_TRUNCATED,
            s @ take (unat (of_nat m - of_nat (length s) :: u32) - 1) k @ 0
              # drop (unat (of_nat m - of_nat (length s) :: u32) - 1) rest)"
      using over len kv sm by (intro print_truncated) (simp_all add: room)
    then show ?thesis
      using i room strlen False by (simp add: body key k [symmetric])
  qed
qed


lemma entry_ok_cases:
  assumes "entry_ok lib p"
  obtains k v where "entry_text lib p = Some (k, v)" "entry_bytes lib p = k @ v"
    "0 \<notin> set k" "0 \<notin> set v" "3 \<le> length k"
  using assms by (auto simp: entry_ok_def entry_bytes_def entry_text_def bind_eq_Some_conv
      split: option.splits prod.splits if_splits)

definition entries_bytes :: "Libs \<Rightarrow> jsonStruct_t list \<Rightarrow> byte list" where
  "entries_bytes lib ps = concat (map (entry_bytes lib) ps)"

text \<open>All arguments of a call that fit are added, and the bound left over is more than the two
  characters of the closing text.\<close>

lemma add_entries_fits:
  assumes "\<forall>p\<in>set ps. entry_ok lib p" "0 \<notin> set s" "length s + 1 + length rest = m" "m < 2 ^ 31"
    "length s + length (entries_bytes lib ps) < m" "n + length ps \<le> c" "c < 128" "2 < unat rem"
  shows "\<exists>rem'. add_entries lib (of_nat m) (of_nat c) (of_nat n) (map Some ps @ args) (s @ 0 # rest, rem)
      = add_entries lib (of_nat m) (of_nat c) (of_nat (n + length ps)) args
          ((s @ entries_bytes lib ps) @ 0 # drop (length (entries_bytes lib ps)) rest, rem') \<and>
      2 < unat rem'"
  using assms
proof (induction ps arbitrary: s rest n rem)
  case Nil
  then show ?case
    by (auto simp: entries_bytes_def)
next
  case (Cons p ps)
  obtain k v where kv: "entry_text lib p = Some (k, v)" "entry_bytes lib p = k @ v"
    "0 \<notin> set k" "0 \<notin> set v" "3 \<le> length k"
    using Cons.prems(1) entry_ok_cases [of lib p] by auto
  have all: "entries_bytes lib (p # ps) = (k @ v) @ entries_bytes lib ps"
    by (simp add: entries_bytes_def kv)
  have "sint (of_nat n :: byte) < uint (of_nat c :: byte)"
    using Cons.prems(6,7) by (simp add: sint_of_small uint_of_small)
  note step = add_entries_step(1) [OF this Cons.prems(2-4) kv(1)]
  have fits: "length s + length k + length v < m"
    using Cons.prems(5) all by simp
  have "unat (of_nat m - of_nat (length s) :: u32) = m - length s"
    using fits Cons.prems(4) by (intro remaining_size) simp_all
  then have rem: "2 < unat (of_nat m - of_nat (length s) :: u32)"
    using fits kv(5) by simp
  have "\<exists>rem'. add_entries lib (of_nat m) (of_nat c) (of_nat (Suc n)) (map Some ps @ args)
      ((s @ k @ v) @ 0 # drop (length k + length v) rest, of_nat m - of_nat (length s))
    = add_entries lib (of_nat m) (of_nat c) (of_nat (Suc n + length ps)) args
        (((s @ k @ v) @ entries_bytes lib ps) @ 0 #
          drop (length (entries_bytes lib ps)) (drop (length k + length v) rest), rem') \<and> 2 < unat rem'"
  proof (rule Cons.IH)
    show "length (s @ k @ v) + 1 + length (drop (length k + length v) rest) = m"
      using Cons.prems(3) fits by simp
    show "length (s @ k @ v) + length (entries_bytes lib ps) < m"
      using Cons.prems(5) all by simp
  qed (use Cons.prems kv rem in auto)
  moreover have "entry_ok lib p"
    using Cons.prems(1) by simp
  moreover have "(of_nat n + 1 :: byte) = of_nat (Suc n)"
    by simp
  ultimately show ?case
    using step [of args' for args'] fits by (simp add: all add.commute add.left_commute del: of_nat_Suc)
qed

section \<open>Whole documents\<close>

lemma butlast_append_one: "xs \<noteq> [] \<Longrightarrow> xs @ b # ys = butlast xs @ last xs # b # ys"
  by (metis append_Cons append_Nil append_assoc append_butlast_last_id)

text \<open>Printing over the last character of the string.\<close>

lemma print_over_last:
  assumes "s \<noteq> []" "length text < unat n" "length text \<le> Suc (length rest)" "length text < 2 ^ 31"
  shows "print_checked (s @ b # rest) (length s - 1) n text
         = Some (AWS_SUCCESS, butlast s @ text @ 0 # drop (length text) (b # rest))"
  using print_fits [of "text" n "b # rest" "butlast s" "last s"] assms(2-4)
  by (simp add: butlast_append_one [OF assms(1), of b rest])

lemma add_section_unfold:
  assumes "0 \<notin> set s" "length s + 1 + length rest = m" "m < 2 ^ 31" "0 \<notin> set (ascii title)"
    "length s + length title < m" "2 < length title" "length title < 2 ^ 31"
  shows "add_section title lib (Some (s @ 0 # rest)) (of_nat m) count args =
    map_option (\<lambda>(rc, buf). (rc, Some buf)) (do {
      (rc, buf, rem) \<leftarrow> add_entries lib (of_nat m) count 0 args
         ((s @ ascii title) @ 0 # drop (length title) rest, of_nat m - of_nat (length s));
      if rc \<noteq> AWS_SUCCESS then Some (rc, buf)
      else do {
        len \<leftarrow> c_strlen buf;
        if len = 0 then None else print_checked buf (len - 1) rem (ascii ''},'') } })"
proof -
  have "length s < m"
    using assms(2) by simp
  note room = remaining_size [OF this assms(3)]
  have "print_checked (s @ 0 # rest) (length s) (of_nat m - of_nat (length s)) (ascii title)
      = Some (AWS_SUCCESS, s @ ascii title @ 0 # drop (length title) rest)"
    using print_fits [of "ascii title" "of_nat m - of_nat (length s)" rest s 0] assms room by simp
  moreover have "\<not> m - length s \<le> 1"
    using assms(5,6) by simp
  ultimately show ?thesis
    using assms(1) room by (simp add: add_section_def c_strlen_mem Let_def)
qed

lemma add_section_entries:
  assumes ok: "\<forall>p\<in>set ps. entry_ok lib p" and c: "length ps \<le> c" "c < 128"
    and s: "0 \<notin> set s" "length s + 1 + length rest = m" "m < 2 ^ 31"
    and title: "0 \<notin> set (ascii title)" "2 < length title" "length title < 2 ^ 31"
    and fits: "length s + length title + length (entries_bytes lib ps) < m"
  obtains rem where "2 < unat rem"
    "add_section title lib (Some (s @ 0 # rest)) (of_nat m) (of_nat c) (map Some ps @ args) =
     map_option (\<lambda>(rc, buf). (rc, Some buf)) (do {
      (rc, buf, rem) \<leftarrow> add_entries lib (of_nat m) (of_nat c) (of_nat (length ps)) args
         ((s @ ascii title @ entries_bytes lib ps) @
            0 # drop (length title + length (entries_bytes lib ps)) rest, rem);
      if rc \<noteq> AWS_SUCCESS then Some (rc, buf)
      else do {
        len \<leftarrow> c_strlen buf;
        if len = 0 then None else print_checked buf (len - 1) rem (ascii ''},'') } })"
proof -
  let ?s = "s @ ascii title" and ?rest = "drop (length title) rest"
  have "length s < m"
    using s(2) by simp
  note room = remaining_size [OF this s(3)]
  have "2 < unat (of_nat m - of_nat (length s) :: u32)"
    using fits title(2) by (simp add: room)
  then obtain rem where r: "add_entries lib (of_nat m) (of_nat c) (of_nat 0) (map Some ps @ args)
        (?s @ 0 # ?rest, of_nat m - of_nat (length s))
      = add_entries lib (of_nat m) (of_nat c) (of_nat (0 + length ps)) args
          ((?s @ entries_bytes lib ps) @ 0 # drop (length (entries_bytes lib ps)) ?rest, rem)"
      "2 < unat rem"
    using add_entries_fits [OF ok, of ?s ?rest m 0 c "of_nat m - of_nat (length s)" args]
      s title fits c by auto
  have head: "length s + length title < m"
    using fits by linarith
  have "add_section title lib (Some (s @ 0 # rest)) (of_nat m) (of_nat c) (map Some ps @ args) =
     map_option (\<lambda>(rc, buf). (rc, Some buf)) (do {
      (rc, buf, rem) \<leftarrow> add_entries lib (of_nat m) (of_nat c) (of_nat (length ps)) args
         ((s @ ascii title @ entries_bytes lib ps) @
            0 # drop (length title + length (entries_bytes lib ps)) rest, rem);
      if rc \<noteq> AWS_SUCCESS then Some (rc, buf)
      else do {
        len \<leftarrow> c_strlen buf;
        if len = 0 then None else print_checked buf (len - 1) rem (ascii ''},'') } })"
    using r(1) by (simp add: add_section_unfold [OF s title(1) head title(2,3)] add.commute)
  then show ?thesis
    using r(2) that by blast
qed

lemma entries_no_zero: "\<forall>p\<in>set ps. entry_ok lib p \<Longrightarrow> 0 \<notin> set (entries_bytes lib ps)"
  by (induction ps) (auto simp: entries_bytes_def elim: entry_ok_cases)

text \<open>The end of the section: the last character gives way to the closing text.  The bound left by
  the loop always admits the two characters, so they and the terminator are written whatever the
  room: with a single free byte the terminator goes past the end of the array.\<close>

lemma add_section_closed:
  assumes "\<forall>p\<in>set ps. entry_ok lib p" "length ps < 128"
    "0 \<notin> set s" "length s + 1 + length rest = m" "m < 2 ^ 31"
    "0 \<notin> set (ascii title)" "2 < length title" "length title < 2 ^ 31"
  defines "new \<equiv> s @ ascii title @ entries_bytes lib ps"
  shows "length new + 1 < m \<Longrightarrow>
      add_section title lib (Some (s @ 0 # rest)) (of_nat m) (of_nat (length ps)) (map Some ps @ args)
      = Some (AWS_SUCCESS, Some (butlast new @ ascii ''},'' @ 0 # drop (Suc (length new - length s)) rest))"
    and "length new + 1 = m \<Longrightarrow>
      add_section title lib (Some (s @ 0 # rest)) (of_nat m) (of_nat (length ps)) (map Some ps @ args) = None"
proof -
  let ?rest = "drop (length title + length (entries_bytes lib ps)) rest"
  have n: "length new = length s + length title + length (entries_bytes lib ps)"
    by (simp add: new_def)
  have z: "0 \<notin> set new" and ne: "new \<noteq> []"
    using assms(1,3,6,7) entries_no_zero [OF assms(1)] by (auto simp: new_def ascii_def)
  have "\<not> sint (of_nat (length ps) :: byte) < uint (of_nat (length ps) :: byte)"
    using assms(2) by (simp add: sint_of_small uint_of_small)
  then have finished: "add_entries lib (of_nat m) (of_nat (length ps)) (of_nat (length ps)) args (buf, rem)
      = Some (AWS_SUCCESS, buf, rem)" for buf rem
    by (simp add: add_entries.simps)
  have closing: "\<exists>rem :: u32. 2 < unat rem \<and>
      add_section title lib (Some (s @ 0 # rest)) (of_nat m) (of_nat (length ps)) (map Some ps @ args)
      = map_option (\<lambda>(rc, buf). (rc, Some buf))
          (print_checked (new @ 0 # ?rest) (length new - 1) rem (ascii ''},''))"
    if fits: "length new < m"
  proof -
    have f: "length s + length title + length (entries_bytes lib ps) < m"
      using fits n by simp
    obtain rem :: u32 where "2 < unat rem"
      "add_section title lib (Some (s @ 0 # rest)) (of_nat m) (of_nat (length ps)) (map Some ps @ args) =
       map_option (\<lambda>(rc, buf). (rc, Some buf)) (do {
        (rc, buf, rem) \<leftarrow> add_entries lib (of_nat m) (of_nat (length ps)) (of_nat (length ps)) args
           ((s @ ascii title @ entries_bytes lib ps) @ 0 # ?rest, rem);
        if rc \<noteq> AWS_SUCCESS then Some (rc, buf)
        else do {
          len \<leftarrow> c_strlen buf;
          if len = 0 then None else print_checked buf (len - 1) rem (ascii ''},'') } })"
      by (rule add_section_entries [OF assms(1) order_refl assms(2-8) f, where args = args])
    then show ?thesis
      using z ne by (auto simp: new_def [symmetric] finished c_strlen_mem)
  qed
  show "add_section title lib (Some (s @ 0 # rest)) (of_nat m) (of_nat (length ps)) (map Some ps @ args)
      = Some (AWS_SUCCESS, Some (butlast new @ ascii ''},'' @ 0 # drop (Suc (length new - length s)) rest))"
    if fits: "length new + 1 < m"
  proof -
    obtain rem :: u32 where rem: "2 < unat rem"
      "add_section title lib (Some (s @ 0 # rest)) (of_nat m) (of_nat (length ps)) (map Some ps @ args)
      = map_option (\<lambda>(rc, buf). (rc, Some buf))
          (print_checked (new @ 0 # ?rest) (length new - 1) rem (ascii ''},''))"
      using closing fits by auto
    have "length ?rest = m - length new - 1"
      using assms(4) n by simp
    then show ?thesis
      using rem fits n by (subst rem(2), subst print_over_last [OF ne]) simp_all
  qed
  show "add_section title lib (Some (s @ 0 # rest)) (of_nat m) (of_nat (length ps)) (map Some ps @ args) = None"
    if full: "length new + 1 = m"
  proof -
    obtain rem :: u32 where rem: "2 < unat rem"
      "add_section title lib (Some (s @ 0 # rest)) (of_nat m) (of_nat (length ps)) (map Some ps @ args)
      = map_option (\<lambda>(rc, buf). (rc, Some buf))
          (print_checked (new @ 0 # ?rest) (length new - 1) rem (ascii ''},''))"
      using closing full by auto
    have "print_checked (new @ 0 # ?rest) (length new - 1) rem (ascii ''},'') = None"
      using rem(1) full assms(4) n ne by (intro print_overrun) auto
    then show ?thesis
      using rem(2) by simp
  qed
qed

lemma finalize_fits:
  assumes s: "0 \<notin> set s" "s \<noteq> []" "length s + 1 + length rest = m" "m < 2 ^ 31"
    and token: "client_token clientID num = Some token" "0 \<notin> set token"
    and fits: "length s + 19 + length token < m"
  obtains rest' where
    "aws_iot_finalize_json_document clientID (Some (s @ 0 # rest)) (of_nat m) num
     = Some (AWS_SUCCESS,
         Some ((butlast s @ ascii ''}, \"clientToken\":\"'' @ token @ ascii ''\"}'') @ 0 # rest'), num + 1)"
proof -
  let ?a = "ascii ''}, \"clientToken\":\"''" and ?z = "ascii ''\"}''"
  have sm: "length s < m"
    using s(3) by simp
  define r where "r = (of_nat m - of_nat (length s) :: u32)"
  have r: "unat r = m - length s" "\<not> r \<le> 1"
    unfolding r_def using remaining_size [OF sm s(4)] fits by simp_all
  define s1 where "s1 = butlast s @ ?a"
  obtain rest1 where p1: "print_checked (s @ 0 # rest) (length s - 1) r ?a = Some (AWS_SUCCESS, s1 @ 0 # rest1)"
    and l1: "length s1 + 1 + length rest1 = m" "length s1 = length s + 17"
  proof
    show "print_checked (s @ 0 # rest) (length s - 1) r ?a
        = Some (AWS_SUCCESS, s1 @ 0 # drop (length ?a) (0 # rest))"
      using fits s r by (subst print_over_last [OF s(2)]) (simp_all add: s1_def)
    show "length s1 = length s + 17" "length s1 + 1 + length (drop (length ?a) (0 # rest)) = m"
      using fits s by (simp_all add: s1_def)
  qed
  have z1: "0 \<notin> set s1"
    using s(1) by (auto simp: s1_def texts dest: in_set_butlastD)
  have sm1: "length s1 < m"
    using l1 by simp
  define r1 where "r1 = (of_nat m - of_nat (length s1) :: u32)"
  have r1: "unat r1 = m - length s1" "\<not> r1 \<le> 1"
    unfolding r1_def using remaining_size [OF sm1 s(4)] fits l1 by simp_all
  define s2 where "s2 = s1 @ token"
  obtain rest2 where p2: "snprintf (s1 @ 0 # rest1) (length s1) r1 token = Some (int (length token), s2 @ 0 # rest2)"
    and l2: "length s2 + 1 + length rest2 = m"
  proof
    show "snprintf (s1 @ 0 # rest1) (length s1) r1 token
        = Some (int (length token), s2 @ 0 # drop (length token) rest1)"
      using fits l1 r1 s(4) by (subst snprintf_fits) (simp_all add: s2_def)
    show "length s2 + 1 + length (drop (length token) rest1) = m"
      using fits l1 by (simp add: s2_def)
  qed
  have c2: "checkReturnValueOfSnPrintf (int (length token)) r1 = AWS_SUCCESS"
    using fits l1 r1 s(4) by (intro check_success) simp_all
  have z2: "0 \<notin> set s2"
    using z1 token(2) by (simp add: s2_def)
  have sm2: "length s2 < m"
    using l2 by simp
  define r2 where "r2 = (of_nat m - of_nat (length s2) :: u32)"
  have len2: "length s2 = length s + 17 + length token"
    using l1(2) by (simp add: s2_def)
  have r2: "unat r2 = m - length s2" "\<not> r2 \<le> 1"
    unfolding r2_def using remaining_size [OF sm2 s(4)] fits len2 by simp_all
  have p3: "print_checked (s2 @ 0 # rest2) (length s2) r2 ?z
      = Some (AWS_SUCCESS, s2 @ ?z @ 0 # drop (length ?z) rest2)"
    using fits len2 l2 r2 by (intro print_fits) simp_all
  have "aws_iot_finalize_json_document clientID (Some (s @ 0 # rest)) (of_nat m) num
     = Some (AWS_SUCCESS, Some (s2 @ ?z @ 0 # drop (length ?z) rest2), num + 1)"
    using p1 p2 p3 c2 z1 z2 s(1,2) r(2) r1(2) r2(2)
    by (simp add: aws_iot_finalize_json_document_def c_strlen_mem Let_def token(1)
        FillWithClientTokenSize_def r_def [symmetric] r1_def [symmetric] r2_def [symmetric])
  then show ?thesis
    using that by (simp add: s2_def s1_def)
qed

lemma init_document:
  assumes "length buf = m" "10 < m" "m < 2 ^ 31"
  obtains rest where "aws_iot_shadow_init_json_document (Some buf) (of_nat m)
      = Some (AWS_SUCCESS, Some (ascii ''{\"state\":{'' @ 0 # rest))"
    "length rest + 11 = m"
proof -
  obtain b buf' where buf: "buf = b # buf'"
    using assms(1,2) by (cases buf) auto
  have u: "unat (of_nat m :: u32) = m"
    using assms(3) by (intro unat_of_nat_lt) simp
  have "print_checked buf 0 (of_nat m) (ascii ''{\"state\":{'')
      = Some (AWS_SUCCESS, ascii ''{\"state\":{'' @ 0 # drop (length (ascii ''{\"state\":{'')) buf')"
    using print_fits [of "ascii ''{\"state\":{''" "of_nat m" buf' "[]" b] assms buf by (simp add: u)
  then show ?thesis
    using that [of "drop (length (ascii ''{\"state\":{'')) buf'"] assms buf by (simp add: aws_iot_shadow_init_json_document_def)
qed

text \<open>A client token is the client's name, a dash and at most eleven characters of a number.\<close>

lemma client_token_bounds:
  assumes "client_token clientID num = Some token"
  obtains clientName where "c_str clientID = Some clientName" "token = clientName @ [45] @ show_int (sint num)"
    "0 \<notin> set token" "length clientName + 2 \<le> length token" "length token \<le> length clientName + 12"
proof -
  obtain clientName where n: "c_str clientID = Some clientName" "token = clientName @ [45] @ show_int (sint num)"
    using assms by (auto simp: client_token_def)
  have range: "- (2 ^ 31) \<le> sint num" "sint num < 2 ^ 31"
    using sint_range_size [of num] by (simp_all add: word_size)
  have "length (show_nat (nat \<bar>sint num\<bar>)) \<le> 10"
    using range by (intro length_show_nat) auto
  then have "length (show_int (sint num)) \<le> 11"
    by (auto simp: show_int_def)
  moreover have "0 < length (show_int (sint num))"
    by (simp add: show_int_def)
  ultimately show ?thesis
    using that [OF n] n c_str_no_zero [OF n(1)] show_int_nonzero by (simp add: Suc_le_eq)
qed

section \<open>The document of an update\<close>

definition shadow_document ::
  "Libs \<Rightarrow> jsonStruct_t list \<Rightarrow> jsonStruct_t list \<Rightarrow> byte list \<Rightarrow> byte list" where
  "shadow_document lib desired reported token =
     ascii ''{\"state\":{'' @
     ascii ''\"desired\":{'' @ butlast (entries_bytes lib desired) @ ascii ''},'' @
     ascii ''\"reported\":{'' @ butlast (entries_bytes lib reported) @ ascii ''}'' @
     ascii ''}, \"clientToken\":\"'' @ token @ ascii ''\"}''"

lemma entries_not_Nil:
  assumes "\<forall>p\<in>set ps. entry_ok lib p" "ps \<noteq> []"
  shows "entries_bytes lib ps \<noteq> []"
proof -
  obtain p qs where ps: "ps = p # qs"
    using assms(2) by (cases ps) auto
  have "entry_ok lib p"
    using assms(1) ps by simp
  then obtain k v where "entry_bytes lib p = k @ v" "3 \<le> length k"
    by (rule entry_ok_cases)
  then show ?thesis
    by (auto simp: ps entries_bytes_def)
qed

lemma butlast_closing: "butlast (s @ ascii ''},'') = s @ ascii ''}''"
  by (simp add: butlast_append ascii_def)

text \<open>One section, as the calls before and after it see the document.\<close>

lemma section_step:
  assumes "\<forall>p\<in>set ps. entry_ok lib p" "ps \<noteq> []" "length ps < 128"
    "0 \<notin> set s" "length s + 1 + length rest = m" "m < 2 ^ 31"
    "0 \<notin> set (ascii title)" "2 < length title" "length title < 2 ^ 31"
    "length s + length title + length (entries_bytes lib ps) + 1 < m"
  obtains rest' where
    "add_section title lib (Some (s @ 0 # rest)) (of_nat m) (of_nat (length ps)) (map Some ps)
     = Some (AWS_SUCCESS,
         Some ((s @ ascii title @ butlast (entries_bytes lib ps) @ ascii ''},'') @ 0 # rest'))"
    "length s + length title + length (entries_bytes lib ps) + 2 + length rest' = m"
    "0 \<notin> set (s @ ascii title @ butlast (entries_bytes lib ps) @ ascii ''},'')"
proof -
  note ne = entries_not_Nil [OF assms(1,2)]
  let ?new = "s @ ascii title @ entries_bytes lib ps"
  let ?rest' = "drop (Suc (length ?new - length s)) rest"
  have fits: "length ?new + 1 < m"
    using assms(10) by simp
  have "butlast ?new = s @ ascii title @ butlast (entries_bytes lib ps)"
    using ne by (simp add: butlast_append)
  then have "add_section title lib (Some (s @ 0 # rest)) (of_nat m) (of_nat (length ps)) (map Some ps)
     = Some (AWS_SUCCESS,
         Some ((s @ ascii title @ butlast (entries_bytes lib ps) @ ascii ''},'') @ 0 # ?rest'))"
    using add_section_closed(1) [OF assms(1,3-9) fits, of "[]"] by simp
  moreover have "length s + length title + length (entries_bytes lib ps) + 2 + length ?rest' = m"
    using assms(5,10) by simp
  moreover have "0 \<notin> set (s @ ascii title @ butlast (entries_bytes lib ps) @ ascii ''},'')"
    using assms(4,7) entries_no_zero [OF assms(1)] by (auto simp: texts dest: in_set_butlastD)
  ultimately show ?thesis
    by (rule that)
qed

text \<open>C22. Building an update document.  Opening the document, adding a desired and a reported section
  and finalising it with a client token succeed on every array longer than the document, and leave
  in it exactly the JSON text the Shadow service expects: both sections with the printed values of
  their entries, the entries separated by commas and the sections closed, and the client token made
  of the client's name and the sequence number.\<close>

theorem document_built:
  assumes entries: "\<forall>p\<in>set desired. entry_ok lib p" "\<forall>p\<in>set reported. entry_ok lib p"
    and some: "desired \<noteq> []" "reported \<noteq> []" "length desired < 128" "length reported < 128"
    and token: "client_token clientID num = Some token"
    and room: "length (shadow_document lib desired reported token) < m" "m < 2 ^ 31" "length buf = m"
  shows "\<exists>buf1 buf2 buf3 rest.
    aws_iot_shadow_init_json_document (Some buf) (of_nat m) = Some (AWS_SUCCESS, Some buf1) \<and>
    aws_iot_shadow_add_desired lib (Some buf1) (of_nat m) (of_nat (length desired)) (map Some desired)
      = Some (AWS_SUCCESS, Some buf2) \<and>
    aws_iot_shadow_add_reported lib (Some buf2) (of_nat m) (of_nat (length reported)) (map Some reported)
      = Some (AWS_SUCCESS, Some buf3) \<and>
    aws_iot_finalize_json_document clientID (Some buf3) (of_nat m) num
      = Some (AWS_SUCCESS, Some (shadow_document lib desired reported token @ 0 # rest), num + 1)"
proof -
  have t: "0 \<notin> set token"
    by (rule client_token_bounds [OF token])
  have d: "length (shadow_document lib desired reported token)
      = 56 + length (butlast (entries_bytes lib desired)) + length (butlast (entries_bytes lib reported)) + length token"
    by (simp add: shadow_document_def)
  note ne = entries_not_Nil [OF entries(1) some(1)] entries_not_Nil [OF entries(2) some(2)]
  have pos: "0 < length (entries_bytes lib desired)" "0 < length (entries_bytes lib reported)"
    using ne by simp_all
  have D: "55 + length (entries_bytes lib desired) + length (entries_bytes lib reported) + length token \<le> m"
    using room(1) pos unfolding d length_butlast by linarith
  obtain rest1 where p1: "aws_iot_shadow_init_json_document (Some buf) (of_nat m)
      = Some (AWS_SUCCESS, Some (ascii ''{\"state\":{'' @ 0 # rest1))" "length rest1 + 11 = m"
    by (rule init_document [OF room(3) _ room(2)]) (use D in simp)
  let ?s2 = "ascii ''{\"state\":{'' @ ascii ''\"desired\":{'' @ butlast (entries_bytes lib desired) @ ascii ''},''"
  have z1: "0 \<notin> set (ascii ''{\"state\":{'')" "0 \<notin> set (ascii ''\"desired\":{'')" "0 \<notin> set (ascii ''\"reported\":{'')"
    by (simp_all add: texts)
  have n1: "length (ascii ''{\"state\":{'') = 10" "length ''\"desired\":{'' = 11" "length ''\"reported\":{'' = 12"
    by simp_all
  have m1: "length (ascii ''{\"state\":{'') + 1 + length rest1 = m"
    unfolding n1 using p1(2) by linarith
  have fits1: "length (ascii ''{\"state\":{'') + length ''\"desired\":{'' + length (entries_bytes lib desired) + 1 < m"
    unfolding n1 using D by linarith
  obtain rest2 where p2:
    "add_section ''\"desired\":{'' lib (Some (ascii ''{\"state\":{'' @ 0 # rest1)) (of_nat m)
        (of_nat (length desired)) (map Some desired) = Some (AWS_SUCCESS, Some (?s2 @ 0 # rest2))"
    "length (ascii ''{\"state\":{'') + length ''\"desired\":{'' + length (entries_bytes lib desired) + 2 + length rest2 = m"
    "0 \<notin> set ?s2"
    by (rule section_step [OF entries(1) some(1,3) z1(1) m1 room(2) z1(2) _ _ fits1]) simp_all
  let ?s3 = "?s2 @ ascii ''\"reported\":{'' @ butlast (entries_bytes lib reported) @ ascii ''},''"
  have l2: "length ?s2 = length (entries_bytes lib desired) + 22"
    using pos by simp
  have m2: "length ?s2 + 1 + length rest2 = m"
    using p2(2) unfolding l2 n1 by linarith
  have fits2: "length ?s2 + length ''\"reported\":{'' + length (entries_bytes lib reported) + 1 < m"
    unfolding l2 n1 using D by linarith
  obtain rest3 where p3:
    "add_section ''\"reported\":{'' lib (Some (?s2 @ 0 # rest2)) (of_nat m)
        (of_nat (length reported)) (map Some reported) = Some (AWS_SUCCESS, Some (?s3 @ 0 # rest3))"
    "length ?s2 + length ''\"reported\":{'' + length (entries_bytes lib reported) + 2 + length rest3 = m"
    "0 \<notin> set ?s3"
    by (rule section_step [OF entries(2) some(2,4) p2(3) m2 room(2) z1(3) _ _ fits2]) simp_all
  have l3: "length ?s3 = length (entries_bytes lib desired) + length (entries_bytes lib reported) + 35"
    using pos l2 by simp
  have ne3: "?s3 \<noteq> []"
    by (simp add: ascii_def)
  have b3: "butlast ?s3 = ?s2 @ ascii ''\"reported\":{'' @ butlast (entries_bytes lib reported) @ ascii ''}''"
    using butlast_closing [of "?s2 @ ascii ''\"reported\":{'' @ butlast (entries_bytes lib reported)"] by simp
  have m3: "length ?s3 + 1 + length rest3 = m"
    using p3(2) unfolding l2 l3 n1 by linarith
  have room3: "length ?s3 + 19 + length token < m"
    unfolding l3 using D by linarith
  obtain rest4 where "aws_iot_finalize_json_document clientID (Some (?s3 @ 0 # rest3)) (of_nat m) num
     = Some (AWS_SUCCESS,
         Some ((butlast ?s3 @ ascii ''}, \"clientToken\":\"'' @ token @ ascii ''\"}'') @ 0 # rest4), num + 1)"
    by (rule finalize_fits [OF p3(3) ne3 m3 room(2) token t room3])
  then have "aws_iot_finalize_json_document clientID (Some (?s3 @ 0 # rest3)) (of_nat m) num
     = Some (AWS_SUCCESS, Some (shadow_document lib desired reported token @ 0 # rest4), num + 1)"
    unfolding b3 by (simp add: shadow_document_def)
  then show ?thesis
    using p1(1) p2(1) p3(1) unfolding aws_iot_shadow_add_desired_def aws_iot_shadow_add_reported_def by blast
qed

text \<open>Overruns of the document array.  The size checks of a section do not bound its writes.  When
  a section leaves exactly one free byte, its closing text is printed under the bound of the last
  entry and the terminator lands one byte past the array; when an entry's key fits but its value
  does not, the value is printed under a bound that forgets the key, again past the array.  In
  both cases the code that should have reported a truncated buffer has written outside it.\<close>

theorem section_overrun:
  assumes ok: "\<forall>q\<in>set (ps @ p # qs). entry_ok lib q" "length (ps @ p # qs) < 128"
    and s: "0 \<notin> set s" "length s + 1 + length rest = m" "m < 2 ^ 31"
    and kv: "entry_text lib p = Some (k, v)"
  shows "(length s + 11 + length (entries_bytes lib (ps @ p # qs)) + 1 = m \<longrightarrow>
      aws_iot_shadow_add_desired lib (Some (s @ 0 # rest)) (of_nat m) (of_nat (length (ps @ p # qs)))
        (map Some (ps @ p # qs)) = None) \<and>
    (length s + 11 + length (entries_bytes lib ps) + length k < m \<and>
      m \<le> length s + 11 + length (entries_bytes lib ps) + length k + length v \<longrightarrow>
      aws_iot_shadow_add_desired lib (Some (s @ 0 # rest)) (of_nat m) (of_nat (length (ps @ p # qs)))
        (map Some (ps @ p # qs)) = None)"
proof (rule conjI)
  let ?t = "''\"desired\":{''"
  have t: "0 \<notin> set (ascii ?t)" "2 < length ?t" "length ?t < 2 ^ 31" "length ?t = 11"
    by (simp_all add: texts)
  show "length s + 11 + length (entries_bytes lib (ps @ p # qs)) + 1 = m \<longrightarrow>
      aws_iot_shadow_add_desired lib (Some (s @ 0 # rest)) (of_nat m) (of_nat (length (ps @ p # qs)))
        (map Some (ps @ p # qs)) = None"
  proof
    assume "length s + 11 + length (entries_bytes lib (ps @ p # qs)) + 1 = m"
    then have full: "length (s @ ascii ?t @ entries_bytes lib (ps @ p # qs)) + 1 = m"
      by simp
    show "aws_iot_shadow_add_desired lib (Some (s @ 0 # rest)) (of_nat m) (of_nat (length (ps @ p # qs)))
        (map Some (ps @ p # qs)) = None"
      unfolding aws_iot_shadow_add_desired_def
      using add_section_closed(2) [OF ok s t(1-3) full, of "[]"] by simp
  qed
  show "length s + 11 + length (entries_bytes lib ps) + length k < m \<and>
      m \<le> length s + 11 + length (entries_bytes lib ps) + length k + length v \<longrightarrow>
      aws_iot_shadow_add_desired lib (Some (s @ 0 # rest)) (of_nat m) (of_nat (length (ps @ p # qs)))
        (map Some (ps @ p # qs)) = None"
  proof (intro impI, elim conjE)
    assume fits: "length s + 11 + length (entries_bytes lib ps) + length k < m"
      and over: "m \<le> length s + 11 + length (entries_bytes lib ps) + length k + length v"
    let ?c = "length (ps @ p # qs)"
    let ?s = "s @ ascii ?t @ entries_bytes lib ps"
    let ?rest = "drop (length ?t + length (entries_bytes lib ps)) rest"
    have ps: "\<forall>q\<in>set ps. entry_ok lib q" "length ps \<le> ?c" "entry_ok lib p"
      using ok(1) by simp_all
    have fits': "length s + length ?t + length (entries_bytes lib ps) < m"
      using fits by (simp only: t(4))
    have i: "sint (of_nat (length ps) :: byte) < uint (of_nat ?c :: byte)"
      using ok(2) by (simp add: sint_of_small uint_of_small del: of_nat_Suc of_nat_add)
    have z: "0 \<notin> set ?s"
      using s(1) t(1) entries_no_zero [OF ps(1)] by simp
    have l: "length ?s + 1 + length ?rest = m"
      using s(2) fits' by simp
    have "add_entries lib (of_nat m) (of_nat ?c) (of_nat (length ps)) (Some p # map Some qs)
        (?s @ 0 # ?rest, rem) = None" for rem
      by (rule add_entries_step(2) [OF i z l s(3) kv ps(3)]) (use fits over in simp_all)
    then show "aws_iot_shadow_add_desired lib (Some (s @ 0 # rest)) (of_nat m) (of_nat ?c)
        (map Some (ps @ p # qs)) = None"
      unfolding aws_iot_shadow_add_desired_def
      using add_section_entries [OF ps(1,2) ok(2) s t(1-3) fits', of "Some p # map Some qs"] by auto
  qed
qed

section \<open>Requests with a client token\<close>

definition request_document :: "byte list \<Rightarrow> byte list" where
  "request_document token = ascii ''{\"clientToken\":\"'' @ token @ ascii ''\"}''"

lemma print_three:
  assumes "0 \<notin> set a" "0 \<notin> set t" "length a + length t + length z < length buf"
  shows "do { buf \<leftarrow> sprintf buf 0 a; len \<leftarrow> c_strlen buf; buf \<leftarrow> sprintf buf len t;
              len \<leftarrow> c_strlen buf; sprintf buf len z }
    = Some (a @ t @ z @ 0 # drop (length a + length t + length z + 1) buf)"
proof -
  obtain b rest where buf: "buf = b # rest"
    using assms(3) by (cases buf) auto
  have p1: "sprintf buf 0 a = Some (a @ 0 # drop (length a) rest)"
    using sprintf_fits [of a rest "[]" b] assms(3) buf by simp
  have p2: "sprintf (a @ 0 # drop (length a) rest) (length a) t
      = Some (a @ t @ 0 # drop (length t) (drop (length a) rest))"
    using assms(3) buf by (intro sprintf_fits) simp
  have p3: "sprintf ((a @ t) @ 0 # drop (length t) (drop (length a) rest)) (length (a @ t)) z
      = Some ((a @ t) @ z @ 0 # drop (length z) (drop (length t) (drop (length a) rest)))"
    using assms(3) buf by (intro sprintf_fits) simp
  have "c_strlen (a @ t @ 0 # drop (length t) (drop (length a) rest)) = Some (length (a @ t))"
    using c_strlen_mem [of "a @ t"] assms(1,2) by simp
  then show ?thesis
    using p2 p3 by (simp add: p1 [unfolded buf] c_strlen_mem assms(1) buf add.commute add.left_commute)
qed

lemma request_document_fits:
  assumes "client_token clientID num = Some token" "length token + 18 < length buf"
  shows "emptyJsonWithClientToken clientID buf num
    = Some (request_document token @ 0 # drop (length token + 19) buf, num + 1)"
proof -
  have "0 \<notin> set token"
    by (rule client_token_bounds [OF assms(1)])
  then have "do { buf \<leftarrow> sprintf buf 0 (ascii ''{\"clientToken\":\"''); len \<leftarrow> c_strlen buf;
              buf \<leftarrow> sprintf buf len token; len \<leftarrow> c_strlen buf; sprintf buf len (ascii ''\"}'') }
      = Some (request_document token @ 0 # drop (length token + 19) buf)"
    using print_three [of "ascii ''{\"clientToken\":\"''" token "ascii ''\"}''" buf] assms(2)
    by (simp add: texts request_document_def eval_nat_numeral)
  moreover have "emptyJsonWithClientToken clientID buf num = map_option (\<lambda>buf. (buf, num + 1))
      (do { buf \<leftarrow> sprintf buf 0 (ascii ''{\"clientToken\":\"''); len \<leftarrow> c_strlen buf;
            buf \<leftarrow> sprintf buf len token; len \<leftarrow> c_strlen buf; sprintf buf len (ascii ''\"}'') })"
    by (simp add: emptyJsonWithClientToken_def FillWithClientToken_def assms(1) map_conv_bind_option comp_def)
  ultimately show ?thesis
    by simp
qed

text \<open>The tokens of a request, as the parser's documentation gives them: the object, the key and the
  value, each by the positions of its characters without the quotes.\<close>

definition request_tokens :: "byte list \<Rightarrow> jsmntok_t list" where
  "request_tokens token =
     [\<lparr>tok_type = JSMN_OBJECT, tok_start = 0, tok_end = 18 + int (length token), tok_size = 1\<rparr>,
      \<lparr>tok_type = JSMN_STRING, tok_start = 2, tok_end = 13, tok_size = 1\<rparr>,
      \<lparr>tok_type = JSMN_STRING, tok_start = 16, tok_end = 16 + int (length token), tok_size = 0\<rparr>]"

lemma request_tokens_simps:
  "length (request_tokens token) = 3"
  "tok_type ((request_tokens token @ ts) ! 0) = JSMN_OBJECT"
  "(request_tokens token @ ts) ! Suc 0 = request_tokens token ! 1"
  "tok_start ((request_tokens token @ ts) ! Suc (Suc 0)) = 16"
  "tok_end ((request_tokens token @ ts) ! Suc (Suc 0)) = 16 + int (length token)"
  by (simp_all add: request_tokens_def)

lemma request_at:
  "drop 2 (request_document token) = ascii ''clientToken'' @ ascii ''\":\"'' @ token @ ascii ''\"}''"
  "drop 16 (request_document token) = token @ ascii ''\"}''"
  "length (request_document token) = length token + 18"
  by (simp_all add: request_document_def ascii_def)

lemma clientToken_key:
  "jsoneq (request_document token) (request_tokens token ! 1) (Some SHADOW_CLIENT_TOKEN_STRING) = Some 0"
proof -
  have "str_at (request_document token) 2 = Some (ascii ''clientToken'' @ ascii ''\":\"'' @ token @ ascii ''\"}'')"
    using request_at by (simp add: str_at_def)
  moreover have "strncmp_eq 11 (ascii ''clientToken'' @ r) (ascii ''clientToken'')" for r
    by (simp add: ascii_def eval_nat_numeral)
  ultimately show ?thesis
    by (simp add: jsoneq_def request_tokens_def)
qed

text \<open>The client token of a request.  A get or delete request built in its array of 110 bytes
  always fits, for every client name of at most 79 characters and every sequence number, and is the
  JSON text with the client token.  Extracting the token from it, on the tokens the parser gives,
  returns exactly that token, provided it has fewer than the 90 characters of the caller's array; a
  longer token (a name of 79 characters and a sequence number of ten) is written past that array.\<close>

theorem request_token_roundtrip:
  assumes id: "length clientID = 80" "client_token clientID num = Some token"
    and buf: "length buf = 110" "length out = 90" "length toks = MAX_JSON_TOKEN_EXPECTED"
    and jsmn: "jsmn_parse lib (request_document token) MAX_JSON_TOKEN_EXPECTED = (3, request_tokens token)"
  shows "(\<exists>rest. aws_iot_shadow_internal_get_request_json clientID buf num
      = Some (request_document token @ 0 # rest, num + 1)) \<and>
    extractClientToken lib (request_document token) out toks =
      (if length token < 90
       then Some (True, token @ 0 # drop (length token + 1) out, request_tokens token @ drop 3 toks)
       else None)"
proof (rule conjI)
  obtain clientName where name: "c_str clientID = Some clientName" "length token \<le> length clientName + 12"
    by (rule client_token_bounds [OF id(2)])
  have len: "length token \<le> 91"
    using c_str_length [OF name(1)] name(2) id(1) by simp
  then have "length token + 18 < length buf"
    using buf(1) by simp
  from request_document_fits [OF id(2) this]
  show "\<exists>rest. aws_iot_shadow_internal_get_request_json clientID buf num
      = Some (request_document token @ 0 # rest, num + 1)"
    by (simp add: aws_iot_shadow_internal_get_request_json_def)
  let ?toks = "request_tokens token @ drop 3 toks"
  have key: "find_key (request_document token) ?toks (Some SHADOW_CLIENT_TOKEN_STRING) [1..<3] = Some (Some 1)"
    using clientToken_key [of token] by (simp add: upt_rec request_tokens_simps)
  have at: "str_at (request_document token) 16 = Some (token @ ascii ''\"}'')"
    using request_at by (simp add: str_at_def)
  have n: "unat (of_nat (length token) :: byte) = length token"
    using len by (simp add: unat_of_nat_lt)
  have room: "1 + 1 < length ?toks"
    by (simp add: request_tokens_simps)
  have "extractClientToken lib (request_document token) out toks = (do {
      out \<leftarrow> c_strncpy out (token @ ascii ''\"}'') (length token);
      if length token < length out then Some (True, out[length token := 0], ?toks) else None })"
    supply if_cong [cong]
    unfolding extractClientToken_def parse_document_def jsmn
    by (simp add: request_tokens_simps key [unfolded One_nat_def] room [unfolded One_nat_def] at n Let_def)
  note run = this
  show "extractClientToken lib (request_document token) out toks =
      (if length token < 90
       then Some (True, token @ 0 # drop (length token + 1) out, request_tokens token @ drop 3 toks)
       else None)"
  proof (cases "length token < 90")
    case True
    then have "c_strncpy out (token @ ascii ''\"}'') (length token) = Some (token @ drop (length token) out)"
      using buf(2) by (simp add: c_strncpy_def put_bytes_def)
    moreover have "drop (length token) out = out ! length token # drop (Suc (length token)) out"
      using True buf(2) by (simp add: Cons_nth_drop_Suc)
    ultimately show ?thesis
      using True buf(2) by (simp add: run list_update_append)
  next
    case False
    then have "length token \<noteq> length out \<Longrightarrow> c_strncpy out (token @ ascii ''\"}'') (length token) = None"
      using buf(2) by (simp add: c_strncpy_def put_bytes_def)
    moreover have "length token = length out \<Longrightarrow> c_strncpy out (token @ ascii ''\"}'') (length token) = Some token"
      by (simp add: c_strncpy_def put_bytes_def)
    ultimately show ?thesis
      using False by (cases "length token = length out") (simp_all add: run)
  qed
qed

section \<open>Values\<close>

text \<open>The size of the object of a type with a value of its own; a Boolean object holds 0 or 1.\<close>

fun data_size :: "JsonPrimitiveType \<Rightarrow> nat" where
  "data_size SHADOW_JSON_INT32 = 4" | "data_size SHADOW_JSON_UINT32 = 4"
| "data_size SHADOW_JSON_INT16 = 2" | "data_size SHADOW_JSON_UINT16 = 2"
| "data_size SHADOW_JSON_INT8 = 1" | "data_size SHADOW_JSON_UINT8 = 1"
| "data_size SHADOW_JSON_BOOL = 1"
| "data_size _ = 0"

definition integral_object :: "JsonPrimitiveType \<Rightarrow> byte list \<Rightarrow> bool" where
  "integral_object type d \<longleftrightarrow>
     type \<in> {SHADOW_JSON_INT32, SHADOW_JSON_UINT32, SHADOW_JSON_INT16, SHADOW_JSON_UINT16,
             SHADOW_JSON_INT8, SHADOW_JSON_UINT8, SHADOW_JSON_BOOL} \<and>
     length d = data_size type \<and> (type = SHADOW_JSON_BOOL \<longrightarrow> d = [0] \<or> d = [1])"

lemma str_at_prefix: "str_at (pre @ s) (int (length pre)) = Some s"
  by (simp add: str_at_def)

lemma store_all: "length bs = length d \<Longrightarrow> store d bs = Some bs"
  by (simp add: store_def put_bytes_def)

lemma parse_printed_signed:
  assumes "tok_type tok = JSMN_PRIMITIVE" "tok_start tok = int (length pre)" "c = 44 \<or> c = 125"
  shows "parse_signed (pre @ show_int (sint w) @ c # rest) tok = success (w :: 'a :: len word)"
proof -
  have "sscanf_int True (show_int (sint w) @ c # rest) = Some (sint w)"
    using assms(3) by (intro sscanf_show_int) (auto simp: digit_val_def)
  moreover have "- (2 ^ (LENGTH('a) - 1)) \<le> sint w" "sint w < 2 ^ (LENGTH('a) - 1)"
    using sint_range_size [of w] by (simp_all add: word_size)
  ultimately show ?thesis
    using assms(1,2) by (simp add: parse_signed_def str_at_prefix)
qed

lemma parse_printed_unsigned:
  assumes "tok_type tok = JSMN_PRIMITIVE" "tok_start tok = int (length pre)" "c = 44 \<or> c = 125"
  shows "parse_unsigned (pre @ show_int (uint w) @ c # rest) tok = success (w :: 'a :: len word)"
proof -
  have "sscanf_int False (show_int (uint w) @ c # rest) = Some (uint w)"
    using assms(3) by (intro sscanf_show_int) (auto simp: digit_val_def)
  moreover have "take 1 (show_int (uint w) @ c # rest) \<noteq> [45]"
  proof -
    obtain b ds where s: "show_nat (unat w) = b # ds"
      using show_nat_not_Nil [of "unat w"] by (cases "show_nat (unat w)") auto
    then have "48 \<le> b"
      using show_nat_digits [of b "unat w"] by simp
    then show ?thesis
      using s by (auto simp: show_int_def)
  qed
  ultimately show ?thesis
    using assms(1,2) by (simp add: parse_unsigned_def str_at_prefix)
qed

lemma parse_printed_bool:
  assumes "tok_type tok = JSMN_PRIMITIVE" "tok_start tok = int (length pre)"
  shows "parseBooleanValue (pre @ ascii (if b then ''true'' else ''false'') @ rest) tok = success b"
  using assms by (cases b) (simp_all add: parseBooleanValue_def str_at_prefix ascii_def)

lemma mem_word_exists:
  "LENGTH('a) div 8 \<le> length d \<Longrightarrow> \<exists>w :: 'a :: len word. mem_word d = Some w"
  by (simp add: mem_word_def)

text \<open>Update of a structure of a printable type: the object is overwritten by the value's bytes.\<close>

lemma update_with_word:
  assumes "mem_word d = Some (w :: 'a :: len word)" "8 dvd LENGTH('a)" "LENGTH('a) div 8 = length d"
    "js_pData p = Some d'" "length d' = length d"
  shows "update_with (success w) word_bytes p = Some (AWS_SUCCESS, p\<lparr>js_pData := Some d\<rparr>)"
proof -
  have "word_bytes w = d"
    using word_bytes_mem_word [OF assms(1,2)] assms(3) by simp
  then show ?thesis
    using assms(4,5) store_all [of d d'] by (simp add: update_with_def success_def)
qed

text \<open>Values survive the document.  For every integer type and for Booleans, the text an object
  is printed as is read back, as the value of a primitive token in any document in which a comma or
  a closing brace follows it, as exactly the bytes of the object, whatever the receiving object of
  that type held.  No printed number is taken for an octal or hexadecimal literal.\<close>

theorem json_value_roundtrip:
  assumes d: "integral_object type d"
    and tok: "tok_type tok = JSMN_PRIMITIVE" "tok_start tok = int (length pre)" "c = 44 \<or> c = 125"
    and p: "js_type p = type" "js_pData p = Some d'" "length d' = length d"
  shows "\<exists>t. data_text lib type d = Some t \<and>
    UpdateValueIfNoObject lib (pre @ t @ c # rest) p tok = Some (AWS_SUCCESS, p\<lparr>js_pData := Some d\<rparr>)"
proof -
  have signed: ?thesis
    if w: "mem_word d = Some (w :: 'b :: len word)" and l: "8 dvd LENGTH('b)" "LENGTH('b) div 8 = length d"
      and t: "data_text lib type d = Some (show_int (sint w))"
      and u: "\<And>doc. UpdateValueIfNoObject lib doc p tok = update_with (parse_signed doc tok :: (IoT_Error_t + 'b word) option) word_bytes p"
    for w
    using t parse_printed_signed [OF tok, of w rest] update_with_word [OF w l p(2,3)] by (simp add: u)
  have unsigned: ?thesis
    if w: "mem_word d = Some (w :: 'b :: len word)" and l: "8 dvd LENGTH('b)" "LENGTH('b) div 8 = length d"
      and t: "data_text lib type d = Some (show_int (uint w))"
      and u: "\<And>doc. UpdateValueIfNoObject lib doc p tok = update_with (parse_unsigned doc tok :: (IoT_Error_t + 'b word) option) word_bytes p"
    for w
    using t parse_printed_unsigned [OF tok, of w rest] update_with_word [OF w l p(2,3)] by (simp add: u)
  note upd = UpdateValueIfNoObject_def p(1) data_text_def parseInteger32Value_def parseInteger16Value_def
    parseInteger8Value_def parseUnsignedInteger32Value_def parseUnsignedInteger16Value_def
    parseUnsignedInteger8Value_def
  have len: "length d = data_size type"
    using d by (simp add: integral_object_def)
  show ?thesis
  proof (cases type)
    case SHADOW_JSON_INT32
    then obtain w :: "32 word" where "mem_word d = Some w"
      using mem_word_exists [where ?'a = 32, of d] len by auto
    then show ?thesis
      by (rule signed) (simp_all add: upd SHADOW_JSON_INT32 len \<open>mem_word d = Some w\<close>)
  next
    case SHADOW_JSON_INT16
    then obtain w :: "16 word" where "mem_word d = Some w"
      using mem_word_exists [where ?'a = 16, of d] len by auto
    then show ?thesis
      by (rule signed) (simp_all add: upd SHADOW_JSON_INT16 len \<open>mem_word d = Some w\<close>)
  next
    case SHADOW_JSON_INT8
    then obtain w :: "8 word" where "mem_word d = Some w"
      using mem_word_exists [where ?'a = 8, of d] len by auto
    then show ?thesis
      by (rule signed) (simp_all add: upd SHADOW_JSON_INT8 len \<open>mem_word d = Some w\<close>)
  next
    case SHADOW_JSON_UINT32
    then obtain w :: "32 word" where "mem_word d = Some w"
      using mem_word_exists [where ?'a = 32, of d] len by auto
    then show ?thesis
      by (rule unsigned) (simp_all add: upd SHADOW_JSON_UINT32 len \<open>mem_word d = Some w\<close>)
  next
    case SHADOW_JSON_UINT16
    then obtain w :: "16 word" where "mem_word d = Some w"
      using mem_word_exists [where ?'a = 16, of d] len by auto
    then show ?thesis
      by (rule unsigned) (simp_all add: upd SHADOW_JSON_UINT16 len \<open>mem_word d = Some w\<close>)
  next
    case SHADOW_JSON_UINT8
    then obtain w :: "8 word" where "mem_word d = Some w"
      using mem_word_exists [where ?'a = 8, of d] len by auto
    then show ?thesis
      by (rule unsigned) (simp_all add: upd SHADOW_JSON_UINT8 len \<open>mem_word d = Some w\<close>)
  next
    case SHADOW_JSON_BOOL
    then have "d = [if False then 1 else 0] \<or> d = [if True then 1 else 0]"
      using d by (simp add: integral_object_def)
    then obtain b where b: "d = [if b then 1 else 0]"
      by blast
    have "data_text lib type d = Some (ascii (if b then ''true'' else ''false''))"
      by (simp add: data_text_def SHADOW_JSON_BOOL mem_word_def b)
    moreover have st: "store d' [if b then 1 else 0] = Some d"
      using store_all [of d d'] p(3) b by simp
    moreover from st have "UpdateValueIfNoObject lib (pre @ ascii (if b then ''true'' else ''false'') @ c # rest) p tok
        = Some (AWS_SUCCESS, p\<lparr>js_pData := Some d\<rparr>)"
      using parse_printed_bool [OF tok(1,2), of b "c # rest"] p(2)
      by (simp add: upd(1,2) SHADOW_JSON_BOOL update_with_def success_def st)
    ultimately show ?thesis
      by blast
  qed (use d in \<open>simp_all add: integral_object_def\<close>)
qed

section \<open>Witnesses\<close>

definition example_libs :: Libs where
  "example_libs = \<lparr>jsmn_parse = \<lambda>js n. (3, request_tokens (ascii ''d-7'')), print_float = \<lambda>_. [],
     print_double = \<lambda>_. [], scan_float = \<lambda>_. None, scan_double = \<lambda>_. None\<rparr>"

definition example_entry :: "string \<Rightarrow> byte \<Rightarrow> jsonStruct_t" where
  "example_entry key v = \<lparr>js_pKey = Some (ascii key), js_pData = Some [v], js_type = SHADOW_JSON_INT8, js_cb = 0\<rparr>"

lemma example_texts:
  "entry_text example_libs (example_entry ''x'' 5) = Some (ascii ''\"x\":'', ascii ''5,'')"
  "entry_ok example_libs (example_entry ''x'' 5)"
  "entries_bytes example_libs [example_entry ''x'' 5] = ascii ''\"x\":5,''"
  "client_token (ascii ''d'' @ replicate 79 0) 7 = Some (ascii ''d-7'')"
proof -
  show e: "entry_text example_libs (example_entry ''x'' 5) = Some (ascii ''\"x\":'', ascii ''5,'')"
    by (simp add: entry_text_def example_entry_def data_text_def mem_word_def ascii_def show_int_def show_nat.simps)
  show "entry_ok example_libs (example_entry ''x'' 5)"
    by (simp add: entry_ok_def e ascii_def)
  show "entries_bytes example_libs [example_entry ''x'' 5] = ascii ''\"x\":5,''"
    by (simp add: entries_bytes_def entry_bytes_def e ascii_def)
  show "client_token (ascii ''d'' @ replicate 79 0) 7 = Some (ascii ''d-7'')"
  proof -
    have "0 \<notin> set (ascii ''d'')"
      by (simp add: ascii_def)
    from c_str_mem [OF this, of "replicate 78 0"]
    have "c_str (ascii ''d'' @ replicate 79 0) = Some (ascii ''d'')"
      by (simp add: replicate_Suc [symmetric] del: replicate_Suc replicate.simps)
    then show ?thesis
      by (simp add: client_token_def show_int_def show_nat.simps) (simp add: ascii_def)
  qed
qed

lemma document_built_witness:
  "\<exists>buf1 buf2 buf3 rest.
    aws_iot_shadow_init_json_document (Some (replicate 100 0)) 100 = Some (AWS_SUCCESS, Some buf1) \<and>
    aws_iot_shadow_add_desired example_libs (Some buf1) 100 1 [Some (example_entry ''x'' 5)]
      = Some (AWS_SUCCESS, Some buf2) \<and>
    aws_iot_shadow_add_reported example_libs (Some buf2) 100 1 [Some (example_entry ''x'' 5)]
      = Some (AWS_SUCCESS, Some buf3) \<and>
    aws_iot_finalize_json_document (ascii ''d'' @ replicate 79 0) (Some buf3) 100 7
      = Some (AWS_SUCCESS, Some (ascii ''{\"state\":{\"desired\":{\"x\":5},\"reported\":{\"x\":5}}, \"clientToken\":\"d-7\"}''
          @ 0 # rest), 8)"
proof -
  have doc: "shadow_document example_libs [example_entry ''x'' 5] [example_entry ''x'' 5] (ascii ''d-7'')
      = ascii ''{\"state\":{\"desired\":{\"x\":5},\"reported\":{\"x\":5}}, \"clientToken\":\"d-7\"}''"
    by (simp add: shadow_document_def example_texts ascii_def)
  have l: "length (shadow_document example_libs [example_entry ''x'' 5] [example_entry ''x'' 5] (ascii ''d-7'')) < 100"
    by (simp add: shadow_document_def example_texts)
  show ?thesis
    using document_built [OF _ _ _ _ _ _ example_texts(4) l, of "replicate 100 0"]
    by (simp add: example_texts(2) doc)
qed

lemma section_overrun_witness:
  "aws_iot_shadow_add_desired example_libs (Some (ascii ''{\"state\":{'' @ 0 # replicate 17 0)) 28 1
     [Some (example_entry ''x'' 5)] = None \<and>
   aws_iot_shadow_add_desired example_libs (Some (ascii ''{\"state\":{'' @ 0 # replicate 15 0)) 26 1
     [Some (example_entry ''x'' 5)] = None"
proof
  have z: "0 \<notin> set (ascii ''{\"state\":{'')"
    by (simp add: texts)
  show "aws_iot_shadow_add_desired example_libs (Some (ascii ''{\"state\":{'' @ 0 # replicate 17 0)) 28 1
     [Some (example_entry ''x'' 5)] = None"
    using section_overrun [OF _ _ z _ _ example_texts(1), of "[]" "[]" "replicate 17 0" 28] example_texts
    by simp
  show "aws_iot_shadow_add_desired example_libs (Some (ascii ''{\"state\":{'' @ 0 # replicate 15 0)) 26 1
     [Some (example_entry ''x'' 5)] = None"
    using section_overrun [OF _ _ z _ _ example_texts(1), of "[]" "[]" "replicate 15 0" 26] example_texts
    by (simp add: entries_bytes_def)
qed

lemma request_token_roundtrip_witness:
  "(\<exists>rest. aws_iot_shadow_internal_get_request_json (ascii ''d'' @ replicate 79 0) (replicate 110 0) 7
      = Some (ascii ''{\"clientToken\":\"d-7\"}'' @ 0 # rest, 8)) \<and>
   extractClientToken example_libs (ascii ''{\"clientToken\":\"d-7\"}'') (replicate 90 1)
     (replicate 120 \<lparr>tok_type = JSMN_UNDEFINED, tok_start = 0, tok_end = 0, tok_size = 0\<rparr>)
   = Some (True, ascii ''d-7'' @ 0 # replicate 86 1,
       request_tokens (ascii ''d-7'') @
         replicate 117 \<lparr>tok_type = JSMN_UNDEFINED, tok_start = 0, tok_end = 0, tok_size = 0\<rparr>)"
proof -
  have doc: "request_document (ascii ''d-7'') = ascii ''{\"clientToken\":\"d-7\"}''"
    by (simp add: request_document_def ascii_def)
  have jsmn: "jsmn_parse example_libs (request_document (ascii ''d-7'')) MAX_JSON_TOKEN_EXPECTED
      = (3, request_tokens (ascii ''d-7''))"
    by (simp add: example_libs_def)
  show ?thesis
    using request_token_roundtrip [OF _ example_texts(4) _ _ _ jsmn, of "replicate 110 0" "replicate 90 1"
        "replicate 120 \<lparr>tok_type = JSMN_UNDEFINED, tok_start = 0, tok_end = 0, tok_size = 0\<rparr>"]
    by (simp add: doc)
qed

lemma json_value_roundtrip_witness:
  "\<exists>t. data_text example_libs SHADOW_JSON_INT16 [0, 128] = Some t \<and>
    UpdateValueIfNoObject example_libs (ascii ''{\"x\":'' @ t @ 125 # [])
      \<lparr>js_pKey = None, js_pData = Some [1, 2], js_type = SHADOW_JSON_INT16, js_cb = 0\<rparr>
      \<lparr>tok_type = JSMN_PRIMITIVE, tok_start = 5, tok_end = 11, tok_size = 0\<rparr>
    = Some (AWS_SUCCESS, \<lparr>js_pKey = None, js_pData = Some [0, 128], js_type = SHADOW_JSON_INT16, js_cb = 0\<rparr>)"
  using json_value_roundtrip [of SHADOW_JSON_INT16 "[0, 128]"
      "\<lparr>tok_type = JSMN_PRIMITIVE, tok_start = 5, tok_end = 11, tok_size = 0\<rparr>" "ascii ''{\"x\":''" 125
      "\<lparr>js_pKey = None, js_pData = Some [1, 2], js_type = SHADOW_JSON_INT16, js_cb = 0\<rparr>" "[1, 2]" example_libs "[]"]
  by (simp add: integral_object_def)

end
