(* ===== verification/Shadow_Records.thy ===== *)
theory Shadow_Records
  imports Mqtt_Pubsub Shadow_Json
begin

text \<open>
  The bookkeeping of the Thing Shadow, \<^verbatim>\<open>aws_iot_shadow_records.c\<close>: requests waiting for their
  response, subscriptions to response topics with their counts, keys registered for delta messages,
  and the two handlers the MQTT client calls.

  The file's variables, with those of \<^verbatim>\<open>aws_iot_shadow_json.c\<close>, are the record \<open>Shadow\<close>, a part of
  the world of the MQTT client: an operation of this layer maps the client, the shadow and the rest
  of the world.  The application's callbacks and the addresses of the two handlers are in
  \<open>Shadow_App\<close>.
\<close>

section \<open>State\<close>

datatype ShadowActions_t = SHADOW_GET | SHADOW_UPDATE | SHADOW_DELETE

datatype ShadowAckTopicTypes_t = SHADOW_ACCEPTED | SHADOW_REJECTED | SHADOW_ACTION

datatype Shadow_Ack_Status_t = SHADOW_ACK_TIMEOUT | SHADOW_ACK_REJECTED | SHADOW_ACK_ACCEPTED

record ToBeReceivedAckRecord_t =
  clientTokenID :: "byte list"
  thingName :: "byte list"
  ack_action :: ShadowActions_t
  ack_callback :: ptr
  pCallbackContext :: ptr
  ack_isFree :: bool
  ack_timer :: Timer

text \<open>\<open>tok_pStruct\<close> is the address of the application's structure, an index into \<open>jsonStructs\<close>.\<close>

record JsonTokenTable_t =
  tt_pKey :: "byte list option"
  tt_pStruct :: nat
  tt_callback :: ptr
  tt_isFree :: bool

record SubscriptionRecord_t =
  Topic :: "byte list"
  sub_count :: byte
  sub_isFree :: bool
  isSticky :: bool

text \<open>\<open>pMqttClient\<close>: the file's pointer to the client is set.\<close>

record Shadow =
  AckWaitList :: "ToBeReceivedAckRecord_t list"
  SubscriptionList :: "SubscriptionRecord_t list"
  tokenTable :: "JsonTokenTable_t list"
  tokenTableIndex :: u32
  deltaTopicSubscribedFlag :: bool
  shadowJsonVersionNum :: u32
  shadowDiscardOldDeltaFlag :: bool
  pMqttClient :: bool
  myThingName :: "byte list"
  mqttClientID :: "byte list"
  shadowDeltaTopic :: "byte list"
  shadowRxBuf :: "byte list"
  jsonTokenStruct :: "jsmntok_t list"
  clientTokenNum :: u32
  jsonStructs :: "jsonStruct_t list"

abbreviation MAX_ACKS_TO_COMEIN_AT_ANY_GIVEN_TIME :: nat
  where "MAX_ACKS_TO_COMEIN_AT_ANY_GIVEN_TIME \<equiv> 10"
abbreviation MAX_TOPICS_AT_ANY_GIVEN_TIME :: nat where "MAX_TOPICS_AT_ANY_GIVEN_TIME \<equiv> 20"
abbreviation MAX_SIZE_OF_THING_NAME :: nat where "MAX_SIZE_OF_THING_NAME \<equiv> 30"
abbreviation MAX_SIZE_OF_UNIQUE_CLIENT_ID_BYTES :: nat where "MAX_SIZE_OF_UNIQUE_CLIENT_ID_BYTES \<equiv> 80"
abbreviation MAX_SIZE_CLIENT_ID_WITH_SEQUENCE :: nat where "MAX_SIZE_CLIENT_ID_WITH_SEQUENCE \<equiv> 90"
abbreviation MAX_SIZE_CLIENT_TOKEN_CLIENT_SEQUENCE :: nat
  where "MAX_SIZE_CLIENT_TOKEN_CLIENT_SEQUENCE \<equiv> 110"
abbreviation MAX_SHADOW_TOPIC_LENGTH_BYTES :: nat where "MAX_SHADOW_TOPIC_LENGTH_BYTES \<equiv> 90"
abbreviation SHADOW_MAX_SIZE_OF_RX_BUFFER :: nat where "SHADOW_MAX_SIZE_OF_RX_BUFFER \<equiv> 1025"
abbreviation SUBSCRIBE_SETTLING_TIME :: u32 where "SUBSCRIBE_SETTLING_TIME \<equiv> 2"

type_synonym 'v shadow_state = "Client \<times> Shadow \<times> 'v"

text \<open>\<open>on_ack fn thing action status document context\<close> and \<open>on_delta fn position length struct\<close>
  are the application's callbacks at the address \<open>fn\<close> (a position is an offset in \<open>shadowRxBuf\<close>),
  \<open>on_message\<close> and \<open>on_disconnect\<close> its own handlers of the MQTT client.\<close>

record 'v Shadow_App =
  libs :: Libs
  on_ack :: "ptr \<Rightarrow> byte list \<Rightarrow> ShadowActions_t \<Rightarrow> Shadow_Ack_Status_t \<Rightarrow> byte list \<Rightarrow> ptr
    \<Rightarrow> 'v shadow_state \<Rightarrow> 'v shadow_state option"
  on_delta :: "ptr \<Rightarrow> int \<Rightarrow> u32 \<Rightarrow> nat \<Rightarrow> 'v shadow_state \<Rightarrow> 'v shadow_state option"
  on_message :: "ptr \<Rightarrow> nat \<Rightarrow> u16 \<Rightarrow> Received_Publish \<Rightarrow> ptr \<Rightarrow> 'v shadow_state \<Rightarrow> 'v shadow_state option"
  on_disconnect :: "ptr \<Rightarrow> ptr \<Rightarrow> 'v shadow_state \<Rightarrow> 'v shadow_state option"
  AckStatusCallback_addr :: ptr
  myThingName_addr :: ptr
  shadow_delta_callback_addr :: ptr

definition with_shadow :: "(Shadow \<Rightarrow> Shadow) \<Rightarrow> 'v shadow_state \<Rightarrow> 'v shadow_state" where
  "with_shadow f = (\<lambda>(c, sh, v). (c, f sh, v))"

text \<open>A call of the MQTT client through the file's pointer.\<close>

definition via_client ::
  "('v shadow_state \<Rightarrow> (IoT_Error_t \<times> 'v shadow_state) option) \<Rightarrow> 'v shadow_state
   \<Rightarrow> (IoT_Error_t \<times> 'v shadow_state) option" where
  "via_client call s = (if pMqttClient (fst (snd s)) then call s else Some (NULL_VALUE_ERROR, s))"

section \<open>Delta tokens\<close>

definition initDeltaTokens :: "Shadow \<Rightarrow> Shadow" where
  "initDeltaTokens sh = sh\<lparr>tokenTable := map (\<lambda>t. t\<lparr>tt_isFree := True\<rparr>) (tokenTable sh),
     tokenTableIndex := 0, deltaTopicSubscribedFlag := False\<rparr>"

text \<open>The flag is set whatever the subscription returns.\<close>

definition registerJsonTokenOnDelta ::
  "(Shadow \<times> 'v) Env \<Rightarrow> 'v Shadow_App \<Rightarrow> nat \<Rightarrow> 'v shadow_state
   \<Rightarrow> (IoT_Error_t \<times> 'v shadow_state) option" where
  "registerJsonTokenOnDelta env app pStruct = (\<lambda>(c, sh, v). do {
     (rc, c, sh, v) \<leftarrow>
       (if \<not> deltaTopicSubscribedFlag sh then do {
          name \<leftarrow> c_str (myThingName sh);
          (_, topic) \<leftarrow> snprintf (shadowDeltaTopic sh) 0 (of_nat MAX_SHADOW_TOPIC_LENGTH_BYTES)
            (ascii ''$aws/things/'' @ name @ ascii ''/shadow/update/delta'');
          topicName \<leftarrow> c_str topic;
          (rc, s) \<leftarrow> via_client (aws_iot_mqtt_subscribe env (Some topicName)
            (of_nat (length topicName)) QOS0 (shadow_delta_callback_addr app) NULL)
            (c, sh\<lparr>shadowDeltaTopic := topic\<rparr>, v);
          Some (rc, with_shadow (\<lambda>sh. sh\<lparr>deltaTopicSubscribedFlag := True\<rparr>) s) }
        else Some (AWS_SUCCESS, c, sh, v));
     if of_nat MAX_JSON_TOKEN_EXPECTED \<le> tokenTableIndex sh then Some (AWS_FAILURE, c, sh, v)
     else if pStruct < length (jsonStructs sh) then
       let p = jsonStructs sh ! pStruct in
       Some (rc, c, sh\<lparr>tokenTable := (tokenTable sh)[unat (tokenTableIndex sh) :=
           \<lparr>tt_pKey = js_pKey p, tt_pStruct = pStruct, tt_callback = js_cb p, tt_isFree = False\<rparr>],
         tokenTableIndex := tokenTableIndex sh + 1\<rparr>, v)
     else None })"

section \<open>Topics\<close>

definition action_name :: "ShadowActions_t \<Rightarrow> string" where
  "action_name action = (case action of SHADOW_GET \<Rightarrow> ''get'' | SHADOW_UPDATE \<Rightarrow> ''update''
     | SHADOW_DELETE \<Rightarrow> ''delete'')"

definition topic_text :: "byte list \<Rightarrow> ShadowActions_t \<Rightarrow> ShadowAckTopicTypes_t \<Rightarrow> byte list" where
  "topic_text thing action ackType =
     ascii ''$aws/things/'' @ thing @ ascii ''/shadow/'' @ ascii (action_name action) @
     (case ackType of SHADOW_ACTION \<Rightarrow> [] | SHADOW_ACCEPTED \<Rightarrow> ascii ''/accepted''
      | SHADOW_REJECTED \<Rightarrow> ascii ''/rejected'')"

definition topicNameFromThingAndAction ::
  "byte list \<Rightarrow> byte list \<Rightarrow> ShadowActions_t \<Rightarrow> ShadowAckTopicTypes_t \<Rightarrow> byte list option" where
  "topicNameFromThingAndAction pTopic pThingName action ackType =
     map_option snd (snprintf pTopic 0 (of_nat MAX_SHADOW_TOPIC_LENGTH_BYTES)
       (topic_text pThingName action ackType))"

text \<open>The topic in a local array, as a string.\<close>

definition local_topic ::
  "byte list \<Rightarrow> ShadowActions_t \<Rightarrow> ShadowAckTopicTypes_t \<Rightarrow> byte list option" where
  "local_topic pThingName action ackType = do {
     m \<leftarrow> topicNameFromThingAndAction (replicate MAX_SHADOW_TOPIC_LENGTH_BYTES 0) pThingName action ackType;
     c_str m }"

text \<open>The topic is a position in the receive buffer, where it has no terminator of its own.\<close>

definition isAckForMyThingName :: "byte list \<Rightarrow> byte list \<Rightarrow> bool option" where
  "isAckForMyThingName myThing topic_mem = do {
     topic \<leftarrow> c_str topic_mem;
     name \<leftarrow> c_str myThing;
     Some (c_strstr topic name \<and>
       (c_strstr topic (ascii ''get/accepted'') \<or> c_strstr topic (ascii ''update/accepted'') \<or>
        c_strstr topic (ascii ''delta''))) }"

section \<open>The list of subscriptions\<close>

fun free_subscription :: "SubscriptionRecord_t list \<Rightarrow> nat \<Rightarrow> nat option" where
  "free_subscription [] i = None"
| "free_subscription (r # rs) i = (if sub_isFree r then Some i else free_subscription rs (Suc i))"

definition getNextFreeIndexOfSubscriptionList :: "Shadow \<Rightarrow> nat option \<times> Shadow" where
  "getNextFreeIndexOfSubscriptionList sh = (case free_subscription (SubscriptionList sh) 0 of
     Some i \<Rightarrow> (Some i, sh\<lparr>SubscriptionList := (SubscriptionList sh)[i :=
                 (SubscriptionList sh ! i)\<lparr>sub_isFree := False\<rparr>]\<rparr>)
   | None \<Rightarrow> (None, sh))"

fun find_subscription :: "byte list \<Rightarrow> SubscriptionRecord_t list \<Rightarrow> nat \<Rightarrow> nat option option" where
  "find_subscription t [] i = Some None"
| "find_subscription t (r # rs) i =
     (if \<not> sub_isFree r then do {
        s \<leftarrow> c_str (Topic r);
        if t = s then Some (Some i) else find_subscription t rs (Suc i) }
      else find_subscription t rs (Suc i))"

definition findIndexOfSubscriptionList :: "byte list \<Rightarrow> Shadow \<Rightarrow> nat option option" where
  "findIndexOfSubscriptionList pTopic sh = find_subscription pTopic (SubscriptionList sh) 0"

definition change_subscription ::
  "nat \<Rightarrow> (SubscriptionRecord_t \<Rightarrow> SubscriptionRecord_t) \<Rightarrow> Shadow \<Rightarrow> Shadow" where
  "change_subscription i f sh =
     sh\<lparr>SubscriptionList := (SubscriptionList sh)[i := f (SubscriptionList sh ! i)]\<rparr>"

text \<open>One of the two topics of a request is no longer waited for.\<close>

definition release_topic ::
  "(Shadow \<times> 'v) Env \<Rightarrow> byte list \<Rightarrow> 'v shadow_state \<Rightarrow> 'v shadow_state option" where
  "release_topic env topic = (\<lambda>(c, sh, v). do {
     indexSubList \<leftarrow> findIndexOfSubscriptionList topic sh;
     case indexSubList of None \<Rightarrow> Some (c, sh, v)
     | Some i \<Rightarrow>
         if \<not> isSticky (SubscriptionList sh ! i) \<and> sub_count (SubscriptionList sh ! i) = 1 then do {
           (ret_val, s) \<leftarrow> via_client (aws_iot_mqtt_unsubscribe env (Some topic) (of_nat (length topic)))
                              (c, sh, v);
           Some (if ret_val = AWS_SUCCESS
                 then with_shadow (change_subscription i (\<lambda>r. r\<lparr>sub_isFree := True\<rparr>)) s else s) }
         else if sub_count (SubscriptionList sh ! i) > 1
         then Some (c, change_subscription i (\<lambda>r. r\<lparr>sub_count := sub_count r - 1\<rparr>) sh, v)
         else Some (c, sh, v) })"

definition unsubscribeFromAcceptedAndRejected ::
  "(Shadow \<times> 'v) Env \<Rightarrow> nat \<Rightarrow> 'v shadow_state \<Rightarrow> 'v shadow_state option" where
  "unsubscribeFromAcceptedAndRejected env index = (\<lambda>(c, sh, v).
     let r = AckWaitList sh ! index in do {
     name \<leftarrow> c_str (thingName r);
     accepted \<leftarrow> local_topic name (ack_action r) SHADOW_ACCEPTED;
     rejected \<leftarrow> local_topic name (ack_action r) SHADOW_REJECTED;
     s \<leftarrow> release_topic env accepted (c, sh, v);
     release_topic env rejected s })"

definition initializeRecords :: "Shadow \<Rightarrow> Shadow" where
  "initializeRecords sh = sh\<lparr>
     AckWaitList := map (\<lambda>r. r\<lparr>ack_isFree := True\<rparr>) (AckWaitList sh),
     SubscriptionList := map (\<lambda>r. r\<lparr>sub_isFree := True, sub_count := 0, isSticky := False\<rparr>)
       (SubscriptionList sh),
     pMqttClient := True\<rparr>"

text \<open>Whether the topic is in the list; the scan stops nowhere.\<close>

fun topic_present :: "byte list \<Rightarrow> byte list \<Rightarrow> SubscriptionRecord_t list \<Rightarrow> bool \<times> bool \<Rightarrow> (bool \<times> bool) option"
  where
  "topic_present accepted rejected [] found = Some found"
| "topic_present accepted rejected (r # rs) (a, b) =
     (if \<not> sub_isFree r then do {
        s \<leftarrow> c_str (Topic r);
        topic_present accepted rejected rs
          (if accepted = s then (True, b) else if rejected = s then (a, True) else (a, b)) }
      else topic_present accepted rejected rs (a, b))"

definition isSubscriptionPresent :: "byte list \<Rightarrow> ShadowActions_t \<Rightarrow> Shadow \<Rightarrow> bool option" where
  "isSubscriptionPresent pThingName action sh = do {
     accepted \<leftarrow> local_topic pThingName action SHADOW_ACCEPTED;
     rejected \<leftarrow> local_topic pThingName action SHADOW_REJECTED;
     (isAcceptedPresent, isRejectedPresent) \<leftarrow>
       topic_present accepted rejected (SubscriptionList sh) (False, False);
     Some (isRejectedPresent \<and> isAcceptedPresent) }"

text \<open>\<^verbatim>\<open>while(!has_timer_expired(&subSettlingtimer));\<close>\<close>

fun settle_loop :: "nat \<Rightarrow> 'w Env \<Rightarrow> Timer \<Rightarrow> 'w \<Rightarrow> 'w option" where
  "settle_loop 0 env timer w = None"
| "settle_loop (Suc n) env timer w =
     (let (expired, w) = has_timer_expired env timer w
      in if \<not> expired then settle_loop n env timer w else Some w)"

definition subscribe_ack ::
  "(Shadow \<times> 'v) Env \<Rightarrow> 'v Shadow_App \<Rightarrow> nat \<Rightarrow> byte list \<Rightarrow> ShadowActions_t \<Rightarrow> ShadowAckTopicTypes_t
   \<Rightarrow> 'v shadow_state \<Rightarrow> (IoT_Error_t \<times> 'v shadow_state) option" where
  "subscribe_ack env app i pThingName action ackType = (\<lambda>(c, sh, v). do {
     topic \<leftarrow> topicNameFromThingAndAction (Topic (SubscriptionList sh ! i)) pThingName action ackType;
     topicName \<leftarrow> c_str topic;
     via_client (aws_iot_mqtt_subscribe env (Some topicName) (of_nat (length topicName)) QOS0
         (AckStatusCallback_addr app) NULL)
       (c, change_subscription i (\<lambda>r. r\<lparr>Topic := topic\<rparr>) sh, v) })"

text \<open>The clean-up of a failed subscription; an index of -1 (\<open>None\<close>) is used to read the list.\<close>

definition clear_entries ::
  "(Shadow \<times> 'v) Env \<Rightarrow> nat option \<Rightarrow> nat option \<Rightarrow> 'v shadow_state \<Rightarrow> 'v shadow_state option" where
  "clear_entries env indexAccepted indexRejected s =
     (let s = (case indexAccepted of
                 Some i \<Rightarrow> with_shadow (change_subscription i (\<lambda>r. r\<lparr>sub_isFree := True\<rparr>)) s
               | None \<Rightarrow> (case indexRejected of
                   Some i \<Rightarrow> with_shadow (change_subscription i (\<lambda>r. r\<lparr>sub_isFree := True\<rparr>)) s
                 | None \<Rightarrow> s))
      in do {
        i \<leftarrow> indexAccepted;
        let r = SubscriptionList (fst (snd s)) ! i in
        if sub_count r = 1 then do {
          topicName \<leftarrow> c_str (Topic r);
          map_option snd (via_client (aws_iot_mqtt_unsubscribe env (Some topicName)
            (of_nat (length topicName))) s) }
        else Some s })"

definition subscribeToShadowActionAcks ::
  "(Shadow \<times> 'v) Env \<Rightarrow> 'v Shadow_App \<Rightarrow> byte list \<Rightarrow> ShadowActions_t \<Rightarrow> bool \<Rightarrow> 'v shadow_state
   \<Rightarrow> (IoT_Error_t \<times> 'v shadow_state) option" where
  "subscribeToShadowActionAcks env app pThingName action sticky = (\<lambda>(c, sh, v).
     let (indexAccepted, sh) = getNextFreeIndexOfSubscriptionList sh;
         (indexRejected, sh) = getNextFreeIndexOfSubscriptionList sh in
     case (indexAccepted, indexRejected) of
       (Some i, Some j) \<Rightarrow> do {
         (ret_val, s) \<leftarrow> subscribe_ack env app i pThingName action SHADOW_ACCEPTED (c, sh, v);
         if ret_val \<noteq> AWS_SUCCESS then do {
           s \<leftarrow> clear_entries env (Some i) (Some j) s;
           Some (ret_val, s) }
         else do {
           (ret_val, s) \<leftarrow> subscribe_ack env app j pThingName action SHADOW_REJECTED
             (with_shadow (change_subscription i (\<lambda>r. r\<lparr>sub_count := 1, isSticky := sticky\<rparr>)) s);
           if ret_val \<noteq> AWS_SUCCESS then do {
             s \<leftarrow> clear_entries env (Some i) (Some j) s;
             Some (ret_val, s) }
           else
             let (c, w) = with_shadow (change_subscription j (\<lambda>r. r\<lparr>sub_count := 1, isSticky := sticky\<rparr>)) s;
                 (timer, w) = countdown_sec env SUBSCRIBE_SETTLING_TIME w
             in do { w \<leftarrow> settle_loop (fuel env) env timer w; Some (ret_val, c, w) } } }
     | _ \<Rightarrow> do {
         s \<leftarrow> clear_entries env indexAccepted indexRejected (c, sh, v);
         Some (AWS_SUCCESS, s) })"

fun increment_counts :: "byte list \<Rightarrow> byte list \<Rightarrow> bool \<Rightarrow> SubscriptionRecord_t list \<Rightarrow> SubscriptionRecord_t list option"
  where
  "increment_counts accepted rejected sticky [] = Some []"
| "increment_counts accepted rejected sticky (r # rs) = do {
     r \<leftarrow> (if \<not> sub_isFree r then do {
            s \<leftarrow> c_str (Topic r);
            Some (if accepted = s \<or> rejected = s
                  then r\<lparr>sub_count := sub_count r + 1, isSticky := sticky\<rparr> else r) }
          else Some r);
     rs \<leftarrow> increment_counts accepted rejected sticky rs;
     Some (r # rs) }"

definition incrementSubscriptionCnt :: "byte list \<Rightarrow> ShadowActions_t \<Rightarrow> bool \<Rightarrow> Shadow \<Rightarrow> Shadow option" where
  "incrementSubscriptionCnt pThingName action sticky sh = do {
     accepted \<leftarrow> local_topic pThingName action SHADOW_ACCEPTED;
     rejected \<leftarrow> local_topic pThingName action SHADOW_REJECTED;
     rs \<leftarrow> increment_counts accepted rejected sticky (SubscriptionList sh);
     Some (sh\<lparr>SubscriptionList := rs\<rparr>) }"

section \<open>Requests\<close>

text \<open>The parameters' retain and duplicate flags and identifier are not set; the publisher of a quality
  of service 0 message reads only the retain flag, here \<open>retained\<close>.\<close>

definition publishToShadowAction ::
  "(Shadow \<times> 'v) Env \<Rightarrow> byte \<Rightarrow> byte list option \<Rightarrow> ShadowActions_t \<Rightarrow> byte list option \<Rightarrow> 'v shadow_state
   \<Rightarrow> (IoT_Error_t \<times> 'v shadow_state) option" where
  "publishToShadowAction env retained pThingName action pJsonDocumentToBeSent s =
     (case (pThingName, pJsonDocumentToBeSent) of
        (Some thing, Some json) \<Rightarrow> do {
          topic \<leftarrow> local_topic thing action SHADOW_ACTION;
          via_client (\<lambda>s. map_option (\<lambda>((rc, p), s). (rc, s))
              (aws_iot_mqtt_publish env (Some topic) (of_nat (length topic))
                (Some \<lparr>msg_qos = QOS0, msg_isRetained = retained, msg_isDup = 0, msg_id = 0,
                       msg_payload = Some json, msg_payloadLen = of_nat (length json)\<rparr>) s)) s }
      | _ \<Rightarrow> Some (NULL_VALUE_ERROR, s))"

fun free_ack :: "ToBeReceivedAckRecord_t list \<Rightarrow> nat \<Rightarrow> nat option" where
  "free_ack [] i = None"
| "free_ack (r # rs) i = (if ack_isFree r then Some i else free_ack rs (Suc i))"

definition getNextFreeIndexOfAckWaitList :: "Shadow \<Rightarrow> nat option" where
  "getNextFreeIndexOfAckWaitList sh = free_ack (AckWaitList sh) 0"

definition addToAckWaitList ::
  "(Shadow \<times> 'v) Env \<Rightarrow> nat \<Rightarrow> byte list \<Rightarrow> ShadowActions_t \<Rightarrow> byte list \<Rightarrow> ptr \<Rightarrow> ptr \<Rightarrow> u32
   \<Rightarrow> 'v shadow_state \<Rightarrow> 'v shadow_state option" where
  "addToAckWaitList env index pThingName action token callback context timeout_seconds = (\<lambda>(c, sh, v).
     let r = AckWaitList sh ! index in do {
     tokenID \<leftarrow> c_strncpy (clientTokenID r) token MAX_SIZE_CLIENT_ID_WITH_SEQUENCE;
     name \<leftarrow> c_strncpy (thingName r) pThingName MAX_SIZE_OF_THING_NAME;
     let (timer, sh, v) = countdown_sec env timeout_seconds (sh, v) in
     Some (c, sh\<lparr>AckWaitList := (AckWaitList sh)[index := \<lparr>clientTokenID = tokenID, thingName = name,
       ack_action = action, ack_callback = callback, pCallbackContext = context, ack_isFree = False,
       ack_timer = timer\<rparr>]\<rparr>, v) })"

definition free_ack_record :: "nat \<Rightarrow> Shadow \<Rightarrow> Shadow" where
  "free_ack_record i sh = sh\<lparr>AckWaitList := (AckWaitList sh)[i := (AckWaitList sh ! i)\<lparr>ack_isFree := True\<rparr>]\<rparr>"

text \<open>The application's callback of a record, with the document in \<open>shadowRxBuf\<close>.\<close>

definition call_on_ack ::
  "'v Shadow_App \<Rightarrow> nat \<Rightarrow> Shadow_Ack_Status_t \<Rightarrow> 'v shadow_state \<Rightarrow> 'v shadow_state option" where
  "call_on_ack app i status s =
     (let r = AckWaitList (fst (snd s)) ! i in
      if ack_callback r \<noteq> NULL
      then on_ack app (ack_callback r) (thingName r) (ack_action r) status (shadowRxBuf (fst (snd s)))
             (pCallbackContext r) s
      else Some s)"

fun expire_loop ::
  "(Shadow \<times> 'v) Env \<Rightarrow> 'v Shadow_App \<Rightarrow> nat list \<Rightarrow> 'v shadow_state \<Rightarrow> 'v shadow_state option" where
  "expire_loop env app [] s = Some s"
| "expire_loop env app (i # is) (c, sh, v) =
     (if \<not> ack_isFree (AckWaitList sh ! i) then
        let (expired, sh, v) = has_timer_expired env (ack_timer (AckWaitList sh ! i)) (sh, v) in
        if expired then do {
          s \<leftarrow> call_on_ack app i SHADOW_ACK_TIMEOUT (c, sh, v);
          s \<leftarrow> unsubscribeFromAcceptedAndRejected env i (with_shadow (free_ack_record i) s);
          expire_loop env app is s }
        else expire_loop env app is (c, sh, v)
      else expire_loop env app is (c, sh, v))"

definition HandleExpiredResponseCallbacks ::
  "(Shadow \<times> 'v) Env \<Rightarrow> 'v Shadow_App \<Rightarrow> 'v shadow_state \<Rightarrow> 'v shadow_state option" where
  "HandleExpiredResponseCallbacks env app s = expire_loop env app [0..<MAX_ACKS_TO_COMEIN_AT_ANY_GIVEN_TIME] s"

section \<open>The handlers\<close>

text \<open>Both handlers copy the payload, with a terminator, into \<open>shadowRxBuf\<close> and parse it; \<open>None\<close> in
  the inner option is an early return.\<close>

definition receive_document ::
  "'v Shadow_App \<Rightarrow> Received_Publish \<Rightarrow> 'v shadow_state \<Rightarrow> (int option \<times> 'v shadow_state) option" where
  "receive_document app rx = (\<lambda>(c, sh, v).
     if unat (rx_payloadLen rx) > SHADOW_MAX_SIZE_OF_RX_BUFFER then Some (None, c, sh, v)
     else do {
       payload \<leftarrow> mem_take (unat (rx_payloadLen rx)) (drop (rx_payload rx) (readBuf c));
       (buf, _) \<leftarrow> put_bytes (payload @ [0]) (shadowRxBuf sh, 0);
       doc \<leftarrow> c_str buf;
       let (tokenCount, toks) = isJsonValidAndParse (libs app) doc (jsonTokenStruct sh) in
       Some (tokenCount, c, sh\<lparr>shadowRxBuf := buf, jsonTokenStruct := toks\<rparr>, v) })"

text \<open>The first waiting record with the token: the status is read off the topic, its callback is
  called, its topics are released, it is freed.\<close>

fun ack_loop ::
  "(Shadow \<times> 'v) Env \<Rightarrow> 'v Shadow_App \<Rightarrow> byte list \<Rightarrow> byte list \<Rightarrow> nat list \<Rightarrow> 'v shadow_state
   \<Rightarrow> 'v shadow_state option" where
  "ack_loop env app topic_mem token [] s = Some s"
| "ack_loop env app topic_mem token (i # is) (c, sh, v) =
     (if \<not> ack_isFree (AckWaitList sh ! i) then do {
        t \<leftarrow> c_str (clientTokenID (AckWaitList sh ! i));
        if t = token then do {
          topic \<leftarrow> c_str topic_mem;
          let status = (if c_strstr topic (ascii ''accepted'') then SHADOW_ACK_ACCEPTED else SHADOW_ACK_REJECTED) in do {
          s \<leftarrow> call_on_ack app i status (c, sh, v);
          s \<leftarrow> unsubscribeFromAcceptedAndRejected env i s;
          Some (with_shadow (free_ack_record i) s) } }
        else ack_loop env app topic_mem token is (c, sh, v) }
      else ack_loop env app topic_mem token is (c, sh, v))"

definition AckStatusCallback ::
  "(Shadow \<times> 'v) Env \<Rightarrow> 'v Shadow_App \<Rightarrow> nat \<Rightarrow> u16 \<Rightarrow> Received_Publish \<Rightarrow> ptr \<Rightarrow> 'v shadow_state
   \<Rightarrow> 'v shadow_state option" where
  "AckStatusCallback env app topicName topicNameLen params pData s = do {
     (tokenCount, c, sh, v) \<leftarrow> receive_document app params s;
     case tokenCount of None \<Rightarrow> Some (c, sh, v)
     | Some n \<Rightarrow> do {
         doc \<leftarrow> c_str (shadowRxBuf sh);
         mine \<leftarrow> isAckForMyThingName (myThingName sh) (drop topicName (readBuf c));
         sh \<leftarrow> (if mine then do {
                  version \<leftarrow> extractVersionNumber doc (jsonTokenStruct sh) n;
                  Some (case version of
                      Some x \<Rightarrow> (if x > shadowJsonVersionNum sh then sh\<lparr>shadowJsonVersionNum := x\<rparr> else sh)
                    | None \<Rightarrow> sh) }
                else Some sh);
         (isTokenPresent, token, toks) \<leftarrow> extractClientToken (libs app) doc
             (replicate MAX_SIZE_CLIENT_TOKEN_CLIENT_SEQUENCE 0) (jsonTokenStruct sh);
         let sh = sh\<lparr>jsonTokenStruct := toks\<rparr> in
         if isTokenPresent then do {
           t \<leftarrow> c_str token;
           ack_loop env app (drop topicName (readBuf c)) t [0..<MAX_ACKS_TO_COMEIN_AT_ANY_GIVEN_TIME] (c, sh, v) }
         else Some (c, sh, v) } }"

text \<open>The number of registered keys and the tokens are read again for every key, after the callback
  of the one before.\<close>

fun delta_loop ::
  "'v Shadow_App \<Rightarrow> int \<Rightarrow> nat list \<Rightarrow> 'v shadow_state \<Rightarrow> 'v shadow_state option" where
  "delta_loop app tokenCount [] s = Some s"
| "delta_loop app tokenCount (i # is) (c, sh, v) =
     (if \<not> i < unat (tokenTableIndex sh) then Some (c, sh, v)
      else
        let t = tokenTable sh ! i in
        if \<not> tt_isFree t then do {
          doc \<leftarrow> c_str (shadowRxBuf sh);
          (found, p) \<leftarrow> isJsonKeyMatchingAndUpdateValue (libs app) doc (jsonTokenStruct sh) tokenCount
                          (jsonStructs sh ! tt_pStruct t);
          let sh = sh\<lparr>jsonStructs := (jsonStructs sh)[tt_pStruct t := p]\<rparr> in
          case found of None \<Rightarrow> delta_loop app tokenCount is (c, sh, v)
          | Some (dataLength, dataPosition) \<Rightarrow> do {
              s \<leftarrow> (if tt_callback t \<noteq> NULL
                     then on_delta app (tt_callback t) dataPosition dataLength (tt_pStruct t) (c, sh, v)
                     else Some (c, sh, v));
              delta_loop app tokenCount is s } }
        else delta_loop app tokenCount is (c, sh, v))"

definition shadow_delta_callback ::
  "'v Shadow_App \<Rightarrow> nat \<Rightarrow> u16 \<Rightarrow> Received_Publish \<Rightarrow> ptr \<Rightarrow> 'v shadow_state \<Rightarrow> 'v shadow_state option" where
  "shadow_delta_callback app topicName topicNameLen params pData s = do {
     (tokenCount, c, sh, v) \<leftarrow> receive_document app params s;
     case tokenCount of None \<Rightarrow> Some (c, sh, v)
     | Some n \<Rightarrow> do {
         doc \<leftarrow> c_str (shadowRxBuf sh);
         version \<leftarrow> (if shadowDiscardOldDeltaFlag sh
                     then extractVersionNumber doc (jsonTokenStruct sh) n else Some None);
         case version of
           None \<Rightarrow> delta_loop app n [0..<MAX_JSON_TOKEN_EXPECTED] (c, sh, v)
         | Some x \<Rightarrow>
             if x > shadowJsonVersionNum sh
             then delta_loop app n [0..<MAX_JSON_TOKEN_EXPECTED] (c, sh\<lparr>shadowJsonVersionNum := x\<rparr>, v)
             else Some (c, sh, v) } }"

end
