(* ===== verification/Shadow_Actions.thy ===== *)
theory Shadow_Actions
  imports Shadow_Records Mqtt_Connect Mqtt_Yield
begin

text \<open>
  The Thing Shadow's interface: \<^verbatim>\<open>aws_iot_shadow_actions.c\<close> (one request, from the client token in
  its document to the record that waits for the response) and \<^verbatim>\<open>aws_iot_shadow.c\<close> (the functions
  the applications call).
\<close>

section \<open>A request\<close>

definition aws_iot_shadow_internal_action ::
  "(Shadow \<times> 'v) Env \<Rightarrow> 'v Shadow_App \<Rightarrow> byte \<Rightarrow> byte list option \<Rightarrow> ShadowActions_t \<Rightarrow> byte list option
   \<Rightarrow> ptr \<Rightarrow> ptr \<Rightarrow> u32 \<Rightarrow> bool \<Rightarrow> 'v shadow_state \<Rightarrow> (IoT_Error_t \<times> 'v shadow_state) option" where
  "aws_iot_shadow_internal_action env app retained pThingName action pJsonDocumentToBeSent callback
       cbContext timeout_seconds sticky = (\<lambda>(c, sh, v).
     case (pThingName, pJsonDocumentToBeSent) of
       (Some thing, Some json) \<Rightarrow> do {
         (isClientTokenPresent, token, toks) \<leftarrow> extractClientToken (libs app) json
           (replicate MAX_SIZE_CLIENT_ID_WITH_SEQUENCE 0) (jsonTokenStruct sh);
         let sh = sh\<lparr>jsonTokenStruct := toks\<rparr>;
             waits = (isClientTokenPresent \<and> callback \<noteq> NULL);
             indexAckWaitList = (if waits then getNextFreeIndexOfAckWaitList sh else None)
         in do {
         (ret_val, s) \<leftarrow>
           (if waits then
              case indexAckWaitList of None \<Rightarrow> Some (AWS_FAILURE, c, sh, v)
              | Some _ \<Rightarrow> do {
                  present \<leftarrow> isSubscriptionPresent thing action sh;
                  if \<not> present then subscribeToShadowActionAcks env app thing action sticky (c, sh, v)
                  else do {
                    sh \<leftarrow> incrementSubscriptionCnt thing action sticky sh;
                    Some (AWS_SUCCESS, c, sh, v) } }
            else Some (AWS_SUCCESS, c, sh, v));
         (ret_val, s) \<leftarrow> (if AWS_SUCCESS = ret_val
                          then publishToShadowAction env retained pThingName action pJsonDocumentToBeSent s
                          else Some (ret_val, s));
         if AWS_SUCCESS = ret_val then
           case indexAckWaitList of None \<Rightarrow> Some (ret_val, s)
           | Some i \<Rightarrow> do {
               t \<leftarrow> c_str token;
               s \<leftarrow> addToAckWaitList env i thing action t callback cbContext timeout_seconds s;
               Some (ret_val, s) }
         else Some (ret_val, s) } }
     | _ \<Rightarrow> Some (NULL_VALUE_ERROR, c, sh, v))"

section \<open>The interface\<close>

record ShadowInitParameters_t =
  si_pHost :: "byte list option"
  si_port :: u16
  si_pRootCA :: "byte list option"
  si_pClientCRT :: "byte list option"
  si_pClientKey :: "byte list option"
  si_enableAutoReconnect :: bool
  si_disconnectHandler :: ptr

record ShadowConnectParameters_t =
  sc_pMyThingName :: "byte list option"
  sc_pMqttClientId :: "byte list option"
  sc_mqttClientIdLen :: u16
  sc_deleteActionHandler :: ptr

definition aws_iot_shadow_reset_last_received_version :: "Shadow \<Rightarrow> Shadow" where
  "aws_iot_shadow_reset_last_received_version sh = sh\<lparr>shadowJsonVersionNum := 0\<rparr>"

definition aws_iot_shadow_get_last_received_version :: "Shadow \<Rightarrow> u32" where
  "aws_iot_shadow_get_last_received_version sh = shadowJsonVersionNum sh"

definition aws_iot_shadow_enable_discard_old_delta_msgs :: "Shadow \<Rightarrow> Shadow" where
  "aws_iot_shadow_enable_discard_old_delta_msgs sh = sh\<lparr>shadowDiscardOldDeltaFlag := True\<rparr>"

definition aws_iot_shadow_disable_discard_old_delta_msgs :: "Shadow \<Rightarrow> Shadow" where
  "aws_iot_shadow_disable_discard_old_delta_msgs sh = sh\<lparr>shadowDiscardOldDeltaFlag := False\<rparr>"

definition resetClientTokenSequenceNum :: "Shadow \<Rightarrow> Shadow" where
  "resetClientTokenSequenceNum sh = sh\<lparr>clientTokenNum := 0\<rparr>"

text \<open>\<open>uninit\<close> is the content of the local parameter structure, of which the function does not
  set the packet timeout, the data of the disconnect handler and the lock mode.\<close>

definition aws_iot_shadow_init ::
  "(Shadow \<times> 'v) Env \<Rightarrow> IoT_Client_Init_Params \<Rightarrow> ShadowInitParameters_t option \<Rightarrow> 'v shadow_state
   \<Rightarrow> IoT_Error_t \<times> 'v shadow_state" where
  "aws_iot_shadow_init env uninit pParams s =
     (case pParams of None \<Rightarrow> (NULL_VALUE_ERROR, s)
      | Some p \<Rightarrow>
          let mqttInitParams = uninit\<lparr>ip_enableAutoReconnect := si_enableAutoReconnect p,
                ip_pHostURL := si_pHost p, ip_port := si_port p, ip_pRootCALocation := si_pRootCA p,
                ip_pDeviceCertLocation := si_pClientCRT p, ip_pDevicePrivateKeyLocation := si_pClientKey p,
                ip_mqttCommandTimeout_ms := 20000, ip_tlsHandshakeTimeout_ms := 5000,
                ip_isSSLHostnameVerify := True, ip_disconnectHandler := si_disconnectHandler p\<rparr>;
              (rc, s) = aws_iot_mqtt_init env mqttInitParams s
          in if AWS_SUCCESS \<noteq> rc then (rc, s)
             else (AWS_SUCCESS, with_shadow (initDeltaTokens \<circ> aws_iot_shadow_reset_last_received_version
                                  \<circ> resetClientTokenSequenceNum) s))"

text \<open>The subscription to the deletion topic follows whatever the connect returned, and its result
  replaces the connect's.\<close>

definition aws_iot_shadow_connect ::
  "(Shadow \<times> 'v) Env \<Rightarrow> 'v Shadow_App \<Rightarrow> ShadowConnectParameters_t option \<Rightarrow> 'v shadow_state
   \<Rightarrow> (IoT_Error_t \<times> 'v shadow_state) option" where
  "aws_iot_shadow_connect env app pParams = (\<lambda>(c, sh, v).
     case pParams of None \<Rightarrow> Some (NULL_VALUE_ERROR, c, sh, v)
     | Some p \<Rightarrow> (case sc_pMqttClientId p of None \<Rightarrow> Some (NULL_VALUE_ERROR, c, sh, v)
       | Some clientId \<Rightarrow> do {
           thing \<leftarrow> sc_pMyThingName p;
           (_, name) \<leftarrow> snprintf (myThingName sh) 0 (of_nat MAX_SIZE_OF_THING_NAME) thing;
           (_, ident) \<leftarrow> snprintf (mqttClientID sh) 0 (of_nat MAX_SIZE_OF_UNIQUE_CLIENT_ID_BYTES) clientId;
           let sh = sh\<lparr>myThingName := name, mqttClientID := ident\<rparr>;
               ConnectParams = IoT_Client_Connect_Params_initializer\<lparr>keepAliveIntervalInSec := 20,
                 MQTTVersion := MQTT_3_1_1, isCleanSession := True, isWillMsgPresent := False,
                 pClientID := Some clientId, clientIDLen := sc_mqttClientIdLen p,
                 pPassword := None, pUsername := None\<rparr>
           in do {
           (rc, s) \<leftarrow> aws_iot_mqtt_connect env (Some ConnectParams) (c, sh, v);
           let s = (if AWS_SUCCESS = rc then with_shadow initializeRecords s else s) in
           if sc_deleteActionHandler p \<noteq> NULL then do {
             my \<leftarrow> c_str (myThingName (fst (snd s)));
             (_, topic) \<leftarrow> snprintf (replicate MAX_SHADOW_TOPIC_LENGTH_BYTES 0) 0
               (of_nat MAX_SHADOW_TOPIC_LENGTH_BYTES)
               (ascii ''$aws/things/'' @ my @ ascii ''/shadow/delete/accepted'');
             topicName \<leftarrow> c_str topic;
             aws_iot_mqtt_subscribe env (Some topicName) (of_nat (length topicName)) QOS1
               (sc_deleteActionHandler p) (myThingName_addr app) s }
           else Some (rc, s) } }))"

definition aws_iot_shadow_register_delta ::
  "(Shadow \<times> 'v) Env \<Rightarrow> 'v Shadow_App \<Rightarrow> nat option \<Rightarrow> 'v shadow_state
   \<Rightarrow> (IoT_Error_t \<times> 'v shadow_state) option" where
  "aws_iot_shadow_register_delta env app pStruct s =
     (case pStruct of None \<Rightarrow> Some (NULL_VALUE_ERROR, s)
      | Some p \<Rightarrow>
          if \<not> aws_iot_mqtt_is_client_connected (fst s) then Some (MQTT_CONNECTION_ERROR, s)
          else registerJsonTokenOnDelta env app p s)"

definition aws_iot_shadow_yield ::
  "(Shadow \<times> 'v) Env \<Rightarrow> 'v Shadow_App \<Rightarrow> u32 \<Rightarrow> 'v shadow_state
   \<Rightarrow> (IoT_Error_t \<times> 'v shadow_state) option" where
  "aws_iot_shadow_yield env app tmo s = do {
     s \<leftarrow> HandleExpiredResponseCallbacks env app s;
     aws_iot_mqtt_yield env tmo s }"

definition aws_iot_shadow_disconnect ::
  "(Shadow \<times> 'v) Env \<Rightarrow> 'v shadow_state \<Rightarrow> (IoT_Error_t \<times> 'v shadow_state) option" where
  "aws_iot_shadow_disconnect env s = aws_iot_mqtt_disconnect env s"

definition aws_iot_shadow_update ::
  "(Shadow \<times> 'v) Env \<Rightarrow> 'v Shadow_App \<Rightarrow> byte \<Rightarrow> byte list option \<Rightarrow> byte list option \<Rightarrow> ptr \<Rightarrow> ptr \<Rightarrow> byte
   \<Rightarrow> bool \<Rightarrow> 'v shadow_state \<Rightarrow> (IoT_Error_t \<times> 'v shadow_state) option" where
  "aws_iot_shadow_update env app retained pThingName pJsonString callback pContextData timeout_seconds
       isPersistentSubscribe s =
     (if \<not> aws_iot_mqtt_is_client_connected (fst s) then Some (MQTT_CONNECTION_ERROR, s)
      else aws_iot_shadow_internal_action env app retained pThingName SHADOW_UPDATE pJsonString callback
             pContextData (ucast timeout_seconds) isPersistentSubscribe s)"

text \<open>A get or delete request with a document of its own, in a local array.\<close>

definition token_request ::
  "(byte list \<Rightarrow> byte list \<Rightarrow> u32 \<Rightarrow> (byte list \<times> u32) option) \<Rightarrow> ShadowActions_t
   \<Rightarrow> (Shadow \<times> 'v) Env \<Rightarrow> 'v Shadow_App \<Rightarrow> byte \<Rightarrow> byte list option \<Rightarrow> ptr \<Rightarrow> ptr \<Rightarrow> byte
   \<Rightarrow> bool \<Rightarrow> 'v shadow_state \<Rightarrow> (IoT_Error_t \<times> 'v shadow_state) option" where
  "token_request request_json action env app retained pThingName callback pContextData timeout_seconds
       isPersistentSubscribe = (\<lambda>(c, sh, v).
     if \<not> aws_iot_mqtt_is_client_connected c then Some (MQTT_CONNECTION_ERROR, c, sh, v)
     else do {
       (buf, num) \<leftarrow> request_json (mqttClientID sh) (replicate MAX_SIZE_CLIENT_TOKEN_CLIENT_SEQUENCE 0)
                       (clientTokenNum sh);
       json \<leftarrow> c_str buf;
       aws_iot_shadow_internal_action env app retained pThingName action (Some json) callback pContextData
         (ucast timeout_seconds) isPersistentSubscribe (c, sh\<lparr>clientTokenNum := num\<rparr>, v) })"

definition aws_iot_shadow_delete ::
  "(Shadow \<times> 'v) Env \<Rightarrow> 'v Shadow_App \<Rightarrow> byte \<Rightarrow> byte list option \<Rightarrow> ptr \<Rightarrow> ptr \<Rightarrow> byte \<Rightarrow> bool
   \<Rightarrow> 'v shadow_state \<Rightarrow> (IoT_Error_t \<times> 'v shadow_state) option" where
  "aws_iot_shadow_delete = token_request aws_iot_shadow_internal_delete_request_json SHADOW_DELETE"

definition aws_iot_shadow_get ::
  "(Shadow \<times> 'v) Env \<Rightarrow> 'v Shadow_App \<Rightarrow> byte \<Rightarrow> byte list option \<Rightarrow> ptr \<Rightarrow> ptr \<Rightarrow> byte \<Rightarrow> bool
   \<Rightarrow> 'v shadow_state \<Rightarrow> (IoT_Error_t \<times> 'v shadow_state) option" where
  "aws_iot_shadow_get = token_request aws_iot_shadow_internal_get_request_json SHADOW_GET"

definition aws_iot_shadow_set_autoreconnect_status :: "bool \<Rightarrow> 'v shadow_state \<Rightarrow> IoT_Error_t \<times> 'v shadow_state"
  where
  "aws_iot_shadow_set_autoreconnect_status newStatus = (\<lambda>(c, sh, v).
     let (rc, c) = aws_iot_mqtt_autoreconnect_set_status newStatus c in (rc, c, sh, v))"

end
