(* ===== verification/Mqtt_Frame.thy ===== *)
theory Mqtt_Frame
  imports Mqtt_Yield
begin

text \<open>
  What the client does to the world around it: an invariant of the world that the operating system,
  the network stack and the application's callbacks keep is kept by every operation of the client.
  A layer above the client that lives in its world (the Thing Shadow) uses this to carry its own
  invariant through the calls it makes, and through the handlers they run.
\<close>

text \<open>Binds of pure steps.\<close>

lemmas pure_binds =
  ensures_bind_any [where m = "put_bytes a b" for a b] ensures_bind_any [where m = "mem_take a b" for a b]
  ensures_bind_any [where m = "rd a b" for a b] ensures_bind_any [where m = "rx_id a" for a]
  ensures_bind_any [where m = "case bs of [] \<Rightarrow> e | b # _ \<Rightarrow> Some b" for bs e]
  ensures_bind_any [where m = "aws_iot_mqtt_internal_write_len_to_buffer a b" for a b]

locale world_invariant =
  fixes env :: "'w Env" and I :: "'w \<Rightarrow> bool"
  assumes inv_ticks: "I w \<Longrightarrow> I (snd (os_ticks_get env w))"
    and inv_mutex_create: "I w \<Longrightarrow> I (snd (os_mutex_create env m w))"
    and inv_mutex_get: "I w \<Longrightarrow> I (snd (os_mutex_get env m x w))"
    and inv_mutex_put: "I w \<Longrightarrow> I (snd (os_mutex_put env m w))"
    and inv_tls_init: "I w \<Longrightarrow> I (snd (iot_tls_init env ip w))"
    and inv_connect: "I w \<Longrightarrow> I (snd (net_connect env w))"
    and inv_read: "I w \<Longrightarrow> net_read env n t w = Some (rc, bs, w') \<Longrightarrow> I w'"
    and inv_write: "I w \<Longrightarrow> I (snd (snd (net_write env bytes t w)))"
    and inv_disconnect: "I w \<Longrightarrow> I (snd (net_disconnect env w))"
    and inv_connected: "I w \<Longrightarrow> net_isConnected env = Some f \<Longrightarrow> I (snd (f w))"
    and inv_destroy: "I w \<Longrightarrow> I (snd (net_destroy env w))"
    and inv_handler: "I w \<Longrightarrow> app_handler env fn topic len rx d (c, w) = Some (c', w') \<Longrightarrow> I w'"
    and inv_disconnect_handler: "I w \<Longrightarrow> disconnect_handler env fn d (c, w) = Some (c', w') \<Longrightarrow> I w'"
begin

lemma timer_inv:
  "I w \<Longrightarrow> I (snd (left_ms env tm w))"
  "I w \<Longrightarrow> I (snd (has_timer_expired env tm w))"
  "I w \<Longrightarrow> I (snd (countdown_ms env ms w))"
  "I w \<Longrightarrow> I (snd (countdown_sec env ms w))"
  by (simp_all add: left_ms_def has_timer_expired_def countdown_ms_def countdown_sec_def Let_def
      case_prod_unfold inv_ticks)

lemma mutex_inv:
  "I w \<Longrightarrow> I (snd (aws_iot_mqtt_client_lock_mutex env c m w))"
  "I w \<Longrightarrow> I (snd (aws_iot_mqtt_client_unlock_mutex env m w))"
  "I w \<Longrightarrow> I (snd (aws_iot_thread_mutex_init env m w))"
  by (simp_all add: aws_iot_mqtt_client_lock_mutex_def aws_iot_thread_mutex_trylock_def
      aws_iot_thread_mutex_lock_def mutex_result_def aws_iot_mqtt_client_unlock_mutex_def
      aws_iot_thread_mutex_unlock_def aws_iot_thread_mutex_init_def inv_mutex_get inv_mutex_put inv_mutex_create)

lemma state_inv: "I (snd s) \<Longrightarrow> I (snd (snd (aws_iot_mqtt_set_client_state env old new s)))"
  by (simp add: aws_iot_mqtt_set_client_state_def Let_def case_prod_unfold mutex_inv)

lemmas world_inv = timer_inv mutex_inv state_inv inv_ticks inv_mutex_create inv_mutex_get inv_mutex_put
  inv_tls_init inv_connect inv_write inv_disconnect inv_connected inv_destroy

lemma read_inv: "I w \<Longrightarrow> ensures (\<lambda>x. I (snd (snd x))) (net_read env n t w)"
  using inv_read [of w n t] by (fastforce simp: ensures_def)

lemma handler_inv: "I (snd s) \<Longrightarrow> ensures (\<lambda>s. I (snd s)) (app_handler env fn topic len rx d s)"
  using inv_handler [of "snd s" fn topic len rx d "fst s"] by (fastforce simp: ensures_def)

lemma disconnect_handler_inv: "I (snd s) \<Longrightarrow> ensures (\<lambda>s. I (snd s)) (disconnect_handler env fn d s)"
  using inv_disconnect_handler [of "snd s" fn d "fst s"] by (fastforce simp: ensures_def)

lemma send_loop_inv: "I w \<Longrightarrow> ensures (\<lambda>x. I (snd x)) (send_loop n env c len tm sent w)"
  by (induction n arbitrary: sent w)
     (simp_all add: Let_def case_prod_unfold world_inv pure_binds)

lemma send_packet_inv: "I w \<Longrightarrow> ensures (\<lambda>x. I (snd x)) (aws_iot_mqtt_internal_send_packet env c len tm w)"
  unfolding aws_iot_mqtt_internal_send_packet_def
  by (auto simp: Let_def case_prod_unfold world_inv intro!: ensures_bind [OF send_loop_inv])

lemma read_into_inv: "I (snd s) \<Longrightarrow> ensures (\<lambda>x. I (snd (snd (snd x)))) (read_into env p n tm s)"
  unfolding read_into_def case_prod_unfold
  by (rule ensures_bind [OF read_inv], assumption) (simp add: pure_binds)

lemma decode_loop_inv:
  "I w \<Longrightarrow> ensures (\<lambda>x. I (snd x)) (decode_packet_remaining_len_loop n env tm len b mu r w)"
proof (induction n arbitrary: len b mu r w)
  case (Suc n)
  note first = ensures_bind [OF read_inv [OF Suc.prems]]
  show ?case
    using Suc.prems
    by (auto simp: Let_def case_prod_unfold pure_binds Suc.IH intro!: first simp del: One_nat_def)
qed simp

lemma drain_loop_inv:
  "I (snd s) \<Longrightarrow> ensures (\<lambda>x. I (snd x)) (drain_loop n env k rem tm nread tbr s)"
  by (induction n arbitrary: nread tbr s)
     (auto simp: Let_def case_prod_unfold intro!: ensures_bind [OF read_into_inv])

lemma read_packet_inv:
  assumes "I (snd s)"
  shows "ensures (\<lambda>x. I (snd (snd x))) (aws_iot_mqtt_internal_read_packet env tm pt s)"
proof -
  have body: "ensures (\<lambda>x. I (snd (snd (snd x))))
      (if 0 < (n :: u32) then read_into env p k t (buf, w) else Some (rc, l, buf, w))"
    if "I w" for n p k t buf w rc l
    using that read_into_inv [of "(buf, w)"] by simp
  have first: "ensures (\<lambda>x. I (snd (snd (snd x))))
      (read_into env p n tm (buf, snd (countdown_ms env ms (snd s))))" for p n buf ms
    using assms by (intro read_into_inv) (simp add: world_inv)
  show ?thesis
    unfolding aws_iot_mqtt_internal_read_packet_def aws_iot_mqtt_internal_decode_packet_remaining_len_def
      Let_def case_prod_unfold
    by (rule ensures_bind [OF first])
       (auto intro!: pure_binds ensures_bind [OF decode_loop_inv] ensures_bind [OF drain_loop_inv]
         ensures_bind [OF body])
qed

lemma deliver_loop_inv: "I (snd s) \<Longrightarrow> ensures (\<lambda>s. I (snd s)) (deliver_loop env topic len rx itrs s)"
proof (induction itrs arbitrary: s)
  case (Cons i itrs)
  then show ?case
    by (cases s) (auto simp: Let_def intro!: pure_binds ensures_bind [OF handler_inv] Cons.IH split: option.split)
qed simp

lemma deliver_inv:
  "I (snd s) \<Longrightarrow> ensures (\<lambda>x. I (snd (snd x))) (aws_iot_mqtt_internal_deliver_message env topic len rx s)"
  unfolding aws_iot_mqtt_internal_deliver_message_def Let_def case_prod_unfold
  by (rule ensures_bind [OF deliver_loop_inv]) (simp_all add: world_inv)

lemma handle_publish_inv:
  "I (snd s) \<Longrightarrow> ensures (\<lambda>x. I (snd (snd x))) (aws_iot_mqtt_internal_handle_publish env tm s)"
  unfolding aws_iot_mqtt_internal_handle_publish_def case_prod_unfold
  by (auto split: option.split sum.split intro!: pure_binds ensures_bind [OF deliver_inv]
      ensures_bind [OF send_packet_inv])

lemma cycle_read_inv:
  assumes "I (snd s)"
  shows "ensures (\<lambda>x. I (snd (snd x))) (aws_iot_mqtt_internal_cycle_read env tm pt s)"
proof -
  have first: "ensures (\<lambda>x. I (snd (snd x))) (aws_iot_mqtt_internal_read_packet env tm pt
      (fst s, snd (aws_iot_mqtt_client_lock_mutex env (fst s) Tls_read_mutex (snd s))))"
    using assms by (intro read_packet_inv) (simp add: world_inv)
  show ?thesis
    unfolding aws_iot_mqtt_internal_cycle_read_def Let_def case_prod_unfold
    using assms
    by (auto simp: world_inv intro!: ensures_bind [OF first] ensures_bind [OF handle_publish_inv])
qed

lemma wait_loop_inv: "I (snd s) \<Longrightarrow> ensures (\<lambda>x. I (snd (snd x))) (wait_loop n env pt tm rt s)"
  by (induction n arbitrary: rt s)
     (auto simp: Let_def case_prod_unfold world_inv intro!: ensures_bind [OF cycle_read_inv])

lemma wait_inv:
  "I (snd s) \<Longrightarrow> ensures (\<lambda>x. I (snd (snd x))) (aws_iot_mqtt_internal_wait_for_read env pt tm s)"
  unfolding aws_iot_mqtt_internal_wait_for_read_def case_prod_unfold
  by (rule ensures_bind [OF wait_loop_inv]) auto

lemma send_serialized_inv:
  "I (snd s) \<Longrightarrow> ensures (\<lambda>x. I (snd (snd x))) (send_serialized env tm packet s)"
  unfolding send_serialized_def case_prod_unfold
  by (auto split: option.split sum.split intro!: ensures_bind [OF send_packet_inv])

lemma return_code_inv: "I (snd s) \<Longrightarrow> ensures (\<lambda>x. I (snd (snd x))) (return_code m s)"
  by (auto simp: return_code_def split: option.split sum.split)

lemma on_success_inv:
  "ensures (\<lambda>x. I (snd (snd x))) m \<Longrightarrow> (\<And>s. I (snd s) \<Longrightarrow> ensures (\<lambda>x. I (snd (snd x))) (k s)) \<Longrightarrow>
   ensures (\<lambda>x. I (snd (snd x))) (on_success m k)"
  by (rule ensures_on_success [where R = "\<lambda>s. I (snd s)"])

lemmas command_inv = on_success_inv send_serialized_inv wait_inv return_code_inv

lemma internal_publish_inv:
  "I (snd s) \<Longrightarrow> ensures (\<lambda>x. I (snd (snd x))) (aws_iot_mqtt_internal_publish env topic len params s)"
  unfolding aws_iot_mqtt_internal_publish_def Let_def case_prod_unfold
  by (auto intro!: ensures_map command_inv simp: world_inv)

lemma publish_inv:
  "I (snd s) \<Longrightarrow> ensures (\<lambda>x. I (snd (snd x))) (aws_iot_mqtt_publish env topic len params s)"
  unfolding aws_iot_mqtt_publish_def Let_def case_prod_unfold
  by (auto split: option.split simp: world_inv intro!: ensures_bind [OF internal_publish_inv])

lemma internal_subscribe_inv:
  "I (snd s) \<Longrightarrow> ensures (\<lambda>x. I (snd (snd x))) (aws_iot_mqtt_internal_subscribe env topic len qos fn d s)"
  unfolding aws_iot_mqtt_internal_subscribe_def Let_def case_prod_unfold
  by (auto split: option.split sum.split intro!: command_inv simp: world_inv)

lemma subscribe_inv:
  "I (snd s) \<Longrightarrow> ensures (\<lambda>x. I (snd (snd x))) (aws_iot_mqtt_subscribe env topic len qos fn d s)"
  unfolding aws_iot_mqtt_subscribe_def Let_def case_prod_unfold
  by (auto split: option.split simp: world_inv intro!: ensures_bind [OF internal_subscribe_inv])

lemma internal_unsubscribe_inv:
  "I (snd s) \<Longrightarrow> ensures (\<lambda>x. I (snd (snd x))) (aws_iot_mqtt_internal_unsubscribe env topic len s)"
  unfolding aws_iot_mqtt_internal_unsubscribe_def Let_def case_prod_unfold
  by (auto split: option.split sum.split intro!: command_inv simp: world_inv)

lemma unsubscribe_inv:
  "I (snd s) \<Longrightarrow> ensures (\<lambda>x. I (snd (snd x))) (aws_iot_mqtt_unsubscribe env topic len s)"
  unfolding aws_iot_mqtt_unsubscribe_def Let_def case_prod_unfold
  by (auto split: option.split simp: world_inv intro!: ensures_bind [OF internal_unsubscribe_inv])

lemma resubscribe_loop_inv:
  "I (snd s) \<Longrightarrow> ensures (\<lambda>x. I (snd (snd x))) (resubscribe_loop env itrs s)"
proof (induction itrs arbitrary: s)
  case (Cons i itrs)
  then show ?case
    by (cases s) (auto simp: Let_def case_prod_unfold world_inv intro!: command_inv Cons.IH)
qed simp

lemma resubscribe_inv:
  "I (snd s) \<Longrightarrow> ensures (\<lambda>x. I (snd (snd x))) (aws_iot_mqtt_resubscribe env s)"
  unfolding aws_iot_mqtt_resubscribe_def aws_iot_mqtt_internal_resubscribe_def Let_def case_prod_unfold
  by (auto simp: world_inv intro!: ensures_bind [OF resubscribe_loop_inv])

lemma internal_connect_inv:
  "I (snd s) \<Longrightarrow> ensures (\<lambda>x. I (snd (snd x))) (aws_iot_mqtt_internal_connect env params s)"
  unfolding aws_iot_mqtt_internal_connect_def Let_def case_prod_unfold
  by (auto split: option.split sum.split intro!: command_inv simp: world_inv)

lemma connect_inv:
  "I (snd s) \<Longrightarrow> ensures (\<lambda>x. I (snd (snd x))) (aws_iot_mqtt_connect env params s)"
  unfolding aws_iot_mqtt_connect_def Let_def case_prod_unfold
  by (auto simp: world_inv intro!: ensures_bind [OF internal_connect_inv])

lemma internal_disconnect_inv:
  "I (snd s) \<Longrightarrow> ensures (\<lambda>x. I (snd (snd x))) (aws_iot_mqtt_internal_disconnect env s)"
  unfolding aws_iot_mqtt_internal_disconnect_def Let_def case_prod_unfold
  by (auto split: option.split sum.split intro!: command_inv simp: world_inv)

lemma disconnect_inv:
  "I (snd s) \<Longrightarrow> ensures (\<lambda>x. I (snd (snd x))) (aws_iot_mqtt_disconnect env s)"
  unfolding aws_iot_mqtt_disconnect_def Let_def case_prod_unfold
  by (auto simp: world_inv intro!: ensures_bind [OF internal_disconnect_inv])

lemma attempt_reconnect_inv:
  "I (snd s) \<Longrightarrow> ensures (\<lambda>x. I (snd (snd x))) (aws_iot_mqtt_attempt_reconnect env s)"
  unfolding aws_iot_mqtt_attempt_reconnect_def Let_def case_prod_unfold
  by (auto simp: world_inv intro!: ensures_bind [OF connect_inv] on_success_inv resubscribe_inv)

lemma handle_disconnect_inv:
  "I (snd s) \<Longrightarrow> ensures (\<lambda>x. I (snd (snd x))) (aws_iot_mqtt_handle_disconnect env s)"
proof -
  have tail: "ensures (\<lambda>s. I (snd s)) (if NULL \<noteq> disconnectHandler (fst s)
      then disconnect_handler env (disconnectHandler (fst s)) (disconnectHandlerData (fst s)) (fst s, snd s)
      else Some (fst s, snd s))" if "I (snd s)" for s
    using that by (simp add: disconnect_handler_inv)
  have force: "I (snd (aws_iot_mqtt_force_client_disconnect env s))" if "I (snd s)" for s
    using that by (simp add: aws_iot_mqtt_force_client_disconnect_def Let_def case_prod_unfold world_inv)
  assume "I (snd s)"
  then show ?thesis
    unfolding aws_iot_mqtt_handle_disconnect_def Let_def case_prod_unfold
    by (rule ensures_bind [OF disconnect_inv]) (rule ensures_bind [OF tail]; simp add: force)
qed

lemma handle_reconnect_inv:
  "I (snd s) \<Longrightarrow> ensures (\<lambda>x. I (snd (snd x))) (aws_iot_mqtt_handle_reconnect env s)"
  unfolding aws_iot_mqtt_handle_reconnect_def Let_def case_prod_unfold
  by (auto simp: world_inv split: option.split intro!: ensures_bind [OF attempt_reconnect_inv])

lemma keep_alive_inv:
  "I (snd s) \<Longrightarrow> ensures (\<lambda>x. I (snd (snd x))) (aws_iot_mqtt_keep_alive env s)"
  unfolding aws_iot_mqtt_keep_alive_def Let_def case_prod_unfold
  by (auto simp: world_inv split: option.split sum.split
      intro!: handle_disconnect_inv ensures_bind [OF send_serialized_inv])

lemma yield_read_inv:
  assumes "I (snd s)"
  shows "ensures (\<lambda>x. I (snd (snd x))) (yield_read env tm pt s)"
proof -
  have tail: "ensures (\<lambda>x. I (snd (snd x))) (if AWS_SUCCESS = rc then aws_iot_mqtt_keep_alive env s
      else if terminal_error rc then aws_iot_mqtt_handle_disconnect env s else Some (rc, s))"
    if "I (snd s)" for rc s
    using that by (simp add: keep_alive_inv handle_disconnect_inv)
  show ?thesis
    unfolding yield_read_def case_prod_unfold
    by (rule ensures_bind [OF cycle_read_inv [OF assms]]) (rule ensures_bind [OF tail]; simp)
qed

lemma yield_loop_inv: "I (snd s) \<Longrightarrow> ensures (\<lambda>x. I (snd (snd x))) (yield_loop n env tm pt s)"
proof (induction n arbitrary: pt s)
  case (Suc n)
  then show ?case
    by (cases s) (auto simp: Let_def case_prod_unfold world_inv
        intro!: ensures_bind [OF handle_reconnect_inv] ensures_bind [OF yield_read_inv] Suc.IH)
qed simp

lemma yield_inv: "I (snd s) \<Longrightarrow> ensures (\<lambda>x. I (snd (snd x))) (aws_iot_mqtt_yield env ms s)"
proof -
  have internal: "ensures (\<lambda>x. I (snd (snd x))) (aws_iot_mqtt_internal_yield env ms s)" if "I (snd s)" for s
    using that unfolding aws_iot_mqtt_internal_yield_def Let_def case_prod_unfold
    by (intro yield_loop_inv) (simp add: world_inv)
  assume "I (snd s)"
  then show ?thesis
    unfolding aws_iot_mqtt_yield_def Let_def case_prod_unfold
    by (auto simp: world_inv intro!: ensures_bind [OF internal])
qed

lemma init_inv: "I (snd s) \<Longrightarrow> I (snd (snd (aws_iot_mqtt_init env ip s)))"
  by (simp add: aws_iot_mqtt_init_def Let_def case_prod_unfold world_inv)

end

end
