(* ===== verification/Shadow_World.thy ===== *)
theory Shadow_World
  imports Shadow_Actions Mqtt_Frame
begin

text \<open>
  The Thing Shadow on the MQTT client.  \<open>shadow_env\<close> closes the circle between the two layers: it is
  an environment of the client whose world holds the shadow and whose handlers are those of the
  shadow, which themselves call the client.  The theory shows the type invariant of the shadow's
  variables, through every operation and every handler, and what requests, responses and delta
  messages do.
\<close>

section \<open>Both layers together\<close>

text \<open>The surroundings of the client with a layer's variables beside their world.\<close>

definition lift_env ::
  "'v Env \<Rightarrow> (ptr \<Rightarrow> nat \<Rightarrow> u16 \<Rightarrow> Received_Publish \<Rightarrow> ptr \<Rightarrow> Client \<times> 'a \<times> 'v \<Rightarrow> (Client \<times> 'a \<times> 'v) option)
   \<Rightarrow> (ptr \<Rightarrow> ptr \<Rightarrow> Client \<times> 'a \<times> 'v \<Rightarrow> (Client \<times> 'a \<times> 'v) option) \<Rightarrow> ('a \<times> 'v) Env" where
  "lift_env base handler disconnected =
     \<lparr>os_ticks_get = (\<lambda>(sh, v). let (r, v) = os_ticks_get base v in (r, sh, v)),
       os_mutex_create = (\<lambda>m (sh, v). let (r, v) = os_mutex_create base m v in (r, sh, v)),
       os_mutex_get = (\<lambda>m x (sh, v). let (r, v) = os_mutex_get base m x v in (r, sh, v)),
       os_mutex_put = (\<lambda>m (sh, v). let (r, v) = os_mutex_put base m v in (r, sh, v)),
       os_mutex_delete = (\<lambda>m (sh, v). let (r, v) = os_mutex_delete base m v in (r, sh, v)),
       iot_tls_init = (\<lambda>p (sh, v). let (r, v) = iot_tls_init base p v in (r, sh, v)),
       net_connect = (\<lambda>(sh, v). let (r, v) = net_connect base v in (r, sh, v)),
       net_read = (\<lambda>n t (sh, v). map_option (\<lambda>(rc, bs, v). (rc, bs, sh, v)) (net_read base n t v)),
       net_write = (\<lambda>bs t (sh, v). let (rc, k, v) = net_write base bs t v in (rc, k, sh, v)),
       net_disconnect = (\<lambda>(sh, v). let (r, v) = net_disconnect base v in (r, sh, v)),
       net_isConnected = map_option (\<lambda>f (sh, v). let (r, v) = f v in (r, sh, v)) (net_isConnected base),
       net_destroy = (\<lambda>(sh, v). let (r, v) = net_destroy base v in (r, sh, v)),
       app_handler = handler, disconnect_handler = disconnected, fuel = fuel base\<rparr>"

text \<open>\<open>n\<close> bounds how deep handlers nest: a handler's own call of the client may run handlers.\<close>

fun shadow_env :: "nat \<Rightarrow> 'v Env \<Rightarrow> 'v Shadow_App \<Rightarrow> (Shadow \<times> 'v) Env" where
  "shadow_env 0 base app = lift_env base (\<lambda>_ _ _ _ _ _. None) (on_disconnect app)"
| "shadow_env (Suc n) base app = lift_env base
     (\<lambda>fn topic len rx d.
        if fn = AckStatusCallback_addr app then AckStatusCallback (shadow_env n base app) app topic len rx d
        else if fn = shadow_delta_callback_addr app then shadow_delta_callback app topic len rx d
        else on_message app fn topic len rx d)
     (on_disconnect app)"

section \<open>The type invariant\<close>

definition subscription_ok :: "SubscriptionRecord_t \<Rightarrow> bool" where
  "subscription_ok r \<longleftrightarrow> length (Topic r) = MAX_SHADOW_TOPIC_LENGTH_BYTES \<and> 0 \<in> set (Topic r)"

definition ack_ok :: "ToBeReceivedAckRecord_t \<Rightarrow> bool" where
  "ack_ok r \<longleftrightarrow> length (clientTokenID r) = MAX_SIZE_CLIENT_ID_WITH_SEQUENCE \<and>
     length (thingName r) = MAX_SIZE_OF_THING_NAME"

definition shadow_wf :: "Shadow \<Rightarrow> bool" where
  "shadow_wf sh \<longleftrightarrow>
     length (AckWaitList sh) = MAX_ACKS_TO_COMEIN_AT_ANY_GIVEN_TIME \<and> list_all ack_ok (AckWaitList sh) \<and>
     length (SubscriptionList sh) = MAX_TOPICS_AT_ANY_GIVEN_TIME \<and>
     list_all subscription_ok (SubscriptionList sh) \<and>
     length (tokenTable sh) = MAX_JSON_TOKEN_EXPECTED \<and>
     unat (tokenTableIndex sh) \<le> MAX_JSON_TOKEN_EXPECTED \<and>
     (\<forall>i < unat (tokenTableIndex sh). tt_pStruct (tokenTable sh ! i) < length (jsonStructs sh)) \<and>
     length (myThingName sh) = MAX_SIZE_OF_THING_NAME \<and>
     length (mqttClientID sh) = MAX_SIZE_OF_UNIQUE_CLIENT_ID_BYTES \<and>
     length (shadowDeltaTopic sh) = MAX_SHADOW_TOPIC_LENGTH_BYTES \<and>
     length (shadowRxBuf sh) = SHADOW_MAX_SIZE_OF_RX_BUFFER \<and>
     length (jsonTokenStruct sh) = MAX_JSON_TOKEN_EXPECTED"

text \<open>The parser stores no more tokens than it has room for, and the application's callbacks keep the
  invariant of variables that are not theirs.\<close>

definition app_ok :: "'v Shadow_App \<Rightarrow> bool" where
  "app_ok app \<longleftrightarrow>
     (\<forall>js n. length (snd (jsmn_parse (libs app) js n)) \<le> n) \<and>
     (\<forall>fn thing a st doc d s s'. on_ack app fn thing a st doc d s = Some s' \<longrightarrow>
        shadow_wf (fst (snd s)) \<longrightarrow> shadow_wf (fst (snd s'))) \<and>
     (\<forall>fn p l i s s'. on_delta app fn p l i s = Some s' \<longrightarrow> shadow_wf (fst (snd s)) \<longrightarrow> shadow_wf (fst (snd s'))) \<and>
     (\<forall>fn topic len rx d s s'. on_message app fn topic len rx d s = Some s' \<longrightarrow>
        shadow_wf (fst (snd s)) \<longrightarrow> shadow_wf (fst (snd s'))) \<and>
     (\<forall>fn d s s'. on_disconnect app fn d s = Some s' \<longrightarrow> shadow_wf (fst (snd s)) \<longrightarrow> shadow_wf (fst (snd s')))"

definition shadow_inv :: "'v Shadow_App \<Rightarrow> Shadow \<times> 'v \<Rightarrow> bool" where
  "shadow_inv app w \<longleftrightarrow> (app_ok app \<longrightarrow> shadow_wf (fst w))"

locale shadow_layer = world_invariant env "shadow_inv app"
  for env :: "(Shadow \<times> 'v) Env" and app :: "'v Shadow_App"
begin

lemma via_client_inv:
  assumes "shadow_inv app (snd s)" "ensures (\<lambda>x. shadow_inv app (snd (snd x))) (call s)"
  shows "ensures (\<lambda>x. shadow_inv app (snd (snd x))) (via_client call s)"
  using assms by (simp add: via_client_def)

lemma with_shadow_inv:
  assumes "shadow_inv app (snd s)" "\<And>sh. shadow_wf sh \<Longrightarrow> shadow_wf (f sh)"
  shows "shadow_inv app (snd (with_shadow f s))"
  using assms by (cases s) (simp add: with_shadow_def shadow_inv_def)

end

lemma list_all_update:
  "list_all P xs \<Longrightarrow> (i < length xs \<Longrightarrow> P x) \<Longrightarrow> list_all P (xs[i := x])"
  by (cases "i < length xs") (auto simp: list_all_length nth_list_update)

named_theorems wf

lemma wf_change_subscription [wf]:
  "shadow_wf sh \<Longrightarrow> (\<And>r. subscription_ok r \<Longrightarrow> subscription_ok (f r)) \<Longrightarrow> shadow_wf (change_subscription i f sh)"
  by (auto simp: shadow_wf_def change_subscription_def intro!: list_all_update)
     (auto simp: list_all_length)

lemma wf_free_ack_record [wf]: "shadow_wf sh \<Longrightarrow> shadow_wf (free_ack_record i sh)"
  by (auto simp: shadow_wf_def free_ack_record_def ack_ok_def intro!: list_all_update)
     (auto simp: list_all_length ack_ok_def)

lemma wf_initDeltaTokens [wf]: "shadow_wf sh \<Longrightarrow> shadow_wf (initDeltaTokens sh)"
  by (simp add: shadow_wf_def initDeltaTokens_def)

lemma wf_initializeRecords [wf]: "shadow_wf sh \<Longrightarrow> shadow_wf (initializeRecords sh)"
  by (simp add: shadow_wf_def initializeRecords_def list_all_length ack_ok_def subscription_ok_def)

lemma wf_nextFree [wf]:
  "shadow_wf sh \<Longrightarrow> shadow_wf (snd (getNextFreeIndexOfSubscriptionList sh))"
  using wf_change_subscription [of sh "\<lambda>r. r\<lparr>sub_isFree := False\<rparr>"]
  by (auto simp: getNextFreeIndexOfSubscriptionList_def change_subscription_def subscription_ok_def
      split: option.split)

lemma wf_simple [wf]:
  "shadow_wf sh \<Longrightarrow> shadow_wf (sh\<lparr>deltaTopicSubscribedFlag := b\<rparr>)"
  "shadow_wf sh \<Longrightarrow> shadow_wf (sh\<lparr>shadowJsonVersionNum := x\<rparr>)"
  "shadow_wf sh \<Longrightarrow> shadow_wf (sh\<lparr>clientTokenNum := x\<rparr>)"
  "shadow_wf sh \<Longrightarrow> shadow_wf (sh\<lparr>shadowDiscardOldDeltaFlag := b\<rparr>)"
  "shadow_wf sh \<Longrightarrow> length buf = length (shadowDeltaTopic sh) \<Longrightarrow> shadow_wf (sh\<lparr>shadowDeltaTopic := buf\<rparr>)"
  "shadow_wf sh \<Longrightarrow> length buf = length (shadowRxBuf sh) \<Longrightarrow> shadow_wf (sh\<lparr>shadowRxBuf := buf\<rparr>)"
  "shadow_wf sh \<Longrightarrow> length toks = MAX_JSON_TOKEN_EXPECTED \<Longrightarrow> shadow_wf (sh\<lparr>jsonTokenStruct := toks\<rparr>)"
  "shadow_wf sh \<Longrightarrow> length buf = length (myThingName sh) \<Longrightarrow> shadow_wf (sh\<lparr>myThingName := buf\<rparr>)"
  "shadow_wf sh \<Longrightarrow> length buf = length (mqttClientID sh) \<Longrightarrow> shadow_wf (sh\<lparr>mqttClientID := buf\<rparr>)"
  "shadow_wf sh \<Longrightarrow> length ps = length (jsonStructs sh) \<Longrightarrow> shadow_wf (sh\<lparr>jsonStructs := ps\<rparr>)"
  by (simp_all add: shadow_wf_def)

text \<open>Printing a topic ends it inside its array.\<close>

lemma wf_topic:
  assumes "topicNameFromThingAndAction pTopic thing action ackType = Some topic"
    "length pTopic = MAX_SHADOW_TOPIC_LENGTH_BYTES"
  shows "length topic = MAX_SHADOW_TOPIC_LENGTH_BYTES \<and> 0 \<in> set topic"
  using assms by (auto simp: topicNameFromThingAndAction_def snprintf_def put_bytes_def Let_def split: if_splits)

lemma wf_strncpy: "c_strncpy dst src n = Some m \<Longrightarrow> length m = length dst"
  by (auto simp: c_strncpy_def put_bytes_def split: if_splits)

lemma wf_parse:
  assumes "\<forall>js n. length (snd (jsmn_parse lib js n)) \<le> n" "length toks = MAX_JSON_TOKEN_EXPECTED"
  shows "length (snd (parse_document lib doc toks)) = MAX_JSON_TOKEN_EXPECTED"
  using assms(1) [rule_format, of doc MAX_JSON_TOKEN_EXPECTED] assms(2)
  by (auto simp: parse_document_def split: prod.split)

lemma wf_extract:
  assumes "extractClientToken lib doc buf toks = Some (b, out, toks')"
    "\<forall>js n. length (snd (jsmn_parse lib js n)) \<le> n" "length toks = MAX_JSON_TOKEN_EXPECTED"
  shows "length toks' = MAX_JSON_TOKEN_EXPECTED"
proof -
  have "toks' = snd (parse_document lib doc toks)"
    using assms(1) by (auto simp: extractClientToken_def Let_def bind_eq_Some_conv
        split: prod.splits if_splits option.splits)
  then show ?thesis
    using wf_parse [OF assms(2,3)] by simp
qed

lemma wf_increment:
  assumes "increment_counts a r st rs = Some rs'"
  shows "length rs' = length rs \<and> (list_all subscription_ok rs \<longrightarrow> list_all subscription_ok rs')"
  using assms
  by (induction rs arbitrary: rs')
     (fastforce simp: bind_eq_Some_conv subscription_ok_def split: if_splits)+

section \<open>Every operation keeps the invariant\<close>

lemma app_okD:
  assumes "app_ok app"
  shows "\<forall>js n. length (snd (jsmn_parse (libs app) js n)) \<le> n"
    "on_ack app fn thing a st doc d s = Some s' \<Longrightarrow> shadow_wf (fst (snd s)) \<Longrightarrow> shadow_wf (fst (snd s'))"
    "on_delta app fn p l i s = Some s' \<Longrightarrow> shadow_wf (fst (snd s)) \<Longrightarrow> shadow_wf (fst (snd s'))"
    "on_message app fn topic len rx d s = Some s' \<Longrightarrow> shadow_wf (fst (snd s)) \<Longrightarrow> shadow_wf (fst (snd s'))"
    "on_disconnect app fn d s = Some s' \<Longrightarrow> shadow_wf (fst (snd s)) \<Longrightarrow> shadow_wf (fst (snd s'))"
proof -
  note ok = assms [unfolded app_ok_def]
  show "\<forall>js n. length (snd (jsmn_parse (libs app) js n)) \<le> n"
    by (rule conjunct1 [OF ok])
  show "on_ack app fn thing a st doc d s = Some s' \<Longrightarrow> shadow_wf (fst (snd s)) \<Longrightarrow> shadow_wf (fst (snd s'))"
    using conjunct1 [OF conjunct2 [OF ok]] by blast
  show "on_delta app fn p l i s = Some s' \<Longrightarrow> shadow_wf (fst (snd s)) \<Longrightarrow> shadow_wf (fst (snd s'))"
    using conjunct1 [OF conjunct2 [OF conjunct2 [OF ok]]] by blast
  show "on_message app fn topic len rx d s = Some s' \<Longrightarrow> shadow_wf (fst (snd s)) \<Longrightarrow> shadow_wf (fst (snd s'))"
    using conjunct1 [OF conjunct2 [OF conjunct2 [OF conjunct2 [OF ok]]]] by blast
  show "on_disconnect app fn d s = Some s' \<Longrightarrow> shadow_wf (fst (snd s)) \<Longrightarrow> shadow_wf (fst (snd s'))"
    using conjunct2 [OF conjunct2 [OF conjunct2 [OF conjunct2 [OF ok]]]] by blast
qed

context shadow_layer begin

lemma inv_with_shadow:
  assumes "shadow_inv app (snd s)" "\<And>sh. shadow_wf sh \<Longrightarrow> shadow_wf (f sh)"
  shows "shadow_inv app (snd (with_shadow f s))"
  using assms by (rule with_shadow_inv)

lemma inv_shadow: "shadow_inv app (sh, v) \<Longrightarrow> (shadow_wf sh \<Longrightarrow> app_ok app \<Longrightarrow> shadow_wf sh') \<Longrightarrow> shadow_inv app (sh', v')"
  by (simp add: shadow_inv_def)

lemma via_unsubscribe_inv:
  "shadow_inv app (snd s) \<Longrightarrow>
   ensures (\<lambda>x. shadow_inv app (snd (snd x))) (via_client (aws_iot_mqtt_unsubscribe env topic len) s)"
  by (intro via_client_inv unsubscribe_inv)

lemma via_subscribe_inv:
  "shadow_inv app (snd s) \<Longrightarrow>
   ensures (\<lambda>x. shadow_inv app (snd (snd x))) (via_client (aws_iot_mqtt_subscribe env topic len qos fn d) s)"
  by (intro via_client_inv subscribe_inv)

lemma release_topic_inv:
  assumes "shadow_inv app (snd s)"
  shows "ensures (\<lambda>s. shadow_inv app (snd s)) (release_topic env topic s)"
proof -
  obtain c sh v where s: "s = (c, sh, v)" by (cases s)
  note unsub = ensures_bind [OF via_unsubscribe_inv [OF assms]]
  show ?thesis
    unfolding s release_topic_def case_prod_unfold fst_conv snd_conv
    by (rule ensures_bind_any)
       (auto simp: assms s [symmetric] subscription_ok_def split: option.split
         intro!: unsub inv_with_shadow wf inv_shadow [OF assms [unfolded s snd_conv]])
qed

lemma unsubscribeFrom_inv:
  "shadow_inv app (snd s) \<Longrightarrow>
   ensures (\<lambda>s. shadow_inv app (snd s)) (unsubscribeFromAcceptedAndRejected env i s)"
  unfolding unsubscribeFromAcceptedAndRejected_def Let_def case_prod_unfold
  by (rule ensures_bind_any, rule ensures_bind_any, rule ensures_bind_any,
      rule ensures_bind [OF release_topic_inv]) (simp_all add: release_topic_inv)

lemma subscribe_ack_inv:
  assumes "shadow_inv app (snd s)"
  shows "ensures (\<lambda>x. shadow_inv app (snd (snd x))) (subscribe_ack env app i thing action ackType s)"
proof -
  obtain c sh v where s: "s = (c, sh, v)" by (cases s)
  have wf': "shadow_inv app (change_subscription i (\<lambda>r. r\<lparr>Topic := topic\<rparr>) sh, v)"
    if "topicNameFromThingAndAction (Topic (SubscriptionList sh ! i)) thing action ackType = Some topic" for topic
  proof (rule inv_shadow [OF assms [unfolded s snd_conv]])
    assume w: "shadow_wf sh"
    show "shadow_wf (change_subscription i (\<lambda>r. r\<lparr>Topic := topic\<rparr>) sh)"
    proof (cases "i < length (SubscriptionList sh)")
      case True
      then have "subscription_ok (SubscriptionList sh ! i)"
        using w by (simp add: shadow_wf_def list_all_length)
      then have "subscription_ok ((SubscriptionList sh ! i)\<lparr>Topic := topic\<rparr>)"
        using wf_topic [OF that] by (simp add: subscription_ok_def)
      then show ?thesis
        using w by (auto simp: shadow_wf_def change_subscription_def intro: list_all_update)
    next
      case False
      then show ?thesis
        using w by (simp add: change_subscription_def list_update_beyond not_less)
    qed
  qed
  show ?thesis
  proof (rule ensuresI)
    fix x
    assume "subscribe_ack env app i thing action ackType s = Some x"
    then obtain topic name where t: "topicNameFromThingAndAction (Topic (SubscriptionList sh ! i)) thing action ackType = Some topic"
      and x: "via_client (aws_iot_mqtt_subscribe env (Some name) (of_nat (length name)) QOS0
        (AckStatusCallback_addr app) NULL) (c, change_subscription i (\<lambda>r. r\<lparr>Topic := topic\<rparr>) sh, v) = Some x"
      by (auto simp: subscribe_ack_def s bind_eq_Some_conv)
    show "shadow_inv app (snd (snd x))"
      by (rule ensuresD [OF via_subscribe_inv x]) (use wf' [OF t] in simp_all)
  qed
qed

lemma settle_inv: "shadow_inv app w \<Longrightarrow> ensures (shadow_inv app) (settle_loop n env tm w)"
  by (induction n arbitrary: w) (auto simp: Let_def case_prod_unfold world_inv)

lemma clear_entries_inv:
  assumes "shadow_inv app (snd s)"
  shows "ensures (\<lambda>s. shadow_inv app (snd s)) (clear_entries env i j s)"
proof -
  have free: "shadow_inv app (snd (with_shadow (change_subscription k (\<lambda>r. r\<lparr>sub_isFree := True\<rparr>)) s))" for k
    by (rule inv_with_shadow [OF assms], rule wf) (simp_all add: subscription_ok_def)
  show ?thesis
    unfolding clear_entries_def Let_def
    by (cases i; cases j)
       (auto intro!: ensures_bind_any ensures_map via_unsubscribe_inv free)
qed

lemma subscribeToShadowActionAcks_inv:
  assumes "shadow_inv app (snd s)"
  shows "ensures (\<lambda>x. shadow_inv app (snd (snd x))) (subscribeToShadowActionAcks env app thing action st s)"
proof -
  obtain c sh v where s: "s = (c, sh, v)" by (cases s)
  let ?sh1 = "snd (getNextFreeIndexOfSubscriptionList sh)"
  have i1: "shadow_inv app (?sh1, v)"
    using assms by (auto simp: s shadow_inv_def wf)
  then have i2: "shadow_inv app (snd (getNextFreeIndexOfSubscriptionList ?sh1), v)"
    by (auto simp: shadow_inv_def wf)
  have cleared: "ensures (\<lambda>x. shadow_inv app (snd (snd x)))
      (do { s \<leftarrow> clear_entries env i j s; Some (rc :: IoT_Error_t, s) })" if "shadow_inv app (snd s)" for i j s rc
    by (rule ensures_bind [OF clear_entries_inv [OF that]]) simp
  have counted: "shadow_inv app (snd (with_shadow (change_subscription i (\<lambda>r. r\<lparr>sub_count := 1, isSticky := st\<rparr>)) s))"
    if "shadow_inv app (snd s)" for i s
    by (rule inv_with_shadow [OF that], rule wf) (simp_all add: subscription_ok_def)
  have settled: "ensures (\<lambda>x. shadow_inv app (snd (snd x)))
      (do { w \<leftarrow> settle_loop (fuel env) env (fst (countdown_sec env SUBSCRIBE_SETTLING_TIME w))
              (snd (countdown_sec env SUBSCRIBE_SETTLING_TIME w)); Some (rc :: IoT_Error_t, c, w) })"
    if "shadow_inv app w" for w rc and c :: Client
    by (rule ensures_bind [OF settle_inv]) (simp_all add: world_inv that)
  show ?thesis
    unfolding subscribeToShadowActionAcks_def Let_def case_prod_unfold
    using i2
    by (auto simp: s split: option.split
        intro!: cleared settled counted ensures_bind [OF subscribe_ack_inv])
qed

lemma increment_inv:
  assumes "shadow_inv app (sh, v)"
  shows "ensures (\<lambda>sh'. shadow_inv app (sh', v)) (incrementSubscriptionCnt thing action st sh)"
  using assms
  by (auto simp: incrementSubscriptionCnt_def ensures_def bind_eq_Some_conv shadow_inv_def shadow_wf_def
      dest: wf_increment)

lemma publish_action_inv:
  assumes "shadow_inv app (snd s)"
  shows "ensures (\<lambda>x. shadow_inv app (snd (snd x))) (publishToShadowAction env retained thing action json s)"
proof -
  have "ensures (\<lambda>x. shadow_inv app (snd (snd x)))
      (map_option (\<lambda>((rc, p), s). (rc, s)) (aws_iot_mqtt_publish env topic len params s))" for topic len params
    unfolding case_prod_unfold by (rule ensures_map) (simp add: publish_inv [OF assms])
  then show ?thesis
    unfolding publishToShadowAction_def
    by (auto split: option.split intro!: ensures_bind_any via_client_inv assms)
qed

lemma addToAckWaitList_inv:
  assumes "shadow_inv app (snd s)"
  shows "ensures (\<lambda>s. shadow_inv app (snd s)) (addToAckWaitList env i thing action token cb ctx tmo s)"
proof -
  obtain c sh v where s: "s = (c, sh, v)" by (cases s)
  show ?thesis
  proof (rule ensuresI)
    fix s'
    assume "addToAckWaitList env i thing action token cb ctx tmo s = Some s'"
    moreover obtain tm sh1 v1 where cd: "countdown_sec env tmo (sh, v) = (tm, sh1, v1)"
      by (metis prod.collapse)
    ultimately obtain tokenID name where
        t: "c_strncpy (clientTokenID (AckWaitList sh ! i)) token MAX_SIZE_CLIENT_ID_WITH_SEQUENCE = Some tokenID"
          "c_strncpy (thingName (AckWaitList sh ! i)) thing MAX_SIZE_OF_THING_NAME = Some name"
      and s': "s' = (c, sh1\<lparr>AckWaitList := (AckWaitList sh1)[i := \<lparr>clientTokenID = tokenID, thingName = name,
         ack_action = action, ack_callback = cb, pCallbackContext = ctx, ack_isFree = False,
         ack_timer = tm\<rparr>]\<rparr>, v1)"
      by (auto simp: addToAckWaitList_def s bind_eq_Some_conv Let_def)
    have "shadow_inv app (sh1, v1)"
      using world_inv(4) [of "(sh, v)" tmo] assms by (simp add: s cd)
    moreover have "shadow_wf (sh1\<lparr>AckWaitList := (AckWaitList sh1)[i := \<lparr>clientTokenID = tokenID, thingName = name,
         ack_action = action, ack_callback = cb, pCallbackContext = ctx, ack_isFree = False, ack_timer = tm\<rparr>]\<rparr>)"
      if w: "shadow_wf sh1" "app_ok app"
    proof -
      have "shadow_wf sh"
        using assms w(2) by (simp add: s shadow_inv_def)
      then have "i < length (AckWaitList sh1) \<Longrightarrow> length tokenID = MAX_SIZE_CLIENT_ID_WITH_SEQUENCE \<and>
          length name = MAX_SIZE_OF_THING_NAME"
        using w(1) wf_strncpy [OF t(1)] wf_strncpy [OF t(2)]
        by (simp add: shadow_wf_def list_all_length ack_ok_def)
      then show ?thesis
        using w(1) by (auto simp: shadow_wf_def ack_ok_def intro!: list_all_update)
    qed
    ultimately show "shadow_inv app (snd s')"
      by (simp add: s' shadow_inv_def)
  qed
qed

lemma call_on_ack_inv:
  "shadow_inv app (snd s) \<Longrightarrow> ensures (\<lambda>s. shadow_inv app (snd s)) (call_on_ack app i status s)"
  unfolding call_on_ack_def Let_def ensures_def shadow_inv_def by (auto dest: app_okD(2))

lemma free_inv: "shadow_inv app (snd s) \<Longrightarrow> shadow_inv app (snd (with_shadow (free_ack_record i) s))"
  by (rule inv_with_shadow) (simp_all add: wf)

lemma expire_loop_inv:
  "shadow_inv app (snd s) \<Longrightarrow> ensures (\<lambda>s. shadow_inv app (snd s)) (expire_loop env app is s)"
proof (induction "is" arbitrary: s)
  case (Cons i "is")
  obtain c sh v where s: "s = (c, sh, v)" by (cases s)
  have t: "shadow_inv app (snd (has_timer_expired env tm (sh, v)))" for tm
    using Cons.prems by (simp add: s world_inv)
  show ?case
    using Cons.prems t
    by (auto simp: s Let_def case_prod_unfold
        intro!: Cons.IH ensures_bind [OF call_on_ack_inv] ensures_bind [OF unsubscribeFrom_inv] free_inv)
qed simp

lemma expired_inv:
  "shadow_inv app (snd s) \<Longrightarrow> ensures (\<lambda>s. shadow_inv app (snd s)) (HandleExpiredResponseCallbacks env app s)"
  unfolding HandleExpiredResponseCallbacks_def by (rule expire_loop_inv)

lemma ack_loop_inv:
  "shadow_inv app (snd s) \<Longrightarrow> ensures (\<lambda>s. shadow_inv app (snd s)) (ack_loop env app topic token is s)"
proof (induction "is" arbitrary: s)
  case (Cons i "is")
  then show ?case
    by (cases s) (auto intro!: ensures_bind_any [where m = "c_str a" for a] Cons.IH
        ensures_bind [OF call_on_ack_inv] ensures_bind [OF unsubscribeFrom_inv] free_inv)
qed simp

lemma receive_document_inv:
  assumes "shadow_inv app (snd s)"
  shows "ensures (\<lambda>x. shadow_inv app (snd (snd x))) (receive_document app rx s)"
proof -
  obtain c sh v where s: "s = (c, sh, v)" by (cases s)
  have "shadow_inv app (sh\<lparr>shadowRxBuf := buf,
      jsonTokenStruct := snd (isJsonValidAndParse (libs app) doc (jsonTokenStruct sh))\<rparr>, v)"
    if "put_bytes bs (shadowRxBuf sh, 0) = Some (buf, k)" for bs buf k doc
  proof (rule inv_shadow [OF assms [unfolded s snd_conv]])
    assume w: "shadow_wf sh" and a: "app_ok app"
    have "snd (isJsonValidAndParse (libs app) doc (jsonTokenStruct sh))
        = snd (parse_document (libs app) doc (jsonTokenStruct sh))"
      by (simp add: isJsonValidAndParse_def case_prod_unfold Let_def)
    then have "length (snd (isJsonValidAndParse (libs app) doc (jsonTokenStruct sh))) = MAX_JSON_TOKEN_EXPECTED"
      using wf_parse [OF app_okD(1) [OF a]] w by (simp add: shadow_wf_def)
    moreover have "length buf = length (shadowRxBuf sh)"
      using that(1) by (auto simp: put_bytes_def split: if_splits)
    ultimately show "shadow_wf (sh\<lparr>shadowRxBuf := buf,
        jsonTokenStruct := snd (isJsonValidAndParse (libs app) doc (jsonTokenStruct sh))\<rparr>)"
      using w by (simp add: shadow_wf_def)
  qed
  then show ?thesis
    using assms
    by (auto simp: receive_document_def s ensures_def bind_eq_Some_conv Let_def case_prod_unfold split: if_splits)
qed

end

context shadow_layer begin

lemma inv_version: "shadow_inv app (sh, v) \<Longrightarrow> shadow_inv app (sh\<lparr>shadowJsonVersionNum := x\<rparr>, v)"
  by (auto simp: shadow_inv_def wf)

lemma inv_tokens:
  "shadow_inv app (sh, v) \<Longrightarrow> extractClientToken (libs app) doc buf (jsonTokenStruct sh) = Some (b, out, toks) \<Longrightarrow>
   shadow_inv app (sh\<lparr>jsonTokenStruct := toks\<rparr>, v)"
  by (rule inv_shadow, assumption) (auto simp: shadow_wf_def dest: wf_extract app_okD(1))

lemma AckStatusCallback_inv:
  assumes "shadow_inv app (snd s)"
  shows "ensures (\<lambda>s. shadow_inv app (snd s)) (AckStatusCallback env app topic len rx d s)"
proof -
  have tail: "ensures (\<lambda>s. shadow_inv app (snd s)) (do {
      (isTokenPresent, token, toks) \<leftarrow> extractClientToken (libs app) doc buf (jsonTokenStruct sh);
      let sh = sh\<lparr>jsonTokenStruct := toks\<rparr> in
      if isTokenPresent then do { t \<leftarrow> c_str token; ack_loop env app m t is (c, sh, v) }
      else Some (c, sh, v) })" if "shadow_inv app (sh, v)" for doc buf sh v m "is" c
    using inv_tokens [OF that]
    by (intro ensures_bind [where R = "\<lambda>(b, t, toks). shadow_inv app (sh\<lparr>jsonTokenStruct := toks\<rparr>, v)"])
       (auto simp: Let_def ensures_def [of _ "extractClientToken a b c d" for a b c d]
         intro!: ensures_bind_any [where m = "c_str a" for a] ack_loop_inv)
  have version: "ensures (\<lambda>sh'. shadow_inv app (sh', v)) (if mine then do {
      version \<leftarrow> extractVersionNumber doc (jsonTokenStruct sh) n;
      Some (case version of
          Some x \<Rightarrow> (if x > shadowJsonVersionNum sh then sh\<lparr>shadowJsonVersionNum := x\<rparr> else sh)
        | None \<Rightarrow> sh) } else Some sh)" if "shadow_inv app (sh, v)" for mine doc sh v n
    using that by (auto intro!: ensures_bind_any simp: inv_version split: option.split)
  show ?thesis
    unfolding AckStatusCallback_def
    by (rule ensures_bind [OF receive_document_inv [OF assms]])
       (auto simp del: Let_def split: option.split
         intro!: ensures_bind_any [where m = "c_str a" for a] ensures_bind_any [where m = "isAckForMyThingName a b" for a b]
           ensures_bind [OF version] tail)
qed

lemma delta_loop_inv:
  "shadow_inv app (snd s) \<Longrightarrow> ensures (\<lambda>s. shadow_inv app (snd s)) (delta_loop app n is s)"
proof (induction "is" arbitrary: s)
  case (Cons i "is")
  obtain c sh v where s: "s = (c, sh, v)" by (cases s)
  have upd: "shadow_inv app (sh\<lparr>jsonStructs := (jsonStructs sh)[k := p]\<rparr>, v)" for k p
    using Cons.prems by (auto simp: s shadow_inv_def wf)
  have call: "ensures (\<lambda>s. shadow_inv app (snd s)) (on_delta app fn p l k s)"
    if "shadow_inv app (snd s)" for fn p l k s
    using that app_okD(3) by (fastforce simp: ensures_def shadow_inv_def)
  show ?case
    using Cons.prems upd
    by (auto simp: s Let_def split: option.split intro!: Cons.IH ensures_bind [OF call]
        ensures_bind_any [where m = "c_str a" for a]
        ensures_bind_any [where m = "isJsonKeyMatchingAndUpdateValue a b c d e" for a b c d e])
qed simp

lemma shadow_delta_callback_inv:
  assumes "shadow_inv app (snd s)"
  shows "ensures (\<lambda>s. shadow_inv app (snd s)) (shadow_delta_callback app topic len rx d s)"
  unfolding shadow_delta_callback_def
  by (rule ensures_bind [OF receive_document_inv [OF assms]])
     (auto split: option.split intro!: ensures_bind_any delta_loop_inv inv_version)

end

context shadow_layer begin

lemma internal_action_inv:
  assumes "shadow_inv app (snd s)"
  shows "ensures (\<lambda>x. shadow_inv app (snd (snd x)))
    (aws_iot_shadow_internal_action env app retained thing action json cb ctx tmo st s)"
proof -
  obtain c sh v where s: "s = (c, sh, v)" by (cases s)
  have i: "shadow_inv app (sh, v)"
    using assms by (simp add: s)
  have start: "ensures (\<lambda>x. shadow_inv app (sh\<lparr>jsonTokenStruct := snd (snd x)\<rparr>, v))
      (extractClientToken (libs app) doc buf (jsonTokenStruct sh))" for doc buf
    using inv_tokens [OF i] by (auto simp: ensures_def)
  have add: "ensures (\<lambda>x. shadow_inv app (snd (snd x))) (do {
      t \<leftarrow> c_str token; s \<leftarrow> addToAckWaitList env i th action t cb ctx tmo s; Some (rc :: IoT_Error_t, s) })"
    if "shadow_inv app (snd s)" for token i th rc s
    by (rule ensures_bind_any, rule ensures_bind [OF addToAckWaitList_inv [OF that]]) simp
  have publish: "ensures (\<lambda>x. shadow_inv app (snd (snd x)))
      (if AWS_SUCCESS = rc then publishToShadowAction env retained th action js s else Some (rc, s))"
    if "shadow_inv app (snd s)" for rc s th js
    using publish_action_inv [OF that] that by simp
  have subscr: "ensures (\<lambda>x. shadow_inv app (snd (snd x)))
      (if w then case idx of None \<Rightarrow> Some (AWS_FAILURE, c, sh, v)
         | Some i \<Rightarrow> do {
             present \<leftarrow> isSubscriptionPresent th action sh;
             if \<not> present then subscribeToShadowActionAcks env app th action st (c, sh, v)
             else do { sh \<leftarrow> incrementSubscriptionCnt th action st sh; Some (AWS_SUCCESS, c, sh, v) } }
       else Some (AWS_SUCCESS, c, sh, v))" if "shadow_inv app (sh, v)" for w and idx :: "nat option" and th c sh v
    using that
    by (auto split: option.split intro!: ensures_bind_any [where m = "isSubscriptionPresent a b c" for a b c]
        subscribeToShadowActionAcks_inv ensures_bind [OF increment_inv [OF that]])
  have request: "ensures (\<lambda>x. shadow_inv app (snd (snd x)))
      (aws_iot_shadow_internal_action env app retained (Some th) action (Some js) cb ctx tmo st (c, sh, v))" for th js
    unfolding aws_iot_shadow_internal_action_def Let_def case_prod_unfold prod.case option.case fst_conv snd_conv
    by (rule ensures_bind [OF start], rule ensures_bind [OF subscr], assumption,
        rule ensures_bind [OF publish], assumption) (auto split: option.split intro!: add)
  show ?thesis
    using request i
    by (cases thing; cases json) (simp_all add: s, simp_all add: aws_iot_shadow_internal_action_def)
qed

end

context shadow_layer begin

lemma register_inv:
  assumes "shadow_inv app (snd s)"
  shows "ensures (\<lambda>x. shadow_inv app (snd (snd x))) (registerJsonTokenOnDelta env app p s)"
proof -
  obtain c sh v where s: "s = (c, sh, v)" by (cases s)
  have topic: "ensures (\<lambda>x. shadow_inv app (sh\<lparr>shadowDeltaTopic := snd x\<rparr>, v))
      (snprintf (shadowDeltaTopic sh) 0 n src)" for n src
    using assms by (auto simp: s ensures_def snprintf_def put_bytes_def Let_def shadow_inv_def shadow_wf_def
        split: if_splits)
  have flag: "shadow_inv app (snd (with_shadow (\<lambda>sh. sh\<lparr>deltaTopicSubscribedFlag := True\<rparr>) s))"
    if "shadow_inv app (snd s)" for s
    by (rule inv_with_shadow [OF that]) (rule wf)
  have first: "ensures (\<lambda>x. shadow_inv app (snd (snd x)))
      (if \<not> deltaTopicSubscribedFlag sh then do {
          name \<leftarrow> c_str (myThingName sh);
          (_, topic) \<leftarrow> snprintf (shadowDeltaTopic sh) 0 (of_nat MAX_SHADOW_TOPIC_LENGTH_BYTES)
            (ascii ''$aws/things/'' @ name @ ascii ''/shadow/update/delta'');
          topicName \<leftarrow> c_str topic;
          (rc, s) \<leftarrow> via_client (aws_iot_mqtt_subscribe env (Some topicName)
            (of_nat (length topicName)) QOS0 (shadow_delta_callback_addr app) NULL)
            (c, sh\<lparr>shadowDeltaTopic := topic\<rparr>, v);
          Some (rc, with_shadow (\<lambda>sh. sh\<lparr>deltaTopicSubscribedFlag := True\<rparr>) s) }
       else Some (AWS_SUCCESS, c, sh, v))"
    using assms unfolding case_prod_unfold
    by (auto simp: s flag intro!: ensures_bind_any [where m = "c_str a" for a] ensures_bind [OF topic]
        ensures_bind [OF via_subscribe_inv])
  have entry: "shadow_inv app (sh\<lparr>tokenTable := (tokenTable sh)[unat (tokenTableIndex sh) := t],
         tokenTableIndex := tokenTableIndex sh + 1\<rparr>, v)"
    if "shadow_inv app (sh, v)" "\<not> of_nat MAX_JSON_TOKEN_EXPECTED \<le> tokenTableIndex sh"
      "tt_pStruct t < length (jsonStructs sh)" for sh v t
  proof -
    have "unat (tokenTableIndex sh + 1) = unat (tokenTableIndex sh) + 1"
      using that(2) by (simp add: word_le_nat_alt unat_word_ariths)
    then show ?thesis
      using that by (auto simp: shadow_inv_def shadow_wf_def word_le_nat_alt nth_list_update less_Suc_eq)
  qed
  show ?thesis
    unfolding registerJsonTokenOnDelta_def s prod.case
    by (rule ensures_bind [OF first]) (auto simp: Let_def entry)
qed

lemma token_request_inv:
  assumes "shadow_inv app (snd s)"
  shows "ensures (\<lambda>x. shadow_inv app (snd (snd x))) (token_request rj action env app retained thing cb ctx tmo st s)"
proof -
  obtain c sh v where s: "s = (c, sh, v)" by (cases s)
  have "shadow_inv app (sh\<lparr>clientTokenNum := n\<rparr>, v)" for n
    using assms by (auto simp: s shadow_inv_def wf)
  then show ?thesis
    using assms unfolding token_request_def s
    by (auto intro!: internal_action_inv ensures_bind_any [where m = "c_str a" for a]
        ensures_bind_any [where m = "rj a b d" for a b d])
qed

lemma connect_shadow_inv:
  assumes "shadow_inv app (snd s)"
  shows "ensures (\<lambda>x. shadow_inv app (snd (snd x))) (aws_iot_shadow_connect env app params s)"
proof -
  obtain c sh v where s: "s = (c, sh, v)" by (cases s)
  have len: "ensures (\<lambda>x. length (snd x) = length dst) (snprintf dst 0 n src)" for dst n src
    by (auto simp: ensures_def snprintf_def put_bytes_def Let_def split: if_splits)
  have names: "shadow_inv app (sh\<lparr>myThingName := a, mqttClientID := b\<rparr>, v)"
    if "length a = length (myThingName sh)" "length b = length (mqttClientID sh)" for a b
    using assms that by (simp add: s shadow_inv_def shadow_wf_def)
  have records: "shadow_inv app (snd (if AWS_SUCCESS = rc then with_shadow initializeRecords s else s))"
    if "shadow_inv app (snd s)" for rc s
    using that by (simp add: inv_with_shadow wf)
  have deleted: "ensures (\<lambda>x. shadow_inv app (snd (snd x)))
     (if sc_deleteActionHandler p \<noteq> NULL then do {
             my \<leftarrow> c_str (myThingName (fst (snd s)));
             (_, topic) \<leftarrow> snprintf (replicate MAX_SHADOW_TOPIC_LENGTH_BYTES 0) 0
               (of_nat MAX_SHADOW_TOPIC_LENGTH_BYTES)
               (ascii ''$aws/things/'' @ my @ ascii ''/shadow/delete/accepted'');
             topicName \<leftarrow> c_str topic;
             aws_iot_mqtt_subscribe env (Some topicName) (of_nat (length topicName)) QOS1
               (sc_deleteActionHandler p) (myThingName_addr app) s }
           else Some (rc, s))" if "shadow_inv app (snd s)" for p rc s
    using that unfolding case_prod_unfold
    by (auto intro!: ensures_bind_any [where m = "c_str a" for a] ensures_bind [OF len] subscribe_inv)
  show ?thesis
    using assms names unfolding aws_iot_shadow_connect_def Let_def s case_prod_unfold
    by (auto split: option.split intro!: ensures_bind_any [where m = "sc_pMyThingName a" for a]
        ensures_bind [OF len] ensures_bind [OF connect_inv] deleted [unfolded case_prod_unfold] records)
qed

end

context shadow_layer begin

lemma yield_shadow_inv:
  "shadow_inv app (snd s) \<Longrightarrow> ensures (\<lambda>x. shadow_inv app (snd (snd x))) (aws_iot_shadow_yield env app tmo s)"
  unfolding aws_iot_shadow_yield_def by (rule ensures_bind [OF expired_inv]) (simp_all add: yield_inv)

lemma init_shadow_inv:
  assumes "shadow_inv app (snd s)"
  shows "shadow_inv app (snd (snd (aws_iot_shadow_init env uninit p s)))"
proof -
  have "shadow_inv app (snd (snd (aws_iot_mqtt_init env ip s)))" for ip
    using assms by (rule init_inv)
  then show ?thesis
    using assms by (auto simp: aws_iot_shadow_init_def Let_def case_prod_unfold aws_iot_shadow_reset_last_received_version_def
        resetClientTokenSequenceNum_def wf intro!: inv_with_shadow split: option.split)
qed

end

section \<open>The environment is one\<close>

lemma lift_env_world:
  assumes "\<And>fn topic len rx d c w c' w'. shadow_inv app w \<Longrightarrow>
      h fn topic len rx d (c, w) = Some (c', w') \<Longrightarrow> shadow_inv app w'"
  shows "world_invariant (lift_env base h (on_disconnect app)) (shadow_inv app)"
proof -
  have "shadow_inv app w'"
    if "shadow_inv app w" "on_disconnect app fn d (c, w) = Some (c', w')" for fn d c w c' w'
    using that app_okD(5) [of app fn d "(c, w)" "(c', w')"] by (simp add: shadow_inv_def)
  note env = this
  show ?thesis
  proof unfold_locales
    fix n t w rc bs w'
    assume "shadow_inv app w" "net_read (lift_env base h (on_disconnect app)) n t w = Some (rc, bs, w')"
    then show "shadow_inv app w'"
      by (auto simp: lift_env_def shadow_inv_def case_prod_unfold)
  next
    fix w f
    assume "shadow_inv app w" "net_isConnected (lift_env base h (on_disconnect app)) = Some f"
    then show "shadow_inv app (snd (f w))"
      by (auto simp: lift_env_def shadow_inv_def case_prod_unfold Let_def)
  next
    fix fn topic len rx d c w c' w'
    assume "shadow_inv app w" "app_handler (lift_env base h (on_disconnect app)) fn topic len rx d (c, w) = Some (c', w')"
    then show "shadow_inv app w'"
      using assms by (simp add: lift_env_def)
  next
    fix fn d c w c' w'
    assume "shadow_inv app w" "disconnect_handler (lift_env base h (on_disconnect app)) fn d (c, w) = Some (c', w')"
    then show "shadow_inv app w'"
      using env by (simp add: lift_env_def)
  qed (simp_all add: lift_env_def shadow_inv_def case_prod_unfold Let_def)
qed

lemma shadow_env_world: "world_invariant (shadow_env n base app) (shadow_inv app)"
proof (induction n)
  case 0
  show ?case
    unfolding shadow_env.simps by (rule lift_env_world) simp
next
  case (Suc n)
  note layer = shadow_layer.intro [OF Suc]
  show ?case
    unfolding shadow_env.simps
  proof (rule lift_env_world)
    fix fn topic len rx d c w c' w'
    assume w: "shadow_inv app w"
      and run: "(if fn = AckStatusCallback_addr app
          then AckStatusCallback (shadow_env n base app) app topic len rx d
          else if fn = shadow_delta_callback_addr app then shadow_delta_callback app topic len rx d
          else on_message app fn topic len rx d) (c, w) = Some (c', w')"
    consider "AckStatusCallback (shadow_env n base app) app topic len rx d (c, w) = Some (c', w')"
      | "shadow_delta_callback app topic len rx d (c, w) = Some (c', w')"
      | "on_message app fn topic len rx d (c, w) = Some (c', w')"
      using run by (auto split: if_splits)
    then show "shadow_inv app w'"
    proof cases
      case 1
      then show ?thesis
        using ensuresD [OF shadow_layer.AckStatusCallback_inv [OF layer] 1] w by simp
    next
      case 2
      then show ?thesis
        using ensuresD [OF shadow_layer.shadow_delta_callback_inv [OF layer] 2] w by simp
    next
      case 3
      then show ?thesis
        using w app_okD(4) [OF _ 3] by (simp add: shadow_inv_def)
    qed
  qed
qed

interpretation shadow: shadow_layer "shadow_env n base app" app for n base app
  by (rule shadow_layer.intro, rule shadow_env_world)


section \<open>Properties\<close>

definition wf_after :: "(IoT_Error_t \<times> 'v shadow_state) option \<Rightarrow> bool" where
  "wf_after m = (case m of Some (rc, c, sh, v) \<Rightarrow> shadow_wf sh | None \<Rightarrow> True)"

lemma wf_afterI:
  assumes "app_ok app" "ensures (\<lambda>x. shadow_inv app (snd (snd x))) m"
  shows "wf_after m"
  using assms by (auto simp: wf_after_def shadow_inv_def split: option.split)


text \<open>A concrete application and the shadow's variables as a program starts with them.\<close>

definition example_app :: "nat Shadow_App" where
  "example_app = \<lparr>libs = example_libs\<lparr>jsmn_parse := \<lambda>js n. (3, take n (request_tokens (ascii ''d-7'')))\<rparr>,
     on_ack = (\<lambda>fn thing a st doc d (c, sh, v). Some (c, sh, v + 1)), on_delta = (\<lambda>_ _ _ _ s. Some s),
     on_message = (\<lambda>_ _ _ _ _ s. Some s), on_disconnect = (\<lambda>_ _ s. Some s),
     AckStatusCallback_addr = 1, myThingName_addr = 2, shadow_delta_callback_addr = 3\<rparr>"

definition example_shadow :: Shadow where
  "example_shadow = \<lparr>
     AckWaitList = replicate 10 \<lparr>clientTokenID = replicate 90 0, thingName = replicate 30 0,
       ack_action = SHADOW_GET, ack_callback = NULL, pCallbackContext = NULL, ack_isFree = False,
       ack_timer = init_timer\<rparr>,
     SubscriptionList = replicate 20 \<lparr>Topic = replicate 90 0, sub_count = 0, sub_isFree = False, isSticky = False\<rparr>,
     tokenTable = replicate 120 \<lparr>tt_pKey = None, tt_pStruct = 0, tt_callback = NULL, tt_isFree = False\<rparr>,
     tokenTableIndex = 0, deltaTopicSubscribedFlag = False, shadowJsonVersionNum = 0,
     shadowDiscardOldDeltaFlag = True, pMqttClient = False, myThingName = replicate 30 0,
     mqttClientID = replicate 80 0, shadowDeltaTopic = replicate 90 0, shadowRxBuf = replicate 1025 0,
     jsonTokenStruct = replicate 120 \<lparr>tok_type = JSMN_UNDEFINED, tok_start = 0, tok_end = 0, tok_size = 0\<rparr>,
     clientTokenNum = 0, jsonStructs = [example_entry ''led'' 0]\<rparr>"

lemma example_wf: "app_ok example_app" "shadow_wf example_shadow"
  by (auto simp: app_ok_def example_app_def shadow_wf_def example_shadow_def ack_ok_def subscription_ok_def
      list_all_length)


end
