(* ===== verification/Shadow_Requests.thy ===== *)
theory Shadow_Requests
  imports Shadow_World
begin

text \<open>
  Requests of the Thing Shadow and their responses: which requests are refused, and what the response
  to a request does to the record that waits for it.
\<close>

section \<open>Messages with a document\<close>

lemma parse_document_again:
  "parse_document lib doc (snd (parse_document lib doc toks)) = parse_document lib doc toks"
  by (cases "jsmn_parse lib doc MAX_JSON_TOKEN_EXPECTED") (simp add: parse_document_def)

lemma isJsonValidAndParse_again:
  "isJsonValidAndParse lib doc (snd (parse_document lib doc toks)) = isJsonValidAndParse lib doc toks"
  by (simp add: isJsonValidAndParse_def parse_document_again)

lemma extractClientToken_again:
  "extractClientToken lib doc out (snd (parse_document lib doc toks)) = extractClientToken lib doc out toks"
  by (simp add: extractClientToken_def parse_document_again)

lemma isJsonValidAndParse_tokens:
  "snd (isJsonValidAndParse lib doc toks) = snd (parse_document lib doc toks)"
  by (simp add: isJsonValidAndParse_def case_prod_unfold Let_def)

lemma extractClientToken_tokens:
  "extractClientToken lib doc out toks = Some (b, out', toks') \<Longrightarrow> toks' = snd (parse_document lib doc toks)"
  by (auto simp: extractClientToken_def Let_def bind_eq_Some_conv split: prod.splits if_splits option.splits)

text \<open>A message carries a document when its payload is that text.\<close>

definition carries :: "Received_Publish \<Rightarrow> Client \<Rightarrow> byte list \<Rightarrow> bool" where
  "carries rx c doc \<longleftrightarrow> take (length doc) (drop (rx_payload rx) (readBuf c)) = doc \<and>
     unat (rx_payloadLen rx) = length doc \<and> length doc \<le> 1024 \<and> 0 \<notin> set doc"

text \<open>The shadow with the document and its tokens in place.\<close>

definition with_document :: "Libs \<Rightarrow> byte list \<Rightarrow> Shadow \<Rightarrow> Shadow" where
  "with_document lib doc sh =
     sh\<lparr>shadowRxBuf := doc @ 0 # drop (Suc (length doc)) (shadowRxBuf sh),
        jsonTokenStruct := snd (parse_document lib doc (jsonTokenStruct sh))\<rparr>"

lemma with_document_again: "with_document lib doc (with_document lib doc sh) = with_document lib doc sh"
  by (simp add: with_document_def parse_document_again)

lemma receive_carried:
  assumes "carries rx c doc" "length (shadowRxBuf sh) = SHADOW_MAX_SIZE_OF_RX_BUFFER"
  shows "receive_document app rx (c, sh, v) =
    Some (fst (isJsonValidAndParse (libs app) doc (jsonTokenStruct sh)), c, with_document (libs app) doc sh, v)"
proof -
  have len: "unat (rx_payloadLen rx) = length doc" "length doc \<le> 1024" "0 \<notin> set doc"
    and t: "take (length doc) (drop (rx_payload rx) (readBuf c)) = doc"
    using assms(1) by (simp_all add: carries_def)
  have "length doc = min (length (drop (rx_payload rx) (readBuf c))) (length doc)"
    using arg_cong [OF t, of length] unfolding length_take by simp
  then have "mem_take (length doc) (drop (rx_payload rx) (readBuf c)) = Some doc"
    using t unfolding mem_take_def by (metis min.cobounded1)
  moreover have "put_bytes (doc @ [0]) (shadowRxBuf sh, 0) =
      Some (doc @ 0 # drop (Suc (length doc)) (shadowRxBuf sh), Suc (length doc))"
    using assms(2) len(2) by (simp add: put_bytes_def)
  ultimately show ?thesis
    using len by (simp add: receive_document_def c_str_mem with_document_def case_prod_unfold Let_def
        isJsonValidAndParse_tokens)
qed

section \<open>The record a response is for\<close>

definition waiting :: "byte list \<Rightarrow> ToBeReceivedAckRecord_t \<Rightarrow> bool" where
  "waiting token r \<longleftrightarrow> \<not> ack_isFree r \<and> c_str (clientTokenID r) = Some token"

definition response_status :: "byte list \<Rightarrow> Shadow_Ack_Status_t" where
  "response_status line = (if c_strstr line (ascii ''accepted'') then SHADOW_ACK_ACCEPTED else SHADOW_ACK_REJECTED)"

lemma ack_loop_skips:
  assumes "\<forall>j\<in>set is. \<not> waiting token (AckWaitList sh ! j)" "\<forall>j\<in>set is. c_str (clientTokenID (AckWaitList sh ! j)) \<noteq> None"
  shows "ack_loop env app m token (is @ js) (c, sh, v) = ack_loop env app m token js (c, sh, v)"
  using assms by (induction "is") (auto simp: waiting_def)

lemma ack_loop_match:
  assumes "waiting token (AckWaitList sh ! i)" "c_str m = Some line"
  shows "ack_loop env app m token (i # is) (c, sh, v) = do {
      s \<leftarrow> call_on_ack app i (response_status line) (c, sh, v);
      s \<leftarrow> unsubscribeFromAcceptedAndRejected env i s;
      Some (with_shadow (free_ack_record i) s) }"
  using assms by (simp add: waiting_def response_status_def Let_def)

lemma upt_split: "i < n \<Longrightarrow> [0..<n] = [0..<i] @ i # [Suc i..<n]"
  by (metis add_0 le_add_diff_inverse less_imp_le_nat upt_add_eq_append upt_conv_Cons zero_le)

text \<open>A pair of response topics that is subscribed for good: the list has both, marked sticky.\<close>

definition stays_subscribed :: "byte list \<Rightarrow> ShadowActions_t \<Rightarrow> Shadow \<Rightarrow> bool" where
  "stays_subscribed thing action sh \<longleftrightarrow> list_all (\<lambda>ackType.
     case local_topic thing action ackType of None \<Rightarrow> False
     | Some topic \<Rightarrow> (case findIndexOfSubscriptionList topic sh of
         Some (Some j) \<Rightarrow> isSticky (SubscriptionList sh ! j) \<and> sub_count (SubscriptionList sh ! j) = 1
       | _ \<Rightarrow> False)) [SHADOW_ACCEPTED, SHADOW_REJECTED]"

lemma unsubscribe_stays:
  assumes "stays_subscribed name (ack_action (AckWaitList sh ! i)) sh"
    "c_str (thingName (AckWaitList sh ! i)) = Some name"
  shows "unsubscribeFromAcceptedAndRejected env i (c, sh, v) = Some (c, sh, v)"
proof -
  have "\<exists>topic. local_topic name (ack_action (AckWaitList sh ! i)) ackType = Some topic \<and>
      release_topic env topic (c, sh, v) = Some (c, sh, v)" if "ackType = SHADOW_ACCEPTED \<or> ackType = SHADOW_REJECTED" for ackType
    using assms(1) that by (auto simp: stays_subscribed_def release_topic_def split: option.splits)
  from this [of SHADOW_ACCEPTED] this [of SHADOW_REJECTED] show ?thesis
    using assms(2) by (auto simp: unsubscribeFromAcceptedAndRejected_def Let_def)
qed

section \<open>Properties\<close>

text \<open>The version after a message: the greater one of the two, if its topic is one of the thing's.\<close>

definition version_after :: "Shadow \<Rightarrow> byte list \<Rightarrow> byte list \<Rightarrow> u32 option \<Rightarrow> u32" where
  "version_after sh my line version = (case version of None \<Rightarrow> shadowJsonVersionNum sh
     | Some x \<Rightarrow> if c_strstr line my \<and> (c_strstr line (ascii ''get/accepted'') \<or>
         c_strstr line (ascii ''update/accepted'') \<or> c_strstr line (ascii ''delta''))
       then max x (shadowJsonVersionNum sh) else shadowJsonVersionNum sh)"

lemma AckStatusCallback_document:
  assumes "carries rx c doc" "length (shadowRxBuf sh) = SHADOW_MAX_SIZE_OF_RX_BUFFER" "c_str (drop topicName (readBuf c)) = Some line"
    "c_str (myThingName sh) = Some my"
    "fst (isJsonValidAndParse (libs app) doc (jsonTokenStruct sh)) = Some n"
    "extractVersionNumber doc (jsonTokenStruct (with_document (libs app) doc sh)) n = Some ver"
    "extractClientToken (libs app) doc (replicate MAX_SIZE_CLIENT_TOKEN_CLIENT_SEQUENCE 0) (jsonTokenStruct sh)
       = Some (True, out, toks)" "c_str out = Some token"
  shows "AckStatusCallback env app topicName len rx d (c, sh, v) =
     ack_loop env app (drop topicName (readBuf c)) token [0..<MAX_ACKS_TO_COMEIN_AT_ANY_GIVEN_TIME]
       (c, (with_document (libs app) doc sh)\<lparr>shadowJsonVersionNum := version_after sh my line ver\<rparr>, v)"
proof -
  have z: "0 \<notin> set doc"
    using assms(1) by (simp add: carries_def)
  note received = receive_carried [OF assms(1,2)]
  have token: "extractClientToken (libs app) doc (replicate MAX_SIZE_CLIENT_TOKEN_CLIENT_SEQUENCE 0)
      (jsonTokenStruct (with_document (libs app) doc sh)) =
      Some (True, out, jsonTokenStruct (with_document (libs app) doc sh))"
    using assms(7) extractClientToken_tokens [OF assms(7)]
    by (simp add: with_document_def extractClientToken_again)
  have simps: "c_str (shadowRxBuf (with_document (libs app) doc sh)) = Some doc"
    "myThingName (with_document (libs app) doc sh) = myThingName sh"
    "shadowJsonVersionNum (with_document (libs app) doc sh) = shadowJsonVersionNum sh"
    "(with_document (libs app) doc sh)\<lparr>shadowJsonVersionNum := shadowJsonVersionNum sh\<rparr> = with_document (libs app) doc sh"
    using z by (cases sh; simp add: with_document_def c_str_mem)+
  show ?thesis
    using assms(3-6,8) token
    by (auto simp: AckStatusCallback_def received simps isAckForMyThingName_def version_after_def max_def Let_def
        split: option.split)
qed


text \<open>The callback of a record runs, its topics stay subscribed, the record is freed.\<close>

lemma ack_loop_completes:
  assumes "i < 10" "waiting token (AckWaitList sh ! i)" "\<forall>j<10. j \<noteq> i \<longrightarrow> \<not> waiting token (AckWaitList sh ! j)"
    and terminated: "\<forall>j<10. c_str (clientTokenID (AckWaitList sh ! j)) \<noteq> None"
    and line: "c_str m = Some line"
    and topics: "c_str (thingName (AckWaitList sh ! i)) = Some thing"
      "stays_subscribed thing (ack_action (AckWaitList sh ! i)) sh"
    and callback: "call_on_ack app i (response_status line) (c, sh, v) = Some (c, sh, v')"
  shows "ack_loop env app m token [0..<10] (c, sh, v) = Some (c, free_ack_record i sh, v')"
proof -
  have "ack_loop env app m token ([0..<i] @ i # [Suc i..<10]) (c, sh, v)
      = ack_loop env app m token (i # [Suc i..<10]) (c, sh, v)"
    using assms(1,3) terminated by (intro ack_loop_skips) auto
  also have "\<dots> = Some (c, free_ack_record i sh, v')"
    unfolding ack_loop_match [OF assms(2) line] callback
    by (simp add: unsubscribe_stays [OF topics(2,1)] with_shadow_def)
  finally show ?thesis
    by (simp add: upt_split [OF assms(1)])
qed

lemma ack_loop_nobody:
  assumes "\<forall>j<10. \<not> waiting token (AckWaitList sh ! j)" "\<forall>j<10. c_str (clientTokenID (AckWaitList sh ! j)) \<noteq> None"
  shows "ack_loop env app m token [0..<10] (c, sh, v) = Some (c, sh, v)"
  using ack_loop_skips [of "[0..<10]" token sh env app m "[]"] assms by simp



text \<open>The topic of a thing whose name fits.\<close>

lemma length_topic_text:
  "length (topic_text thing action ackType) = 20 + length thing + length (action_name action) +
     (if ackType = SHADOW_ACTION then 0 else 9)"
  by (cases ackType) (simp_all add: topic_text_def ascii_def)

lemma zero_topic_text: "0 \<in> set (topic_text thing action ackType) \<longleftrightarrow> 0 \<in> set thing"
  by (cases action; cases ackType) (simp_all add: topic_text_def action_name_def ascii_def)

lemma local_topic_fits:
  assumes "length thing < MAX_SIZE_OF_THING_NAME" "0 \<notin> set thing"
  shows "local_topic thing action ackType = Some (topic_text thing action ackType)"
proof -
  have "length (topic_text thing action ackType) < 90"
    using assms(1) by (simp add: length_topic_text) (simp add: action_name_def split: ShadowActions_t.split)
  moreover have "replicate 90 (0 :: byte) = [] @ 0 # replicate 89 0"
    by (simp add: numeral_eq_Suc)
  ultimately show ?thesis
    using assms(2) snprintf_fits [of "topic_text thing action ackType" 90 "replicate 89 0" "[]" 0]
    by (simp add: local_topic_def topicNameFromThingAndAction_def c_str_mem zero_topic_text)
qed


lemma free_ack_none: "list_all (\<lambda>r. \<not> ack_isFree r) rs \<Longrightarrow> free_ack rs i = None"
  by (induction rs arbitrary: i) auto



section \<open>An example\<close>

definition example_topic :: "byte list" where
  "example_topic = topic_text (ascii ''lamp'') SHADOW_GET SHADOW_ACCEPTED"

definition example_document :: "byte list" where
  "example_document = request_document (ascii ''d-7'')"

definition example_message :: Client where
  "example_message = new_client\<lparr>readBuf := example_topic @ example_document @ [0]\<rparr>"

definition example_rx :: Received_Publish where
  "example_rx = \<lparr>rx_dup = 0, rx_qos = 0, rx_retained = 0, rx_id = None, rx_topicName = 0, rx_topicNameLen = 0,
     rx_payload = length example_topic, rx_payloadLen = of_nat (length example_document)\<rparr>"

definition example_request :: ToBeReceivedAckRecord_t where
  "example_request = \<lparr>clientTokenID = ascii ''d-7'' @ replicate 87 0, thingName = ascii ''lamp'' @ replicate 26 0,
     ack_action = SHADOW_GET, ack_callback = 9, pCallbackContext = NULL, ack_isFree = False, ack_timer = init_timer\<rparr>"

definition example_subscription :: "ShadowAckTopicTypes_t \<Rightarrow> SubscriptionRecord_t" where
  "example_subscription ackType = \<lparr>Topic = topic_text (ascii ''lamp'') SHADOW_GET ackType @ replicate (90 - length (topic_text (ascii ''lamp'') SHADOW_GET ackType)) 0,
     sub_count = 1, sub_isFree = False, isSticky = True\<rparr>"

definition example_waiting :: Shadow where
  "example_waiting = example_shadow\<lparr>AckWaitList := (AckWaitList example_shadow)[3 := example_request],
     SubscriptionList := (SubscriptionList example_shadow)[0 := example_subscription SHADOW_ACCEPTED,
       1 := example_subscription SHADOW_REJECTED], myThingName := ascii ''lamp'' @ replicate 26 0\<rparr>"

lemma example_received:
  "carries example_rx example_message example_document"
  "c_str (drop 0 (readBuf example_message)) = Some (example_topic @ example_document)"
  "fst (isJsonValidAndParse (libs example_app) example_document (jsonTokenStruct example_waiting)) = Some 3"
  "extractVersionNumber example_document
     (jsonTokenStruct (with_document (libs example_app) example_document example_waiting)) 3 = Some None"
  "map_option (\<lambda>(b, out, toks). (b, c_str out)) (extractClientToken (libs example_app) example_document
     (replicate 110 0) (jsonTokenStruct example_waiting)) = Some (True, Some (ascii ''d-7''))"
  by code_simp+

lemma example_records:
  "c_str (myThingName example_waiting) = Some (ascii ''lamp'')"
  "waiting (ascii ''d-7'') example_request" "c_str (thingName example_request) = Some (ascii ''lamp'')"
  "AckWaitList example_waiting ! 3 = example_request"
  by (simp_all add: example_waiting_def example_request_def waiting_def example_shadow_def ascii_def c_str_def)

lemma example_others:
  "list_all (\<lambda>r. c_str (clientTokenID r) \<noteq> None) (AckWaitList example_waiting)"
  "list_all (\<lambda>j. j = 3 \<or> \<not> waiting (ascii ''d-7'') (AckWaitList example_waiting ! j)) [0..<10]"
  by (auto simp: example_waiting_def example_shadow_def example_request_def list_all_length nth_list_update
      waiting_def c_str_def ascii_def)

lemma example_topics:
  "c_str (Topic (example_subscription ackType)) = Some (topic_text (ascii ''lamp'') SHADOW_GET ackType)"
  "subscription_ok (example_subscription ackType)"
proof -
  have "0 \<notin> set (topic_text (ascii ''lamp'') SHADOW_GET ackType)"
    by (simp add: zero_topic_text ascii_def)
  moreover have "length (topic_text (ascii ''lamp'') SHADOW_GET ackType) < 90"
    by (simp add: length_topic_text action_name_def ascii_def)
  moreover from this obtain k where "90 - length (topic_text (ascii ''lamp'') SHADOW_GET ackType) = Suc k"
    by (metis Suc_diff_Suc)
  ultimately show "c_str (Topic (example_subscription ackType)) = Some (topic_text (ascii ''lamp'') SHADOW_GET ackType)"
    "subscription_ok (example_subscription ackType)"
    by (simp_all add: example_subscription_def subscription_ok_def c_str_mem)
qed

lemma example_stays: "stays_subscribed (ascii ''lamp'') SHADOW_GET example_waiting"
proof -
  have topic: "local_topic (ascii ''lamp'') SHADOW_GET ackType = Some (topic_text (ascii ''lamp'') SHADOW_GET ackType)" for ackType
    by (rule local_topic_fits) (simp_all add: ascii_def)
  have "SubscriptionList example_waiting = example_subscription SHADOW_ACCEPTED # example_subscription SHADOW_REJECTED #
      drop 2 (SubscriptionList example_shadow)"
    by (simp add: example_waiting_def example_shadow_def numeral_eq_Suc)
  moreover have "topic_text (ascii ''lamp'') SHADOW_GET SHADOW_REJECTED \<noteq> topic_text (ascii ''lamp'') SHADOW_GET SHADOW_ACCEPTED"
    by (simp add: topic_text_def ascii_def)
  ultimately show ?thesis
    by (simp add: stays_subscribed_def topic findIndexOfSubscriptionList_def example_topics)
      (simp add: example_subscription_def)
qed

lemma example_waiting_wf: "shadow_wf example_waiting"
  using example_wf(2) example_topics(2)
  by (auto simp: shadow_wf_def example_waiting_def example_request_def ack_ok_def ascii_def intro!: list_all_update)




end
