(* ===== verification/Sensors.thy ===== *)
theory Sensors
  imports C_Strings
begin

text \<open>
  The sensor layer, \<^verbatim>\<open>sensor_drv.c\<close>: a linked list of sensors, each with the text of its current
  value and of the value last reported, and the accelerometer's driver.

  The structures \<open>sensor_info\<close> lie in a store, a list indexed by their addresses; \<open>s_next\<close> is the link.
  The functions of a structure (\<open>init\<close>, \<open>read\<close>) are those of its driver: \<open>Drivers\<close> gives them by the
  structure's address.
\<close>

section \<open>The list of sensors\<close>

record sensor_info =
  event_curr_value :: "byte list"
  event_prev_value :: "byte list"
  s_property :: "byte list"
  s_next :: "nat option"

record Sensors =
  sensor_ll :: "nat option"
  sensor_drvinit_flag :: bool
  infos :: "sensor_info list"

record 'w Drivers =
  drv_init :: "nat \<Rightarrow> Sensors \<times> 'w \<Rightarrow> (Sensors \<times> 'w) option"
  drv_read :: "nat \<Rightarrow> Sensors \<times> 'w \<Rightarrow> (Sensors \<times> 'w) option"

text \<open>\<^verbatim>\<open>strcat\<close>\<close>

definition c_strcat :: "byte list \<Rightarrow> byte list \<Rightarrow> byte list option" where
  "c_strcat dst src = do {
     d \<leftarrow> c_str dst;
     s \<leftarrow> c_str src;
     sprintf dst (length d) s }"

partial_function (option) construct_loop ::
  "nat option \<Rightarrow> byte list \<Rightarrow> byte list \<Rightarrow> u32 \<Rightarrow> Sensors \<Rightarrow> (byte list \<times> byte list \<times> Sensors) option" where
  "construct_loop curevent src dest len ss = (case curevent of None \<Rightarrow> Some (src, dest, ss)
     | Some a \<Rightarrow>
         if a < length (infos ss) then do {
           prev \<leftarrow> c_str (event_prev_value (infos ss ! a));
           cur \<leftarrow> c_str (event_curr_value (infos ss ! a));
           if prev \<noteq> cur then do {
             copied \<leftarrow> sprintf (event_prev_value (infos ss ! a)) 0 cur;
             (_, dest) \<leftarrow> snprintf dest 0 len
               (ascii '',\"'' @ s_property (infos ss ! a) @ ascii ''\":'' @ cur);
             src \<leftarrow> c_strcat src dest;
             construct_loop (s_next (infos ss ! a)) src dest len
               (ss\<lparr>infos := (infos ss)[a := (infos ss ! a)\<lparr>event_prev_value := copied\<rparr>]\<rparr>) }
           else construct_loop (s_next (infos ss ! a)) src dest len ss }
         else None)"

definition sensor_msg_construct ::
  "byte list \<Rightarrow> byte list \<Rightarrow> u32 \<Rightarrow> Sensors \<Rightarrow> (byte list \<times> byte list \<times> Sensors) option" where
  "sensor_msg_construct src dest len ss = construct_loop (sensor_ll ss) src dest len ss"

partial_function (option) scan_loop ::
  "'w Drivers \<Rightarrow> nat option \<Rightarrow> Sensors \<times> 'w \<Rightarrow> (Sensors \<times> 'w) option" where
  "scan_loop drv curevent s = (case curevent of None \<Rightarrow> Some s
     | Some a \<Rightarrow>
         if a < length (infos (fst s)) then do {
           s \<leftarrow> drv_read drv a s;
           if a < length (infos (fst s)) then scan_loop drv (s_next (infos (fst s) ! a)) s else None }
         else None)"

definition sensor_inputs_scan :: "'w Drivers \<Rightarrow> Sensors \<times> 'w \<Rightarrow> (Sensors \<times> 'w) option" where
  "sensor_inputs_scan drv s = scan_loop drv (sensor_ll (fst s)) s"

text \<open>The walk to the end of the list: \<open>Some False\<close> when the sensor is met on the way.\<close>

partial_function (option) link_loop :: "nat option \<Rightarrow> nat \<Rightarrow> Sensors \<Rightarrow> (bool \<times> Sensors) option" where
  "link_loop curevent sevnt ss = (case curevent of None \<Rightarrow> Some (True, ss\<lparr>sensor_ll := Some sevnt\<rparr>)
     | Some a \<Rightarrow>
         if a < length (infos ss) then
           if a = sevnt then Some (False, ss)
           else (case s_next (infos ss ! a) of
               None \<Rightarrow> Some (True, ss\<lparr>infos := (infos ss)[a := (infos ss ! a)\<lparr>s_next := Some sevnt\<rparr>]\<rparr>)
             | Some b \<Rightarrow> link_loop (Some b) sevnt ss)
         else None)"

definition sensor_event_register ::
  "'w Drivers \<Rightarrow> nat option \<Rightarrow> Sensors \<times> 'w \<Rightarrow> (int \<times> Sensors \<times> 'w) option" where
  "sensor_event_register drv sevnt = (\<lambda>(ss, w).
     if \<not> sensor_drvinit_flag ss then Some (- 1, ss, w)
     else (case sevnt of None \<Rightarrow> Some (- 1, ss, w)
       | Some e \<Rightarrow> do {
           (new, ss) \<leftarrow> link_loop (sensor_ll ss) e ss;
           if \<not> new then Some (- 1, ss, w)
           else if e < length (infos ss) then do {
             p \<leftarrow> sprintf (event_prev_value (infos ss ! e)) 0 (ascii '' '');
             c \<leftarrow> sprintf (event_curr_value (infos ss ! e)) 0 (ascii '' '');
             s \<leftarrow> drv_init drv e (ss\<lparr>infos := (infos ss)[e := (infos ss ! e)\<lparr>event_prev_value := p,
                    event_curr_value := c, s_next := None\<rparr>]\<rparr>, w);
             Some (0, s) }
           else None }))"

definition sensor_drv_init :: "Sensors \<Rightarrow> int \<times> Sensors" where
  "sensor_drv_init ss =
     (0, if \<not> sensor_drvinit_flag ss then ss\<lparr>sensor_drvinit_flag := True, sensor_ll := None\<rparr> else ss)"

section \<open>The accelerometer\<close>

text \<open>\<open>i2c_write\<close> and \<open>i2c_read\<close> are the bus: \<open>i2c_read n\<close> stores at most \<open>n\<close> bytes.\<close>

record 'w I2c =
  i2c_write :: "byte list \<Rightarrow> 'w \<Rightarrow> 'w"
  i2c_read :: "nat \<Rightarrow> 'w \<Rightarrow> byte list \<times> 'w"

abbreviation (input) MMA7660_MODE :: byte where "MMA7660_MODE \<equiv> 0x07"
abbreviation (input) MMA7660_SR :: byte where "MMA7660_SR \<equiv> 0x08"
abbreviation (input) MMA7660_STAND_BY :: byte where "MMA7660_STAND_BY \<equiv> 0x00"
abbreviation (input) MMA7660_ACTIVE :: byte where "MMA7660_ACTIVE \<equiv> 0x01"
abbreviation (input) AUTO_SLEEP_64 :: byte where "AUTO_SLEEP_64 \<equiv> 0x01"

text \<open>The device's handle is \<open>NULL\<close> (\<open>None\<close>) until the bus is opened.\<close>

definition MMA7660_write :: "'w I2c option \<Rightarrow> byte \<Rightarrow> byte \<Rightarrow> 'w \<Rightarrow> 'w" where
  "MMA7660_write i2c0 reg value w = (case i2c0 of None \<Rightarrow> w | Some bus \<Rightarrow> i2c_write bus [reg, value] w)"

definition MMA7660_From :: "'w I2c option \<Rightarrow> byte \<Rightarrow> 'w \<Rightarrow> 'w" where
  "MMA7660_From i2c0 reg w = (case i2c0 of None \<Rightarrow> w | Some bus \<Rightarrow> i2c_write bus [reg] w)"

definition MMA7660_setMode :: "'w I2c option \<Rightarrow> byte \<Rightarrow> 'w \<Rightarrow> 'w" where
  "MMA7660_setMode i2c0 mode = MMA7660_write i2c0 MMA7660_MODE mode"

definition MMA7660_setSampleRate :: "'w I2c option \<Rightarrow> byte \<Rightarrow> 'w \<Rightarrow> 'w" where
  "MMA7660_setSampleRate i2c0 rate = MMA7660_write i2c0 MMA7660_SR rate"

text \<open>The lookup tables the function also fills are read by nothing.\<close>

definition MMA7660_init :: "'w I2c option \<Rightarrow> 'w \<Rightarrow> 'w" where
  "MMA7660_init i2c0 w = MMA7660_setMode i2c0 MMA7660_ACTIVE (MMA7660_setSampleRate i2c0 AUTO_SLEEP_64
     (MMA7660_setMode i2c0 MMA7660_STAND_BY w))"

text \<open>One axis: six bits, the sixth its sign.\<close>

definition axis :: "byte \<Rightarrow> byte" where
  "axis v = (let x = and v 0x1f in if and v (push_bit 5 1) \<noteq> 0 then x - 32 else x)"

definition MMA7660_getXYZ :: "'w I2c option \<Rightarrow> 'w \<Rightarrow> (byte \<times> byte \<times> byte) option \<times> 'w" where
  "MMA7660_getXYZ i2c0 w = (case i2c0 of None \<Rightarrow> (None, w)
     | Some bus \<Rightarrow>
         let (bs, w) = i2c_read bus 3 (MMA7660_From i2c0 0 w);
             val = bs @ drop (length bs) [64, 64, 64]
         in (Some (axis (val ! 0), axis (val ! 1), axis (val ! 2)), w))"

definition MMA7660acc_sensor_input_scan ::
  "'w I2c option \<Rightarrow> byte list \<Rightarrow> 'w \<Rightarrow> (int \<times> byte list \<times> 'w) option" where
  "MMA7660acc_sensor_input_scan i2c0 buf w =
     (case MMA7660_getXYZ i2c0 w of
        (Some (x, y, z), w) \<Rightarrow> do {
          v \<leftarrow> sprintf buf 0 (show_int (sint x) @ ascii '','' @ show_int (sint y) @ ascii '','' @
                 show_int (sint z));
          Some (0, v, w) }
      | (None, w) \<Rightarrow> Some (- 1, buf, w))"

section \<open>Lists in the store\<close>

fun chain :: "sensor_info list \<Rightarrow> nat option \<Rightarrow> nat list \<Rightarrow> bool" where
  "chain is p [] \<longleftrightarrow> p = None"
| "chain is p (a # as) \<longleftrightarrow> p = Some a \<and> a < length is \<and> chain is (s_next (is ! a)) as"

lemma chain_update:
  assumes "chain is p as" "a \<notin> set as \<or> s_next x = s_next (is ! a)"
  shows "chain (is[a := x]) p as"
  using assms
proof (induction as arbitrary: p)
  case (Cons b as)
  then show ?case
    by (cases "a = b") auto
qed simp

lemma chain_bounds: "chain is p as \<Longrightarrow> set as \<subseteq> {..<length is}"
  by (induction as arbitrary: p) auto

lemma chain_unique: "chain is p as \<Longrightarrow> chain is p bs \<Longrightarrow> as = bs"
proof (induction as arbitrary: p bs)
  case Nil
  then show ?case
    by (cases bs) auto
next
  case (Cons a as)
  then show ?case
    by (cases bs) auto
qed


lemma chain_distinct: "chain is p as \<Longrightarrow> distinct as"
proof (induction as arbitrary: p)
  case (Cons a as)
  then have rest: "chain is (s_next (is ! a)) as" "distinct as"
    by auto
  have "a \<notin> set as"
  proof
    assume "a \<in> set as"
    then obtain us vs where as: "as = us @ a # vs"
      by (auto simp: in_set_conv_decomp)
    have tail: "chain is q (us @ a # vs) \<Longrightarrow> chain is (Some a) (a # vs)" for q
      by (induction us arbitrary: q) auto
    then have "chain is (s_next (is ! a)) vs"
      using rest(1) as by fastforce
    then have "as = vs"
      using chain_unique rest(1) by blast
    then show False
      using as by auto
  qed
  then show ?case
    using rest(2) by simp
qed simp

section \<open>Messages\<close>

text \<open>The text of a sensor whose value has changed.\<close>

definition value_of :: "(sensor_info \<Rightarrow> byte list) \<Rightarrow> sensor_info \<Rightarrow> byte list" where
  "value_of field e = the (c_str (field e))"

definition sensor_text :: "sensor_info \<Rightarrow> byte list" where
  "sensor_text e = (if value_of event_prev_value e = value_of event_curr_value e then []
     else ascii '',\"'' @ s_property e @ ascii ''\":'' @ value_of event_curr_value e)"

definition sensors_text :: "sensor_info list \<Rightarrow> nat list \<Rightarrow> byte list" where
  "sensors_text is as = concat (map (\<lambda>a. sensor_text (is ! a)) as)"

text \<open>The values are terminated texts in their arrays of 64 bytes.\<close>

definition sensor_ok :: "sensor_info \<Rightarrow> bool" where
  "sensor_ok e \<longleftrightarrow> length (event_curr_value e) = 64 \<and> length (event_prev_value e) = 64 \<and>
     c_str (event_curr_value e) \<noteq> None \<and> c_str (event_prev_value e) \<noteq> None \<and> 0 \<notin> set (s_property e)"

definition reported :: "sensor_info \<Rightarrow> sensor_info" where
  "reported e = (if value_of event_prev_value e = value_of event_curr_value e then e
     else e\<lparr>event_prev_value := value_of event_curr_value e @ 0 #
       drop (Suc (length (value_of event_curr_value e))) (event_prev_value e)\<rparr>)"

lemma sensor_ok_value: "sensor_ok e \<Longrightarrow> c_str (event_curr_value e) = Some (value_of event_curr_value e)"
  "sensor_ok e \<Longrightarrow> c_str (event_prev_value e) = Some (value_of event_prev_value e)"
  by (auto simp: sensor_ok_def value_of_def)

lemma sensor_ok_text:
  assumes "sensor_ok e"
  shows "0 \<notin> set (value_of event_curr_value e)" "length (value_of event_curr_value e) < 64" "0 \<notin> set (sensor_text e)"
proof -
  show z: "0 \<notin> set (value_of event_curr_value e)"
    by (rule c_str_no_zero [OF sensor_ok_value(1) [OF assms]])
  show "length (value_of event_curr_value e) < 64"
    using c_str_length [OF sensor_ok_value(1) [OF assms]] assms by (simp add: sensor_ok_def)
  show "0 \<notin> set (sensor_text e)"
    using z assms by (simp add: sensor_text_def sensor_ok_def ascii_def)
qed

lemma c_strcat_fits:
  assumes "c_str dst = Some s" "c_str src = Some t"
  shows "c_strcat dst src = (if length s + length t < length dst
     then Some (s @ t @ 0 # drop (Suc (length s + length t)) dst) else None)"
proof -
  obtain rest where dst: "dst = s @ 0 # rest"
    using assms(1) by (rule c_str_split)
  show ?thesis
    using assms(1) by (auto simp: c_strcat_def assms(2) dst sprintf_def put_bytes_def)
qed

definition mark :: "nat list \<Rightarrow> sensor_info list \<Rightarrow> sensor_info list" where
  "mark as es = map (\<lambda>i. if i \<in> set as then reported (es ! i) else es ! i) [0..<length es]"

lemma length_mark [simp]: "length (mark as es) = length es"
  by (simp add: mark_def)

lemma nth_mark [simp]: "i < length es \<Longrightarrow> mark as es ! i = (if i \<in> set as then reported (es ! i) else es ! i)"
  by (simp add: mark_def)

lemma mark_Cons: "a \<notin> set as \<Longrightarrow> a < length es \<Longrightarrow> mark as (es[a := reported (es ! a)]) = mark (a # as) es"
  by (intro nth_equalityI) (auto simp: nth_list_update)

lemma reported_next [simp]: "s_next (reported e) = s_next e"
  by (simp add: reported_def)

lemma sensor_text_reported [simp]: "sensor_ok e \<Longrightarrow> sensor_text (reported e) = []"
proof -
  assume e: "sensor_ok e"
  have "c_str (value_of event_curr_value e @ 0 # r) = Some (value_of event_curr_value e)" for r
    by (rule c_str_mem [OF sensor_ok_text(1) [OF e]])
  then show ?thesis
    by (auto simp: sensor_text_def reported_def value_of_def)
qed

lemma sensor_ok_reported: "sensor_ok e \<Longrightarrow> sensor_ok (reported e)"
proof -
  assume e: "sensor_ok e"
  have "c_str (value_of event_curr_value e @ 0 # r) = Some (value_of event_curr_value e)" for r
    by (rule c_str_mem [OF sensor_ok_text(1) [OF e]])
  then show ?thesis
    using e sensor_ok_text(2) [OF e] by (auto simp: reported_def sensor_ok_def)
qed

lemma construct_step:
  assumes "a < length (infos ss)" "sensor_ok (infos ss ! a)" "c_str src = Some s" "length dest = n" "unat len \<le> n" "n < 2 ^ 31"
    "length (sensor_text (infos ss ! a)) < unat len"
  shows "construct_loop (Some a) src dest len ss =
    (if sensor_text (infos ss ! a) = [] then construct_loop (s_next (infos ss ! a)) src dest len ss
     else if length s + length (sensor_text (infos ss ! a)) < length src then
       construct_loop (s_next (infos ss ! a))
         (s @ sensor_text (infos ss ! a) @ 0 # drop (Suc (length s + length (sensor_text (infos ss ! a)))) src)
         (sensor_text (infos ss ! a) @ 0 # drop (Suc (length (sensor_text (infos ss ! a)))) dest) len
         (ss\<lparr>infos := (infos ss)[a := reported (infos ss ! a)]\<rparr>)
     else None)"
proof -
  let ?e = "infos ss ! a"
  note vals = sensor_ok_value [OF assms(2)] and tx = sensor_ok_text [OF assms(2)]
  show ?thesis
  proof (cases "value_of event_prev_value ?e = value_of event_curr_value ?e")
    case True
    then show ?thesis
      using assms(1) vals by (subst construct_loop.simps) (simp add: sensor_text_def)
  next
    case False
    have t: "sensor_text ?e = ascii '',\"'' @ s_property ?e @ ascii ''\":'' @ value_of event_curr_value ?e"
      using False by (simp add: sensor_text_def)
    then have ne: "sensor_text ?e \<noteq> []"
      by (simp add: ascii_def)
    have copied: "sprintf (event_prev_value ?e) 0 (value_of event_curr_value ?e) = Some (value_of event_curr_value ?e @ 0 #
        drop (Suc (length (value_of event_curr_value ?e))) (event_prev_value ?e))"
      using tx(2) assms(2) by (intro sprintf_at_start) (simp add: sensor_ok_def)
    have printed: "snprintf dest 0 len (sensor_text ?e) =
        Some (int (length (sensor_text ?e)), sensor_text ?e @ 0 # drop (Suc (length (sensor_text ?e))) dest)"
      using assms(4,5,6,7) by (intro snprintf_at_start) auto
    have joined: "c_strcat src (sensor_text ?e @ 0 # drop (Suc (length (sensor_text ?e))) dest) =
        (if length s + length (sensor_text ?e) < length src
         then Some (s @ sensor_text ?e @ 0 # drop (Suc (length s + length (sensor_text ?e))) src) else None)"
      using tx(3) by (intro c_strcat_fits assms(3)) (simp add: c_str_mem)
    show ?thesis
      using assms(1) vals False ne printed joined
      by (subst construct_loop.simps) (simp add: copied t [symmetric] reported_def del: append_assoc)
  qed
qed

text \<open>The whole walk: the texts of the changed sensors, in the order of the list.\<close>

lemma c_str_self: "c_str m = Some s \<Longrightarrow> s @ 0 # drop (Suc (length s)) m = m"
  by (erule c_str_split) simp

lemma construct_loop_appends:
  assumes "chain (infos ss) p as" "\<And>a. a \<in> set as \<Longrightarrow> sensor_ok (infos ss ! a)"
    "\<And>a. a \<in> set as \<Longrightarrow> length (sensor_text (infos ss ! a)) < unat len"
    "c_str src = Some s" "length dest = n" "unat len \<le> n" "n < 2 ^ 31"
  shows "(length s + length (sensors_text (infos ss) as) < length src \<longrightarrow>
      (\<exists>dest'. length dest' = n \<and> construct_loop p src dest len ss =
      Some (s @ sensors_text (infos ss) as @ 0 # drop (Suc (length s + length (sensors_text (infos ss) as))) src,
        dest', ss\<lparr>infos := mark as (infos ss)\<rparr>))) \<and>
    (length src \<le> length s + length (sensors_text (infos ss) as) \<longrightarrow> construct_loop p src dest len ss = None)"
  using assms(1-5)
proof (induction as arbitrary: p src s dest ss)
  case Nil
  moreover have "mark [] (infos ss) = infos ss"
    by (intro nth_equalityI) simp_all
  ultimately show ?case
    using c_str_self [OF Nil(4)] c_str_length [OF Nil(4)]
    by (subst (1 2) construct_loop.simps) (simp add: sensors_text_def)
next
  case (Cons a as)
  let ?e = "infos ss ! a" and ?is = "infos ss"
  have p: "p = Some a" "a < length ?is" "chain ?is (s_next ?e) as"
    using Cons.prems(1) by auto
  have new: "a \<notin> set as" "set as \<subseteq> {..<length ?is}"
    using chain_distinct [OF Cons.prems(1)] chain_bounds [OF p(3)] by auto
  have step: "construct_loop p src dest len ss =
    (if sensor_text ?e = [] then construct_loop (s_next ?e) src dest len ss
     else if length s + length (sensor_text ?e) < length src then
       construct_loop (s_next ?e)
         (s @ sensor_text ?e @ 0 # drop (Suc (length s + length (sensor_text ?e))) src)
         (sensor_text ?e @ 0 # drop (Suc (length (sensor_text ?e))) dest) len
         (ss\<lparr>infos := ?is[a := reported ?e]\<rparr>)
     else None)"
    unfolding p(1) using Cons.prems assms(6,7) p(2) by (intro construct_step) auto
  show ?case
  proof (cases "sensor_text ?e = []")
    case True
    then have same: "reported ?e = ?e"
      by (simp add: sensor_text_def reported_def split: if_splits) (simp add: ascii_def)
    have "mark as ?is = mark (a # as) ?is"
      using mark_Cons [OF new(1) p(2)] by (simp add: same)
    moreover have "sensors_text ?is (a # as) = sensors_text ?is as"
      by (simp add: sensors_text_def True)
    ultimately show ?thesis
      using Cons.IH [OF p(3) _ _ Cons.prems(4,5)] Cons.prems(2,3) by (auto simp: step True)
  next
    case False
    let ?ss = "ss\<lparr>infos := ?is[a := reported ?e]\<rparr>"
    let ?src = "s @ sensor_text ?e @ 0 # drop (Suc (length s + length (sensor_text ?e))) src"
    have others: "infos ?ss ! b = ?is ! b" if "b \<in> set as" for b
      using that new by (cases "b = a") auto
    have texts: "sensors_text ?is (a # as) = sensor_text ?e @ sensors_text (infos ?ss) as"
      using others by (auto simp: sensors_text_def intro!: arg_cong [where f = concat] map_cong)
    show ?thesis
    proof (cases "length s + length (sensor_text ?e) < length src")
      case fits: True
      have "0 \<notin> set (s @ sensor_text ?e)"
        using c_str_no_zero [OF Cons.prems(4)] sensor_ok_text(3) [OF Cons.prems(2), of a] by simp
      then have str: "c_str ?src = Some (s @ sensor_text ?e)"
        using c_str_mem by (simp flip: append_assoc)
      have len: "length (sensor_text ?e @ 0 # drop (Suc (length (sensor_text ?e))) dest) = n"
        using Cons.prems(3) [of a] Cons.prems(5) assms(6) by simp
      have "chain (infos ?ss) (s_next ?e) as"
        using chain_update [OF p(3)] new by simp
      from Cons.IH [OF this _ _ str len] show ?thesis
        using Cons.prems(2,3) fits others mark_Cons [OF new(1) p(2)]
        by (auto simp: step False texts add.assoc add.commute add.left_commute)
    next
      case False
      then show ?thesis
        using \<open>sensor_text ?e \<noteq> []\<close> by (simp add: step texts)
    qed
  qed
qed

lemma reported_again [simp]: "sensor_ok e \<Longrightarrow> reported (reported e) = reported e"
proof -
  assume e: "sensor_ok e"
  have "c_str (value_of event_curr_value e @ 0 # r) = Some (value_of event_curr_value e)" for r
    by (rule c_str_mem [OF sensor_ok_text(1) [OF e]])
  then show ?thesis
    by (auto simp: reported_def value_of_def)
qed

lemma mark_again:
  assumes "\<forall>a\<in>set as. sensor_ok (es ! a)" "set as \<subseteq> {..<length es}"
  shows "mark as (mark as es) = mark as es" "sensors_text (mark as es) as = []"
proof -
  show "mark as (mark as es) = mark as es"
    using assms(1) by (intro nth_equalityI) auto
  have "sensor_text (mark as es ! a) = []" if "a \<in> set as" for a
    using assms that by auto
  then show "sensors_text (mark as es) as = []"
    by (simp add: sensors_text_def)
qed

lemma chain_mark: "chain es p as \<Longrightarrow> chain (mark bs es) p as"
  by (induction as arbitrary: p) auto

lemma construct_appends:
  assumes "chain (infos ss) (sensor_ll ss) as" "\<forall>a\<in>set as. sensor_ok (infos ss ! a)"
    "\<forall>a\<in>set as. length (sensor_text (infos ss ! a)) < unat len"
    "c_str src = Some s" "unat len \<le> length dest" "length dest < 2 ^ 31"
  shows "map_option (\<lambda>(src', dest', ss'). (src', ss')) (sensor_msg_construct src dest len ss) =
    (if length s + length (sensors_text (infos ss) as) < length src
     then Some (s @ sensors_text (infos ss) as @ 0 # drop (Suc (length s + length (sensors_text (infos ss) as))) src,
       ss\<lparr>infos := mark as (infos ss)\<rparr>)
     else None)"
  using construct_loop_appends [OF assms(1) _ _ assms(4) refl assms(5,6)] assms(2,3)
  by (auto simp: sensor_msg_construct_def)

text \<open>C35. A message holds the changed sensors and only those, in the order of the list, each as
  \<open>,"property":value\<close> behind what the array already holds, and the sensors are marked as reported: the
  next message adds nothing.  The array must hold them all: \<^verbatim>\<open>strcat\<close> knows no bound.\<close>

theorem sensor_message:
  assumes "chain (infos ss) (sensor_ll ss) as" "\<forall>a\<in>set as. sensor_ok (infos ss ! a)"
    "\<forall>a\<in>set as. length (sensor_text (infos ss ! a)) < unat len"
    "c_str src = Some s" "unat len \<le> length dest" "length dest < 2 ^ 31" "0 < unat len" "c_str src2 = Some s2"
  shows "map_option (\<lambda>(src', dest', ss'). (src', ss')) (sensor_msg_construct src dest len ss) =
      (if length s + length (sensors_text (infos ss) as) < length src
       then Some (s @ sensors_text (infos ss) as @ 0 # drop (Suc (length s + length (sensors_text (infos ss) as))) src,
         ss\<lparr>infos := mark as (infos ss)\<rparr>)
       else None) \<and>
    map_option (\<lambda>(src', dest', ss'). (src', ss')) (sensor_msg_construct src2 dest len (ss\<lparr>infos := mark as (infos ss)\<rparr>)) =
      Some (src2, ss\<lparr>infos := mark as (infos ss)\<rparr>)"
proof
  let ?ss = "ss\<lparr>infos := mark as (infos ss)\<rparr>"
  show "map_option (\<lambda>(src', dest', ss'). (src', ss')) (sensor_msg_construct src dest len ss) =
      (if length s + length (sensors_text (infos ss) as) < length src
       then Some (s @ sensors_text (infos ss) as @ 0 # drop (Suc (length s + length (sensors_text (infos ss) as))) src, ?ss)
       else None)"
    using assms by (intro construct_appends) auto
  note again = mark_again [OF assms(2) chain_bounds [OF assms(1)]]
  have "chain (infos ?ss) (sensor_ll ?ss) as"
    using chain_mark [OF assms(1)] by simp
  moreover have "\<forall>a\<in>set as. sensor_ok (infos ?ss ! a)" "\<forall>a\<in>set as. length (sensor_text (infos ?ss ! a)) < unat len"
    using assms(2,7) chain_bounds [OF assms(1)] sensor_ok_reported by auto
  ultimately show "map_option (\<lambda>(src', dest', ss'). (src', ss')) (sensor_msg_construct src2 dest len ?ss) = Some (src2, ?ss)"
    using construct_appends [of ?ss as len src2 s2 dest] assms(5,6,8) again c_str_self [OF assms(8)] c_str_length [OF assms(8)]
    by simp
qed

definition example_sensors :: Sensors where
  "example_sensors = \<lparr>sensor_ll = Some 1, sensor_drvinit_flag = True, infos =
     [\<lparr>event_curr_value = ascii ''27'' @ replicate 62 0, event_prev_value = ascii '' '' @ replicate 63 0,
        s_property = ascii ''light'', s_next = None\<rparr>,
      \<lparr>event_curr_value = ascii ''1'' @ replicate 63 0, event_prev_value = ascii ''0'' @ replicate 63 0,
        s_property = ascii ''occ'', s_next = Some 0\<rparr>]\<rparr>"

lemma example_sensors_ok:
  "chain (infos example_sensors) (sensor_ll example_sensors) [Suc 0, 0]"
  "\<forall>a\<in>set [Suc 0, 0]. sensor_ok (infos example_sensors ! a)"
  "\<forall>a\<in>set [Suc 0, 0]. length (sensor_text (infos example_sensors ! a)) < unat (128 :: u32)"
  "sensors_text (infos example_sensors) [Suc 0, 0] = ascii '',\"occ\":1,\"light\":27''"
  by (simp_all add: example_sensors_def)
    (code_simp | (simp add: sensor_ok_def sensor_text_def value_of_def c_str_def ascii_def sensors_text_def))+

lemma sensor_message_witness:
  "map_option (\<lambda>(src', dest', ss'). (src', ss')) (sensor_msg_construct (replicate 128 0) (replicate 128 0) 128 example_sensors) =
     Some (ascii '',\"occ\":1,\"light\":27'' @ 0 # replicate 108 0,
       example_sensors\<lparr>infos := mark [Suc 0, 0] (infos example_sensors)\<rparr>)"
proof -
  have "c_str (replicate 128 0) = Some []"
    by (simp add: c_str_def numeral_eq_Suc)
  then show ?thesis
    using sensor_message [OF example_sensors_ok(1,2,3), of "replicate 128 0" "[]" "replicate 128 0" "replicate 128 0" "[]"]
    by (simp add: example_sensors_ok(4))
qed

section \<open>Registration\<close>

text \<open>The walk links the sensor behind the last one, unless it is in the list.\<close>

lemma link_loop_chain:
  assumes "chain (infos ss) p as" "p = None \<longrightarrow> sensor_ll ss = None" "e < length (infos ss)"
  shows "link_loop p e ss =
    (if e \<in> set as then Some (False, ss)
     else if as = [] then Some (True, ss\<lparr>sensor_ll := Some e\<rparr>)
     else Some (True, ss\<lparr>infos := (infos ss)[last as := (infos ss ! last as)\<lparr>s_next := Some e\<rparr>]\<rparr>))"
  using assms
proof (induction as arbitrary: p)
  case Nil
  then show ?case
    by (subst link_loop.simps) simp
next
  case (Cons a as)
  then show ?case
  proof (cases as)
    case Nil
    then show ?thesis
      using Cons.prems by (subst link_loop.simps) simp
  next
    case (Cons b bs)
    then have nx: "s_next (infos ss ! a) = Some b" "p = Some a" "a < length (infos ss)"
      using Cons.prems(1) by auto
    show ?thesis
    proof (cases "e = a")
      case True
      then show ?thesis
        using nx by (subst link_loop.simps) simp
    next
      case False
      then show ?thesis
        using nx Cons.IH [of "Some b"] Cons.prems Cons by (subst link_loop.simps) simp
    qed
  qed
qed

text \<open>Linking a new last element.\<close>

lemma chain_snoc:
  assumes "chain es p as" "as \<noteq> []" "e \<notin> set as" "e < length es" "s_next y = Some e" "s_next x = None"
  shows "chain ((es[last as := y])[e := x]) p (as @ [e])"
  using assms(1-3)
proof (induction as arbitrary: p)
  case (Cons a as)
  then have p: "p = Some a" "a < length es" "chain es (s_next (es ! a)) as" "a \<notin> set as"
    using chain_distinct [OF Cons.prems(1)] by auto
  show ?case
  proof (cases "as = []")
    case True
    then show ?thesis
      using p Cons.prems assms(4-6) by simp
  next
    case False
    then have "a \<noteq> last as"
      using p(4) by auto
    then show ?thesis
      using Cons.IH [OF p(3) False] Cons.prems p False by auto
  qed
qed simp

text \<open>Registering a sensor keeps a list: the chain of links stays free of cycles and duplicates, a
  new sensor comes last with both of its values blank, and one that is in the list already is refused and
  changes nothing, as is any sensor before the layer is initialised, and \<open>NULL\<close>.\<close>

theorem sensor_registry:
  fixes drv :: "'w Drivers"
  assumes "sensor_drvinit_flag ss" "chain (infos ss) (sensor_ll ss) as" "e < length (infos ss)"
    "2 \<le> length (event_prev_value (infos ss ! e))" "2 \<le> length (event_curr_value (infos ss ! e))"
    "\<forall>ss w. drv_init drv e (ss, w) = Some (ss, init_world w)"
  shows "(\<exists>ss'. sensor_event_register drv (Some e) (ss, w) =
        Some (if e \<in> set as then (- 1, ss, w) else (0, ss', init_world w)) \<and>
      chain (infos (if e \<in> set as then ss else ss')) (sensor_ll (if e \<in> set as then ss else ss'))
        (if e \<in> set as then as else as @ [e]) \<and>
      c_str (event_curr_value (infos ss' ! e)) = Some (ascii '' '') \<and>
      c_str (event_prev_value (infos ss' ! e)) = Some (ascii '' '')) \<and>
    distinct as \<and>
    sensor_event_register drv None (ss, w) = Some (- 1, ss, w) \<and>
    sensor_event_register drv x (ss\<lparr>sensor_drvinit_flag := False\<rparr>, w) = Some (- 1, ss\<lparr>sensor_drvinit_flag := False\<rparr>, w)"
proof -
  let ?is = "infos ss" and ?blank = "\<lambda>m. ascii '' '' @ 0 # drop 2 m"
  let ?links = "if as = [] then ?is else ?is[last as := (?is ! last as)\<lparr>s_next := Some e\<rparr>]"
  let ?x = "(?links ! e)\<lparr>event_prev_value := ?blank (event_prev_value (?is ! e)),
    event_curr_value := ?blank (event_curr_value (?is ! e)), s_next := None\<rparr>"
  let ?ss = "ss\<lparr>sensor_ll := if as = [] then Some e else sensor_ll ss, infos := ?links[e := ?x]\<rparr>"
  have blank: "sprintf m 0 (ascii '' '') = Some (?blank m)" "c_str (?blank m) = Some (ascii '' '')"
    if "2 \<le> length m" for m
  proof -
    have space: "ascii '' '' = [32]"
      by code_simp
    show "sprintf m 0 (ascii '' '') = Some (?blank m)"
      using that by (simp add: sprintf_at_start numeral_2_eq_2)
    show "c_str (?blank m) = Some (ascii '' '')"
      by (simp add: space c_str_def)
  qed
  have link: "link_loop (sensor_ll ss) e ss =
      Some (if e \<in> set as then (False, ss) else (True, ?ss\<lparr>infos := ?links\<rparr>))"
    using assms(2,3) by (subst link_loop_chain [OF assms(2)]) auto
  have refused: "sensor_event_register drv (Some e) (ss, w) = Some (- 1, ss, w)" if "e \<in> set as"
    using that assms(1) by (simp add: sensor_event_register_def link)
  have added: "sensor_event_register drv (Some e) (ss, w) = Some (0, ?ss, init_world w)" if "e \<notin> set as"
  proof -
    have "last as \<noteq> e" if "as \<noteq> []"
      using that \<open>e \<notin> set as\<close> by auto
    then show ?thesis
      using that assms(1,3-6) by (simp add: sensor_event_register_def link blank)
  qed
  have "chain (infos ?ss) (sensor_ll ?ss) (as @ [e])" if "e \<notin> set as"
    using that chain_snoc [OF assms(2) _ that assms(3), of "(?is ! last as)\<lparr>s_next := Some e\<rparr>" ?x] assms(3)
    by auto
  moreover have "c_str (event_curr_value (infos ?ss ! e)) = Some (ascii '' '')"
    "c_str (event_prev_value (infos ?ss ! e)) = Some (ascii '' '')"
    using assms(3,4,5) blank(2) by auto
  ultimately have "\<exists>ss'. sensor_event_register drv (Some e) (ss, w) =
        Some (if e \<in> set as then (- 1, ss, w) else (0, ss', init_world w)) \<and>
      chain (infos (if e \<in> set as then ss else ss')) (sensor_ll (if e \<in> set as then ss else ss'))
        (if e \<in> set as then as else as @ [e]) \<and>
      c_str (event_curr_value (infos ss' ! e)) = Some (ascii '' '') \<and>
      c_str (event_prev_value (infos ss' ! e)) = Some (ascii '' '')"
    using refused added assms(2) by (intro exI [of _ ?ss]) (simp split del: if_split split: if_split)
  then show ?thesis
    using chain_distinct [OF assms(2)] assms(1) by (simp add: sensor_event_register_def)
qed

definition example_drivers :: "nat Drivers" where
  "example_drivers = \<lparr>drv_init = (\<lambda>a (ss, w). Some (ss, Suc w)), drv_read = (\<lambda>a s. Some s)\<rparr>"

lemma sensor_registry_witness:
  "\<exists>ss'. sensor_event_register example_drivers (Some 0) (example_sensors\<lparr>infos := (infos example_sensors)[1 := (infos example_sensors ! 1)\<lparr>s_next := None\<rparr>]\<rparr>, 7) =
     Some (0, ss', 8) \<and> chain (infos ss') (sensor_ll ss') [1, 0]"
proof -
  let ?ss = "example_sensors\<lparr>infos := (infos example_sensors)[1 := (infos example_sensors ! 1)\<lparr>s_next := None\<rparr>]\<rparr>"
  have "sensor_drvinit_flag ?ss" "chain (infos ?ss) (sensor_ll ?ss) [1]" "0 < length (infos ?ss)"
    "2 \<le> length (event_prev_value (infos ?ss ! 0))" "2 \<le> length (event_curr_value (infos ?ss ! 0))"
    "\<forall>ss w. drv_init example_drivers 0 (ss, w) = Some (ss, Suc w)"
    by (simp_all add: example_sensors_def example_drivers_def)
  from sensor_registry [OF this, of 7] show ?thesis
    by auto
qed

section \<open>Readings of the accelerometer\<close>

text \<open>The value of a six-bit number in two's complement.\<close>

definition six_bits :: "byte \<Rightarrow> int" where
  "six_bits v = (let n = uint v mod 64 in if n < 32 then n else n - 64)"

lemma sint_axis: "sint (axis v) = six_bits v"
  by (rule all_bytes [of "\<lambda>v. sint (axis v) = six_bits v"]) code_simp

lemma six_bits_range: "- 32 \<le> six_bits v" "six_bits v \<le> 31"
proof -
  have "0 \<le> uint v mod 64" "uint v mod 64 < 64"
    by simp_all
  then have "- 32 \<le> six_bits v \<and> six_bits v \<le> 31"
    unfolding six_bits_def Let_def by (simp split: if_split) linarith
  then show "- 32 \<le> six_bits v" "six_bits v \<le> 31"
    by simp_all
qed

lemma six_bits_or: "six_bits (or v 64) = six_bits v"
proof -
  have "take_bit 6 (uint (or v 64)) = take_bit 6 (uint v)"
    by (simp add: unsigned_or_eq)
  then show ?thesis
    by (simp add: six_bits_def take_bit_eq_mod)
qed

lemma length_show_axis: "length (show_int (six_bits v)) \<le> 3"
proof -
  have "length (show_nat n) \<le> 2" if "n < 100" for n
    using that length_show_nat [of n 2] by simp
  moreover have "nat (six_bits v) < 100" "nat (- six_bits v) < 100"
    using six_bits_range [of v] by linarith+
  ultimately have "length (show_nat (nat (six_bits v))) \<le> 2" "length (show_nat (nat (- six_bits v))) \<le> 2"
    by blast+
  then show ?thesis
    by (simp add: show_int_def)
qed

text \<open>A scan of the accelerometer writes its three readings, each the six-bit number in two's
  complement in the low bits of its register, so between -32 and 31, in decimal and separated by commas;
  the bits above, the alert bit included, are not looked at.  Without a device nothing is written.\<close>

theorem accelerometer_report:
  assumes "i2c_read bus 3 (MMA7660_From (Some bus) 0 w) = ([vx, vy, vz], w')" "64 \<le> length buf"
  shows "MMA7660acc_sensor_input_scan (Some bus) buf w =
      (let t = show_int (six_bits vx) @ ascii '','' @ show_int (six_bits vy) @ ascii '','' @ show_int (six_bits vz)
       in Some (0, t @ 0 # drop (Suc (length t)) buf, w')) \<and>
    six_bits vx \<in> {- 32..31} \<and> six_bits (or vx 64) = six_bits vx \<and>
    MMA7660acc_sensor_input_scan None buf w = Some (- 1, buf, w)"
proof -
  let ?t = "show_int (six_bits vx) @ ascii '','' @ show_int (six_bits vy) @ ascii '','' @ show_int (six_bits vz)"
  have "length ?t < length buf"
    using length_show_axis [of vx] length_show_axis [of vy] length_show_axis [of vz] assms(2) by simp
  then have printed: "sprintf buf 0 ?t = Some (?t @ 0 # drop (Suc (length ?t)) buf)"
    by (rule sprintf_at_start)
  have "MMA7660acc_sensor_input_scan (Some bus) buf w = Some (0, ?t @ 0 # drop (Suc (length ?t)) buf, w')"
    unfolding MMA7660acc_sensor_input_scan_def MMA7660_getXYZ_def
    by (simp add: assms(1) sint_axis printed del: length_append append_assoc)
  then show ?thesis
    using six_bits_range [of vx] six_bits_or [of vx]
    by (simp add: MMA7660acc_sensor_input_scan_def MMA7660_getXYZ_def Let_def)
qed

lemma accelerometer_report_witness:
  "MMA7660acc_sensor_input_scan (Some \<lparr>i2c_write = (\<lambda>bs w. bs), i2c_read = (\<lambda>n w. ([0x3f, 0x1f, 0x60], w))\<rparr>) (replicate 64 7) [] =
     Some (0, ascii ''-1,31,-32'' @ 0 # replicate 54 7, [0])"
proof -
  let ?bus = "\<lparr>i2c_write = (\<lambda>bs w. bs), i2c_read = (\<lambda>n w. ([0x3f, 0x1f, 0x60], w))\<rparr> :: byte list I2c"
  have "i2c_read ?bus 3 (MMA7660_From (Some ?bus) 0 []) = ([0x3f, 0x1f, 0x60], [0])" "64 \<le> length (replicate 64 7 :: byte list)"
    by (simp_all add: MMA7660_From_def)
  note report = accelerometer_report [OF this]
  have "show_int (six_bits 0x3f) @ ascii '','' @ show_int (six_bits 0x1f) @ ascii '','' @ show_int (six_bits 0x60) = ascii ''-1,31,-32''"
    by code_simp
  then show ?thesis
    using report by (simp add: Let_def)
qed

end
