(* ===== verification/Starter_Demo.thy ===== *)
theory Starter_Demo
  imports Shadow_Requests Sensors
begin

text \<open>
  The application \<^verbatim>\<open>aws_starter_demo/src/main.c\<close>: two push buttons whose counts and a LED whose state
  are reported to the Thing Shadow, a LED that follows the shadow's delta messages, and the sensors.

  The file's variables are the record \<open>Starter\<close>; it is the application's part of the world of the
  shadow's client, beside the rest of the world \<open>'w\<close>.  The board and the operating system are
  parameters, \<open>Board\<close>.
\<close>

section \<open>State and surroundings\<close>

record Starter =
  pushbutton_a_count :: u32
  pushbutton_a_count_prev :: u32
  pushbutton_b_count :: u32
  pushbutton_b_count_prev :: u32
  led_1_state :: u32
  led_1_state_prev :: u32
  led_1 :: nat
  sensors :: Sensors
  aws_starter_thread :: bool

text \<open>\<open>read_aws_thing\<close> and the like map a buffer to their result and the buffer they filled;
  \<open>os_thread_create\<close> tells whether the handle is set afterwards.\<close>

record 'w Board =
  board_led_1 :: nat
  board_led_2 :: nat
  led_on :: "nat \<Rightarrow> 'w \<Rightarrow> 'w"
  led_off :: "nat \<Rightarrow> 'w \<Rightarrow> 'w"
  led_fast_blink :: "nat \<Rightarrow> 'w \<Rightarrow> 'w"
  os_thread_sleep :: "u32 \<Rightarrow> 'w \<Rightarrow> 'w"
  os_msec_to_ticks :: "u32 \<Rightarrow> u32"
  os_thread_create :: "'w \<Rightarrow> int \<times> bool \<times> 'w"
  wmtime_time_set_posix :: "u32 \<Rightarrow> 'w \<Rightarrow> 'w"
  read_aws_thing :: "byte list \<Rightarrow> int \<times> byte list"
  read_aws_device_mac :: "byte list \<Rightarrow> int \<times> byte list"
  read_aws_region :: "byte list \<Rightarrow> int \<times> byte list"
  read_aws_certificate :: "byte list \<Rightarrow> int \<times> byte list"
  read_aws_key :: "byte list \<Rightarrow> int \<times> byte list"

text \<open>The values of the static variables at the start; the LED's pin is set by
  \<^verbatim>\<open>configure_led_and_button\<close>.\<close>

definition initial_starter :: "nat \<Rightarrow> Sensors \<Rightarrow> Starter" where
  "initial_starter pin ss = \<lparr>pushbutton_a_count = 0, pushbutton_a_count_prev = - 1, pushbutton_b_count = 0,
     pushbutton_b_count_prev = - 1, led_1_state = 0, led_1_state_prev = - 1, led_1 = pin, sensors = ss,
     aws_starter_thread = False\<rparr>"

section \<open>Buttons and LED\<close>

definition pushbutton_a_cb :: "Starter \<Rightarrow> Starter" where
  "pushbutton_a_cb st = (if pushbutton_a_count_prev st = pushbutton_a_count st
     then st\<lparr>pushbutton_a_count := pushbutton_a_count st + 1\<rparr> else st)"

definition pushbutton_b_cb :: "Starter \<Rightarrow> Starter" where
  "pushbutton_b_cb st = (if pushbutton_b_count_prev st = pushbutton_b_count st
     then st\<lparr>pushbutton_b_count := pushbutton_b_count st + 1\<rparr> else st)"

text \<open>The context is the registered structure; its data is read as a 32-bit integer.\<close>

definition led_indicator_cb ::
  "'w Board \<Rightarrow> nat option \<Rightarrow> (Starter \<times> 'w) shadow_state \<Rightarrow> (Starter \<times> 'w) shadow_state option" where
  "led_indicator_cb board p_context = (\<lambda>(c, sh, st, w).
     case p_context of None \<Rightarrow> Some (c, sh, st, w)
     | Some p \<Rightarrow>
         if p < length (jsonStructs sh) then do {
           m \<leftarrow> js_pData (jsonStructs sh ! p);
           state \<leftarrow> mem_word m;
           if state \<noteq> (0 :: u32) then Some (c, sh, st\<lparr>led_1_state := 1\<rparr>, led_on board (led_1 st) w)
           else Some (c, sh, st\<lparr>led_1_state := 0\<rparr>, led_off board (led_1 st) w) }
         else None)"

section \<open>Reports\<close>

abbreviation (input) BUFSIZE :: nat where "BUFSIZE \<equiv> 128"

text \<open>One of the three sections of the report, for a number and the value last reported: the message so
  far and the work array.\<close>

definition append_property ::
  "string \<Rightarrow> u32 \<Rightarrow> u32 \<Rightarrow> byte list \<times> byte list \<Rightarrow> (byte list \<times> byte list) option" where
  "append_property name prev cur = (\<lambda>(state, buf_out).
     if prev \<noteq> cur then do {
       (_, buf_out) \<leftarrow> snprintf buf_out 0 128
         (ascii '',\"'' @ ascii name @ ascii ''\":'' @ show_int (uint cur));
       state \<leftarrow> c_strcat state buf_out;
       Some (state, buf_out) }
     else Some (state, buf_out))"

definition commit_a :: "Starter \<Rightarrow> Starter" where
  "commit_a st = (if pushbutton_a_count_prev st \<noteq> pushbutton_a_count st
     then st\<lparr>pushbutton_a_count_prev := pushbutton_a_count st\<rparr> else st)"

definition commit_b :: "Starter \<Rightarrow> Starter" where
  "commit_b st = (if pushbutton_b_count_prev st \<noteq> pushbutton_b_count st
     then st\<lparr>pushbutton_b_count_prev := pushbutton_b_count st\<rparr> else st)"

definition commit_led :: "Starter \<Rightarrow> Starter" where
  "commit_led st = (if led_1_state_prev st \<noteq> led_1_state st
     then st\<lparr>led_1_state_prev := led_1_state st\<rparr> else st)"

text \<open>\<open>buf_out\<close> is the content of the local array, not initialised; \<open>retained\<close> that of the
  parameter structure the update leaves unset.\<close>

definition aws_publish_property_state ::
  "(Shadow \<times> Starter \<times> 'w) Env \<Rightarrow> (Starter \<times> 'w) Shadow_App \<Rightarrow> byte \<Rightarrow> byte list \<Rightarrow> ptr
   \<Rightarrow> ShadowConnectParameters_t \<Rightarrow> (Starter \<times> 'w) shadow_state
   \<Rightarrow> (IoT_Error_t \<times> (Starter \<times> 'w) shadow_state) option" where
  "aws_publish_property_state env app retained buf_out shadow_update_status_cb sp = (\<lambda>(c, sh, st, w). do {
     (state, buf_out, ss) \<leftarrow> sensor_msg_construct (replicate BUFSIZE 0) buf_out 128 (sensors st);
     let st = st\<lparr>sensors := ss\<rparr> in do {
     (state, buf_out) \<leftarrow> append_property ''pb'' (pushbutton_a_count_prev st) (pushbutton_a_count st) (state, buf_out);
     let st = commit_a st in do {
     (state, buf_out) \<leftarrow> append_property ''pb_lambda'' (pushbutton_b_count_prev st) (pushbutton_b_count st) (state, buf_out);
     let st = commit_b st in do {
     (state, buf_out) \<leftarrow> append_property ''led'' (led_1_state_prev st) (led_1_state st) (state, buf_out);
     let st = commit_led st in do {
     text_of_state \<leftarrow> c_str state;
     let ptr = (if take 1 state = [44] then tl text_of_state else text_of_state) in
     if text_of_state \<noteq> [] then do {
       (_, buf_out) \<leftarrow> snprintf buf_out 0 128
         (ascii ''{\"state\": {\"reported\":{'' @ ptr @ ascii ''}}}'');
       json \<leftarrow> c_str buf_out;
       aws_iot_shadow_update env app retained (sc_pMyThingName sp) (Some json) shadow_update_status_cb NULL 10
         True (c, sh, st, w) }
     else Some (AWS_SUCCESS, c, sh, st, w) } } } } })"

section \<open>What is reported\<close>

definition property_text :: "string \<Rightarrow> u32 \<Rightarrow> u32 \<Rightarrow> byte list" where
  "property_text name prev cur = (if prev = cur then []
     else ascii '',\"'' @ ascii name @ ascii ''\":'' @ show_int (uint cur))"

definition report_text :: "nat list \<Rightarrow> Starter \<Rightarrow> byte list" where
  "report_text as st = sensors_text (infos (sensors st)) as @
     property_text ''pb'' (pushbutton_a_count_prev st) (pushbutton_a_count st) @
     property_text ''pb_lambda'' (pushbutton_b_count_prev st) (pushbutton_b_count st) @
     property_text ''led'' (led_1_state_prev st) (led_1_state st)"

definition report_document :: "byte list \<Rightarrow> byte list" where
  "report_document ps = ascii ''{\"state\": {\"reported\":{'' @ tl ps @ ascii ''}}}''"

text \<open>The state in which everything is reported.\<close>

definition all_reported :: "nat list \<Rightarrow> Starter \<Rightarrow> Starter" where
  "all_reported as st = st\<lparr>sensors := (sensors st)\<lparr>infos := mark as (infos (sensors st))\<rparr>,
     pushbutton_a_count_prev := pushbutton_a_count st, pushbutton_b_count_prev := pushbutton_b_count st,
     led_1_state_prev := led_1_state st\<rparr>"

lemma zero_property_text: "0 \<notin> set (ascii name) \<Longrightarrow> 0 \<notin> set (property_text name prev cur)"
  using show_int_nonzero [of "uint cur"] by (simp add: property_text_def) (simp add: ascii_def)

text \<open>An array of the report's size that holds the text.\<close>

definition holds :: "byte list \<Rightarrow> byte list \<Rightarrow> bool" where
  "holds m s \<longleftrightarrow> length m = BUFSIZE \<and> c_str m = Some s"

lemma holds_append: "holds m s \<Longrightarrow> 0 \<notin> set t \<Longrightarrow> length s + length t < BUFSIZE \<Longrightarrow>
   holds (s @ t @ 0 # drop (Suc (length s + length t)) m) (s @ t)"
  using c_str_mem [of "s @ t"] c_str_no_zero [of m s] by (simp add: holds_def)

lemma append_property_fits:
  assumes "holds m s" "length b = BUFSIZE" "0 \<notin> set (ascii name)"
    "length s + length (property_text name prev cur) < BUFSIZE"
  obtains m' b' where "append_property name prev cur (m, b) = Some (m', b')"
    "holds m' (s @ property_text name prev cur)" "length b' = BUFSIZE"
proof (cases "prev = cur")
  case True
  then show ?thesis
    using that assms(1,2) by (simp add: append_property_def property_text_def)
next
  case False
  let ?t = "property_text name prev cur"
  have t: "ascii '',\"'' @ ascii name @ ascii ''\":'' @ show_int (uint cur) = ?t"
    using False by (simp add: property_text_def)
  have "snprintf b 0 128 ?t = Some (int (length ?t), ?t @ 0 # drop (Suc (length ?t)) b)"
    using assms(2,4) by (intro snprintf_at_start) simp_all
  moreover have "c_strcat m (?t @ 0 # drop (Suc (length ?t)) b) =
      Some (s @ ?t @ 0 # drop (Suc (length s + length ?t)) m)"
    using c_strcat_fits [OF _ c_str_mem [OF zero_property_text [OF assms(3)]]] assms(1,4) by (simp add: holds_def)
  ultimately have "append_property name prev cur (m, b) =
      Some (s @ ?t @ 0 # drop (Suc (length s + length ?t)) m, ?t @ 0 # drop (Suc (length ?t)) b)"
    using False by (simp add: append_property_def t)
  then show ?thesis
    using that holds_append [OF assms(1) zero_property_text [OF assms(3)] assms(4)] assms(2,4) by simp
qed

lemma construct_fits:
  assumes "chain (infos ss) (sensor_ll ss) as" "\<forall>a\<in>set as. sensor_ok (infos ss ! a)"
    "length (sensors_text (infos ss) as) < BUFSIZE" "length b = BUFSIZE"
  obtains m' b' where "sensor_msg_construct (replicate BUFSIZE 0) b 128 ss =
      Some (m', b', ss\<lparr>infos := mark as (infos ss)\<rparr>)" "holds m' (sensors_text (infos ss) as)" "length b' = BUFSIZE"
proof -
  have "length (sensor_text (infos ss ! a)) \<le> length (sensors_text (infos ss) as)" if "a \<in> set as" for a
    using that by (auto simp: sensors_text_def length_concat intro!: member_le_sum_list)
  then have small: "length (sensor_text (infos ss ! a)) < unat (128 :: u32)" if "a \<in> set as" for a
    using that assms(3) by (fastforce intro: le_less_trans)
  have empty: "holds (replicate BUFSIZE 0) []"
    by (simp add: holds_def c_str_def numeral_eq_Suc)
  have zero: "0 \<notin> set (sensors_text (infos ss) as)"
    using assms(2) sensor_ok_text(3) by (auto simp: sensors_text_def)
  have "c_str (replicate BUFSIZE 0) = Some []"
    using empty by (simp add: holds_def)
  from construct_loop_appends [OF assms(1) _ small this assms(4)] obtain b' where "length b' = BUFSIZE"
    "sensor_msg_construct (replicate BUFSIZE 0) b 128 ss =
      Some ([] @ sensors_text (infos ss) as @ 0 # drop (Suc (length [] + length (sensors_text (infos ss) as))) (replicate BUFSIZE 0),
        b', ss\<lparr>infos := mark as (infos ss)\<rparr>)"
    using assms(2,3) by (auto simp: sensor_msg_construct_def)
  then show ?thesis
    using that holds_append [OF empty zero] assms(3) by simp
qed

lemma take_one_text: "c_str m = Some s \<Longrightarrow> take 1 m = [44] \<longleftrightarrow> take 1 s = [44]"
  by (erule c_str_split) (cases s; simp)

lemma sensors_text_comma: "take 1 (sensors_text is as) \<in> {[], [44]}"
proof (induction as)
  case (Cons a as)
  have "sensor_text (is ! a) = [] \<or> take 1 (sensor_text (is ! a)) = [44]"
    by (simp add: sensor_text_def ascii_def)
  then show ?case
    using Cons by (auto simp: sensors_text_def)
qed (simp add: sensors_text_def)

lemma property_text_comma: "property_text name prev cur = [] \<or> take 1 (property_text name prev cur) = [44]"
  by (simp add: property_text_def ascii_def)

lemma take_one_append: "take 1 s \<in> {[], [x]} \<Longrightarrow> take 1 t \<in> {[], [x]} \<Longrightarrow> take 1 (s @ t) \<in> {[], [x]}"
  by (cases s) auto

lemma report_text_comma: "report_text as st = [] \<or> take 1 (report_text as st) = [44]"
proof -
  have "take 1 (report_text as st) \<in> {[], [44]}"
    unfolding report_text_def
    using property_text_comma by (intro take_one_append sensors_text_comma) (metis insertCI take_Nil)+
  then show ?thesis
    by (cases "report_text as st") auto
qed

lemma zero_report_text:
  assumes "\<forall>a\<in>set as. sensor_ok (infos (sensors st) ! a)"
  shows "0 \<notin> set (report_text as st)"
proof -
  have "0 \<notin> set (sensors_text (infos (sensors st)) as)"
    using assms sensor_ok_text(3) by (auto simp: sensors_text_def)
  then show ?thesis
    by (simp add: report_text_def zero_property_text ascii_def)
qed

lemma commits: "commit_led (commit_b (commit_a (st\<lparr>sensors := (sensors st)\<lparr>infos := mark as (infos (sensors st))\<rparr>\<rparr>))) =
    all_reported as st"
  by (simp add: commit_a_def commit_b_def commit_led_def all_reported_def)

text \<open>A section sees the numbers of the state before.\<close>

lemma counts [simp]:
  "pushbutton_b_count (commit_a st) = pushbutton_b_count st" "pushbutton_b_count_prev (commit_a st) = pushbutton_b_count_prev st"
  "led_1_state (commit_b st) = led_1_state st" "led_1_state_prev (commit_b st) = led_1_state_prev st"
  "led_1_state (commit_a st) = led_1_state st" "led_1_state_prev (commit_a st) = led_1_state_prev st"
  by (simp_all add: commit_a_def commit_b_def)

lemma snprintf_cut:
  assumes "length buf = n" "0 < n" "n < 2 ^ 31" "length t < 2 ^ 31"
  shows "\<exists>r buf'. snprintf buf 0 (of_nat n) t = Some (r, take (n - 1) t @ 0 # buf')"
proof -
  obtain b rest where buf: "buf = [] @ b # rest" "length rest = n - 1"
    using assms(1,2) by (cases buf) auto
  have n: "unat (of_nat n :: u32) = n"
    using assms(3) by (intro unat_of_nat_lt) simp
  show ?thesis
  proof (cases "length t < n")
    case True
    then show ?thesis
      using snprintf_fits [of t "of_nat n" rest "[]" b] assms(2,4) buf(2) unfolding buf(1) by (simp add: n)
  next
    case False
    then show ?thesis
      using snprintf_truncated [of "of_nat n" t rest "[]" b] assms(2,4) buf(2) unfolding buf(1) by (simp add: n)
  qed
qed

lemma report_sends:
  assumes "chain (infos (sensors st)) (sensor_ll (sensors st)) as" "\<forall>a\<in>set as. sensor_ok (infos (sensors st) ! a)"
    and "length (report_text as st) < 128" "length buf_out = 128"
  shows "aws_publish_property_state env app retained buf_out cb sp (c, sh, st, w) =
    (if report_text as st = [] then Some (AWS_SUCCESS, c, sh, all_reported as st, w)
     else aws_iot_shadow_update env app retained (sc_pMyThingName sp)
       (Some (take 127 (report_document (report_text as st)))) cb NULL 10 True (c, sh, all_reported as st, w))"
proof -
  define T where "T = sensors_text (infos (sensors st)) as"
  define A where "A = property_text ''pb'' (pushbutton_a_count_prev st) (pushbutton_a_count st)"
  define B where "B = property_text ''pb_lambda'' (pushbutton_b_count_prev st) (pushbutton_b_count st)"
  define L where "L = property_text ''led'' (led_1_state_prev st) (led_1_state st)"
  have ps: "report_text as st = T @ A @ B @ L" and len: "length T + length A + length B + length L < 128"
    using assms(3) by (simp_all add: report_text_def T_def A_def B_def L_def)
  have zero: "0 \<notin> set T" "0 \<notin> set A" "0 \<notin> set B" "0 \<notin> set L"
    using zero_report_text [OF assms(2)] by (simp_all add: ps)
  obtain m0 b0 where first: "sensor_msg_construct (replicate BUFSIZE 0) buf_out 128 (sensors st) =
      Some (m0, b0, (sensors st)\<lparr>infos := mark as (infos (sensors st))\<rparr>)" and m0: "holds m0 T" "length b0 = BUFSIZE"
    using construct_fits [OF assms(1,2) _ assms(4)] len by (auto simp: T_def)
  obtain m1 b1 where a: "append_property ''pb'' (pushbutton_a_count_prev st) (pushbutton_a_count st) (m0, b0) = Some (m1, b1)"
    and m1: "holds m1 (T @ A)" "length b1 = BUFSIZE"
    by (rule append_property_fits [OF m0, of "''pb''"]) (use len in \<open>auto simp: A_def ascii_def\<close>)
  obtain m2 b2 where b: "append_property ''pb_lambda'' (pushbutton_b_count_prev st) (pushbutton_b_count st) (m1, b1) = Some (m2, b2)"
    and m2: "holds m2 ((T @ A) @ B)" "length b2 = BUFSIZE"
    by (rule append_property_fits [OF m1, of "''pb_lambda''"]) (use len in \<open>auto simp: B_def ascii_def\<close>)
  obtain m3 b3 where l: "append_property ''led'' (led_1_state_prev st) (led_1_state st) (m2, b2) = Some (m3, b3)"
    and m3: "holds m3 (((T @ A) @ B) @ L)" "length b3 = BUFSIZE"
    by (rule append_property_fits [OF m2, of "''led''"]) (use len in \<open>auto simp: L_def ascii_def\<close>)
  have held: "c_str m3 = Some (report_text as st)"
    using m3(1) by (simp add: holds_def ps)
  show ?thesis
  proof (cases "report_text as st = []")
    case True
    then show ?thesis
      by (simp add: aws_publish_property_state_def first a b l held commits counts Let_def)
  next
    case False
    have "take 1 m3 = [44]"
      using False report_text_comma [of as st] take_one_text [OF held] by simp
    moreover have zero: "0 \<notin> set (report_document (report_text as st))"
      using zero_report_text [OF assms(2)] by (cases "report_text as st") (auto simp: report_document_def ascii_def)
    moreover have "length (report_document (report_text as st)) < 2 ^ 31"
      using assms(3) by (simp add: report_document_def)
    from snprintf_cut [of b3 128, OF _ _ _ this] obtain r rest where "snprintf b3 0 128 (report_document (report_text as st)) =
        Some (r, take 127 (report_document (report_text as st)) @ 0 # rest)"
      using m3(2) by auto
    moreover have "c_str (take 127 (report_document (report_text as st)) @ 0 # rest) =
        Some (take 127 (report_document (report_text as st)))"
      using zero by (intro c_str_mem) (auto dest: in_set_takeD)
    ultimately show ?thesis
      using False by (simp add: aws_publish_property_state_def first a b l held commits counts Let_def
          report_document_def [symmetric])
  qed
qed

text \<open>A report holds the changed properties and only those: the sensors whose value changed, then the
  counts of the two buttons and the state of the LED where they differ from those reported last.  All of
  them are then marked as reported, whatever becomes of the update.  With nothing changed nothing is sent.  The
  document has room for 127 characters: a longer one loses its end.\<close>

theorem report_sent:
  assumes "chain (infos (sensors st)) (sensor_ll (sensors st)) as" "\<forall>a\<in>set as. sensor_ok (infos (sensors st) ! a)"
    and "length (report_text as st) < 128" "length buf_out = 128"
  shows "aws_publish_property_state env app retained buf_out cb sp (c, sh, st, w) =
    (if report_text as st = [] then Some (AWS_SUCCESS, c, sh, all_reported as st, w)
     else aws_iot_shadow_update env app retained (sc_pMyThingName sp)
       (Some (take 127 (report_document (report_text as st)))) cb NULL 10 True (c, sh, all_reported as st, w))"
  by (rule report_sends [OF assms])

section \<open>Nobody waits for the answer\<close>

text \<open>What the parser documents of the tokens it returns: as many as it says, each inside the text.\<close>

definition tokens_inside :: "Libs \<Rightarrow> byte list \<Rightarrow> bool" where
  "tokens_inside lib doc \<longleftrightarrow> (let (n, ts) = jsmn_parse lib doc MAX_JSON_TOKEN_EXPECTED in
     nat n \<le> length ts \<and>
     list_all (\<lambda>t. 0 \<le> tok_start t \<and> tok_start t \<le> tok_end t \<and> tok_end t \<le> int (length doc)) ts)"

lemma strncmp_eq_take: "strncmp_eq n as bs \<Longrightarrow> 0 \<notin> set bs \<Longrightarrow> n \<le> length bs \<Longrightarrow> take n bs = take n as"
  by (induction n as bs rule: strncmp_eq.induct) auto

text \<open>A document without the letter T has no key \<^verbatim>\<open>clientToken\<close>.\<close>

lemma no_clientToken:
  assumes "84 \<notin> set doc" "0 \<le> tok_start t" "tok_start t \<le> tok_end t" "tok_end t \<le> int (length doc)"
  shows "jsoneq doc t (Some SHADOW_CLIENT_TOKEN_STRING) = Some (- 1)"
proof -
  have "\<not> strncmp_eq 11 (drop k doc) SHADOW_CLIENT_TOKEN_STRING" for k
  proof
    assume "strncmp_eq 11 (drop k doc) SHADOW_CLIENT_TOKEN_STRING"
    then have "take 11 SHADOW_CLIENT_TOKEN_STRING = take 11 (drop k doc)"
      by (rule strncmp_eq_take) (simp_all add: ascii_def)
    then have "set (take 11 SHADOW_CLIENT_TOKEN_STRING) \<subseteq> set doc"
      by (metis set_drop_subset set_take_subset subset_trans)
    then show False
      using assms(1) by (simp add: ascii_def)
  qed
  then show ?thesis
    using assms(2-4) by (auto simp: jsoneq_def str_at_def)
qed

lemma find_key_none:
  assumes "\<forall>i\<in>set is. i < length toks \<and> jsoneq doc (toks ! i) key = Some (- 1)"
  shows "find_key doc toks key is = Some None"
  using assms by (induction "is") auto

lemma extractClientToken_none:
  assumes "84 \<notin> set doc" "tokens_inside lib doc"
  shows "extractClientToken lib doc out toks = Some (False, out, snd (parse_document lib doc toks))"
proof -
  obtain n ts where p: "jsmn_parse lib doc MAX_JSON_TOKEN_EXPECTED = (n, ts)"
    by fastforce
  have ts: "nat n \<le> length ts" "\<And>t. t \<in> set ts \<Longrightarrow> 0 \<le> tok_start t \<and> tok_start t \<le> tok_end t \<and> tok_end t \<le> int (length doc)"
    using assms(2) by (auto simp: tokens_inside_def p list_all_iff)
  have "i < length (ts @ drop (length ts) toks) \<and>
      jsoneq doc ((ts @ drop (length ts) toks) ! i) (Some SHADOW_CLIENT_TOKEN_STRING) = Some (- 1)" if "i < nat n" for i
  proof -
    have "i < length ts"
      using that ts(1) by simp
    then show ?thesis
      using no_clientToken [OF assms(1)] ts(2) [of "ts ! i"] by (simp add: nth_append)
  qed
  then have "find_key doc (ts @ drop (length ts) toks) (Some SHADOW_CLIENT_TOKEN_STRING) [1..<nat n] = Some None"
    by (intro find_key_none) simp
  then show ?thesis
    by (simp add: extractClientToken_def parse_document_def p)
qed

text \<open>An update whose document has no client token is a publish; the callback is not looked at.\<close>

lemma update_without_token:
  assumes "84 \<notin> set json" "tokens_inside (libs app) json" "aws_iot_mqtt_is_client_connected c"
  shows "aws_iot_shadow_update env app retained (Some thing) (Some json) cb ctx secs sticky (c, sh, v) =
    publishToShadowAction env retained (Some thing) SHADOW_UPDATE (Some json)
      (c, sh\<lparr>jsonTokenStruct := snd (parse_document (libs app) json (jsonTokenStruct sh))\<rparr>, v)"
  using assms(3)
  by (cases "publishToShadowAction env retained (Some thing) SHADOW_UPDATE (Some json)
      (c, sh\<lparr>jsonTokenStruct := snd (parse_document (libs app) json (jsonTokenStruct sh))\<rparr>, v)")
    (auto simp: aws_iot_shadow_update_def aws_iot_shadow_internal_action_def extractClientToken_none [OF assms(1,2)] Let_def
      split: if_splits)

lemma no_T_show_int: "84 \<notin> set (show_int (uint n))"
proof
  assume "84 \<in> set (show_int (uint n))"
  then have "84 \<in> set (show_nat (nat (uint n)))"
    by (simp add: show_int_def)
  from show_nat_digits [OF this] have "(84 :: byte) \<le> 57"
    by blast
  then show False
    by simp
qed

lemma no_T_property_text: "84 \<notin> set (ascii name) \<Longrightarrow> 84 \<notin> set (property_text name prev cur)"
  using no_T_show_int [of cur] by (simp add: property_text_def) (simp add: ascii_def)

lemma no_T_report_document:
  assumes "84 \<notin> set (sensors_text (infos (sensors st)) as)"
  shows "84 \<notin> set (report_document (report_text as st))"
proof -
  have "84 \<notin> set (report_text as st)"
    using assms by (simp add: report_text_def no_T_property_text ascii_def)
  then show ?thesis
    by (cases "report_text as st") (auto simp: report_document_def ascii_def)
qed

text \<open>A report is sent and forgotten.  Its document carries no client token, so for a connected client
  the update is one publish: no request is recorded and no response topic is subscribed, and the
  callback \<^verbatim>\<open>shadow_update_status_cb\<close> the application passes can be any pointer.  For a client that is not
  connected the report fails and is lost, its properties being marked as reported all the same.\<close>

theorem report_unanswered:
  assumes "chain (infos (sensors st)) (sensor_ll (sensors st)) as" "\<forall>a\<in>set as. sensor_ok (infos (sensors st) ! a)"
    and "report_text as st \<noteq> []" "length (report_text as st) \<le> 102" "length buf_out = 128"
    and "84 \<notin> set (sensors_text (infos (sensors st)) as)" "tokens_inside (libs app) (report_document (report_text as st))"
    and "sc_pMyThingName sp = Some thing" "aws_iot_mqtt_is_client_connected c" "\<not> aws_iot_mqtt_is_client_connected c0"
  shows "aws_publish_property_state env app retained buf_out cb sp (c, sh, st, w) =
      publishToShadowAction env retained (Some thing) SHADOW_UPDATE (Some (report_document (report_text as st)))
        (c, sh\<lparr>jsonTokenStruct := snd (parse_document (libs app) (report_document (report_text as st)) (jsonTokenStruct sh))\<rparr>,
         all_reported as st, w) \<and>
    aws_publish_property_state env app retained buf_out cb sp (c0, sh, st, w) =
      Some (MQTT_CONNECTION_ERROR, c0, sh, all_reported as st, w) \<and>
    report_text as (all_reported as st) = []"
proof (intro conjI)
  let ?doc = "report_document (report_text as st)"
  have "length ?doc \<le> 127"
    using assms(3,4) by (cases "report_text as st") (simp_all add: report_document_def)
  then have cut: "take 127 ?doc = ?doc"
    by simp
  have sent: "aws_publish_property_state env app retained buf_out cb sp (c, sh, st, w) =
      aws_iot_shadow_update env app retained (Some thing) (Some ?doc) cb NULL 10 True (c, sh, all_reported as st, w)" for c
    using report_sends [OF assms(1,2) _ assms(5), of env app retained cb sp c sh w] assms(3,4,8) by (simp add: cut)
  show "aws_publish_property_state env app retained buf_out cb sp (c, sh, st, w) =
      publishToShadowAction env retained (Some thing) SHADOW_UPDATE (Some ?doc)
        (c, sh\<lparr>jsonTokenStruct := snd (parse_document (libs app) ?doc (jsonTokenStruct sh))\<rparr>, all_reported as st, w)"
    unfolding sent by (rule update_without_token [OF no_T_report_document [OF assms(6)] assms(7,9)])
  show "aws_publish_property_state env app retained buf_out cb sp (c0, sh, st, w) =
      Some (MQTT_CONNECTION_ERROR, c0, sh, all_reported as st, w)"
    unfolding sent using assms(10) by (simp add: aws_iot_shadow_update_def)
  show "report_text as (all_reported as st) = []"
    using mark_again(2) [OF assms(2) chain_bounds [OF assms(1)]]
    by (simp add: report_text_def all_reported_def property_text_def)
qed

section \<open>A button and its interrupts\<close>

text \<open>The callbacks of the buttons are interrupts: they may come between any two of the report's accesses to
  the counts, which first compares the two, then prints the count, then stores it as the previous one.
  The last component is what has been printed so far.\<close>

datatype report_pc = Idle | Tested | Printed u32

inductive button_step :: "Starter \<times> report_pc \<times> u32 list \<Rightarrow> Starter \<times> report_pc \<times> u32 list \<Rightarrow> bool" where
  press: "button_step (st, pc, out) (pushbutton_a_cb st, pc, out)"
| press_other: "button_step (st, pc, out) (pushbutton_b_cb st, pc, out)"
| test: "pushbutton_a_count_prev st \<noteq> pushbutton_a_count st \<Longrightarrow> button_step (st, Idle, out) (st, Tested, out)"
| print: "button_step (st, Tested, out) (st, Printed (pushbutton_a_count st), out)"
| commit: "button_step (st, Printed n, out)
    (st\<lparr>pushbutton_a_count_prev := pushbutton_a_count st\<rparr>, Idle, out @ [n])"

code_pred (modes: i \<Rightarrow> o \<Rightarrow> bool as next_steps) button_step .

inductive_cases button_stepE: "button_step (st, pc, out) s"

text \<open>0, 1, 2, ...\<close>

definition next_number :: "u32 list \<Rightarrow> u32" where
  "next_number out = of_nat (length out)"

lemma next_number_simps [simp]: "next_number [] = 0" "next_number (out @ [n]) = next_number out + 1"
  by (simp_all add: next_number_def add.commute)

definition numbered :: "u32 list \<Rightarrow> bool" where
  "numbered out \<longleftrightarrow> map of_nat [0..<length out] = out"

lemma numbered_simps [simp]: "numbered []" "numbered (out @ [next_number out]) = numbered out"
  by (simp_all add: numbered_def next_number_def)

text \<open>\<open>n\<close> is the next number to print: either no press is pending, or one is and its report may be
  on the way.\<close>

definition pending :: "u32 \<Rightarrow> u32 \<Rightarrow> report_pc \<Rightarrow> u32 \<Rightarrow> bool" where
  "pending prev cnt pc n \<longleftrightarrow> prev = n - 1 \<and>
     (cnt = n - 1 \<and> pc = Idle \<or> cnt = n \<and> pc \<in> {Idle, Tested, Printed n})"

lemma pending_steps:
  "pending prev cnt pc n \<Longrightarrow> pending prev (if prev = cnt then cnt + 1 else cnt) pc n"
  "pending prev cnt Idle n \<Longrightarrow> prev \<noteq> cnt \<Longrightarrow> pending prev cnt Tested n"
  "pending prev cnt Tested n \<Longrightarrow> pending prev cnt (Printed cnt) n"
  "pending prev cnt (Printed m) n \<Longrightarrow> m = n \<and> pending cnt cnt Idle (n + 1)"
  by (auto simp: pending_def)

definition button_inv :: "Starter \<times> report_pc \<times> u32 list \<Rightarrow> bool" where
  "button_inv = (\<lambda>(st, pc, out). numbered out \<and>
     pending (pushbutton_a_count_prev st) (pushbutton_a_count st) pc (next_number out))"

lemma button_inv_step: "button_step s s' \<Longrightarrow> button_inv s \<Longrightarrow> button_inv s'"
proof (induction rule: button_step.induct)
  case (press st pc out)
  then show ?case
    using pending_steps(1) [of "pushbutton_a_count_prev st" "pushbutton_a_count st"]
    by (cases "pushbutton_a_count_prev st = pushbutton_a_count st") (simp_all add: button_inv_def pushbutton_a_cb_def)
next
  case (press_other st pc out)
  then show ?case
    by (simp add: button_inv_def pushbutton_b_cb_def)
next
  case (test st out)
  then show ?case
    by (simp add: button_inv_def pending_steps(2))
next
  case (print st out)
  then show ?case
    by (simp add: button_inv_def pending_steps(3))
next
  case (commit st n out)
  then show ?case
    using pending_steps(4) by (fastforce simp: button_inv_def)
qed

lemma button_inv_reachable: "button_step\<^sup>*\<^sup>* s s' \<Longrightarrow> button_inv s \<Longrightarrow> button_inv s'"
  by (induction rule: rtranclp_induct) (auto intro: button_inv_step)

lemma pushbutton_a_again: "pushbutton_a_cb (pushbutton_a_cb st) = pushbutton_a_cb st"
  by (simp add: pushbutton_a_cb_def)

text \<open>C29. Wherever the interrupts of the buttons fall, the reports of a button print 0, 1, 2, ... (modulo
  \<open>2^32\<close>), each number once, the number printed is the one stored as reported, and at most one press
  is pending.  Presses between two reports count as one, and those before the first report not at all.\<close>

theorem button_reports:
  assumes "button_step\<^sup>*\<^sup>* (initial_starter pin ss, Idle, []) (st, pc, out)"
  shows "numbered out \<and>
    pushbutton_a_count_prev st = of_nat (length out) - 1 \<and>
    pushbutton_a_count st \<in> {of_nat (length out) - 1, of_nat (length out)} \<and>
    (case pc of Printed n \<Rightarrow> n = pushbutton_a_count st | _ \<Rightarrow> True) \<and>
    (pushbutton_a_cb ^^ Suc k) st = pushbutton_a_cb st \<and>
    pushbutton_a_cb (initial_starter pin ss) = initial_starter pin ss"
proof -
  have "button_inv (initial_starter pin ss, Idle, [])"
    by (simp add: button_inv_def initial_starter_def pending_def)
  then have "button_inv (st, pc, out)"
    by (rule button_inv_reachable [OF assms])
  then have "numbered out" "pending (pushbutton_a_count_prev st) (pushbutton_a_count st) pc (of_nat (length out))"
    by (simp_all add: button_inv_def next_number_def)
  moreover have "(pushbutton_a_cb ^^ Suc k) st = pushbutton_a_cb st"
    by (induction k) (simp_all add: pushbutton_a_again)
  moreover have "pushbutton_a_cb (initial_starter pin ss) = initial_starter pin ss"
    by (simp add: pushbutton_a_cb_def initial_starter_def)
  ultimately show ?thesis
    by (auto simp: pending_def simp del: funpow.simps)
qed

section \<open>The application as the shadow's client\<close>

text \<open>The callback of the update only prints; the demo registers no other handler.\<close>

definition starter_app :: "Libs \<Rightarrow> 'w Board \<Rightarrow> (Starter \<times> 'w) Shadow_App" where
  "starter_app lib board = \<lparr>libs = lib, on_ack = (\<lambda>_ _ _ _ _ _ s. Some s),
     on_delta = (\<lambda>_ _ _ p s. led_indicator_cb board (Some p) s), on_message = (\<lambda>_ _ _ _ _ s. Some s),
     on_disconnect = (\<lambda>_ _ s. Some s), AckStatusCallback_addr = 1, myThingName_addr = 2,
     shadow_delta_callback_addr = 3\<rparr>"

lemma libs_starter_app [simp]: "libs (starter_app lib board) = lib"
  by (simp add: starter_app_def)

text \<open>The entry of the LED: the structure registered first, its data an integer of 32 bits of which the
  value type \<open>SHADOW_JSON_INT8\<close> writes the lowest byte.\<close>

definition led_registered :: "Shadow \<Rightarrow> bool" where
  "led_registered sh \<longleftrightarrow> tokenTableIndex sh = 1 \<and> 0 < length (jsonStructs sh) \<and>
     \<not> tt_isFree (tokenTable sh ! 0) \<and> tt_pStruct (tokenTable sh ! 0) = 0 \<and> tt_callback (tokenTable sh ! 0) \<noteq> NULL \<and>
     js_pKey (jsonStructs sh ! 0) = Some (ascii ''led'') \<and> js_type (jsonStructs sh ! 0) = SHADOW_JSON_INT8 \<and>
     (case js_pData (jsonStructs sh ! 0) of Some m \<Rightarrow> tl m = [0, 0, 0] | None \<Rightarrow> False)"

text \<open>What the callback does for a value.\<close>

definition led_set :: "'w Board \<Rightarrow> byte \<Rightarrow> Starter \<times> 'w \<Rightarrow> Starter \<times> 'w" where
  "led_set board b = (\<lambda>(st, w). if b = 0 then (st\<lparr>led_1_state := 0\<rparr>, led_off board (led_1 st) w)
     else (st\<lparr>led_1_state := 1\<rparr>, led_on board (led_1 st) w))"

lemma led_value: "mem_word [b, 0, 0, 0] = Some (ucast b :: u32)"
proof -
  have "(of_nat (unat b) :: u32) = ucast b"
    by (simp add: unsigned_ucast_eq)
  then show ?thesis
    by (simp add: mem_word_def)
qed

lemma led_value_zero: "(ucast b :: u32) = 0 \<longleftrightarrow> b = (0 :: byte)"
proof -
  have "unat (ucast b :: u32) = 0 \<longleftrightarrow> unat b = 0"
    by simp
  then show ?thesis
    by (simp only: unat_eq_zero)
qed

text \<open>The key is found, its value stored, the callback called; no other key is registered.\<close>

lemma delta_loop_led:
  assumes "led_registered sh" "c_str (shadowRxBuf sh) = Some doc"
    "find_key doc (jsonTokenStruct sh) (Some (ascii ''led'')) [1..<nat n] = Some (Some i)"
    "i + 1 < length (jsonTokenStruct sh)" "parseInteger8Value doc (jsonTokenStruct sh ! (i + 1)) = Some (Inr b)"
  shows "\<exists>sh'. delta_loop (starter_app lib board) n [0..<MAX_JSON_TOKEN_EXPECTED] (c, sh, v) =
      Some (c, sh', led_set board b v) \<and> led_registered sh' \<and> shadowJsonVersionNum sh' = shadowJsonVersionNum sh"
proof -
  let ?p = "jsonStructs sh ! 0" and ?app = "starter_app lib board"
  obtain b0 where m: "js_pData ?p = Some [b0, 0, 0, 0]"
    using assms(1) by (auto simp: led_registered_def split: option.splits) (metis list.collapse list.sel(2) list.discI)
  let ?p' = "?p\<lparr>js_pData := Some [b, 0, 0, 0]\<rparr>"
  let ?sh = "sh\<lparr>jsonStructs := (jsonStructs sh)[0 := ?p']\<rparr>"
  have fields: "tokenTableIndex sh = 1" "0 < length (jsonStructs sh)" "js_pKey ?p = Some (ascii ''led'')"
    "js_type ?p = SHADOW_JSON_INT8" "\<not> tt_isFree (tokenTable sh ! 0)" "tt_pStruct (tokenTable sh ! 0) = 0"
    "tt_callback (tokenTable sh ! 0) \<noteq> NULL"
    using assms(1) by (simp_all add: led_registered_def)
  have "store [b0, 0, 0, 0] (word_bytes b) = Some [b, 0, 0, 0]"
    by (simp add: store_def put_bytes_def word_bytes_def)
  then have found: "isJsonKeyMatchingAndUpdateValue lib doc (jsonTokenStruct sh) n ?p =
      Some (Some (word_of_int (tok_end (jsonTokenStruct sh ! (i + 1)) - tok_start (jsonTokenStruct sh ! (i + 1))),
        tok_start (jsonTokenStruct sh ! (i + 1))), ?p')"
    using assms(3,4,5) by (simp add: isJsonKeyMatchingAndUpdateValue_def fields UpdateValueIfNoObject_def update_with_def m)
  have called: "on_delta ?app fn pos len 0 (c, ?sh, v) = Some (c, ?sh, led_set board b v)" for fn pos len
    using fields(2) by (simp add: starter_app_def led_indicator_cb_def led_value led_value_zero led_set_def case_prod_unfold)
  have "delta_loop ?app n (0 # 1 # is) (c, sh, v) = Some (c, ?sh, led_set board b v)" for "is"
    using fields assms(2) found called by (simp add: Let_def)
  moreover have "[0..<MAX_JSON_TOKEN_EXPECTED] = 0 # 1 # [2..<MAX_JSON_TOKEN_EXPECTED]"
    by (simp add: upt_rec)
  moreover have "led_registered ?sh"
    using assms(1) by (simp add: led_registered_def)
  ultimately show ?thesis
    by (intro exI [of _ ?sh]) (simp del: upt_rec_numeral)
qed

text \<open>A delta message is old when old ones are discarded and it has a version not above the last.\<close>

definition delta_version :: "Shadow \<Rightarrow> u32 option \<Rightarrow> u32 option" where
  "delta_version sh ver = (if shadowDiscardOldDeltaFlag sh then ver else None)"

definition old_delta :: "Shadow \<Rightarrow> u32 option \<Rightarrow> bool" where
  "old_delta sh ver = (case delta_version sh ver of None \<Rightarrow> False | Some x \<Rightarrow> \<not> x > shadowJsonVersionNum sh)"

text \<open>C30. The LED follows the shadow.  A delta message with an integer for the key \<open>led\<close> switches the LED on when the
  integer is not zero and off when it is, and notes the new state for the next report; the version
  becomes that of the message.  A message no newer than the last one changes neither the LED nor the version.
  The LED's entry stays registered, its upper three bytes zero, so the next message is read the same way.\<close>

theorem led_follows_delta:
  assumes "carries rx c doc" "length (shadowRxBuf sh) = SHADOW_MAX_SIZE_OF_RX_BUFFER" "led_registered sh"
    and "isJsonValidAndParse lib doc (jsonTokenStruct sh) = (Some n, toks)" "extractVersionNumber doc toks n = Some ver"
    and "find_key doc toks (Some (ascii ''led'')) [1..<nat n] = Some (Some i)" "i + 1 < length toks"
    and "parseInteger8Value doc (toks ! (i + 1)) = Some (Inr b)"
  shows "\<exists>sh'. shadow_delta_callback (starter_app lib board) topic len rx d (c, sh, v) =
      Some (c, sh', if old_delta sh ver then v else led_set board b v) \<and> led_registered sh' \<and>
    shadowJsonVersionNum sh' = (if old_delta sh ver then shadowJsonVersionNum sh
      else case delta_version sh ver of None \<Rightarrow> shadowJsonVersionNum sh | Some x \<Rightarrow> x)"
proof -
  let ?app = "starter_app lib board"
  define sh1 where "sh1 = with_document lib doc sh"
  have same: "jsonTokenStruct sh1 = toks" "led_registered sh1" "shadowJsonVersionNum sh1 = shadowJsonVersionNum sh"
    "shadowDiscardOldDeltaFlag sh1 = shadowDiscardOldDeltaFlag sh"
    using assms(3,4) isJsonValidAndParse_tokens [of lib doc "jsonTokenStruct sh"]
    by (simp_all add: sh1_def with_document_def led_registered_def)
  have held: "c_str (shadowRxBuf sh1) = Some doc"
    using assms(1) by (simp add: sh1_def with_document_def carries_def c_str_mem)
  have received: "receive_document ?app rx (c, sh, v) = Some (Some n, c, sh1, v)"
    using receive_carried [OF assms(1,2), of ?app v] assms(4) by (simp add: sh1_def)
  have loop: "\<exists>sh'. delta_loop ?app n [0..<MAX_JSON_TOKEN_EXPECTED] (c, sh2, v) = Some (c, sh', led_set board b v) \<and>
      led_registered sh' \<and> shadowJsonVersionNum sh' = shadowJsonVersionNum sh2"
    if "sh2 = sh1\<lparr>shadowJsonVersionNum := x\<rparr>" for sh2 x
    using delta_loop_led [of sh2 doc n i b lib board c v] that same(1,2) held assms(6,7,8)
    by (simp add: led_registered_def)
  have run: "shadow_delta_callback ?app topic len rx d (c, sh, v) = (case delta_version sh ver of
      None \<Rightarrow> delta_loop ?app n [0..<MAX_JSON_TOKEN_EXPECTED] (c, sh1, v)
    | Some x \<Rightarrow> if x > shadowJsonVersionNum sh
        then delta_loop ?app n [0..<MAX_JSON_TOKEN_EXPECTED] (c, sh1\<lparr>shadowJsonVersionNum := x\<rparr>, v) else Some (c, sh1, v))"
    using assms(5) by (simp add: shadow_delta_callback_def received held same delta_version_def del: upt_rec_numeral)
  show ?thesis
  proof (cases "delta_version sh ver")
    case None
    then show ?thesis
      unfolding run old_delta_def using loop [of sh1 "shadowJsonVersionNum sh1"] same(3) by (simp del: upt_rec_numeral)
  next
    case (Some x)
    then show ?thesis
      unfolding run old_delta_def using loop [of _ x, OF refl] same(2,3) by (simp del: upt_rec_numeral)
  qed
qed

section \<open>Configuration\<close>

record Starter_Config =
  thing_name :: "byte list"
  client_id :: "byte list"
  url :: "byte list"
  client_cert_buffer :: "byte list"
  private_key_buffer :: "byte list"

text \<open>\<^verbatim>\<open>%02x\<close>\<close>

definition hex2 :: "byte \<Rightarrow> byte list" where
  "hex2 b = map (\<lambda>d. if d < 10 then 48 + d else 87 + d) [b div 16, b mod 16]"

text \<open>The two loops that cut a text behind its last \<open>-\<close>.  Of an empty text the array is read at \<open>-1\<close>.\<close>

partial_function (option) trim_pem :: "byte list \<Rightarrow> byte list option" where
  "trim_pem buffer = do {
     s \<leftarrow> c_str buffer;
     if s = [] then None
     else if last s \<noteq> 45 then trim_pem (buffer[length s - 1 := 0])
     else Some buffer }"

text \<open>A pointer to a structure of type \<^verbatim>\<open>wm_tls_cert_t\<close> or \<^verbatim>\<open>wm_tls_key_t\<close> is given by the \<open>cert_size\<close>
  bytes the structure names, other pointers by the text they point to.\<close>

definition aws_starter_load_configuration ::
  "'w Board \<Rightarrow> byte list \<Rightarrow> byte list \<Rightarrow> Starter_Config \<times> ShadowInitParameters_t \<times> ShadowConnectParameters_t
   \<Rightarrow> (int \<times> Starter_Config \<times> ShadowInitParameters_t \<times> ShadowConnectParameters_t) option" where
  "aws_starter_load_configuration board rootCA mac0 = (\<lambda>(cf, sp, scp).
     let (ret, b) = read_aws_thing board (thing_name cf); cf = cf\<lparr>thing_name := b\<rparr> in
     if ret \<noteq> WM_SUCCESS then Some (- 1, cf, sp, scp)
     else do {
       thing \<leftarrow> c_str (thing_name cf);
       let scp = scp\<lparr>sc_pMyThingName := Some thing\<rparr>; (ret, device_mac) = read_aws_device_mac board mac0 in
       if ret \<noteq> WM_SUCCESS then Some (- 1, cf, sp, scp)
       else do {
         mac \<leftarrow> mem_take 6 device_mac;
         (_, b) \<leftarrow> snprintf (client_id cf) 0 (of_nat MAX_SIZE_OF_UNIQUE_CLIENT_ID_BYTES)
           (ascii ''mrvl-'' @ concat (map hex2 mac));
         let cf = cf\<lparr>client_id := b\<rparr> in do {
         ident \<leftarrow> c_str (client_id cf);
         let scp = scp\<lparr>sc_pMqttClientId := Some ident, sc_mqttClientIdLen := of_nat (length ident)\<rparr>;
             (ret, region) = read_aws_region board (replicate 16 0) in do {
         name \<leftarrow> (if ret = WM_SUCCESS then c_str region else Some (ascii ''us-east-1''));
         (_, b) \<leftarrow> snprintf (url cf) 0 128 (ascii ''a1ttlpgxympuou-ats.iot.'' @ name @ ascii ''.amazonaws.com'');
         let cf = cf\<lparr>url := b\<rparr> in do {
         host \<leftarrow> c_str (url cf);
         let sp = sp\<lparr>si_pHost := Some host, si_port := 8883, si_pRootCA := Some rootCA,
               si_enableAutoReconnect := True, si_disconnectHandler := NULL\<rparr>;
             (ret, b) = read_aws_certificate board (client_cert_buffer cf);
             cf = cf\<lparr>client_cert_buffer := b\<rparr> in
         if ret \<noteq> WM_SUCCESS then Some (- 1, cf, sp, scp)
         else do {
           b \<leftarrow> trim_pem (client_cert_buffer cf);
           cert \<leftarrow> c_str b;
           let cf = cf\<lparr>client_cert_buffer := b\<rparr>; sp = sp\<lparr>si_pClientCRT := Some (cert @ [0])\<rparr>;
               (ret, b) = read_aws_key board (private_key_buffer cf);
               cf = cf\<lparr>private_key_buffer := b\<rparr> in
           if ret \<noteq> WM_SUCCESS then Some (- 1, cf, sp, scp)
           else do {
             b \<leftarrow> trim_pem (private_key_buffer cf);
             key \<leftarrow> c_str b;
             Some (ret, cf\<lparr>private_key_buffer := b\<rparr>, sp\<lparr>si_pClientKey := Some (key @ [0])\<rparr>, scp) } } } } } } })"

text \<open>The text up to its last \<open>-\<close>.\<close>

definition up_to_dash :: "byte list \<Rightarrow> byte list" where
  "up_to_dash s = rev (dropWhile (\<lambda>b. b \<noteq> 45) (rev s))"

lemma trim_pem_cuts:
  "c_str buffer = Some s \<Longrightarrow>
   (45 \<in> set s \<longrightarrow> (\<exists>b. trim_pem buffer = Some b \<and> c_str b = Some (up_to_dash s))) \<and>
   (45 \<notin> set s \<longrightarrow> trim_pem buffer = None)"
proof (induction s arbitrary: buffer rule: rev_induct)
  case Nil
  then show ?case
    by (subst trim_pem.simps) simp
next
  case (snoc x s)
  obtain rest where buffer: "buffer = (s @ [x]) @ 0 # rest"
    using snoc.prems by (rule c_str_split)
  have "0 \<notin> set s"
    using c_str_no_zero [OF snoc.prems] by simp
  then have "c_str (buffer[length s := 0]) = Some s"
    by (simp add: buffer c_str_mem)
  from snoc.IH [OF this] show ?case
    using snoc.prems by (subst (1 2) trim_pem.simps) (simp add: up_to_dash_def)
qed

lemma hex2_simps [simp]: "length (hex2 b) = 2" "0 \<notin> set (hex2 b)"
  by (simp add: hex2_def, rule all_bytes [of "\<lambda>b. 0 \<notin> set (hex2 b)"], code_simp)

lemma length_hex: "length (concat (map hex2 mac)) = 2 * length mac"
  by (induction mac) simp_all

text \<open>Printing a text that fits, and reading it back.\<close>

lemma snprintf_text:
  assumes "length t < unat n" "length t < length buf" "length t < 2 ^ 31" "0 \<notin> set t"
  obtains buf' where "snprintf buf 0 n t = Some (int (length t), buf')" "c_str buf' = Some t"
  using that snprintf_at_start [OF assms(1-3)] c_str_mem [OF assms(4)] by blast

text \<open>The configuration read from the device's memory: the client's name is \<open>mrvl-\<close> and the twelve
  hexadecimal digits of the MAC address, the host holds the region read, or the default one when there is none,
  the certificate and the key are cut behind their last \<open>-\<close> and closed with a zero byte for the parser.  The
  field \<open>deleteActionHandler\<close> of the connection parameters keeps the value it had: the caller's structure
  is not initialised.  A certificate without any \<open>-\<close> makes the program read outside the array.\<close>

theorem configuration_loaded:
  assumes "read_aws_thing board (thing_name cf) = (0, tb)" "c_str tb = Some thing"
    and "read_aws_device_mac board mac0 = (0, mac)" "length mac = 6"
    and "read_aws_region board (replicate 16 0) = (rr, rb)" "c_str rb = Some region" "length rb = 16"
    and "read_aws_certificate board (client_cert_buffer cf) = (0, cb)" "c_str cb = Some cert"
    and "read_aws_key board (private_key_buffer cf) = (0, kb)" "c_str kb = Some key" "45 \<in> set key"
    and "length (client_id cf) = 80" "length (url cf) = 128"
  shows "case aws_starter_load_configuration board rootCA mac0 (cf, sp, scp) of
      None \<Rightarrow> 45 \<notin> set cert
    | Some (ret, cf', sp', scp') \<Rightarrow> 45 \<in> set cert \<and> ret = 0 \<and>
        sp' = \<lparr>si_pHost = Some (ascii ''a1ttlpgxympuou-ats.iot.'' @ (if rr = 0 then region else ascii ''us-east-1'') @
                 ascii ''.amazonaws.com''),
               si_port = 8883, si_pRootCA = Some rootCA, si_pClientCRT = Some (up_to_dash cert @ [0]),
               si_pClientKey = Some (up_to_dash key @ [0]), si_enableAutoReconnect = True, si_disconnectHandler = NULL\<rparr> \<and>
        scp' = \<lparr>sc_pMyThingName = Some thing, sc_pMqttClientId = Some (ascii ''mrvl-'' @ concat (map hex2 mac)),
                sc_mqttClientIdLen = 17, sc_deleteActionHandler = sc_deleteActionHandler scp\<rparr>"
proof -
  define name where "name = (if rr = 0 then region else ascii ''us-east-1'')"
  let ?host = "ascii ''a1ttlpgxympuou-ats.iot.'' @ name @ ascii ''.amazonaws.com''"
  let ?ident = "ascii ''mrvl-'' @ concat (map hex2 mac)"
  have name: "length name < 16" "0 \<notin> set name"
    using c_str_length [OF assms(6)] c_str_no_zero [OF assms(6)] assms(7) by (auto simp: name_def ascii_def)
  obtain ib where ident: "snprintf (client_id cf) 0 80 ?ident = Some (int (length ?ident), ib)" "c_str ib = Some ?ident"
    by (rule snprintf_text [of ?ident 80 "client_id cf"]) (use assms(4,13) in \<open>auto simp: length_hex ascii_def\<close>)
  obtain hb where host: "snprintf (url cf) 0 128 ?host = Some (int (length ?host), hb)" "c_str hb = Some ?host"
    by (rule snprintf_text [of ?host 128 "url cf"]) (use assms(14) name in \<open>auto simp: ascii_def\<close>)
  have region: "(if rr = 0 then c_str rb else Some (ascii ''us-east-1'')) = Some name"
    by (simp add: name_def assms(6))
  have mac: "mem_take 6 mac = Some mac"
    using assms(4) mem_take_all [of mac] by simp
  obtain kb' where key: "trim_pem kb = Some kb'" "c_str kb' = Some (up_to_dash key)"
    using trim_pem_cuts [OF assms(11)] assms(12) by auto
  note load = aws_starter_load_configuration_def assms(1-3,5,8,10) ident host region mac key Let_def
  show ?thesis
  proof (cases "trim_pem cb")
    case None
    then have "45 \<notin> set cert"
      using trim_pem_cuts [OF assms(9)] by auto
    then show ?thesis
      using assms(2) None by (simp add: load)
  next
    case (Some b)
    then have "45 \<in> set cert" "c_str b = Some (up_to_dash cert)"
      using trim_pem_cuts [OF assms(9)] by auto
    then show ?thesis
      using assms(2) Some
      by (cases sp; cases scp) (simp add: load length_hex assms(4) name_def [symmetric])
  qed
qed

section \<open>The application's thread\<close>

text \<open>One round of the loop; the result tells whether there is another.\<close>

definition starter_round ::
  "(Shadow \<times> Starter \<times> 'w) Env \<Rightarrow> (Starter \<times> 'w) Shadow_App \<Rightarrow> 'w Board \<Rightarrow> 'w Drivers \<Rightarrow> byte \<Rightarrow> byte list \<Rightarrow> ptr
   \<Rightarrow> ShadowConnectParameters_t \<Rightarrow> (Starter \<times> 'w) shadow_state \<Rightarrow> (bool \<times> (Starter \<times> 'w) shadow_state) option" where
  "starter_round env app board drv retained buf_out cb scp s = do {
     (ret, c, sh, st, w) \<leftarrow> aws_iot_shadow_yield env app 10 s;
     if ret = NETWORK_ATTEMPTING_RECONNECT then
       Some (True, c, sh, st, os_thread_sleep board (os_msec_to_ticks board 5000)
         (led_fast_blink board (board_led_2 board) w))
     else if ret \<noteq> NETWORK_RECONNECTED \<and> ret \<noteq> AWS_SUCCESS then Some (False, c, sh, st, w)
     else
       let w = (if ret = NETWORK_RECONNECTED then led_on board (board_led_2 board) w else w);
           w = led_on board (board_led_2 board) w in do {
       (_, c, sh, st, w) \<leftarrow> aws_publish_property_state env app retained buf_out cb scp (c, sh, st, w);
       let w = os_thread_sleep board 100 w in do {
       (ss, w) \<leftarrow> sensor_inputs_scan drv (sensors st, w);
       Some (True, c, sh, st\<lparr>sensors := ss\<rparr>, w) } } }"

partial_function (option) starter_loop ::
  "(Shadow \<times> Starter \<times> 'w) Env \<Rightarrow> (Starter \<times> 'w) Shadow_App \<Rightarrow> 'w Board \<Rightarrow> 'w Drivers \<Rightarrow> byte \<Rightarrow> byte list \<Rightarrow> ptr
   \<Rightarrow> ShadowConnectParameters_t \<Rightarrow> (Starter \<times> 'w) shadow_state \<Rightarrow> (Starter \<times> 'w) shadow_state option" where
  "starter_loop env app board drv retained buf_out cb scp s = do {
     (again, s) \<leftarrow> starter_round env app board drv retained buf_out cb scp s;
     if again then starter_loop env app board drv retained buf_out cb scp s else Some s }"

text \<open>The registered structure and its integer are the thread's local variables, here the first
  structure; \<open>led_cb\<close> is the address of \<open>led_indicator_cb\<close>.\<close>

definition aws_starter_demo ::
  "(Shadow \<times> Starter \<times> 'w) Env \<Rightarrow> (Starter \<times> 'w) Shadow_App \<Rightarrow> 'w Board \<Rightarrow> 'w Drivers \<Rightarrow> byte \<Rightarrow> byte list \<Rightarrow> ptr \<Rightarrow> ptr
   \<Rightarrow> byte list \<Rightarrow> byte list \<Rightarrow> IoT_Client_Init_Params \<Rightarrow> Starter_Config \<times> ShadowInitParameters_t \<times> ShadowConnectParameters_t
   \<Rightarrow> (Starter \<times> 'w) shadow_state \<Rightarrow> (Starter \<times> 'w) shadow_state option" where
  "aws_starter_demo env app board drv retained buf_out cb led_cb rootCA mac0 uninit params s = do {
     (ret, cf, sp, scp) \<leftarrow> aws_starter_load_configuration board rootCA mac0 params;
     if ret \<noteq> WM_SUCCESS then Some s
     else let (ret, s) = aws_iot_shadow_init env uninit (Some sp) s in
     if ret \<noteq> AWS_SUCCESS then Some s
     else do {
       (ret, c, sh, st, w) \<leftarrow> aws_iot_shadow_connect env app (Some scp) s;
       if ret \<noteq> AWS_SUCCESS then Some (c, sh, st, w)
       else
         let w = led_on board (board_led_2 board) w;
             sh = sh\<lparr>jsonStructs := (jsonStructs sh)[0 := \<lparr>js_pKey = Some (ascii ''led''),
               js_pData = Some [0, 0, 0, 0], js_type = SHADOW_JSON_INT8, js_cb = led_cb\<rparr>]\<rparr> in do {
         (ret, s) \<leftarrow> aws_iot_shadow_register_delta env app (Some 0) (c, sh, st, w);
         if ret \<noteq> AWS_SUCCESS then Some s
         else starter_loop env app board drv retained buf_out cb scp s } } }"

definition wlan_event_normal_link_lost ::
  "(Shadow \<times> Starter \<times> 'w) Env \<Rightarrow> (Starter \<times> 'w) shadow_state \<Rightarrow> (Starter \<times> 'w) shadow_state option" where
  "wlan_event_normal_link_lost env s = map_option snd (aws_iot_shadow_disconnect env s)"

definition wlan_event_normal_connect_failed ::
  "(Shadow \<times> Starter \<times> 'w) Env \<Rightarrow> (Starter \<times> 'w) shadow_state \<Rightarrow> (Starter \<times> 'w) shadow_state option" where
  "wlan_event_normal_connect_failed env s = map_option snd (aws_iot_shadow_disconnect env s)"

definition wlan_event_normal_connected :: "'w Board \<Rightarrow> Starter \<times> 'w \<Rightarrow> Starter \<times> 'w" where
  "wlan_event_normal_connected board = (\<lambda>(st, w).
     if \<not> aws_starter_thread st then
       let w = wmtime_time_set_posix board 1556402938 w;
           (ret, handle, w) = os_thread_create board w
       in (st\<lparr>aws_starter_thread := handle\<rparr>, w)
     else (st, w))"

lemma expire_nothing:
  assumes "list_all ack_isFree (AckWaitList sh)" "length (AckWaitList sh) = 10"
  shows "HandleExpiredResponseCallbacks env app (c, sh, v) = Some (c, sh, v)"
proof -
  have "expire_loop env app is (c, sh, v) = Some (c, sh, v)" if "\<forall>i\<in>set is. i < 10" for "is"
    using that assms by (induction "is") (auto simp: list_all_length)
  then show ?thesis
    by (simp add: HandleExpiredResponseCallbacks_def del: upt_rec_numeral)
qed


section \<open>An example\<close>

text \<open>A board that keeps a list of what its LEDs were told, and a surrounding in which nothing happens.\<close>

definition example_board :: "(nat \<times> bool) list Board" where
  "example_board = \<lparr>board_led_1 = 40, board_led_2 = 41, led_on = (\<lambda>p w. w @ [(p, True)]), led_off = (\<lambda>p w. w @ [(p, False)]),
     led_fast_blink = (\<lambda>p w. w @ [(p, True), (p, False)]), os_thread_sleep = (\<lambda>_ w. w), os_msec_to_ticks = (\<lambda>n. n),
     os_thread_create = (\<lambda>w. (0, True, w)), wmtime_time_set_posix = (\<lambda>_ w. w),
     read_aws_thing = (\<lambda>b. (0, ascii ''lamp'' @ 0 # drop 5 b)), read_aws_device_mac = (\<lambda>b. (0, [0, 0x1a, 0x2b, 0x3c, 0x4d, 0xff])),
     read_aws_region = (\<lambda>b. (- 1, b)), read_aws_certificate = (\<lambda>b. (0, ascii ''--C--'' @ 10 # 0 # drop 7 b)),
     read_aws_key = (\<lambda>b. (0, ascii ''--K-- '' @ 0 # drop 7 b))\<rparr>"

text \<open>A board that does nothing.\<close>

definition silent_board :: "'w Board" where
  "silent_board = \<lparr>board_led_1 = 40, board_led_2 = 41, led_on = (\<lambda>_ w. w), led_off = (\<lambda>_ w. w), led_fast_blink = (\<lambda>_ w. w),
     os_thread_sleep = (\<lambda>_ w. w), os_msec_to_ticks = (\<lambda>n. n), os_thread_create = (\<lambda>w. (0, True, w)),
     wmtime_time_set_posix = (\<lambda>_ w. w), read_aws_thing = (\<lambda>b. (0, b)), read_aws_device_mac = (\<lambda>b. (0, b)),
     read_aws_region = (\<lambda>b. (0, b)), read_aws_certificate = (\<lambda>b. (0, b)), read_aws_key = (\<lambda>b. (0, b))\<rparr>"

definition quiet_env :: "'v Env" where
  "quiet_env = \<lparr>os_ticks_get = (\<lambda>w. (0, w)), os_mutex_create = (\<lambda>_ w. (0, w)), os_mutex_get = (\<lambda>_ _ w. (0, w)),
     os_mutex_put = (\<lambda>_ w. (0, w)), os_mutex_delete = (\<lambda>_ w. (0, w)), iot_tls_init = (\<lambda>_ w. (AWS_SUCCESS, w)),
     net_connect = (\<lambda>w. (AWS_SUCCESS, w)), net_read = (\<lambda>_ _ w. Some (NETWORK_SSL_NOTHING_TO_READ, [], w)),
     net_write = (\<lambda>bs _ w. (AWS_SUCCESS, of_nat (length bs), w)), net_disconnect = (\<lambda>w. (AWS_SUCCESS, w)),
     net_isConnected = None, net_destroy = (\<lambda>w. (AWS_SUCCESS, w)), app_handler = (\<lambda>_ _ _ _ _ s. Some s),
     disconnect_handler = (\<lambda>_ _ s. Some s), fuel = 10\<rparr>"

text \<open>The tokens of the first report and of a delta message.\<close>

abbreviation (input) tok :: "jsmntype_t \<Rightarrow> int \<Rightarrow> int \<Rightarrow> int \<Rightarrow> jsmntok_t" where
  "tok t a b n \<equiv> \<lparr>tok_type = t, tok_start = a, tok_end = b, tok_size = n\<rparr>"

definition first_report :: "byte list" where
  "first_report = ascii ''{\"state\": {\"reported\":{\"pb\":0,\"pb_lambda\":0,\"led\":0}}}''"

definition delta_document :: "byte list" where
  "delta_document = ascii ''{\"version\":7,\"state\":{\"led\":1}}''"

definition starter_libs :: Libs where
  "starter_libs = example_libs\<lparr>jsmn_parse := \<lambda>js n. if js = first_report then (11,
      [tok JSMN_OBJECT 0 54 1, tok JSMN_STRING 2 7 1, tok JSMN_OBJECT 10 53 1, tok JSMN_STRING 12 20 1,
       tok JSMN_OBJECT 22 52 3, tok JSMN_STRING 24 26 1, tok JSMN_PRIMITIVE 28 29 0, tok JSMN_STRING 31 40 1,
       tok JSMN_PRIMITIVE 42 43 0, tok JSMN_STRING 45 48 1, tok JSMN_PRIMITIVE 50 51 0])
     else if js = delta_document then (7,
      [tok JSMN_OBJECT 0 31 2, tok JSMN_STRING 2 9 1, tok JSMN_PRIMITIVE 11 12 0, tok JSMN_STRING 14 19 1,
       tok JSMN_OBJECT 21 30 1, tok JSMN_STRING 23 26 1, tok JSMN_PRIMITIVE 28 29 0])
     else (- 2, [])\<rparr>"

definition example_starter :: Starter where
  "example_starter = initial_starter 40 (example_sensors\<lparr>sensor_ll := None\<rparr>)"

definition starter_env :: "(Shadow \<times> Starter \<times> (nat \<times> bool) list) Env" where
  "starter_env = shadow_env 1 quiet_env (starter_app starter_libs example_board)"

definition starter_params :: ShadowConnectParameters_t where
  "starter_params = \<lparr>sc_pMyThingName = Some (ascii ''lamp''), sc_pMqttClientId = None, sc_mqttClientIdLen = 0,
     sc_deleteActionHandler = NULL\<rparr>"

lemma example_report:
  "report_document (report_text [] example_starter) = first_report"
  "chain (infos (sensors example_starter)) (sensor_ll (sensors example_starter)) []"
  "length (report_text [] example_starter) = 29"
  by (simp_all add: report_document_def report_text_def property_text_def example_starter_def initial_starter_def
      sensors_text_def first_report_def show_int_def ascii_def)

lemma report_sent_witness:
  "aws_publish_property_state starter_env (starter_app starter_libs example_board) 0 (replicate 128 7) 9 starter_params
     (new_client, example_shadow, example_starter, []) =
   aws_iot_shadow_update starter_env (starter_app starter_libs example_board) 0 (Some (ascii ''lamp'')) (Some first_report)
     9 NULL 10 True (new_client, example_shadow, all_reported [] example_starter, [])"
proof -
  have "report_text [] example_starter \<noteq> []"
    using example_report(3) by (cases "report_text [] example_starter") auto
  moreover have "length first_report = 54"
    by (simp add: first_report_def)
  ultimately show ?thesis
    using report_sent [OF example_report(2), of "replicate 128 7" starter_env "starter_app starter_libs example_board" 0 9 starter_params
        new_client example_shadow "[]"]
    by (simp add: example_report starter_params_def)
qed

lemma report_unanswered_witness:
  "\<exists>toks. aws_publish_property_state starter_env (starter_app starter_libs example_board) 0 (replicate 128 7) 9 starter_params
     (new_client\<lparr>clientState := CLIENT_STATE_CONNECTED_IDLE\<rparr>, example_shadow, example_starter, []) =
   publishToShadowAction starter_env 0 (Some (ascii ''lamp'')) SHADOW_UPDATE (Some first_report)
     (new_client\<lparr>clientState := CLIENT_STATE_CONNECTED_IDLE\<rparr>, example_shadow\<lparr>jsonTokenStruct := toks\<rparr>,
      all_reported [] example_starter, [])"
proof -
  let ?c = "new_client\<lparr>clientState := CLIENT_STATE_CONNECTED_IDLE\<rparr>"
  have "report_text [] example_starter \<noteq> []"
    using example_report(3) by (cases "report_text [] example_starter") auto
  moreover have "tokens_inside (libs (starter_app starter_libs example_board)) (report_document (report_text [] example_starter))"
    by (simp add: tokens_inside_def starter_libs_def example_report(1)) (simp add: first_report_def)
  moreover have "aws_iot_mqtt_is_client_connected ?c" "\<not> aws_iot_mqtt_is_client_connected new_client"
    by (simp_all add: aws_iot_mqtt_is_client_connected_def new_client_def)
  ultimately show ?thesis
    using report_unanswered [OF example_report(2), of "replicate 128 7" "starter_app starter_libs example_board" starter_params
        "ascii ''lamp''" ?c new_client starter_env 0 9 example_shadow "[]"]
    by (auto simp: example_report(1,3) starter_params_def sensors_text_def)
qed

lemma button_reports_witness:
  "\<exists>st. button_step\<^sup>*\<^sup>* (initial_starter 40 (sensors example_starter), Idle, []) (st, Idle, [0, 1]) \<and>
     numbered [0, 1] \<and> pushbutton_a_count_prev st = 1"
proof -
  define s0 where "s0 = initial_starter 40 (sensors example_starter)"
  define s1 where "s1 = s0\<lparr>pushbutton_a_count_prev := pushbutton_a_count s0\<rparr>"
  define s2 where "s2 = pushbutton_a_cb (pushbutton_a_cb s1)"
  define s3 where "s3 = s2\<lparr>pushbutton_a_count_prev := pushbutton_a_count s2\<rparr>"
  note step = converse_rtranclp_into_rtranclp [of button_step]
  have counts: "pushbutton_a_count s0 = 0" "pushbutton_a_count_prev s0 \<noteq> pushbutton_a_count s0"
    "pushbutton_a_count s2 = 1" "pushbutton_a_count_prev s2 \<noteq> pushbutton_a_count s2"
    by (simp_all add: s0_def s1_def s2_def initial_starter_def pushbutton_a_cb_def)
  have report: "button_step\<^sup>*\<^sup>* (st, Idle, out)
      (st\<lparr>pushbutton_a_count_prev := pushbutton_a_count st\<rparr>, Idle, out @ [pushbutton_a_count st])"
    if "pushbutton_a_count_prev st \<noteq> pushbutton_a_count st" for st out
    by (rule step [OF test [OF that]], rule step [OF print], rule step [OF commit], rule rtranclp.rtrancl_refl)
  have "button_step\<^sup>*\<^sup>* (s0, Idle, []) (s1, Idle, [0])"
    using report [OF counts(2), of "[]"] by (simp add: counts s1_def)
  also have "button_step\<^sup>*\<^sup>* (s1, Idle, [0]) (s2, Idle, [0])"
    unfolding s2_def by (rule step [OF press], rule step [OF press], rule rtranclp.rtrancl_refl)
  also have "button_step\<^sup>*\<^sup>* (s2, Idle, [0]) (s3, Idle, [0, 1])"
    using report [OF counts(4), of "[0]"] by (simp add: counts s3_def)
  finally have run: "button_step\<^sup>*\<^sup>* (initial_starter 40 (sensors example_starter), Idle, []) (s3, Idle, [0, 1])"
    by (simp only: s0_def)
  from button_reports [OF this, of 0] run show ?thesis
    by (intro exI [of _ s3]) simp
qed

definition example_led_shadow :: Shadow where
  "example_led_shadow = example_shadow\<lparr>tokenTableIndex := 1,
     tokenTable := (tokenTable example_shadow)[0 := \<lparr>tt_pKey = Some (ascii ''led''), tt_pStruct = 0, tt_callback = 9, tt_isFree = False\<rparr>],
     jsonStructs := [\<lparr>js_pKey = Some (ascii ''led''), js_pData = Some [0, 0, 0, 0], js_type = SHADOW_JSON_INT8, js_cb = 9\<rparr>]\<rparr>"

lemma led_follows_delta_witness:
  "\<exists>sh'. shadow_delta_callback (starter_app starter_libs example_board) 0 5
      \<lparr>rx_dup = 0, rx_qos = 0, rx_retained = 0, rx_id = None, rx_topicName = 0, rx_topicNameLen = 0,
       rx_payload = 0, rx_payloadLen = 31\<rparr> NULL
      (new_client\<lparr>readBuf := delta_document\<rparr>, example_led_shadow, example_starter, []) =
    Some (new_client\<lparr>readBuf := delta_document\<rparr>, sh', example_starter\<lparr>led_1_state := 1\<rparr>, [(40, True)]) \<and>
    shadowJsonVersionNum sh' = 7"
proof -
  let ?rx = "\<lparr>rx_dup = 0, rx_qos = 0, rx_retained = 0, rx_id = None, rx_topicName = 0, rx_topicNameLen = 0,
       rx_payload = 0, rx_payloadLen = 31\<rparr> :: Received_Publish"
  let ?parsed = "isJsonValidAndParse starter_libs delta_document (jsonTokenStruct example_led_shadow)"
  have doc: "carries ?rx (new_client\<lparr>readBuf := delta_document\<rparr>) delta_document"
    "length (shadowRxBuf example_led_shadow) = SHADOW_MAX_SIZE_OF_RX_BUFFER" "led_registered example_led_shadow"
    by (simp_all add: carries_def example_led_shadow_def example_shadow_def led_registered_def)
      (simp_all add: delta_document_def ascii_def)
  have "fst ?parsed = Some 7" and read: "extractVersionNumber delta_document (snd ?parsed) 7 = Some (Some 7)"
    "find_key delta_document (snd ?parsed) (Some (ascii ''led'')) [1..<nat 7] = Some (Some 5)"
    "5 + 1 < length (snd ?parsed)" "parseInteger8Value delta_document (snd ?parsed ! (5 + 1)) = Some (Inr 1)"
    by code_simp+
  then have "?parsed = (Some 7, snd ?parsed)"
    by (metis prod.collapse)
  moreover have "\<not> old_delta example_led_shadow (Some 7)" "delta_version example_led_shadow (Some 7) = Some 7"
    "led_set example_board 1 (example_starter, []) = (example_starter\<lparr>led_1_state := 1\<rparr>, [(40, True)])"
    by (simp_all add: old_delta_def delta_version_def example_led_shadow_def example_shadow_def led_set_def
        example_board_def example_starter_def initial_starter_def)
  ultimately show ?thesis
    using led_follows_delta [OF doc _ read, where board = example_board and topic = 0 and len = 5 and d = NULL
        and v = "(example_starter, [])"] by auto
qed

definition example_config :: "Starter_Config \<times> ShadowInitParameters_t \<times> ShadowConnectParameters_t" where
  "example_config = (\<lparr>thing_name = replicate 126 0, client_id = replicate 80 0, url = replicate 128 0,
      client_cert_buffer = replicate 2046 0, private_key_buffer = replicate 2046 0\<rparr>,
    \<lparr>si_pHost = None, si_port = 0, si_pRootCA = None, si_pClientCRT = None, si_pClientKey = None,
      si_enableAutoReconnect = False, si_disconnectHandler = 5\<rparr>, starter_params\<lparr>sc_deleteActionHandler := 5\<rparr>)"

lemma configuration_loaded_witness:
  "\<exists>cf sp scp. aws_starter_load_configuration example_board [1, 2] (replicate 6 0) example_config = Some (0, cf, sp, scp) \<and>
    sc_pMqttClientId scp = Some (ascii ''mrvl-001a2b3c4dff'') \<and> si_pClientCRT sp = Some (ascii ''--C--'' @ [0]) \<and>
    sc_deleteActionHandler scp = 5"
proof -
  have "0 \<notin> set (ascii ''lamp'')" "0 \<notin> set (ascii ''--C--'' @ [10])" "0 \<notin> set (ascii ''--K-- '')"
    by code_simp+
  then have texts: "c_str (ascii ''lamp'' @ 0 # m) = Some (ascii ''lamp'')"
    "c_str (ascii ''--C--'' @ 10 # 0 # m) = Some (ascii ''--C--'' @ [10])"
    "c_str (ascii ''--K-- '' @ 0 # m) = Some (ascii ''--K-- '')" for m
    using c_str_mem [of "ascii ''--C--'' @ [10]" m] by (simp_all add: c_str_mem)
  have "c_str (replicate 16 0) = Some []"
    by (simp add: c_str_def numeral_eq_Suc)
  moreover have cut: "up_to_dash (ascii ''--C--'' @ [10]) = ascii ''--C--''" "45 \<in> set (ascii ''--K-- '')"
    by code_simp+
  have ident: "ascii ''mrvl-'' @ concat (map hex2 [0, 0x1a, 0x2b, 0x3c, 0x4d, 0xff]) = ascii ''mrvl-001a2b3c4dff''"
    by code_simp
  moreover obtain cf sp scp where cfg: "example_config = (cf, sp, scp)" "length (client_id cf) = 80" "length (url cf) = 128"
      "sc_deleteActionHandler scp = 5"
    by (simp add: example_config_def)
  ultimately have "case aws_starter_load_configuration example_board [1, 2] (replicate 6 0) (cf, sp, scp) of
      None \<Rightarrow> 45 \<notin> set (ascii ''--C--'' @ [10])
    | Some (ret, cf', sp', scp') \<Rightarrow> ret = 0 \<and> si_pClientCRT sp' = Some (ascii ''--C--'' @ [0]) \<and>
        sc_pMqttClientId scp' = Some (ascii ''mrvl-001a2b3c4dff'') \<and> sc_deleteActionHandler scp' = 5"
    using configuration_loaded [of example_board cf "ascii ''lamp'' @ 0 # drop 5 (thing_name cf)" "ascii ''lamp''" "replicate 6 0"
        "[0, 0x1a, 0x2b, 0x3c, 0x4d, 0xff]" "- 1" "replicate 16 0" "[]"
        "ascii ''--C--'' @ 10 # 0 # drop 7 (client_cert_buffer cf)" "ascii ''--C--'' @ [10]"
        "ascii ''--K-- '' @ 0 # drop 7 (private_key_buffer cf)" "ascii ''--K-- ''" "[1, 2]" scp sp]
    unfolding cut(1) ident
    using cut(2) by (auto simp: example_board_def texts cfg(2,3,4) split: option.splits)
  then show ?thesis
    by (auto simp: cfg(1) dest!: mp split: option.splits) (simp add: ascii_def)?
qed

definition offline_shadow :: Shadow where
  "offline_shadow = example_shadow\<lparr>AckWaitList := map (\<lambda>r. r\<lparr>ack_isFree := True\<rparr>) (AckWaitList example_shadow)\<rparr>"

definition small_client :: Client where
  "small_client = new_client\<lparr>clientState := CLIENT_STATE_CONNECTED_IDLE, writeBuf := [1, 2, 3, 4], writeBufSize := 4,
     commandTimeoutMs := 100\<rparr>"

lemma starter_env_simps:
  "os_ticks_get starter_env x = (0, x)" "os_mutex_get starter_env m wait x = (0, x)" "os_mutex_put starter_env m x = (0, x)"
  "net_write starter_env bs t x = (AWS_SUCCESS, of_nat (length bs), x)" "net_disconnect starter_env x = (AWS_SUCCESS, x)"
  "net_destroy starter_env x = (AWS_SUCCESS, x)" "fuel starter_env = 10"
  by (cases x; simp add: starter_env_def lift_env_def quiet_env_def)+

lemma quiet_locks:
  "aws_iot_mqtt_client_lock_mutex starter_env c m x = (AWS_SUCCESS, x)"
  "aws_iot_mqtt_client_unlock_mutex starter_env m x = (AWS_SUCCESS, x)"
  by (simp_all add: aws_iot_mqtt_client_lock_mutex_def aws_iot_mqtt_client_unlock_mutex_def mutex_result_def starter_env_simps
      aws_iot_thread_mutex_lock_def aws_iot_thread_mutex_trylock_def aws_iot_thread_mutex_unlock_def)

lemma quiet_send:
  "aws_iot_mqtt_internal_send_packet starter_env (small_client\<lparr>clientState := s, writeBuf := [0xE0, 0, 3, 4]\<rparr>) 2
     \<lparr>start_timestamp = 0, timeout = 100\<rparr> x = Some (AWS_SUCCESS, x)"
proof -
  let ?c = "small_client\<lparr>clientState := s, writeBuf := [0xE0, 0, 3, 4]\<rparr>"
  have "fuel starter_env = Suc (Suc 8)"
    by (simp add: starter_env_simps)
  moreover have "send_loop (Suc (Suc n)) starter_env ?c 2 \<lparr>start_timestamp = 0, timeout = 100\<rparr> 0 x = Some (2, x)" for n
    by (simp add: starter_env_simps has_timer_expired_def left_ms_def mem_take_def)
  ultimately have loop: "send_loop (fuel starter_env) starter_env ?c 2 \<lparr>start_timestamp = 0, timeout = 100\<rparr> 0 x = Some (2, x)"
    by (simp only:)
  have "writeBufSize ?c = 4"
    by (simp add: small_client_def)
  then show ?thesis
    by (simp add: aws_iot_mqtt_internal_send_packet_def quiet_locks loop)
qed

lemma quiet_disconnect:
  "\<exists>c. aws_iot_shadow_disconnect starter_env (small_client, sh, st, w) = Some (AWS_SUCCESS, c, sh, st, w)"
proof -
  have "aws_iot_mqtt_internal_serialize_zero [1, 2, 3, 4] 4 DISCONNECT = Some (Inr ([0xE0, 0, 3, 4], 2))"
    by code_simp
  then show ?thesis
    using quiet_send by (simp add: aws_iot_shadow_disconnect_def aws_iot_mqtt_disconnect_def small_client_def
      aws_iot_mqtt_is_client_connected_def aws_iot_mqtt_get_client_state_def aws_iot_mqtt_set_client_state_def
      aws_iot_mqtt_internal_disconnect_def quiet_locks starter_env_simps countdown_ms_def send_serialized_def success_def
      on_success_def)
qed


end
