(* ===== verification/Shadow_Wire.thy ===== *)
theory Shadow_Wire
  imports Shadow_Requests
begin

text \<open>
  From a call of the Thing Shadow to the bytes on the connection.  A working connection of the client
  stays one when a layer's variables are put beside its world, and a publish of quality of service 0
  runs no handler; so what a layer publishes can be followed down to the socket, whatever handlers
  the layer has installed.
\<close>

section \<open>A publish runs no handler\<close>

text \<open>The same surroundings with other handlers.\<close>

definition with_handlers ::
  "(ptr \<Rightarrow> nat \<Rightarrow> u16 \<Rightarrow> Received_Publish \<Rightarrow> ptr \<Rightarrow> Client \<times> 'w \<Rightarrow> (Client \<times> 'w) option)
   \<Rightarrow> (ptr \<Rightarrow> ptr \<Rightarrow> Client \<times> 'w \<Rightarrow> (Client \<times> 'w) option) \<Rightarrow> 'w Env \<Rightarrow> 'w Env" where
  "with_handlers h d env = env\<lparr>app_handler := h, disconnect_handler := d\<rparr>"

lemma handler_independent:
  "os_ticks_get (with_handlers h d env) = os_ticks_get env" "net_write (with_handlers h d env) = net_write env"
  "has_timer_expired (with_handlers h d env) = has_timer_expired env"
  "countdown_ms (with_handlers h d env) = countdown_ms env"
  "aws_iot_mqtt_client_lock_mutex (with_handlers h d env) = aws_iot_mqtt_client_lock_mutex env"
  "aws_iot_mqtt_client_unlock_mutex (with_handlers h d env) = aws_iot_mqtt_client_unlock_mutex env"
  "fuel (with_handlers h d env) = fuel env"
  by (simp_all add: with_handlers_def fun_eq_iff has_timer_expired_def left_ms_def countdown_ms_def
      aws_iot_mqtt_client_lock_mutex_def aws_iot_mqtt_client_unlock_mutex_def aws_iot_thread_mutex_lock_def
      aws_iot_thread_mutex_trylock_def aws_iot_thread_mutex_unlock_def)

lemma send_loop_handler: "send_loop n (with_handlers h d env) c len timer k w = send_loop n env c len timer k w"
  by (induction n arbitrary: k w) (simp_all add: handler_independent Let_def case_prod_unfold cong: if_cong)

lemma set_client_state_handler: "aws_iot_mqtt_set_client_state (with_handlers h d env) = aws_iot_mqtt_set_client_state env"
  by (simp add: fun_eq_iff aws_iot_mqtt_set_client_state_def handler_independent Let_def case_prod_unfold)

lemma send_packet_handler: "aws_iot_mqtt_internal_send_packet (with_handlers h d env) = aws_iot_mqtt_internal_send_packet env"
  by (simp add: fun_eq_iff aws_iot_mqtt_internal_send_packet_def handler_independent send_loop_handler
      Let_def case_prod_unfold)

lemma send_serialized_handler: "send_serialized (with_handlers h d env) = send_serialized env"
  by (simp add: fun_eq_iff send_serialized_def send_packet_handler case_prod_unfold split: option.split sum.split)

lemma publish_handler:
  "msg_qos params = QOS0 \<Longrightarrow>
   aws_iot_mqtt_publish (with_handlers h d env) topic len (Some params) s = aws_iot_mqtt_publish env topic len (Some params) s"
  by (cases s; cases topic)
    (simp_all add: aws_iot_mqtt_publish_def aws_iot_mqtt_internal_publish_def handler_independent set_client_state_handler
      send_serialized_handler Let_def case_prod_unfold)

section \<open>A layer beside the world\<close>

text \<open>The handlers of the world underneath.\<close>

definition below :: "'v Env \<Rightarrow> ptr \<Rightarrow> nat \<Rightarrow> u16 \<Rightarrow> Received_Publish \<Rightarrow> ptr \<Rightarrow> Client \<times> 'a \<times> 'v \<Rightarrow> (Client \<times> 'a \<times> 'v) option" where
  "below base fn topic len rx d = (\<lambda>(c, a, v). map_option (\<lambda>(c, v). (c, a, v)) (app_handler base fn topic len rx d (c, v)))"

lemma lifted_mutexes: "mutexes_work base \<Longrightarrow> mutexes_work (lift_env base h d)"
  by (simp add: mutexes_work_def lift_env_def case_prod_unfold Let_def)

text \<open>The laws of a connection hold for the world beside the layer as well.\<close>

context connected_world
begin

lemma lifted_connection: "connected_world (lift_env env (below env) d) (pending \<circ> snd) (sent \<circ> snd) (seen \<circ> snd)"
proof
  fix n w timer
  show "n \<le> length ((pending \<circ> snd) w) \<Longrightarrow> \<exists>w'. net_read (lift_env env (below env) d) n timer w =
      Some (AWS_SUCCESS, take n ((pending \<circ> snd) w), w') \<and> (pending \<circ> snd) w' = drop n ((pending \<circ> snd) w)" for w :: "'a \<times> 'w"
    using read_available [of n "snd w" timer] by (auto simp: lift_env_def case_prod_unfold)
  show "(pending \<circ> snd) w = [] \<Longrightarrow> 0 < n \<Longrightarrow> \<exists>w'. net_read (lift_env env (below env) d) n timer w =
      Some (NETWORK_SSL_NOTHING_TO_READ, [], w') \<and> (pending \<circ> snd) w' = []" for w :: "'a \<times> 'w"
    using read_empty [of "snd w" n timer] by (auto simp: lift_env_def case_prod_unfold)
next
  fix n timer rc bs and w w' :: "'a \<times> 'w"
  assume "net_read (lift_env env (below env) d) n timer w = Some (rc, bs, w')"
  then have "net_read env n timer (snd w) = Some (rc, bs, snd w')"
    by (auto simp: lift_env_def case_prod_unfold)
  then show "length bs \<le> n" "(sent \<circ> snd) w' = (sent \<circ> snd) w \<and> (seen \<circ> snd) w' = (seen \<circ> snd) w"
    using read_bounded read_frame by auto
next
  fix bs timer and w :: "'a \<times> 'w"
  show "\<exists>w'. net_write (lift_env env (below env) d) bs timer w = (AWS_SUCCESS, of_nat (length bs), w') \<and>
      (sent \<circ> snd) w' = (sent \<circ> snd) w @ bs \<and> (pending \<circ> snd) w' = (pending \<circ> snd) w \<and> (seen \<circ> snd) w' = (seen \<circ> snd) w"
    using write_all [of bs timer "snd w"] by (auto simp: lift_env_def case_prod_unfold Let_def)
next
  fix fn topic len rx dt c and w :: "'a \<times> 'w"
  show "\<exists>w'. app_handler (lift_env env (below env) d) fn topic len rx dt (c, w) = Some (c, w') \<and>
      (seen \<circ> snd) w' = (seen \<circ> snd) w @ [(fn, dt, take (unat len) (drop topic (readBuf c)),
        take (unat (rx_payloadLen rx)) (drop (rx_payload rx) (readBuf c)))] \<and>
      (pending \<circ> snd) w' = (pending \<circ> snd) w \<and> (sent \<circ> snd) w' = (sent \<circ> snd) w"
    using handler_observes [of fn topic len rx dt c "snd w"] by (auto simp: lift_env_def below_def case_prod_unfold)
qed (simp_all add: lift_env_def case_prod_unfold Let_def tick_pending lock_pending unlock_pending tick_frame
    lock_frame unlock_frame lifted_mutexes [OF working_mutexes, unfolded lift_env_def case_prod_unfold Let_def])

end

section \<open>A layer's publish on the connection\<close>

lemma shadow_env_handlers:
  "\<exists>h d. shadow_env n base app = with_handlers h d (lift_env base h' d')"
  by (cases n) (simp_all add: with_handlers_def lift_env_def)

lemma lifted_timers:
  "fst (countdown_ms (lift_env base h d) ms w) = fst (countdown_ms base ms (snd w))"
  "fst (has_timer_expired (lift_env base h d) timer w) = fst (has_timer_expired base timer (snd w))"
  by (simp_all add: lift_env_def countdown_ms_def has_timer_expired_def left_ms_def case_prod_unfold Let_def)

lemma ready_lifted: "ready base c \<Longrightarrow> ready (lift_env base h d) c"
  by (simp add: ready_def in_time_def lifted_timers) (simp add: lift_env_def)

lemma keeps_layer: "world_invariant (lift_env base (\<lambda>_ _ _ _ _ _. None) (\<lambda>_ _ _. None)) (\<lambda>(a', v). a' = a)"
  by (unfold_locales; clarsimp simp: lift_env_def case_prod_unfold Let_def split: option.splits)
    (auto simp: lift_env_def case_prod_unfold Let_def)?

text \<open>The bytes of a message published by the layer follow those sent before; its variables, and what
  is waiting to be read, stay as they are.\<close>

lemma layer_publish:
  assumes "connected_world base pending sent seen" "ready base c"
    and "len \<noteq> 0" "unat len \<le> length topic" "msg_payload params = Some pl" "msg_qos params = QOS0"
      "unat (msg_payloadLen params) \<le> length pl" "unat len + unat (msg_payloadLen params) \<le> 1000"
  shows "\<exists>p c' v'. aws_iot_mqtt_publish (shadow_env n base app) (Some topic) len (Some params) (c, sh, v) =
      Some ((AWS_SUCCESS, p), c', sh, v') \<and> clientState c' = clientState c \<and> messageHandlers c' = messageHandlers c \<and>
    sent v' = sent v @ published topic len params (msg_id params) pl \<and> pending v' = pending v \<and> seen v' = seen v"
proof -
  have same: "aws_iot_mqtt_publish (shadow_env n base app) (Some topic) len (Some params) s =
      aws_iot_mqtt_publish (lift_env base h d) (Some topic) len (Some params) s" for h d s
    using shadow_env_handlers [of n base app h d] publish_handler [OF assms(6)] by metis
  let ?lifted = "lift_env base (below base) (on_disconnect app)"
  obtain p c' w' where run: "aws_iot_mqtt_publish ?lifted (Some topic) len (Some params) (c, sh, v) = Some ((AWS_SUCCESS, p), c', w')"
    and seen: "clientState c' = clientState c" "messageHandlers c' = messageHandlers c"
      "sent (snd w') = sent v @ published topic len params (msg_id params) pl" "pending (snd w') = pending v" "seen (snd w') = seen v"
    using publish_connected [OF connected_world.lifted_connection [OF assms(1)] ready_lifted [OF assms(2)] assms(3-5,7,8),
        where w = "(sh, v)" and n = "msg_id params" and rest = "pending v"] assms(6) by fastforce
  have "fst w' = sh"
    using world_invariant.publish_inv [OF keeps_layer [where a = sh], where s = "(c, sh, v)" and base1 = base and topic = "Some topic"
        and len = len and params = "Some params"] run
    unfolding same [symmetric] by (auto simp: ensures_def case_prod_unfold)
  then show ?thesis
    using run seen unfolding same [symmetric] by (cases w') auto
qed

text \<open>The PUBLISH packet of a message of quality of service 0: topic and payload behind the fixed header,
  whose lowest bit is the retain flag.\<close>

definition message_on_wire :: "byte \<Rightarrow> byte list \<Rightarrow> byte list \<Rightarrow> byte list" where
  "message_on_wire retained topic payload = mqtt_packet (if retained = 1 then 0x31 else 0x30)
     (u16_bytes (of_nat (length topic)) @ topic @ payload)"

lemma published_qos0:
  assumes "msg_qos params = QOS0" "unat len \<le> length topic" "unat (msg_payloadLen params) = k"
  shows "published topic len params n pl = message_on_wire (msg_isRetained params) (take (unat len) topic) (take k pl)"
proof -
  have "init_byte PUBLISH QOS0 0 r = (if r = 1 then 0x31 else 0x30)" for r
    by (simp add: init_byte_def header_byte_def)
  then show ?thesis
    using assms by (simp add: published_def message_on_wire_def publish_body_def str_field_def)
qed

lemma action_published:
  assumes "connected_world base pending sent seen" "ready base c" "pMqttClient sh"
    and "length thing < MAX_SIZE_OF_THING_NAME" "0 \<notin> set thing" "length json \<le> 900"
  shows "\<exists>c' v'. publishToShadowAction (shadow_env n base app) retained (Some thing) action (Some json) (c, sh, v) =
      Some (AWS_SUCCESS, c', sh, v') \<and> clientState c' = clientState c \<and> messageHandlers c' = messageHandlers c \<and>
    sent v' = sent v @ message_on_wire retained (topic_text thing action SHADOW_ACTION) json \<and>
    pending v' = pending v \<and> seen v' = seen v"
proof -
  let ?topic = "topic_text thing action SHADOW_ACTION"
  let ?params = "\<lparr>msg_qos = QOS0, msg_isRetained = retained, msg_isDup = 0, msg_id = 0, msg_payload = Some json,
    msg_payloadLen = of_nat (length json)\<rparr>"
  have topic: "0 < length ?topic" "length ?topic \<le> 90"
    using assms(4) by (simp_all add: length_topic_text) (simp add: action_name_def ascii_def split: ShadowActions_t.split)
  have len: "unat (of_nat (length ?topic) :: u16) = length ?topic"
    using topic(2) by (intro unat_of_nat_lt) simp
  have size: "unat (of_nat (length json) :: u32) = length json"
    using assms(6) by (intro unat_of_nat_lt) simp
  have "(of_nat (length ?topic) :: u16) \<noteq> 0"
    using len topic(1) by (metis less_numeral_extra(3) unat_0)
  from layer_publish [OF assms(1,2) this, of ?topic ?params json n app sh v] show ?thesis
    using topic assms(6) published_qos0 [of ?params "of_nat (length ?topic)" ?topic "length json" 0 json]
    by (auto simp: publishToShadowAction_def via_client_def assms(3) local_topic_fits [OF assms(4,5)] len size)
qed

end
