(* ===== verification/Starter_Wire.thy ===== *)
theory Starter_Wire
  imports Starter_Demo Shadow_Wire
begin

text \<open>
  The report of the AWS starter demo from the counters of the application down to the bytes on the
  connection: \<^verbatim>\<open>aws_publish_property_state\<close> of \<^verbatim>\<open>main.c\<close>, \<^verbatim>\<open>aws_iot_shadow_update\<close> of the shadow,
  \<^verbatim>\<open>aws_iot_mqtt_publish\<close> of the client and its send loop together.
\<close>

definition update_topic :: "byte list \<Rightarrow> byte list" where
  "update_topic thing = ascii ''$aws/things/'' @ thing @ ascii ''/shadow/update''"

lemma update_topic_text: "topic_text thing SHADOW_UPDATE SHADOW_ACTION = update_topic thing"
  by (simp add: topic_text_def update_topic_def action_name_def ascii_def)

text \<open>C28. A report reaches the connection as one PUBLISH packet: to the topic of the thing's updates, with the
  document of what changed as its payload, behind everything sent before.  Nothing is read, no request is
  recorded, and everything is marked as reported.  The retain flag of the packet is that of the
  parameter structure, which the update leaves as it was on the stack.\<close>

theorem report_on_wire:
  assumes "chain (infos (sensors st)) (sensor_ll (sensors st)) as" "\<forall>a\<in>set as. sensor_ok (infos (sensors st) ! a)"
    and "report_text as st \<noteq> []" "length (report_text as st) \<le> 102" "length buf_out = 128"
    and "84 \<notin> set (sensors_text (infos (sensors st)) as)" "tokens_inside (libs app) (report_document (report_text as st))"
    and "sc_pMyThingName sp = Some thing" "length thing < MAX_SIZE_OF_THING_NAME" "0 \<notin> set thing"
    and "connected_world base unread sent seen" "ready base c" "pMqttClient sh"
  shows "\<exists>c' sh' v. aws_publish_property_state (shadow_env n base app) app retained buf_out cb sp (c, sh, st, w) =
      Some (AWS_SUCCESS, c', sh', v) \<and>
    sent v = sent (all_reported as st, w) @
      message_on_wire retained (update_topic thing) (report_document (report_text as st)) \<and>
    unread v = unread (all_reported as st, w) \<and> clientState c' = clientState c \<and>
    AckWaitList sh' = AckWaitList sh \<and> SubscriptionList sh' = SubscriptionList sh"
proof -
  let ?doc = "report_document (report_text as st)"
  have "length ?doc \<le> 127"
    using assms(3,4) by (cases "report_text as st") (simp_all add: report_document_def)
  moreover from this have "take 127 ?doc = ?doc"
    by simp
  ultimately show ?thesis
    using report_sends [OF assms(1,2) _ assms(5), of "shadow_env n base app" app retained cb sp c sh w] assms(3,4,8)
      update_without_token [OF no_T_report_document [OF assms(6)] assms(7) readyD(3) [OF assms(12)],
        of "shadow_env n base app" retained thing cb NULL 10 True sh "(all_reported as st, w)"]
      action_published [OF assms(11,12) _ assms(9,10), of "sh\<lparr>jsonTokenStruct := t\<rparr>" ?doc n app retained SHADOW_UPDATE
        "(all_reported as st, w)" for t] assms(13)
    by (fastforce simp: update_topic_text)
qed

text \<open>A connection in memory, with the application's variables beside it.\<close>

definition starter_loop_env :: "(Starter \<times> Loopback) Env" where
  "starter_loop_env = lift_env loop_env (below loop_env) (\<lambda>_ _ s. Some s)"

lemma starter_loop_env_ok:
  "connected_world starter_loop_env (lb_in \<circ> snd) (lb_out \<circ> snd) (lb_calls \<circ> snd)" "ready starter_loop_env subscribed_client"
  unfolding starter_loop_env_def
  by (rule connected_world.lifted_connection [OF loopback.connected_world_axioms])
    (rule ready_lifted [OF subscribed_client_ready])

lemma report_on_wire_witness:
  "\<exists>c' sh' st v. aws_publish_property_state (shadow_env 1 starter_loop_env (starter_app starter_libs silent_board))
      (starter_app starter_libs silent_board) 0 (replicate 128 7) 9 starter_params
      (subscribed_client, example_shadow\<lparr>pMqttClient := True\<rparr>, example_starter, \<lparr>lb_in = [], lb_out = [1], lb_calls = []\<rparr>) =
    Some (AWS_SUCCESS, c', sh', st, v) \<and>
    lb_out v = [1, 0x30, 86, 0, 30] @ ascii ''$aws/things/lamp/shadow/update'' @ first_report"
proof -
  have "report_text [] example_starter \<noteq> []"
    using example_report(3) by (cases "report_text [] example_starter") auto
  moreover have "tokens_inside (libs (starter_app starter_libs silent_board)) (report_document (report_text [] example_starter))"
    by (simp add: tokens_inside_def starter_libs_def example_report(1)) (simp add: first_report_def)
  moreover have "sc_pMyThingName starter_params = Some (ascii ''lamp'')" "length (ascii ''lamp'') < MAX_SIZE_OF_THING_NAME"
    "0 \<notin> set (ascii ''lamp'')"
    by (simp_all add: starter_params_def) (simp add: ascii_def)
  moreover have "[1] @ message_on_wire 0 (update_topic (ascii ''lamp'')) first_report =
      [1, 0x30, 86, 0, 30] @ ascii ''$aws/things/lamp/shadow/update'' @ first_report"
    by code_simp
  ultimately show ?thesis
    using report_on_wire [OF example_report(2) _ _ _ _ _ _ _ _ _ starter_loop_env_ok, of "replicate 128 7"
        "starter_app starter_libs silent_board" starter_params "ascii ''lamp''" "example_shadow\<lparr>pMqttClient := True\<rparr>" 1 0 9
        "\<lparr>lb_in = [], lb_out = [1], lb_calls = []\<rparr>"]
    by (fastforce simp: example_report(1,3) sensors_text_def)
qed

end
