(* ===== verification/Connected_Maraca.thy ===== *)
theory Connected_Maraca
  imports Starter_Demo Shadow_Wire
begin

text \<open>
  The application \<^verbatim>\<open>connected_maraca/src/main.c\<close>: an accelerometer whose readings are published when one of
  the axes has moved, and a connection that is made again after the network was lost.  Two threads
  share \<^verbatim>\<open>device_state\<close>: the application's and the one that runs the handlers of the network's events.

  The file's variables are the record \<open>Maraca\<close>, the application's part of the world of the shadow's
  client; what a call finds in it may have been changed by the other thread.  The board is the one of
  the other demo, \<open>Board\<close>.
\<close>

section \<open>State\<close>

text \<open>The state of the device is 0 before the first event.\<close>

abbreviation (input) AWS_CONNECTED :: u32 where "AWS_CONNECTED \<equiv> 1"
abbreviation (input) AWS_RECONNECTED :: u32 where "AWS_RECONNECTED \<equiv> 2"
abbreviation (input) AWS_DISCONNECTED :: u32 where "AWS_DISCONNECTED \<equiv> 3"

record Maraca =
  device_state :: u32
  prev_x :: byte
  prev_y :: byte
  prev_z :: byte

definition initial_maraca :: Maraca where
  "initial_maraca = \<lparr>device_state = 0, prev_x = 0, prev_y = 0, prev_z = 0\<rparr>"

section \<open>Publishing a reading\<close>

text \<open>The format of \<^verbatim>\<open>snprintf\<close>, with the device's identifier still to be filled in.\<close>

definition telemetry_text :: "int \<Rightarrow> int \<Rightarrow> int \<Rightarrow> byte list" where
  "telemetry_text x y z =
     ascii ''{\"device_id\": \"<INSERT_YOUR_DEVICE_ID>\",\"time\":\"\",\"device\":\"marvelliot\",\"sensors\":[{\"telemetryData\": {\"xval\": '' @
     show_int x @ ascii '',\"yval\":'' @ show_int y @ ascii '',\"zval\":'' @ show_int z @ ascii ''}}]}''"

text \<open>\<open>buf_out\<close> is the content of the local array.  The length given for the topic is 11, and what the
  publish returns is dropped.\<close>

definition aws_publish_telemetry ::
  "(Shadow \<times> Maraca \<times> 'w) Env \<Rightarrow> byte list \<Rightarrow> byte \<Rightarrow> byte \<Rightarrow> byte \<Rightarrow> (Maraca \<times> 'w) shadow_state
   \<Rightarrow> (int \<times> (Maraca \<times> 'w) shadow_state) option" where
  "aws_publish_telemetry env buf_out x y z s = do {
     (_, buf_out) \<leftarrow> snprintf buf_out 0 200 (telemetry_text (sint x) (sint y) (sint z));
     payload \<leftarrow> c_str buf_out;
     (_, s) \<leftarrow> aws_iot_mqtt_publish env (Some (ascii ''connected-maraca'' @ [0])) 11
       (Some \<lparr>msg_qos = QOS0, msg_isRetained = 0, msg_isDup = 0, msg_id = 0, msg_payload = Some buf_out,
              msg_payloadLen = of_nat (length payload)\<rparr>) s;
     Some (WM_SUCCESS, s) }"

abbreviation (input) THRESHOLD_ACC :: int where "THRESHOLD_ACC \<equiv> 2"

definition moved :: "Maraca \<Rightarrow> byte \<times> byte \<times> byte \<Rightarrow> bool" where
  "moved m = (\<lambda>(x, y, z). \<bar>sint (prev_x m) - sint x\<bar> > THRESHOLD_ACC \<or> \<bar>sint (prev_y m) - sint y\<bar> > THRESHOLD_ACC \<or>
     \<bar>sint (prev_z m) - sint z\<bar> > THRESHOLD_ACC)"

text \<open>Without a device the three variables are not set.\<close>

definition maraca_sample ::
  "(Shadow \<times> Maraca \<times> 'w) Env \<Rightarrow> 'w I2c option \<Rightarrow> byte list \<Rightarrow> (Maraca \<times> 'w) shadow_state
   \<Rightarrow> (Maraca \<times> 'w) shadow_state option" where
  "maraca_sample env i2c0 buf_out = (\<lambda>(c, sh, m, w). do {
     let (reading, w) = MMA7660_getXYZ i2c0 w;
     (x, y, z) \<leftarrow> reading;
     if moved m (x, y, z) then do {
       (ret, c, sh, m, w) \<leftarrow> aws_publish_telemetry env buf_out x y z (c, sh, m, w);
       Some (c, sh, m\<lparr>prev_x := x, prev_y := y, prev_z := z\<rparr>, w) }
     else Some (c, sh, m, w) })"

section \<open>The application's thread\<close>

text \<open>The first part of a round: after the network came back the client is initialised and connected
  anew.  The result tells whether the thread goes on.\<close>

definition maraca_reconnect ::
  "(Shadow \<times> Maraca \<times> 'w) Env \<Rightarrow> (Maraca \<times> 'w) Shadow_App \<Rightarrow> IoT_Client_Init_Params \<Rightarrow> ShadowInitParameters_t
   \<Rightarrow> ShadowConnectParameters_t \<Rightarrow> (Maraca \<times> 'w) shadow_state \<Rightarrow> (bool \<times> (Maraca \<times> 'w) shadow_state) option" where
  "maraca_reconnect env app uninit sp scp = (\<lambda>(c, sh, m, w).
     if device_state m = AWS_RECONNECTED then
       let (ret, s) = aws_iot_shadow_init env uninit (Some sp) (c, sh, m, w) in
       if ret \<noteq> AWS_SUCCESS then Some (False, s)
       else do {
         (ret, c, sh, m, w) \<leftarrow> aws_iot_shadow_connect env app (Some scp) s;
         if ret \<noteq> AWS_SUCCESS then Some (False, c, sh, m, w)
         else Some (True, c, sh, m\<lparr>device_state := AWS_CONNECTED\<rparr>, w) }
     else Some (True, c, sh, m, w))"

text \<open>The result of the yield is dropped.\<close>

definition maraca_round ::
  "(Shadow \<times> Maraca \<times> 'w) Env \<Rightarrow> (Maraca \<times> 'w) Shadow_App \<Rightarrow> 'w Board \<Rightarrow> 'w I2c option \<Rightarrow> IoT_Client_Init_Params
   \<Rightarrow> ShadowInitParameters_t \<Rightarrow> ShadowConnectParameters_t \<Rightarrow> byte list \<Rightarrow> (Maraca \<times> 'w) shadow_state
   \<Rightarrow> (bool \<times> (Maraca \<times> 'w) shadow_state) option" where
  "maraca_round env app board i2c0 uninit sp scp buf_out s = do {
     (again, s) \<leftarrow> maraca_reconnect env app uninit sp scp s;
     if \<not> again then Some (False, s)
     else do {
       (_, s) \<leftarrow> aws_iot_shadow_yield env app 10 s;
       (c, sh, m, w) \<leftarrow> maraca_sample env i2c0 buf_out s;
       Some (True, c, sh, m, os_thread_sleep board 1000 w) } }"

partial_function (option) maraca_loop ::
  "(Shadow \<times> Maraca \<times> 'w) Env \<Rightarrow> (Maraca \<times> 'w) Shadow_App \<Rightarrow> 'w Board \<Rightarrow> 'w I2c option \<Rightarrow> IoT_Client_Init_Params
   \<Rightarrow> ShadowInitParameters_t \<Rightarrow> ShadowConnectParameters_t \<Rightarrow> byte list \<Rightarrow> (Maraca \<times> 'w) shadow_state
   \<Rightarrow> (Maraca \<times> 'w) shadow_state option" where
  "maraca_loop env app board i2c0 uninit sp scp buf_out s = do {
     (again, s) \<leftarrow> maraca_round env app board i2c0 uninit sp scp buf_out s;
     if again then maraca_loop env app board i2c0 uninit sp scp buf_out s else Some s }"

text \<open>The certificates are handed on as the texts that were read, where the network port expects structures
  of type \<^verbatim>\<open>wm_tls_cert_t\<close>.\<close>

definition maraca_load_configuration ::
  "'w Board \<Rightarrow> byte list \<Rightarrow> byte list \<Rightarrow> Starter_Config \<times> ShadowInitParameters_t \<times> ShadowConnectParameters_t
   \<Rightarrow> (int \<times> Starter_Config \<times> ShadowInitParameters_t \<times> ShadowConnectParameters_t) option" where
  "maraca_load_configuration board rootCA mac0 = (\<lambda>(cf, sp, scp).
     let (ret, b) = read_aws_thing board (thing_name cf); cf = cf\<lparr>thing_name := b\<rparr> in
     if ret \<noteq> WM_SUCCESS then Some (- 1, cf, sp, scp)
     else do {
       thing \<leftarrow> c_str (thing_name cf);
       let scp = scp\<lparr>sc_pMyThingName := Some thing\<rparr>; (ret, device_mac) = read_aws_device_mac board mac0 in
       if ret \<noteq> WM_SUCCESS then Some (- 1, cf, sp, scp)
       else do {
         mac \<leftarrow> mem_take 6 device_mac;
         (_, b) \<leftarrow> snprintf (client_id cf) 0 (of_nat MAX_SIZE_OF_UNIQUE_CLIENT_ID_BYTES)
           (ascii ''mrvl-'' @ concat (map hex2 mac));
         let cf = cf\<lparr>client_id := b\<rparr> in do {
         ident \<leftarrow> c_str (client_id cf);
         let scp = scp\<lparr>sc_pMqttClientId := Some ident, sc_mqttClientIdLen := of_nat (length ident)\<rparr>;
             (ret, region) = read_aws_region board (replicate 16 0) in do {
         name \<leftarrow> (if ret = WM_SUCCESS then c_str region else Some (ascii ''us-east-1''));
         (_, b) \<leftarrow> snprintf (url cf) 0 128 (ascii ''data.iot.'' @ name @ ascii ''.amazonaws.com'');
         let cf = cf\<lparr>url := b\<rparr> in do {
         host \<leftarrow> c_str (url cf);
         let sp = sp\<lparr>si_pHost := Some host, si_port := 8883, si_pRootCA := Some rootCA,
               si_enableAutoReconnect := True, si_disconnectHandler := NULL\<rparr>;
             (ret, b) = read_aws_certificate board (client_cert_buffer cf);
             cf = cf\<lparr>client_cert_buffer := b\<rparr> in
         if ret \<noteq> WM_SUCCESS then Some (- 1, cf, sp, scp)
         else
           let sp = sp\<lparr>si_pClientCRT := Some (client_cert_buffer cf)\<rparr>;
               (ret, b) = read_aws_key board (private_key_buffer cf);
               cf = cf\<lparr>private_key_buffer := b\<rparr> in
           if ret \<noteq> WM_SUCCESS then Some (- 1, cf, sp, scp)
           else Some (ret, cf, sp\<lparr>si_pClientKey := Some (private_key_buffer cf)\<rparr>, scp) } } } } })"

definition connected_maraca ::
  "(Shadow \<times> Maraca \<times> 'w) Env \<Rightarrow> (Maraca \<times> 'w) Shadow_App \<Rightarrow> 'w Board \<Rightarrow> 'w I2c option \<Rightarrow> byte list \<Rightarrow> byte list
   \<Rightarrow> IoT_Client_Init_Params \<Rightarrow> Starter_Config \<times> ShadowInitParameters_t \<times> ShadowConnectParameters_t \<Rightarrow> byte list
   \<Rightarrow> (Maraca \<times> 'w) shadow_state \<Rightarrow> (Maraca \<times> 'w) shadow_state option" where
  "connected_maraca env app board i2c0 rootCA mac0 uninit params buf_out s = do {
     (ret, cf, sp, scp) \<leftarrow> maraca_load_configuration board rootCA mac0 params;
     if ret \<noteq> WM_SUCCESS then Some s
     else let (ret, s) = aws_iot_shadow_init env uninit (Some sp) s in
     if ret \<noteq> AWS_SUCCESS then Some s
     else do {
       (ret, s) \<leftarrow> aws_iot_shadow_connect env app (Some scp) s;
       if ret \<noteq> AWS_SUCCESS then Some s
       else maraca_loop env app board i2c0 uninit sp scp buf_out s } }"

section \<open>The events of the network\<close>

text \<open>The handlers' changes of the state: when the link or an attempt to connect is lost, and when the
  device is connected; only the first connection creates the thread.\<close>

definition link_down :: "Maraca \<Rightarrow> Maraca" where
  "link_down m = m\<lparr>device_state := AWS_DISCONNECTED\<rparr>"

definition link_up :: "Maraca \<Rightarrow> Maraca" where
  "link_up m = (if device_state m = 0 then m\<lparr>device_state := AWS_CONNECTED\<rparr>
     else if device_state m = AWS_DISCONNECTED then m\<lparr>device_state := AWS_RECONNECTED\<rparr> else m)"

definition maraca_link_lost ::
  "(Shadow \<times> Maraca \<times> 'w) Env \<Rightarrow> (Maraca \<times> 'w) shadow_state \<Rightarrow> (Maraca \<times> 'w) shadow_state option" where
  "maraca_link_lost env s = do {
     (_, c, sh, m, w) \<leftarrow> aws_iot_shadow_disconnect env s;
     Some (c, sh, link_down m, w) }"

definition maraca_connect_failed ::
  "(Shadow \<times> Maraca \<times> 'w) Env \<Rightarrow> (Maraca \<times> 'w) shadow_state \<Rightarrow> (Maraca \<times> 'w) shadow_state option" where
  "maraca_connect_failed env s = do {
     (_, c, sh, m, w) \<leftarrow> aws_iot_shadow_disconnect env s;
     Some (c, sh, link_down m, w) }"

text \<open>The first component of the result tells whether the thread was created.\<close>

definition maraca_connected :: "'w Board \<Rightarrow> Maraca \<times> 'w \<Rightarrow> bool \<times> Maraca \<times> 'w" where
  "maraca_connected board = (\<lambda>(m, w).
     if device_state m = 0 then
       let w = wmtime_time_set_posix board 1459468800 w;
           (ret, handle, w) = os_thread_create board w in
       if ret \<noteq> WM_SUCCESS then (False, m, w) else (True, link_up m, w)
     else (False, link_up m, w))"

section \<open>A reading on the connection\<close>

lemma length_telemetry: "length (telemetry_text (six_bits vx) (six_bits vy) (six_bits vz)) < 200"
  using length_show_axis [of vx] length_show_axis [of vy] length_show_axis [of vz]
  by (simp add: telemetry_text_def ascii_def)

lemma zero_telemetry: "0 \<notin> set (telemetry_text x y z)"
  using show_int_nonzero [of x] show_int_nonzero [of y] show_int_nonzero [of z]
  by (simp add: telemetry_text_def) (simp add: ascii_def)

text \<open>C33. A reading of the accelerometer is published when one of its axes is more than 2 away from the values
  published last, and only then.  What reaches the connection is one PUBLISH packet whose payload is the
  JSON text of the three values, which always fits the array.  Its topic is \<open>connected-m\<close>: the application
  passes 11 as the length of \<open>connected-maraca\<close>.  The values become those published last.\<close>

theorem maraca_report:
  assumes "connected_world base unread sent seen" "ready base c" "length buf_out = 200"
    and "i2c_read bus 3 (MMA7660_From (Some bus) 0 w) = ([vx, vy, vz], w')"
  shows "if \<bar>sint (prev_x m) - six_bits vx\<bar> > 2 \<or> \<bar>sint (prev_y m) - six_bits vy\<bar> > 2 \<or> \<bar>sint (prev_z m) - six_bits vz\<bar> > 2
    then \<exists>c' m' w2. maraca_sample (shadow_env n base app) (Some bus) buf_out (c, sh, m, w) =
        Some (c', sh, m'\<lparr>prev_x := axis vx, prev_y := axis vy, prev_z := axis vz\<rparr>, w2) \<and>
      sent (m', w2) = sent (m, w') @ message_on_wire 0 (ascii ''connected-m'')
        (telemetry_text (six_bits vx) (six_bits vy) (six_bits vz)) \<and>
      unread (m', w2) = unread (m, w') \<and> clientState c' = clientState c
    else maraca_sample (shadow_env n base app) (Some bus) buf_out (c, sh, m, w) = Some (c, sh, m, w')"
proof -
  let ?t = "telemetry_text (six_bits vx) (six_bits vy) (six_bits vz)"
  have reading: "MMA7660_getXYZ (Some bus) w = (Some (axis vx, axis vy, axis vz), w')"
    by (simp add: MMA7660_getXYZ_def assms(4))
  obtain buf where buf: "snprintf buf_out 0 200 ?t = Some (int (length ?t), buf)" "c_str buf = Some ?t"
    by (rule snprintf_text [of ?t 200 buf_out]) (use length_telemetry [of vx vy vz] assms(3) zero_telemetry in auto)
  let ?params = "\<lparr>msg_qos = QOS0, msg_isRetained = 0, msg_isDup = 0, msg_id = 0, msg_payload = Some buf,
    msg_payloadLen = of_nat (length ?t)\<rparr>"
  have size: "unat (of_nat (length ?t) :: u32) = length ?t"
    using length_telemetry [of vx vy vz] by (intro unat_of_nat_lt) simp
  obtain rest where "buf = ?t @ 0 # rest"
    using buf(2) by (rule c_str_split)
  then have payload: "length ?t \<le> length buf" "take (length ?t) buf = ?t"
    by simp_all
  have topic: "length (ascii ''connected-maraca'' @ [0]) = 17" "take 11 (ascii ''connected-maraca'') = ascii ''connected-m''"
    by (simp_all add: ascii_def)
  have "message_on_wire 0 (ascii ''connected-m'') ?t = published (ascii ''connected-maraca'' @ [0]) 11 ?params (msg_id ?params) buf"
    by (subst published_qos0 [where k = "length ?t"]) (simp_all add: topic size payload)
  with layer_publish [OF assms(1,2), of 11 "ascii ''connected-maraca'' @ [0]" ?params buf n app sh "(m, w')"]
  obtain p c' m' w2 where "aws_iot_mqtt_publish (shadow_env n base app) (Some (ascii ''connected-maraca'' @ [0])) 11 (Some ?params)
      (c, sh, m, w') = Some ((AWS_SUCCESS, p), c', sh, m', w2)" "clientState c' = clientState c"
    "sent (m', w2) = sent (m, w') @ message_on_wire 0 (ascii ''connected-m'') ?t" "unread (m', w2) = unread (m, w')"
    using length_telemetry [of vx vy vz] payload(1) by (auto simp: topic size)
  then show ?thesis
    by (auto simp: maraca_sample_def reading aws_publish_telemetry_def moved_def sint_axis buf)
qed

section \<open>Both threads\<close>

text \<open>An event may come between any two steps of the application's thread, in particular while it
  connects anew.  The third component tells whether the last event was a connection, the last whether
  an event has come during a reconnection.\<close>

datatype maraca_pc = Not_Created | Running | Reconnecting | Ended

inductive link_step :: "Maraca \<times> maraca_pc \<times> bool \<times> bool \<Rightarrow> Maraca \<times> maraca_pc \<times> bool \<times> bool \<Rightarrow> bool" where
  lost: "link_step (m, pc, up, late) (link_down m, pc, False, late \<or> pc = Reconnecting)"
| connected: "link_step (m, pc, up, late)
    (link_up m, if device_state m = 0 then Running else pc, True, late \<or> pc = Reconnecting)"
| begin_reconnect: "device_state m = AWS_RECONNECTED \<Longrightarrow> link_step (m, Running, up, late) (m, Reconnecting, up, late)"
| end_reconnect: "link_step (m, Reconnecting, up, late) (m\<lparr>device_state := AWS_CONNECTED\<rparr>, Running, up, late)"
| fail_reconnect: "link_step (m, Reconnecting, up, late) (m, Ended, up, late)"

code_pred (modes: i \<Rightarrow> o \<Rightarrow> bool as next_link) link_step .

inductive_cases link_stepE: "link_step (m, pc, up, late) s"

definition link_inv :: "Maraca \<times> maraca_pc \<times> bool \<times> bool \<Rightarrow> bool" where
  "link_inv = (\<lambda>(m, pc, up, late).
     device_state m \<in> {0, AWS_CONNECTED, AWS_RECONNECTED, AWS_DISCONNECTED} \<and>
     (device_state m = 0 \<longrightarrow> pc = Not_Created \<and> \<not> up) \<and>
     (pc = Reconnecting \<and> \<not> late \<longrightarrow> device_state m = AWS_RECONNECTED) \<and>
     (\<not> late \<longrightarrow> (up \<longleftrightarrow> device_state m \<in> {AWS_CONNECTED, AWS_RECONNECTED})))"

lemma link_inv_step: "link_step s s' \<Longrightarrow> link_inv s \<Longrightarrow> link_inv s'"
  by (induction rule: link_step.induct) (auto simp: link_inv_def link_down_def link_up_def)

lemma link_inv_reachable:
  assumes "link_step\<^sup>*\<^sup>* (initial_maraca, Not_Created, False, False) s"
  shows "link_inv s"
  using assms by (induction rule: rtranclp_induct)
    (simp add: link_inv_def initial_maraca_def, simp add: link_inv_step)

lemma not_created_stays:
  "link_step\<^sup>*\<^sup>* s s' \<Longrightarrow> fst (snd s) = Not_Created \<and> device_state (fst s) \<noteq> 0 \<Longrightarrow>
   fst (snd s') = Not_Created \<and> device_state (fst s') \<noteq> 0"
proof (induction rule: rtranclp_induct)
  case (step a b)
  show ?case
    using step.hyps(2) step.IH step.prems by (cases rule: link_step.cases) (auto simp: link_down_def link_up_def)
qed simp


section \<open>The thread's reconnection\<close>

text \<open>What the surroundings and the handlers keep of the variables beside the shadow, the calls of the shadow keep.\<close>

lemma init_beside:
  assumes "world_invariant env (\<lambda>(sh, v). K v)" "K (snd (snd s))"
  shows "K (snd (snd (snd (aws_iot_shadow_init env uninit p s))))"
proof -
  have "K (snd (snd (snd (aws_iot_mqtt_init env ip s))))" for ip
    using world_invariant.init_inv [OF assms(1), of s ip] assms(2) by (simp add: case_prod_unfold)
  then show ?thesis
    using assms(2) by (simp add: aws_iot_shadow_init_def with_shadow_def Let_def case_prod_unfold split: option.split)
qed

lemma connect_beside:
  assumes "world_invariant env (\<lambda>(sh, v). K v)" "K (snd (snd s))"
  shows "ensures (\<lambda>x. K (snd (snd (snd x)))) (aws_iot_shadow_connect env app p s)"
proof -
  have connect: "ensures (\<lambda>x. K (snd (snd (snd x)))) (aws_iot_mqtt_connect env cp s)" if "K (snd (snd s))" for cp s
    using world_invariant.connect_inv [OF assms(1), of s cp] that by (simp add: case_prod_unfold)
  have subscribe: "ensures (\<lambda>x. K (snd (snd (snd x)))) (aws_iot_mqtt_subscribe env topic len q fn d s)" if "K (snd (snd s))" for topic len q fn d s
    using world_invariant.subscribe_inv [OF assms(1), of s topic len q fn d] that by (simp add: case_prod_unfold)
  show ?thesis
    using assms(2) unfolding aws_iot_shadow_connect_def Let_def case_prod_unfold
    by (cases s) (auto split: option.split intro!: ensures_bind_any [where m = "sc_pMyThingName a" for a]
      ensures_bind_any [where m = "snprintf a b c d" for a b c d] ensures_bind_any [where m = "c_str a" for a]
      ensures_bind [OF connect] subscribe simp: with_shadow_def case_prod_unfold)
qed


text \<open>Disconnected by the handler of the link and not told to reconnect, the application goes on without a
  connection: every reading that moved counts as published, and nothing is sent.\<close>

theorem maraca_stays_offline:
  assumes "clientState c = CLIENT_STATE_DISCONNECTED_MANUALLY" "device_state m \<noteq> AWS_RECONNECTED" "length buf_out = 200"
    and "list_all ack_isFree (AckWaitList sh)" "length (AckWaitList sh) = 10"
    and "i2c_read bus 3 (MMA7660_From (Some bus) 0 w) = ([vx, vy, vz], w')"
  shows "maraca_round env app board (Some bus) uninit sp scp buf_out (c, sh, m, w) =
    Some (True, c, sh, if moved m (axis vx, axis vy, axis vz)
       then m\<lparr>prev_x := axis vx, prev_y := axis vy, prev_z := axis vz\<rparr> else m, os_thread_sleep board 1000 w')"
proof -
  let ?t = "telemetry_text (six_bits vx) (six_bits vy) (six_bits vz)"
  obtain buf where buf: "snprintf buf_out 0 200 ?t = Some (int (length ?t), buf)" "c_str buf = Some ?t"
    by (rule snprintf_text [of ?t 200 buf_out]) (use length_telemetry [of vx vy vz] assms(3) zero_telemetry in auto)
  have "aws_iot_shadow_yield env app 10 (c, sh, m, w) = Some (NETWORK_MANUALLY_DISCONNECTED, c, sh, m, w)"
    using assms(1) by (simp add: aws_iot_shadow_yield_def expire_nothing [OF assms(4,5)] aws_iot_mqtt_yield_def
        aws_iot_mqtt_get_client_state_def)
  moreover have "\<not> aws_iot_mqtt_is_client_connected c"
    using assms(1) by (simp add: aws_iot_mqtt_is_client_connected_def)
  ultimately show ?thesis
    using assms(2) by (simp add: maraca_round_def maraca_reconnect_def maraca_sample_def MMA7660_getXYZ_def assms(6)
        aws_publish_telemetry_def sint_axis buf aws_iot_mqtt_publish_def)
qed

section \<open>Examples\<close>

definition maraca_loop_env :: "(Maraca \<times> Loopback) Env" where
  "maraca_loop_env = lift_env loop_env (below loop_env) (\<lambda>_ _ s. Some s)"

lemma maraca_loop_env_ok:
  "connected_world maraca_loop_env (lb_in \<circ> snd) (lb_out \<circ> snd) (lb_calls \<circ> snd)" "ready maraca_loop_env subscribed_client"
  unfolding maraca_loop_env_def
  by (rule connected_world.lifted_connection [OF loopback.connected_world_axioms])
    (rule ready_lifted [OF subscribed_client_ready])

definition shaken_bus :: "'w I2c" where
  "shaken_bus = \<lparr>i2c_write = (\<lambda>_ w. w), i2c_read = (\<lambda>_ w. ([0x3f, 0x05, 0x00], w))\<rparr>"

lemma shaken_bus_reads: "i2c_read shaken_bus 3 (MMA7660_From (Some shaken_bus) 0 w) = ([0x3f, 0x05, 0x00], w)"
  by (simp add: shaken_bus_def MMA7660_From_def)

definition maraca_app :: "(Maraca \<times> 'w) Shadow_App" where
  "maraca_app = \<lparr>libs = example_libs, on_ack = (\<lambda>_ _ _ _ _ _ s. Some s), on_delta = (\<lambda>_ _ _ _ s. Some s),
     on_message = (\<lambda>_ _ _ _ _ s. Some s), on_disconnect = (\<lambda>_ _ s. Some s), AckStatusCallback_addr = 1,
     myThingName_addr = 2, shadow_delta_callback_addr = 3\<rparr>"

lemma maraca_report_witness:
  "\<exists>c' m' w2. maraca_sample (shadow_env 1 maraca_loop_env maraca_app) (Some shaken_bus) (replicate 200 7)
      (subscribed_client, example_shadow, initial_maraca, \<lparr>lb_in = [], lb_out = [], lb_calls = []\<rparr>) = Some (c', example_shadow, m', w2) \<and>
    prev_x m' = - 1 \<and> lb_out w2 = [0x30, 147, 1, 0, 11] @ ascii ''connected-m'' @ telemetry_text (- 1) 5 0"
proof -
  have bytes: "message_on_wire 0 (ascii ''connected-m'') (telemetry_text (six_bits 0x3f) (six_bits 0x05) (six_bits 0)) =
      [0x30, 147, 1, 0, 11] @ ascii ''connected-m'' @ telemetry_text (- 1) 5 0"
    by code_simp
  have "\<bar>sint (prev_y initial_maraca) - six_bits 0x05\<bar> > 2" "axis 0x3f = - 1"
    by (simp add: initial_maraca_def six_bits_def, code_simp)
  then show ?thesis
    using maraca_report [OF maraca_loop_env_ok _ shaken_bus_reads, of "replicate 200 7" initial_maraca 1 maraca_app example_shadow
        "\<lparr>lb_in = [], lb_out = [], lb_calls = []\<rparr>"] unfolding bytes
    by fastforce
qed


text \<open>Surroundings without handlers: they leave the application's variables alone.\<close>

definition lonely_env :: "(Shadow \<times> Maraca \<times> Loopback) Env" where
  "lonely_env = lift_env (lift_env loop_env (\<lambda>_ _ _ _ _ _. None) (\<lambda>_ _ _. None)) (\<lambda>_ _ _ _ _ _. None) (\<lambda>_ _ _. None)"

lemma lonely_env_keeps: "world_invariant lonely_env (\<lambda>(sh, m', w). m' = m)"
  by (unfold_locales; clarsimp simp: lonely_env_def lift_env_def case_prod_unfold Let_def split: option.splits)

definition no_host :: ShadowInitParameters_t where
  "no_host = \<lparr>si_pHost = None, si_port = 8883, si_pRootCA = None, si_pClientCRT = None, si_pClientKey = None,
     si_enableAutoReconnect = True, si_disconnectHandler = NULL\<rparr>"


lemma maraca_stays_offline_witness:
  "maraca_round lonely_env maraca_app silent_board (Some shaken_bus) IoT_Client_Init_Params_initializer no_host starter_params (replicate 200 7)
      (subscribed_client\<lparr>clientState := CLIENT_STATE_DISCONNECTED_MANUALLY\<rparr>, offline_shadow, initial_maraca, \<lparr>lb_in = [], lb_out = [], lb_calls = []\<rparr>) =
    Some (True, subscribed_client\<lparr>clientState := CLIENT_STATE_DISCONNECTED_MANUALLY\<rparr>, offline_shadow,
      \<lparr>device_state = 0, prev_x = - 1, prev_y = 5, prev_z = 0\<rparr>, \<lparr>lb_in = [], lb_out = [], lb_calls = []\<rparr>)"
proof -
  have shadow: "list_all ack_isFree (AckWaitList offline_shadow)" "length (AckWaitList offline_shadow) = 10"
    by (simp_all add: offline_shadow_def example_shadow_def list_all_length)
  have "moved initial_maraca (axis 0x3f, axis 0x05, axis 0)"
      "initial_maraca\<lparr>prev_x := axis 0x3f, prev_y := axis 0x05, prev_z := axis 0\<rparr> = \<lparr>device_state = 0, prev_x = - 1, prev_y = 5, prev_z = 0\<rparr>"
    by code_simp+
  then show ?thesis
    using maraca_stays_offline [OF _ _ _ shadow shaken_bus_reads, of "subscribed_client\<lparr>clientState := CLIENT_STATE_DISCONNECTED_MANUALLY\<rparr>"
        initial_maraca "replicate 200 7" lonely_env maraca_app silent_board IoT_Client_Init_Params_initializer no_host starter_params "\<lparr>lb_in = [], lb_out = [], lb_calls = []\<rparr>"]
    by (simp add: initial_maraca_def silent_board_def)
qed

end
