(* ===== verification/Dht_Sensor.thy ===== *)
theory Dht_Sensor
  imports C_Strings
begin

text \<open>
  The temperature and humidity sensor: \<^verbatim>\<open>dht_drv.c\<close> (a one-wire receiver that measures the time
  between falling edges, decodes them into five bytes and checks their sum) and \<^verbatim>\<open>sensor_th_drv.c\<close>
  (which reports a reading once it is stable).

  The receiver's variables are the record \<open>Dht\<close>.  The counter of the hardware timer and the level of the
  pin are arguments of the interrupt handler; whether the interrupt is enabled is \<open>dht_listening\<close>.
\<close>

section \<open>The receiver\<close>

abbreviation DHT11_BIT_MARK :: int where "DHT11_BIT_MARK \<equiv> 50"
abbreviation DHT11_ONE_SPACE :: int where "DHT11_ONE_SPACE \<equiv> 70"
abbreviation DHT11_ZERO_SPACE :: int where "DHT11_ZERO_SPACE \<equiv> 26"
abbreviation DHT11_BITS :: nat where "DHT11_BITS \<equiv> 40"
abbreviation REC_BUF_SIZE :: nat where "REC_BUF_SIZE \<equiv> 70"
abbreviation DHT_DATA_BUF_SIZE :: nat where "DHT_DATA_BUF_SIZE \<equiv> 8"

record Dht =
  bitcnt :: byte
  dht_data_buf :: "byte list"
  dht_cap_tmr_data :: "u32 list"
  dht_capture_ptr :: byte
  temp_tmr :: int
  dht22_start_delay :: int
  dht_listening :: bool
  dht_has_learncb :: bool
  dht_temperature :: byte
  dht_humidity :: byte

text \<open>The macros multiply by 0.8 and 1.2 and cut the fraction off.\<close>

definition TICKS_LOW :: "int \<Rightarrow> int" where
  "TICKS_LOW us = us * 80 div 100"

definition TICKS_HIGH :: "int \<Rightarrow> int" where
  "TICKS_HIGH us = (us * 120 + 100) div 100"

definition MATCH :: "int \<Rightarrow> int \<Rightarrow> bool" where
  "MATCH measured desired \<longleftrightarrow> TICKS_LOW desired \<le> measured \<and> measured \<le> TICKS_HIGH desired"

definition RotateBitRou :: "byte \<Rightarrow> Dht \<Rightarrow> Dht" where
  "RotateBitRou j s =
     (if DHT11_BITS < unat (bitcnt s) then s
      else let irTemp = unat (and (drop_bit 3 (bitcnt s)) 0x07) in
        s\<lparr>dht_data_buf := (dht_data_buf s)[irTemp := or (push_bit 1 (dht_data_buf s ! irTemp)) j],
          bitcnt := bitcnt s + 1\<rparr>)"

definition dht_read_BitRou :: "u32 \<Rightarrow> Dht \<Rightarrow> Dht" where
  "dht_read_BitRou tmcnt s =
     (if MATCH (sint tmcnt) (DHT11_BIT_MARK + DHT11_ONE_SPACE) then RotateBitRou 0x01 s
      else if MATCH (sint tmcnt) (DHT11_BIT_MARK + DHT11_ZERO_SPACE) then RotateBitRou 0x00 s
      else s)"

text \<open>The interrupt handler of a falling edge.  The pointer stops at the size of the array, and the
  array is written at the pointer.\<close>

definition dht_learn_cb :: "u32 \<Rightarrow> bool \<Rightarrow> Dht \<Rightarrow> Dht option" where
  "dht_learn_cb timer_val pin_high s =
     (if timer_val > 50 then
        if \<not> pin_high then
          if unat (dht_capture_ptr s) < length (dht_cap_tmr_data s) then
            Some (s\<lparr>dht_cap_tmr_data := (dht_cap_tmr_data s)[unat (dht_capture_ptr s) := timer_val div 50],
                    dht_capture_ptr := (if unat (dht_capture_ptr s) < REC_BUF_SIZE
                                        then dht_capture_ptr s + 1 else dht_capture_ptr s)\<rparr>)
          else None
        else Some s
      else Some s)"

text \<open>The periodic timer: a start signal, listening, decoding.  \<open>learncb temperature humidity\<close> is the
  application's callback on its part of the state; it runs before the new values are stored.\<close>

definition dht_timer :: "(byte \<Rightarrow> byte \<Rightarrow> 'a \<Rightarrow> 'a option) \<Rightarrow> Dht \<times> 'a \<Rightarrow> (Dht \<times> 'a) option" where
  "dht_timer learncb = (\<lambda>(s, a).
     let s = (if dht22_start_delay s \<noteq> 0 then s\<lparr>dht22_start_delay := dht22_start_delay s - 1\<rparr> else s) in
     if dht22_start_delay s \<noteq> 0 then Some (s, a)
     else
       let s = s\<lparr>temp_tmr := (if temp_tmr s + 1 > 50 then 0 else temp_tmr s + 1)\<rparr> in
       if temp_tmr s = 1 then
         Some (s\<lparr>bitcnt := 41, dht_capture_ptr := 0, dht_listening := True,
                 dht_data_buf := replicate DHT_DATA_BUF_SIZE 0\<rparr>, a)
       else if temp_tmr s = 2 then
         let s = fold (\<lambda>i s. dht_read_BitRou (dht_cap_tmr_data s ! i) s) [1..<unat (dht_capture_ptr s)]
                   (s\<lparr>dht_listening := False, bitcnt := 0\<rparr>);
             i = uint (dht_data_buf s ! 0) + uint (dht_data_buf s ! 1) + uint (dht_data_buf s ! 2)
                 + uint (dht_data_buf s ! 3)
         in if i \<noteq> uint (dht_data_buf s ! 4) then Some (s, a)
            else do {
              a \<leftarrow> (if dht_has_learncb s then learncb (dht_temperature s) (dht_humidity s) a else Some a);
              Some (s\<lparr>dht_temperature := dht_data_buf s ! 2, dht_humidity := dht_data_buf s ! 0\<rparr>, a) }
       else Some (s, a))"

section \<open>Stable readings\<close>

record Th =
  tempr :: "byte list"
  humidity :: "byte list"
  T_ready :: "byte list"
  H_ready :: "byte list"

text \<open>The last four values, the newest first, and what is ready to be reported.\<close>

definition shift_in :: "byte \<Rightarrow> byte list \<Rightarrow> byte list" where
  "shift_in x xs = [x, xs ! 0, xs ! 1, xs ! 2]"

definition settled :: "byte list \<Rightarrow> bool" where
  "settled xs \<longleftrightarrow> xs ! 0 = xs ! 1 \<and> xs ! 1 = xs ! 2 \<and> xs ! 2 \<noteq> xs ! 3"

definition dht_readings :: "byte \<Rightarrow> byte \<Rightarrow> Th \<Rightarrow> Th option" where
  "dht_readings t h th =
     (let th = th\<lparr>tempr := shift_in t (tempr th)\<rparr> in do {
      th \<leftarrow> (if settled (tempr th)
             then map_option (\<lambda>b. th\<lparr>T_ready := b\<rparr>) (sprintf (T_ready th) 0 (show_int (uint (tempr th ! 3))))
             else Some th);
      let th = th\<lparr>humidity := shift_in (h * 2) (humidity th)\<rparr> in
      if settled (humidity th)
      then map_option (\<lambda>b. th\<lparr>H_ready := b\<rparr>) (sprintf (H_ready th) 0 (show_int (uint (humidity th ! 3))))
      else Some th })"

text \<open>The scan copies a ready value to the sensor's current value, once.\<close>

definition scan_ready :: "byte list \<Rightarrow> byte list \<Rightarrow> (byte list \<times> byte list) option" where
  "scan_ready ready event_curr_value = do {
     s \<leftarrow> c_str ready;
     if s \<noteq> [] then do {
       v \<leftarrow> sprintf event_curr_value 0 s;
       Some (ready[0 := 0], v) }
     else Some (ready, event_curr_value) }"

definition tht_sensor_input_scan :: "byte list \<Rightarrow> Th \<Rightarrow> (byte list \<times> Th) option" where
  "tht_sensor_input_scan event_curr_value th =
     map_option (\<lambda>(ready, v). (v, th\<lparr>T_ready := ready\<rparr>)) (scan_ready (T_ready th) event_curr_value)"

definition thh_sensor_input_scan :: "byte list \<Rightarrow> Th \<Rightarrow> (byte list \<times> Th) option" where
  "thh_sensor_input_scan event_curr_value th =
     map_option (\<lambda>(ready, v). (v, th\<lparr>H_ready := ready\<rparr>)) (scan_ready (H_ready th) event_curr_value)"

section \<open>Decoding\<close>

text \<open>The times, in microseconds, that the two bits may take; the sensor sends the most significant
  bit of a byte first.\<close>

definition bit_time :: "bool \<Rightarrow> u32 \<Rightarrow> bool" where
  "bit_time b t \<longleftrightarrow> (if b then 96 \<le> t \<and> t \<le> 145 else 60 \<le> t \<and> t \<le> 92)"

definition byte_bits :: "byte \<Rightarrow> bool list" where
  "byte_bits b = map (bit b) (rev [0..<8])"

lemma read_bit:
  assumes "bit_time b t"
  shows "dht_read_BitRou t s = RotateBitRou (of_bool b) s"
proof -
  define n where "n = unat t"
  have t: "t = of_nat n"
    by (simp add: n_def)
  have n: "if b then 96 \<le> n \<and> n \<le> 145 else 60 \<le> n \<and> n \<le> 92"
    using assms by (auto simp: bit_time_def word_le_nat_alt n_def)
  then have "sint t = int n"
    unfolding t by (auto simp: signed_of_nat intro!: signed_take_bit_int_eq_self split: if_splits)
  then show ?thesis
    using n by (auto simp: dht_read_BitRou_def MATCH_def TICKS_LOW_def TICKS_HIGH_def split: if_splits)
qed

lemma byte_index:
  assumes "n < 40"
  shows "unat (and (drop_bit 3 (of_nat n :: byte)) 7) = n div 8"
proof -
  have "list_all (\<lambda>n. unat (and (drop_bit 3 (of_nat n :: byte)) 7) = n div 8) [0..<40]"
    by code_simp
  then show ?thesis
    using assms by (simp add: list_all_iff)
qed

lemma rotate_bit:
  assumes "bitcnt s = of_nat (8 * q + r)" "r < 8" "q < 5"
  shows "RotateBitRou j s = s\<lparr>dht_data_buf := (dht_data_buf s)[q := or (push_bit 1 (dht_data_buf s ! q)) j],
    bitcnt := of_nat (8 * q + Suc r)\<rparr>"
proof -
  have n: "8 * q + r < 40" "(8 * q + r) div 8 = q"
    using assms(2,3) by auto
  then have "unat (bitcnt s) = 8 * q + r"
    unfolding assms(1) by (intro unat_of_nat_lt) simp
  then show ?thesis
    using n byte_index [OF n(1)] by (simp add: RotateBitRou_def assms(1) Let_def add.commute)
qed

lemma drop_bit_step: "or (push_bit 1 (drop_bit (Suc k) b)) (of_bool (bit b k)) = drop_bit k (b :: byte)"
proof (rule bit_word_eqI)
  fix n
  assume "n < LENGTH(8)"
  then show "bit (or (push_bit 1 (drop_bit (Suc k) b)) (of_bool (bit b k))) n = bit (drop_bit k b) n"
    by (cases n) (auto simp: bit_simps simp del: push_bit_Suc)
qed

lemma drop_byte: "drop_bit 8 (b :: byte) = 0"
  by (rule bit_word_eqI) (auto simp: bit_simps dest: bit_imp_le_length)

text \<open>The last \<open>k\<close> bits of the byte \<open>b\<close> at place \<open>q\<close>.\<close>

lemma read_bits:
  assumes "k \<le> 8" "q < 5" "bitcnt s = of_nat (8 * q + (8 - k))" "length (dht_data_buf s) = 8"
    "dht_data_buf s ! q = drop_bit k b" "list_all2 bit_time (map (bit b) (rev [0..<k])) ts"
  shows "fold dht_read_BitRou ts s = s\<lparr>dht_data_buf := (dht_data_buf s)[q := b], bitcnt := of_nat (8 * q + 8)\<rparr>"
  using assms
proof (induction k arbitrary: s ts)
  case 0
  then have "(dht_data_buf s)[q := b] = dht_data_buf s"
    by (metis drop_bit_0 id_apply list_update_id)
  then show ?case
    using 0 by (cases s) simp
next
  case (Suc k)
  obtain t ts' where ts: "ts = t # ts'" "bit_time (bit b k) t" "list_all2 bit_time (map (bit b) (rev [0..<k])) ts'"
    using Suc.prems(6) by (auto simp: list_all2_Cons1)
  have "8 - k = Suc (8 - Suc k)"
    using Suc.prems(1) by simp
  then have step: "dht_read_BitRou t s = s\<lparr>dht_data_buf := (dht_data_buf s)[q := drop_bit k b],
      bitcnt := of_nat (8 * q + (8 - k))\<rparr>"
    using rotate_bit [OF Suc.prems(3) _ Suc.prems(2)] Suc.prems(5) drop_bit_step [of k b]
    by (simp add: read_bit [OF ts(2)])
  show ?case
    using Suc.IH [OF _ Suc.prems(2) _ _ _ ts(3), of "dht_read_BitRou t s"] Suc.prems
    by (simp add: ts(1) step)
qed

lemma read_bytes:
  assumes "q + length bs \<le> 5" "bitcnt s = of_nat (8 * q)" "length (dht_data_buf s) = 8"
    "\<forall>i<5. q \<le> i \<longrightarrow> dht_data_buf s ! i = 0" "list_all2 bit_time (concat (map byte_bits bs)) ts"
  shows "fold dht_read_BitRou ts s = s\<lparr>dht_data_buf := take q (dht_data_buf s) @ bs @ drop (q + length bs) (dht_data_buf s),
    bitcnt := of_nat (8 * (q + length bs))\<rparr>"
  using assms
proof (induction bs arbitrary: q s ts)
  case Nil
  then show ?case
    by simp
next
  case (Cons b bs)
  obtain us vs where ts: "ts = us @ vs" "list_all2 bit_time (byte_bits b) us"
      "list_all2 bit_time (concat (map byte_bits bs)) vs"
    using Cons.prems(5) by (auto simp: list_all2_append1)
  have q: "q < 5"
    using Cons.prems(1) by simp
  have zero: "dht_data_buf s ! q = drop_bit 8 b"
    using Cons.prems(4) q drop_byte by simp
  have first: "fold dht_read_BitRou us s = s\<lparr>dht_data_buf := (dht_data_buf s)[q := b], bitcnt := of_nat (8 * q + 8)\<rparr>"
    by (rule read_bits [OF _ q _ Cons.prems(3) zero ts(2) [unfolded byte_bits_def]]) (simp_all add: Cons.prems(2))
  have "take (Suc q) ((dht_data_buf s)[q := b]) = take q (dht_data_buf s) @ [b]"
    using q Cons.prems(3) by (simp add: take_Suc_conv_app_nth)
  then show ?case
    using Cons.IH [of "Suc q" "fold dht_read_BitRou us s" vs] Cons.prems ts(3)
    by (simp add: ts(1) first nth_list_update algebra_simps)
qed

lemma read_captured:
  "fold (\<lambda>i s. dht_read_BitRou (dht_cap_tmr_data s ! i) s) is s
   = fold dht_read_BitRou (map (\<lambda>i. dht_cap_tmr_data s ! i) is) s"
proof -
  have data: "dht_cap_tmr_data (dht_read_BitRou t s) = dht_cap_tmr_data s" for t s
    by (simp add: dht_read_BitRou_def RotateBitRou_def Let_def)
  show ?thesis
    by (induction "is" arbitrary: s) (simp_all add: data)
qed

text \<open>C36. Decoding a frame.  When the tick for decoding comes and the times between the 40 edges behind the
  start bit are those of the bits of five bytes, the receiver's buffer holds exactly these bytes, most
  significant bit first.  A frame is accepted if its fifth byte is the sum of the first four, compared
  as integers: a frame whose sum exceeds 255 is refused although the sensor sends the low byte of the
  sum.  An accepted frame calls the application with the temperature and humidity of the frame before,
  and then stores its own.\<close>

theorem dht_frame:
  assumes "temp_tmr s = 1" "dht22_start_delay s = 0" "dht_capture_ptr s = 41" "dht_has_learncb s"
    "length (dht_cap_tmr_data s) = REC_BUF_SIZE" "dht_data_buf s = replicate DHT_DATA_BUF_SIZE 0"
    "list_all2 bit_time (concat (map byte_bits [b0, b1, b2, b3, b4])) (take 40 (drop 1 (dht_cap_tmr_data s)))"
  shows "dht_timer learncb (s, a) =
    (let s' = s\<lparr>temp_tmr := 2, dht_listening := False, bitcnt := 40,
                 dht_data_buf := [b0, b1, b2, b3, b4, 0, 0, 0]\<rparr> in
     if uint b0 + uint b1 + uint b2 + uint b3 = uint b4
     then map_option (\<lambda>a. (s'\<lparr>dht_temperature := b2, dht_humidity := b0\<rparr>, a))
            (learncb (dht_temperature s) (dht_humidity s) a)
     else Some (s', a))"
proof -
  let ?s = "s\<lparr>temp_tmr := 2, dht_listening := False, bitcnt := 0\<rparr>"
  have "map (\<lambda>i. dht_cap_tmr_data s ! i) [1..<41] = take 40 (drop 1 (dht_cap_tmr_data s))"
    using assms(5) by (intro nth_equalityI) simp_all
  moreover have "fold dht_read_BitRou (take 40 (drop 1 (dht_cap_tmr_data s))) ?s
      = ?s\<lparr>dht_data_buf := [b0, b1, b2, b3, b4, 0, 0, 0], bitcnt := 40\<rparr>"
  proof -
    have "fold dht_read_BitRou (take 40 (drop 1 (dht_cap_tmr_data s))) ?s =
        ?s\<lparr>dht_data_buf := take 0 (dht_data_buf ?s) @ [b0, b1, b2, b3, b4] @
             drop (0 + length [b0, b1, b2, b3, b4]) (dht_data_buf ?s),
           bitcnt := of_nat (8 * (0 + length [b0, b1, b2, b3, b4]))\<rparr>"
      by (rule read_bytes [OF _ _ _ _ assms(7)]) (simp_all add: assms(6))
    moreover have "drop 5 (replicate 8 (0 :: byte)) = [0, 0, 0]"
      by (simp add: numeral_eq_Suc)
    ultimately show ?thesis
      by (simp add: assms(6))
  qed
  ultimately have "fold (\<lambda>i s. dht_read_BitRou (dht_cap_tmr_data s ! i) s) [1..<41] ?s
      = s\<lparr>temp_tmr := 2, dht_listening := False, bitcnt := 40, dht_data_buf := [b0, b1, b2, b3, b4, 0, 0, 0]\<rparr>"
    unfolding read_captured by simp
  then show ?thesis
    using assms(1-4) by (simp add: dht_timer_def Let_def map_conv_bind_option comp_def)
qed

fun edges :: "u32 list \<Rightarrow> Dht \<Rightarrow> Dht option" where
  "edges [] s = Some s"
| "edges (t # ts) s = Option.bind (dht_learn_cb t False s) (edges ts)"

lemma edges_stored:
  assumes "length (dht_cap_tmr_data s) = REC_BUF_SIZE" "\<forall>t\<in>set ts. 50 < t"
    "unat (dht_capture_ptr s) + length ts \<le> REC_BUF_SIZE"
  shows "edges ts s = Some (s\<lparr>dht_capture_ptr := dht_capture_ptr s + of_nat (length ts),
      dht_cap_tmr_data := take (unat (dht_capture_ptr s)) (dht_cap_tmr_data s) @ map (\<lambda>t. t div 50) ts @
        drop (unat (dht_capture_ptr s) + length ts) (dht_cap_tmr_data s)\<rparr>)"
  using assms
proof (induction ts arbitrary: s)
  case (Cons t ts)
  have p: "unat (dht_capture_ptr s) < 70" "unat (dht_capture_ptr s + 1) = Suc (unat (dht_capture_ptr s))"
    using Cons.prems(3) by (simp_all add: unat_word_ariths)
  show ?case
    using Cons.IH [of "s\<lparr>dht_cap_tmr_data := (dht_cap_tmr_data s)[unat (dht_capture_ptr s) := t div 50],
        dht_capture_ptr := dht_capture_ptr s + 1\<rparr>"] Cons.prems p
    by (simp add: dht_learn_cb_def take_Suc_conv_app_nth add.commute add.left_commute)
qed simp

text \<open>The capture buffer.  Falling edges are stored while there is room: up to 70 of them fill the
  buffer.  The pointer then stays behind the last entry, and the next edge is written past the end of
  the buffer.\<close>

theorem dht_capture:
  assumes "length (dht_cap_tmr_data s) = REC_BUF_SIZE" "dht_capture_ptr s = 0" "\<forall>t\<in>set ts. 50 < t" "length ts = n"
  shows "edges ts s =
    (if n \<le> REC_BUF_SIZE
     then Some (s\<lparr>dht_capture_ptr := of_nat n,
            dht_cap_tmr_data := map (\<lambda>t. t div 50) ts @ drop n (dht_cap_tmr_data s)\<rparr>)
     else None)"
proof (cases "n \<le> REC_BUF_SIZE")
  case True
  then show ?thesis
    using edges_stored [of s ts] assms by simp
next
  case False
  have split: "edges (us @ vs) s = Option.bind (edges us s) (edges vs)" for us vs and s :: Dht
    by (induction us arbitrary: s) (auto split: Option.bind_split)
  obtain t vs where ts: "ts = take 70 ts @ t # vs" "length (take 70 ts) = 70"
    using False assms(4) by (metis append_take_drop_id drop_eq_Nil length_take linorder_not_less list.exhaust min.absorb2 nle_le)
  have "\<forall>t\<in>set (take 70 ts). 50 < t" "50 < t"
    using assms(3) ts by (auto dest: in_set_takeD) (metis in_set_conv_decomp)
  then have "edges (take 70 ts) s = Some (s\<lparr>dht_capture_ptr := 70,
      dht_cap_tmr_data := map (\<lambda>t. t div 50) (take 70 ts)\<rparr>)"
    using edges_stored [of s "take 70 ts"] assms(1,2) ts(2) by simp
  then have "edges ts s = None"
    using split [of "take 70 ts" "t # vs" s] ts \<open>50 < t\<close> by (simp add: dht_learn_cb_def)
  then show ?thesis
    using False by simp
qed

section \<open>Reporting\<close>

lemma print_byte:
  assumes "3 < length buf"
  shows "sprintf buf 0 (show_int (uint (b :: byte))) =
    Some (show_int (uint b) @ 0 # drop (Suc (length (show_int (uint b)))) buf)"
  using assms length_show_byte [of b] by (intro sprintf_at_start) simp

lemma byte_room: "length (show_int (uint (b :: byte))) + (15 - length (show_int (uint b))) = 15"
  using length_show_byte [of b] by simp

definition th_ok :: "Th \<Rightarrow> bool" where
  "th_ok th \<longleftrightarrow> length (T_ready th) = 16 \<and> length (H_ready th) = 16"

lemma dht_readings_steps:
  assumes "th_ok th"
  shows "\<exists>th'. dht_readings t h th = Some th' \<and> th_ok th' \<and> tempr th' = shift_in t (tempr th) \<and>
    T_ready th' = (if settled (shift_in t (tempr th))
      then show_int (uint (shift_in t (tempr th) ! 3)) @ 0 #
        drop (Suc (length (show_int (uint (shift_in t (tempr th) ! 3))))) (T_ready th)
      else T_ready th)"
  using assms by (auto simp: dht_readings_def th_ok_def print_byte Let_def byte_room)

text \<open>What the sensor reports.  A temperature is reported once three readings in a row agree and the
  one before them differed; the text made ready is the one of the reading before, the value the
  temperature has just left, and not the stable one.  A scan hands it to the sensor layer once; the
  next scan finds nothing.\<close>

theorem th_reports_previous:
  assumes "th_ok th" "tempr th ! 0 = old" "old \<noteq> t" "length cur = 64"
    and "dht_readings t h1 th = Some th1" "dht_readings t h2 th1 = Some th2" "dht_readings t h3 th2 = Some th3"
  shows "T_ready th1 = T_ready th \<and> T_ready th2 = T_ready th \<and> c_str (T_ready th3) = Some (show_int (uint old)) \<and>
    (\<exists>v th4. tht_sensor_input_scan cur th3 = Some (v, th4) \<and> c_str v = Some (show_int (uint old)) \<and>
      tht_sensor_input_scan v th4 = Some (v, th4))"
proof -
  have th1: "th_ok th1" "tempr th1 = shift_in t (tempr th)" "T_ready th1 = T_ready th"
    using dht_readings_steps [OF assms(1), of t h1] assms(2,3,5) by (auto simp: settled_def shift_in_def)
  have th2: "th_ok th2" "tempr th2 = shift_in t (tempr th1)" "T_ready th2 = T_ready th"
    using dht_readings_steps [OF th1(1), of t h2] assms(2,3,6) th1(2,3) by (auto simp: settled_def shift_in_def)
  let ?s = "show_int (uint old)"
  have th3: "th_ok th3" "T_ready th3 = ?s @ 0 # drop (Suc (length ?s)) (T_ready th2)"
    using dht_readings_steps [OF th2(1), of t h3] assms(2,3,7) th1(2) th2(2) by (auto simp: settled_def shift_in_def)
  have text_old: "0 \<notin> set ?s" "length ?s \<le> 3" "?s \<noteq> []"
    using show_int_nonzero [of "uint old"] length_show_byte [of old] by (simp_all add: show_int_def)
  have ready: "c_str (T_ready th3) = Some ?s"
    using text_old by (simp add: th3 c_str_mem)
  have printed: "sprintf cur 0 ?s = Some (?s @ 0 # drop (Suc (length ?s)) cur)"
    using text_old(2) assms(4) by (intro sprintf_at_start) simp
  have cleared: "c_str ((T_ready th3)[0 := 0]) = Some []" "(T_ready th3)[0 := 0, 0 := 0] = (T_ready th3)[0 := 0]"
    using text_old(3) by (cases ?s; simp add: th3(2) c_str_def)+
  show ?thesis
    using th1(3) th2(3) ready text_old cleared
    by (auto simp: tht_sensor_input_scan_def scan_ready_def printed c_str_mem)
qed

section \<open>Witnesses\<close>

definition example_bits :: "bool list" where
  "example_bits = concat (map byte_bits [55, 0, 24, 0, 79])"

definition example_times :: "u32 list" where
  "example_times = 130 # map (\<lambda>b. if b then 120 else 76) example_bits @ replicate 29 0"

lemma length_example_bits: "length example_bits = 40"
  by (simp add: example_bits_def byte_bits_def)

definition example_dht :: Dht where
  "example_dht = \<lparr>bitcnt = 41, dht_data_buf = replicate 8 0, dht_cap_tmr_data = example_times,
     dht_capture_ptr = 41, temp_tmr = 1, dht22_start_delay = 0, dht_listening = True, dht_has_learncb = True,
     dht_temperature = 23, dht_humidity = 54\<rparr>"

lemma dht_frame_witness:
  "\<exists>s'. dht_timer (\<lambda>t h a. Some (a @ [(t, h)])) (example_dht, []) = Some (s', [(23, 54)]) \<and>
     dht_temperature s' = 24 \<and> dht_humidity s' = 55"
proof -
  have times: "list_all2 bit_time bs (map (\<lambda>b. if b then 120 else 76) bs)" for bs
    by (induction bs) (simp_all add: bit_time_def)
  then have "list_all2 bit_time example_bits (take 40 (drop 1 (dht_cap_tmr_data example_dht)))"
    by (simp add: example_dht_def example_times_def length_example_bits)
  note frame = dht_frame [OF _ _ _ _ _ _ this [unfolded example_bits_def], of "\<lambda>t h a. Some (a @ [(t, h)])" "[]"]
  show ?thesis
    by (subst frame) (simp_all add: example_dht_def example_times_def length_example_bits)
qed

lemma dht_capture_witness:
  "edges (replicate 71 6000) (example_dht\<lparr>dht_capture_ptr := 0\<rparr>) = None"
  using dht_capture [of "example_dht\<lparr>dht_capture_ptr := 0\<rparr>" "replicate 71 6000" 71]
  by (simp add: example_dht_def example_times_def length_example_bits)

definition example_th :: Th where
  "example_th = \<lparr>tempr = [20, 20, 20, 19], humidity = [90, 90, 90, 80], T_ready = replicate 16 0, H_ready = replicate 16 0\<rparr>"

lemma th_reports_previous_witness:
  "\<exists>th1 th2 th3. dht_readings 21 45 example_th = Some th1 \<and> dht_readings 21 45 th1 = Some th2 \<and>
     dht_readings 21 45 th2 = Some th3 \<and> c_str (T_ready th3) = Some (show_int 20)"
proof -
  have ok: "th_ok example_th"
    by (simp add: th_ok_def example_th_def)
  obtain th1 where th1: "dht_readings 21 45 example_th = Some th1" "th_ok th1"
    using dht_readings_steps [OF ok] by blast
  obtain th2 where th2: "dht_readings 21 45 th1 = Some th2" "th_ok th2"
    using dht_readings_steps [OF th1(2)] by blast
  obtain th3 where th3: "dht_readings 21 45 th2 = Some th3" "th_ok th3"
    using dht_readings_steps [OF th2(2)] by blast
  have "tempr example_th ! 0 = 20" "(20 :: byte) \<noteq> 21" "length (replicate 64 (0 :: byte)) = 64"
    by (simp_all add: example_th_def)
  from th_reports_previous [OF ok this th1(1) th2(1) th3(1)] th1 th2 th3 show ?thesis
    by auto
qed

end
