(* ===== verification/Grove_Sensors.thy ===== *)
theory Grove_Sensors
  imports Sensors
begin

text \<open>
  Three more drivers of the sensor layer: the occupancy sensor (a pin), the ultrasonic ranger (a pin and
  the time stamp of the operating system) and the CO2 sensor (\<^verbatim>\<open>sensor_co2_drv.c\<close>, frames of nine bytes on a
  serial line).

  A scan maps the text of the sensor's current value to its return code and the text it leaves.  Pins
  and the serial line are parameters over a world \<open>'w\<close>; opening and closing their drivers is part of
  them.
\<close>

section \<open>Pins\<close>

record 'w Pins =
  pin_read :: "'w \<Rightarrow> int \<times> 'w"
  pin_write :: "bool \<Rightarrow> 'w \<Rightarrow> 'w"
  pin_setdir :: "bool \<Rightarrow> 'w \<Rightarrow> 'w"
  pin_sleep :: "nat \<Rightarrow> 'w \<Rightarrow> 'w"
  os_get_timestamp :: "'w \<Rightarrow> u32 \<times> 'w"

definition occupancy_sensor_input_scan :: "'w Pins \<Rightarrow> byte list \<Rightarrow> 'w \<Rightarrow> (int \<times> byte list \<times> 'w) option" where
  "occupancy_sensor_input_scan pins buf w = do {
     let (val, w) = pin_read pins w;
     v \<leftarrow> sprintf buf 0 (show_int val);
     Some (0, v, w) }"

text \<open>One of the three loops that wait for a level of the pin.\<close>

partial_function (option) wait_level :: "'w Pins \<Rightarrow> bool \<Rightarrow> 'w \<Rightarrow> 'w option" where
  "wait_level pins high w =
     (let (val, w) = pin_read pins w in if (val \<noteq> 0) = high then Some w else wait_level pins high w)"

text \<open>The pulse, after which the pin is an input.\<close>

definition send_pulse :: "'w Pins \<Rightarrow> 'w \<Rightarrow> 'w" where
  "send_pulse pins w = pin_setdir pins False (pin_write pins False (pin_sleep pins 1 (pin_write pins True
     (pin_sleep pins 1 (pin_write pins False (pin_setdir pins True w))))))"

definition ultrasonic_sensor_input_scan :: "'w Pins \<Rightarrow> byte list \<Rightarrow> 'w \<Rightarrow> (int \<times> byte list \<times> 'w) option" where
  "ultrasonic_sensor_input_scan pins buf w = do {
     w \<leftarrow> wait_level pins False (send_pulse pins w);
     w \<leftarrow> wait_level pins True w;
     let (duration, w) = os_get_timestamp pins w;
     w \<leftarrow> wait_level pins False w;
     let (fduration, w) = os_get_timestamp pins w;
     if fduration > duration then do {
       let duration = (fduration - duration) div 29 div 2;
       v \<leftarrow> sprintf buf 0 (show_int (sint duration));
       Some (0, v, w) }
     else Some (0, buf, w) }"

section \<open>The serial line of the CO2 sensor\<close>

text \<open>\<open>uart_read\<close> reads one byte if there is one.\<close>

record 'w Uart =
  uart_write :: "byte list \<Rightarrow> 'w \<Rightarrow> 'w"
  uart_read :: "'w \<Rightarrow> byte option \<times> 'w"
  uart_sleep :: "nat \<Rightarrow> 'w \<Rightarrow> 'w"
  uart_lock :: "'w \<Rightarrow> 'w"
  uart_unlock :: "'w \<Rightarrow> 'w"
  uart_init :: "'w \<Rightarrow> 'w"
  uart_mutex_create :: "'w \<Rightarrow> int \<times> 'w"
  uart_open :: "'w \<Rightarrow> 'w"

record Co2 =
  co2_temperature :: int
  CO2PPM :: int
  co2_sinit_f :: bool

definition cmd_get_sensor :: "byte list" where
  "cmd_get_sensor = [0xff, 0x01, 0x86, 0x00, 0x00, 0x00, 0x00, 0x00, 0x79]"

text \<open>At most so many attempts to read a byte, with a pause after each that failed.\<close>

fun co2_poll :: "nat \<Rightarrow> 'w Uart \<Rightarrow> 'w \<Rightarrow> byte option \<times> 'w" where
  "co2_poll 0 io w = (None, w)"
| "co2_poll (Suc n) io w = (case uart_read io w of
     (Some b, w) \<Rightarrow> (Some b, w)
   | (None, w) \<Rightarrow> co2_poll n io (uart_sleep io 1 w))"

text \<open>A byte that does not come leaves the array as it was.\<close>

fun co2_receive :: "'w Uart \<Rightarrow> nat list \<Rightarrow> byte list \<times> 'w \<Rightarrow> byte list \<times> 'w" where
  "co2_receive io [] (data, w) = (data, w)"
| "co2_receive io (i # is) (data, w) = (case co2_poll 100 io w of
     (Some b, w) \<Rightarrow> co2_receive io is (data[i := b], w)
   | (None, w) \<Rightarrow> co2_receive io is (data, w))"

definition co2_request :: "'w Uart \<Rightarrow> 'w \<Rightarrow> 'w" where
  "co2_request io w = uart_sleep io 10 (uart_unlock io (uart_write io cmd_get_sensor (uart_lock io w)))"

text \<open>\<open>data0\<close> is the content of the local array.  The sum is taken in a byte, the rest in integers.\<close>

definition CO2_dataRecieve :: "'w Uart \<Rightarrow> byte list \<Rightarrow> Co2 \<times> 'w \<Rightarrow> bool \<times> Co2 \<times> 'w" where
  "CO2_dataRecieve io data0 = (\<lambda>(st, w).
     let (data, w) = co2_receive io [0..<9] (data0, co2_request io w);
         sum = data ! 1 + data ! 2 + data ! 3 + data ! 4 + data ! 5 + data ! 6 + data ! 7 in
     if 1 + xor 0xFF (uint sum) \<noteq> uint (data ! 8) then (False, st, w)
     else (True, st\<lparr>CO2PPM := uint (data ! 2) * 256 + uint (data ! 3), co2_temperature := uint (data ! 4) - 40\<rparr>, w))"

definition co2_sensor_init :: "'w Uart \<Rightarrow> Co2 \<times> 'w \<Rightarrow> int \<times> Co2 \<times> 'w" where
  "co2_sensor_init io = (\<lambda>(st, w).
     if co2_sinit_f st then (0, st, w)
     else let st = st\<lparr>co2_sinit_f := True\<rparr>; (ret, w) = uart_mutex_create io (uart_init io w) in
     if ret \<noteq> WM_SUCCESS then (- 1, st, w) else (0, st, uart_open io w))"

definition mhz16co2_sensor_input_scan ::
  "'w Uart \<Rightarrow> byte list \<Rightarrow> byte list \<Rightarrow> Co2 \<times> 'w \<Rightarrow> (int \<times> byte list \<times> Co2 \<times> 'w) option" where
  "mhz16co2_sensor_input_scan io data0 buf s = do {
     let (_, st, w) = CO2_dataRecieve io data0 s;
     v \<leftarrow> sprintf buf 0 (show_int (CO2PPM st));
     Some (0, v, st, w) }"

definition mhz16temperature_sensor_input_scan :: "byte list \<Rightarrow> Co2 \<times> 'w \<Rightarrow> (int \<times> byte list \<times> Co2 \<times> 'w) option" where
  "mhz16temperature_sensor_input_scan buf = (\<lambda>(st, w). do {
     v \<leftarrow> sprintf buf 0 (show_int (co2_temperature st));
     Some (0, v, st, w) })"

section \<open>Distances\<close>

text \<open>The world after \<open>n\<close> reads of the pin; whether the level ever comes.\<close>

fun after_reads :: "'w Pins \<Rightarrow> nat \<Rightarrow> 'w \<Rightarrow> 'w" where
  "after_reads pins 0 w = w"
| "after_reads pins (Suc n) w = after_reads pins n (snd (pin_read pins w))"

definition level_at :: "'w Pins \<Rightarrow> nat \<Rightarrow> 'w \<Rightarrow> bool" where
  "level_at pins n w \<longleftrightarrow> fst (pin_read pins (after_reads pins n w)) \<noteq> 0"

lemma level_at_Suc: "level_at pins (Suc n) w = level_at pins n (snd (pin_read pins w))"
  by (simp add: level_at_def)

lemma wait_level_step:
  "wait_level pins high w = (if level_at pins 0 w = high then Some (snd (pin_read pins w))
     else wait_level pins high (snd (pin_read pins w)))"
  by (subst wait_level.simps) (simp add: level_at_def case_prod_unfold)

text \<open>The wait ends at the first read that has the level.\<close>

lemma wait_level_ends:
  "level_at pins n w = high \<Longrightarrow> \<forall>k<n. level_at pins k w \<noteq> high \<Longrightarrow>
   wait_level pins high w = Some (after_reads pins (Suc n) w)"
proof (induction n arbitrary: w)
  case 0
  then show ?case
    by (subst wait_level_step) simp
next
  case (Suc n)
  let ?w = "snd (pin_read pins w)"
  have "level_at pins k ?w \<noteq> high" if "k < n" for k
    using Suc.prems(2) that level_at_Suc [of pins k w] by auto
  then have "wait_level pins high ?w = Some (after_reads pins (Suc n) ?w)"
    using Suc.prems(1) by (intro Suc.IH) (simp_all add: level_at_Suc)
  then show ?case
    using Suc.prems(2) by (subst wait_level_step) simp
qed

lemma wait_level_comes:
  assumes "wait_level pins high w = Some w'"
  shows "\<exists>n. level_at pins n w = high"
proof (rule wait_level.raw_induct [OF _ assms, where P = "\<lambda>pins high w w'. \<exists>n. level_at pins n w = high"])
  fix wait :: "'a Pins \<Rightarrow> bool \<Rightarrow> 'a \<Rightarrow> 'a option" and pins high w w'
  assume later: "\<And>pins high w w'. wait pins high w = Some w' \<Longrightarrow> \<exists>n. level_at pins n w = high"
    and body: "(let (val, w) = pin_read pins w in if (val \<noteq> 0) = high then Some w else wait pins high w) = Some w'"
  show "\<exists>n. level_at pins n w = high"
  proof (cases "level_at pins 0 w = high")
    case False
    then have "wait pins high (snd (pin_read pins w)) = Some w'"
      using body by (simp add: level_at_def case_prod_unfold Let_def split: if_splits)
    from later [OF this] obtain n where "level_at pins n (snd (pin_read pins w)) = high" ..
    then have "level_at pins (Suc n) w = high"
      by (simp only: level_at_Suc)
    then show ?thesis ..
  qed (rule exI)
qed

lemma wait_level_iff: "(\<exists>w'. wait_level pins high w = Some w') \<longleftrightarrow> (\<exists>n. level_at pins n w = high)"
proof
  assume ex: "\<exists>n. level_at pins n w = high"
  let ?n = "LEAST n. level_at pins n w = high"
  have "wait_level pins high w = Some (after_reads pins (Suc ?n) w)"
    by (rule wait_level_ends [OF LeastI_ex [OF ex]]) (intro allI impI, rule not_less_Least)
  then show "\<exists>w'. wait_level pins high w = Some w'" ..
qed (elim exE wait_level_comes)

text \<open>The first read that has the level.\<close>

definition first_level :: "'w Pins \<Rightarrow> bool \<Rightarrow> nat \<Rightarrow> 'w \<Rightarrow> bool" where
  "first_level pins high n w \<longleftrightarrow> level_at pins n w = high \<and> (\<forall>k<n. level_at pins k w \<noteq> high)"

lemma wait_level_first: "first_level pins high n w \<Longrightarrow> wait_level pins high w = Some (after_reads pins (Suc n) w)"
  unfolding first_level_def by (elim conjE wait_level_ends)

text \<open>Half the way of sound, at 29 microseconds a centimetre.\<close>

lemma centimetres:
  assumes "t1 < t2"
  shows "sint ((t2 - t1) div 29 div 2 :: u32) = (uint t2 - uint t1) div 58"
proof -
  have diff: "uint (t2 - t1) = uint t2 - uint t1"
    using assms by (simp add: uint_sub_lem [THEN iffD1] word_le_less_eq word_less_def)
  have "uint ((t2 - t1) div 29 div 2) = (uint t2 - uint t1) div 58"
    by (simp add: uint_div diff zdiv_zmult2_eq [symmetric])
  moreover have "(uint t2 - uint t1) div 58 < 2 ^ 31" "0 \<le> (uint t2 - uint t1) div 58"
    using diff uint_bounded [of "t2 - t1"] uint_ge_0 [of "t2 - t1"] by simp_all
  ultimately show ?thesis
    by (simp add: sint_uint signed_take_bit_int_eq_self)
qed

text \<open>The ranger reports the length of the echo divided by 58, the distance in centimetres, provided the time
  stamp has not wrapped round or stood still meanwhile; otherwise the value of the scan before is kept.  Each of
  its three waits returns exactly when the level comes at some time: without an echo the scan, and with it the
  application's loop, never returns.\<close>

theorem ultrasonic_distance:
  assumes "first_level pins False i (send_pulse pins w)" "w1 = after_reads pins (Suc i) (send_pulse pins w)"
    and "first_level pins True j w1" "os_get_timestamp pins (after_reads pins (Suc j) w1) = (t1, w2)"
    and "first_level pins False k w2" "os_get_timestamp pins (after_reads pins (Suc k) w2) = (t2, w3)"
    and "16 \<le> length buf"
  shows "ultrasonic_sensor_input_scan pins buf w = Some (0,
      if t1 < t2 then let s = show_int ((uint t2 - uint t1) div 58) in s @ 0 # drop (Suc (length s)) buf else buf, w3) \<and>
    ((\<exists>w'. wait_level pins high x = Some w') \<longleftrightarrow> (\<exists>n. level_at pins n x = high))"
proof -
  let ?d = "(uint t2 - uint t1) div 58"
  have run: "ultrasonic_sensor_input_scan pins buf w = (if t1 < t2 then do {
       v \<leftarrow> sprintf buf 0 (show_int (sint ((t2 - t1) div 29 div 2)));
       Some (0, v, w3) }
     else Some (0, buf, w3))"
    using wait_level_first [OF assms(1)] wait_level_first [OF assms(3)] wait_level_first [OF assms(5)] assms(2,4,6)
    by (simp add: ultrasonic_sensor_input_scan_def del: after_reads.simps)
  have "length (show_int ?d) < length buf" if "t1 < t2"
  proof -
    have "uint t2 < 4294967296" "uint t1 < uint t2"
      using that uint_bounded [of t2] by (simp_all add: word_less_def)
    moreover from this have "uint t2 - uint t1 \<le> 4294967296"
      using uint_ge_0 [of t1] by linarith
    ultimately have "0 \<le> ?d" "?d \<le> 4294967296 div 58"
      by (simp, intro zdiv_mono1) simp_all
    then have "0 \<le> ?d" "nat ?d < 10 ^ 9"
      by (simp_all add: nat_less_iff)
    then show ?thesis
      using length_show_nat [of "nat ?d" 9] assms(7) by (simp add: show_int_def)
  qed
  then have "ultrasonic_sensor_input_scan pins buf w = Some (0,
      if t1 < t2 then let s = show_int ?d in s @ 0 # drop (Suc (length s)) buf else buf, w3)"
    unfolding run using centimetres [of t1 t2] sprintf_at_start [of "show_int ?d" buf] by (simp add: Let_def)
  then show ?thesis
    using wait_level_iff [of pins high x] by simp
qed

section \<open>Frames of the CO2 sensor\<close>

text \<open>The bytes come in time: each within a hundred attempts.\<close>

fun delivers :: "'w Uart \<Rightarrow> byte list \<Rightarrow> 'w \<Rightarrow> 'w option" where
  "delivers io [] w = Some w"
| "delivers io (b # bs) w = (case co2_poll 100 io w of
     (Some x, w) \<Rightarrow> if x = b then delivers io bs w else None
   | (None, w) \<Rightarrow> None)"

lemma co2_receive_delivered:
  "delivers io bs w = Some w' \<Longrightarrow> length front + length bs \<le> length (front @ rest) \<Longrightarrow>
   co2_receive io [length front..<length front + length bs] (front @ rest, w) = (front @ bs @ drop (length bs) rest, w')"
proof (induction bs arbitrary: front rest w)
  case (Cons b bs)
  obtain r rest' where rest: "rest = r # rest'"
    using Cons.prems(2) by (cases rest) auto
  obtain w1 where poll: "co2_poll 100 io w = (Some b, w1)" "delivers io bs w1 = Some w'"
    using Cons.prems(1) by (auto split: prod.splits option.splits if_splits)
  have "co2_receive io [length (front @ [b])..<length (front @ [b]) + length bs] ((front @ [b]) @ rest', w1) =
      ((front @ [b]) @ bs @ drop (length bs) rest', w')"
    using Cons.prems(2) poll(2) by (intro Cons.IH) (simp_all add: rest)
  moreover have "[length front..<length front + length (b # bs)] = length front # [length (front @ [b])..<length (front @ [b]) + length bs]"
    by (subst upt_rec) simp
  ultimately show ?case
    by (simp add: poll(1) rest del: upt_Suc)
qed simp

lemma complement_byte: "1 + xor 0xFF (uint s) = uint d \<longleftrightarrow> s + d = 0 \<and> d \<noteq> 0" for s d :: byte
proof -
  have "1 + xor 0xFF (uint s) = (if s = 0 then 256 else uint (- s))" for s :: byte
    by (rule all_bytes [of "\<lambda>s. 1 + xor 0xFF (uint s) = (if s = 0 then 256 else uint (- s))"]) code_simp
  moreover have "256 \<noteq> uint d"
    using uint_bounded [of d] by simp
  moreover have "uint (- s) = uint d \<longleftrightarrow> s + d = 0"
    by (metis add.right_inverse add_diff_cancel_left' diff_0 word_uint_eq_iff)
  ultimately show ?thesis
    by (cases "s = 0"; cases "d = 0") simp_all
qed

text \<open>A frame whose bytes come in time is taken as a reading exactly when the sum of its last eight bytes is zero modulo
  256 and its checksum is not 0: of the valid frames those with checksum 0 are refused.  A refused frame keeps
  the readings, and the scan reports the old value as if it were new.\<close>

theorem co2_reading:
  assumes "delivers io frame (co2_request io w) = Some w'" "length frame = 9" "length data0 = 9" "16 \<le> length buf"
    and "0 \<le> CO2PPM st" "CO2PPM st < 65536"
    and "st' = (if sum_list (tl frame) = 0 \<and> last frame \<noteq> 0
       then st\<lparr>CO2PPM := uint (frame ! 2) * 256 + uint (frame ! 3), co2_temperature := uint (frame ! 4) - 40\<rparr> else st)"
  shows "CO2_dataRecieve io data0 (st, w) = (sum_list (tl frame) = 0 \<and> last frame \<noteq> 0, st', w') \<and>
    mhz16co2_sensor_input_scan io data0 buf (st, w) =
      (let t = show_int (CO2PPM st') in Some (0, t @ 0 # drop (Suc (length t)) buf, st', w')) \<and>
    0 \<le> CO2PPM st' \<and> CO2PPM st' < 65536"
proof -
  obtain b0 b1 b2 b3 b4 b5 b6 b7 b8 where frame: "frame = [b0, b1, b2, b3, b4, b5, b6, b7, b8]"
    using assms(2) by (auto simp: length_Suc_conv numeral_eq_Suc)
  have "co2_receive io [0..<9] (data0, co2_request io w) = (frame, w')"
    using co2_receive_delivered [OF assms(1), of "[]" data0] assms(2,3) by simp
  then have run: "CO2_dataRecieve io data0 (st, w) = (sum_list (tl frame) = 0 \<and> last frame \<noteq> 0, st', w')"
    using complement_byte [of "b1 + b2 + b3 + b4 + b5 + b6 + b7" b8] assms(7)
    by (simp add: CO2_dataRecieve_def frame numeral_eq_Suc add.assoc del: upt_Suc)
  have ppm: "0 \<le> CO2PPM st' \<and> CO2PPM st' < 65536"
    using assms(5-7) uint_bounded [of "frame ! 2"] uint_bounded [of "frame ! 3"] by (auto split: if_splits)
  then have "nat (CO2PPM st') < 10 ^ 5"
    by (simp add: nat_less_iff)
  then have "length (show_int (CO2PPM st')) < length buf"
    using length_show_nat [of "nat (CO2PPM st')" 5] assms(4) ppm by (simp add: show_int_def)
  then show ?thesis
    using ppm run by (simp add: mhz16co2_sensor_input_scan_def sprintf_at_start Let_def)
qed

section \<open>Examples\<close>

definition echo_pins :: "nat Pins" where
  "echo_pins = \<lparr>pin_read = (\<lambda>w. (if 2 \<le> w \<and> w < 7 then 1 else 0, Suc w)), pin_write = (\<lambda>_ w. w), pin_setdir = (\<lambda>_ w. w),
     pin_sleep = (\<lambda>_ w. w), os_get_timestamp = (\<lambda>w. (of_nat (100 * w), w))\<rparr>"

lemma after_echo: "after_reads echo_pins n w = w + n"
  by (induction n arbitrary: w) (simp_all add: echo_pins_def)

lemma level_echo: "level_at echo_pins n w \<longleftrightarrow> 2 \<le> w + n \<and> w + n < 7"
  by (simp add: level_at_def after_echo) (simp add: echo_pins_def)

lemma ultrasonic_distance_witness:
  "ultrasonic_sensor_input_scan echo_pins (replicate 16 7) 0 = Some (0, 56 # 0 # replicate 14 7, 8)"
proof -
  let ?w1 = "after_reads echo_pins (Suc 0) (send_pulse echo_pins 0)"
  have w1: "?w1 = 1" "send_pulse echo_pins 0 = 0"
    by (simp_all add: after_echo send_pulse_def del: after_reads.simps) (simp_all add: echo_pins_def)
  have stamps: "os_get_timestamp echo_pins (after_reads echo_pins (Suc 1) ?w1) = (300, 3)"
    "os_get_timestamp echo_pins (after_reads echo_pins (Suc 4) 3) = (800, 8)"
    by (simp_all only: after_echo w1) (simp_all add: echo_pins_def)
  have "first_level echo_pins False 0 (send_pulse echo_pins 0)" "first_level echo_pins True 1 ?w1"
    "first_level echo_pins False 4 3"
    unfolding w1(1) unfolding w1(2) by (auto simp: first_level_def level_echo)
  note scan = ultrasonic_distance [OF this(1) refl this(2) stamps(1) this(3) stamps(2)]
  have "show_int 8 = [56]"
    by code_simp
  then show ?thesis
    using scan [of "replicate 16 7" False 0] by (simp add: Let_def)
qed

definition memory_uart :: "byte list Uart" where
  "memory_uart = \<lparr>uart_write = (\<lambda>_ w. w), uart_read = (\<lambda>w. case w of [] \<Rightarrow> (None, []) | b # w \<Rightarrow> (Some b, w)),
     uart_sleep = (\<lambda>_ w. w), uart_lock = (\<lambda>w. w), uart_unlock = (\<lambda>w. w), uart_init = (\<lambda>w. w),
     uart_mutex_create = (\<lambda>w. (0, w)), uart_open = (\<lambda>w. w)\<rparr>"

lemma memory_uart_delivers: "delivers memory_uart bs (bs @ rest) = Some rest"
proof (induction bs)
  case (Cons b bs)
  moreover have "co2_poll 100 memory_uart (b # bs @ rest) = (Some b, bs @ rest)"
    by (simp add: numeral_eq_Suc memory_uart_def)
  ultimately show ?case
    by simp
qed simp

lemma co2_reading_witness:
  "CO2_dataRecieve memory_uart (replicate 9 7) (\<lparr>co2_temperature = 0, CO2PPM = 0, co2_sinit_f = True\<rparr>,
      [0xff, 0x86, 0x02, 0x60, 0x47, 0, 0, 0, 0xd1]) =
    (True, \<lparr>co2_temperature = 31, CO2PPM = 608, co2_sinit_f = True\<rparr>, [])"
proof -
  let ?frame = "[0xff, 0x86, 0x02, 0x60, 0x47, 0, 0, 0, 0xd1] :: byte list"
  have "delivers memory_uart ?frame (co2_request memory_uart ?frame) = Some []"
    using memory_uart_delivers [of ?frame "[]"] by (simp add: co2_request_def memory_uart_def)
  from co2_reading [OF this, of "replicate 9 7" "replicate 16 7" "\<lparr>co2_temperature = 0, CO2PPM = 0, co2_sinit_f = True\<rparr>"]
  show ?thesis
    by simp
qed

end
