(* ===== verification/Barometer.thy ===== *)
theory Barometer
  imports Sensors "HOL-Library.Signed_Division"
begin

text \<open>
  The barometer, \<^verbatim>\<open>sensor_pressure_drv.c\<close>: eleven calibration registers read once, and two scans that
  each start a measurement, read its raw value and compensate it in 32-bit integers.

  The driver's variables are the record \<open>Barometer\<close>, the fields of 16 bits as words; a signed
  overflow and a division by zero, which C leaves undefined, are \<open>None\<close>.  The bus is the accelerometer's
  \<open>I2c\<close>.
\<close>

section \<open>Registers\<close>

record Barometer =
  read_data :: "byte list"
  ac1 :: u16
  ac2 :: u16
  ac3 :: u16
  ac4 :: u16
  ac5 :: u16
  ac6 :: u16
  b1 :: u16
  b2 :: u16
  mb :: u16
  mc :: u16
  md :: u16
  ut :: u16
  up :: u16
  PressureCompensate :: int

text \<open>A read of \<open>n\<close> bytes from a register into \<^verbatim>\<open>read_data\<close>.\<close>

definition bmp180_read :: "'w I2c \<Rightarrow> byte \<Rightarrow> nat \<Rightarrow> Barometer \<times> 'w \<Rightarrow> Barometer \<times> 'w" where
  "bmp180_read bus reg n = (\<lambda>(s, w).
     let (bs, w) = i2c_read bus n (i2c_write bus [reg] w) in
     (s\<lparr>read_data := bs @ drop (length bs) (read_data s)\<rparr>, w))"

text \<open>Only the third byte is shifted to the right, by \<^verbatim>\<open>8 - OSS\<close>.\<close>

definition i2c_bmp180ReadLong :: "'w I2c \<Rightarrow> Barometer \<times> 'w \<Rightarrow> u32 \<times> Barometer \<times> 'w" where
  "i2c_bmp180ReadLong bus st = (let (s, w) = bmp180_read bus 0xF6 3 st in
     (or (or (push_bit 16 (ucast (read_data s ! 0))) (push_bit 8 (ucast (read_data s ! 1))))
         (drop_bit 8 (ucast (read_data s ! 2))), s, w))"

definition i2c_bmp180ReadInt :: "'w I2c \<Rightarrow> byte \<Rightarrow> Barometer \<times> 'w \<Rightarrow> u16 \<times> Barometer \<times> 'w" where
  "i2c_bmp180ReadInt bus address st = (let (s, w) = bmp180_read bus address 2 st in
     (or (push_bit 8 (ucast (read_data s ! 0))) (ucast (read_data s ! 1)), s, w))"

text \<open>A calibration register and what stores it.\<close>

definition calibrate ::
  "'w I2c \<Rightarrow> byte \<Rightarrow> (u16 \<Rightarrow> Barometer \<Rightarrow> Barometer) \<Rightarrow> Barometer \<times> 'w \<Rightarrow> Barometer \<times> 'w" where
  "calibrate bus address put st = (let (v, s, w) = i2c_bmp180ReadInt bus address st in (put v s, w))"

definition pressure_sensor_init :: "'w I2c \<Rightarrow> Barometer \<times> 'w \<Rightarrow> int \<times> Barometer \<times> 'w" where
  "pressure_sensor_init bus st =
     (let st = calibrate bus 0xAA (\<lambda>v s. s\<lparr>ac1 := v\<rparr>) st;
          st = calibrate bus 0xAC (\<lambda>v s. s\<lparr>ac2 := v\<rparr>) st;
          st = calibrate bus 0xAE (\<lambda>v s. s\<lparr>ac3 := v\<rparr>) st;
          st = calibrate bus 0xB0 (\<lambda>v s. s\<lparr>ac4 := v\<rparr>) st;
          st = calibrate bus 0xB2 (\<lambda>v s. s\<lparr>ac5 := v\<rparr>) st;
          st = calibrate bus 0xB4 (\<lambda>v s. s\<lparr>ac6 := v\<rparr>) st;
          st = calibrate bus 0xB6 (\<lambda>v s. s\<lparr>b1 := v\<rparr>) st;
          st = calibrate bus 0xB8 (\<lambda>v s. s\<lparr>b2 := v\<rparr>) st;
          st = calibrate bus 0xBA (\<lambda>v s. s\<lparr>mb := v\<rparr>) st;
          st = calibrate bus 0xBC (\<lambda>v s. s\<lparr>mc := v\<rparr>) st;
          st = calibrate bus 0xBE (\<lambda>v s. s\<lparr>md := v\<rparr>) st;
          st = bmp180_read bus 0xd0 1 st
      in (0, st))"

section \<open>Compensation\<close>

text \<open>The result of a signed operation of 32 bits.\<close>

definition i32 :: "int \<Rightarrow> int option" where
  "i32 x = (if - (2 ^ 31) \<le> x \<and> x < 2 ^ 31 then Some x else None)"

text \<open>Shifts to the right of signed values round down on the target; conversions to signed values wrap.\<close>

definition bmp180_pressure :: "Barometer \<Rightarrow> int option" where
  "bmp180_pressure s = do {
     b6 \<leftarrow> i32 (PressureCompensate s - 4000);
     sq \<leftarrow> i32 (b6 * b6);
     m \<leftarrow> i32 (sint (b2 s) * sq);
     let x1 = m div 2 ^ 12 div 2 ^ 11;
     m \<leftarrow> i32 (sint (ac2 s) * b6);
     x3 \<leftarrow> i32 (x1 + m div 2 ^ 11);
     m \<leftarrow> i32 (sint (ac1 s) * 4 + x3);
     m \<leftarrow> i32 (m + 2);
     let b3 = m div 2 ^ 2;
     m \<leftarrow> i32 (sint (ac3 s) * b6);
     let x1 = m div 2 ^ 13;
     m \<leftarrow> i32 (sint (b1 s) * (sq div 2 ^ 12));
     m \<leftarrow> i32 (x1 + m div 2 ^ 16);
     m \<leftarrow> i32 (m + 2);
     m \<leftarrow> i32 (m div 2 ^ 2 + 32768);
     let b4 = drop_bit 15 (ucast (ac4 s) * word_of_int m :: u32);
     m \<leftarrow> i32 (sint (up s) - b3);
     let b7 = word_of_int m * 50000;
     if b4 = 0 then None
     else do {
       let p = sint (if b7 < 0x80000000 then push_bit 1 b7 div b4 else push_bit 1 (b7 div b4));
       x1 \<leftarrow> i32 ((p div 2 ^ 8) * (p div 2 ^ 8));
       m \<leftarrow> i32 (x1 * 3038);
       let x1 = m div 2 ^ 16;
       m \<leftarrow> i32 (- 7357 * p);
       m \<leftarrow> i32 (x1 + m div 2 ^ 16 + 3791);
       p \<leftarrow> i32 (p + m div 2 ^ 4);
       Some (p sdiv 2) } }"

text \<open>The raw value of 32 bits is stored in the field \<open>up\<close> of 16 bits.\<close>

definition bm180pressure_sensor_input_scan ::
  "'w I2c \<Rightarrow> (nat \<Rightarrow> 'w \<Rightarrow> 'w) \<Rightarrow> byte list \<Rightarrow> Barometer \<times> 'w \<Rightarrow> (int \<times> byte list \<times> Barometer \<times> 'w) option" where
  "bm180pressure_sensor_input_scan bus sleep buf = (\<lambda>(s, w). do {
     let (raw, s, w) = i2c_bmp180ReadLong bus (s, sleep 10 (i2c_write bus [0xF4, 0x34] w));
     let s = s\<lparr>up := ucast raw\<rparr>;
     p \<leftarrow> bmp180_pressure s;
     v \<leftarrow> sprintf buf 0 (show_int p);
     Some (0, v, s, w) })"

definition bmp180_temperature :: "Barometer \<Rightarrow> int option" where
  "bmp180_temperature s = do {
     m \<leftarrow> i32 ((sint (ut s) - uint (ac6 s)) * uint (ac5 s));
     let x1 = m div 2 ^ 15;
     d \<leftarrow> i32 (x1 + sint (md s));
     if d = 0 then None else i32 (x1 + (sint (mc s) * 2 ^ 11) sdiv d) }"

text \<open>\<open>tenths\<close> is the text of a number of tenths of a degree, which the code takes through a floating-point
  number.\<close>

definition bm180temperature_sensor_input_scan ::
  "'w I2c \<Rightarrow> (nat \<Rightarrow> 'w \<Rightarrow> 'w) \<Rightarrow> (int \<Rightarrow> byte list) \<Rightarrow> byte list \<Rightarrow> Barometer \<times> 'w
   \<Rightarrow> (int \<times> byte list \<times> Barometer \<times> 'w) option" where
  "bm180temperature_sensor_input_scan bus sleep tenths buf = (\<lambda>(s, w). do {
     let (raw, s, w) = i2c_bmp180ReadInt bus 0xF6 (s, sleep 10 (i2c_write bus [0xF4, 0x2e] w));
     let s = s\<lparr>ut := raw\<rparr>;
     b5 \<leftarrow> bmp180_temperature s;
     let s = s\<lparr>PressureCompensate := b5\<rparr>;
     t \<leftarrow> i32 (b5 + 8);
     v \<leftarrow> sprintf buf 0 (tenths (t div 2 ^ 4));
     Some (0, v, s, w) })"

section \<open>What the scans report\<close>

text \<open>The compensation of the data sheet, in integers without bounds.\<close>

definition true_temperature :: "Barometer \<Rightarrow> int \<Rightarrow> int" where
  "true_temperature s raw = (let x1 = (raw - uint (ac6 s)) * uint (ac5 s) div 2 ^ 15
     in x1 + (sint (mc s) * 2 ^ 11) sdiv (x1 + sint (md s)))"

lemma i32_small: "\<bar>x\<bar> < 2 ^ 31 \<Longrightarrow> i32 x = Some x"
  by (auto simp: i32_def)

lemma joined_byte: "uint (or (push_bit 8 (ucast h)) (ucast l) :: u16) = 256 * uint h + uint l" for h l :: byte
proof -
  have "or (push_bit 8 (ucast h)) (ucast l) = (push_bit 8 (ucast h) + ucast l :: u16)"
    by (rule disjunctive_add [symmetric]) (auto simp: bit_simps dest!: bit_imp_le_length)
  moreover have "uint (push_bit 8 (ucast h) + ucast l :: u16) = 256 * uint h + uint l"
    using uint_bounded [of h] uint_bounded [of l]
    by (simp add: push_bit_eq_mult uint_word_ariths unsigned_ucast_eq take_bit_eq_mod)
  ultimately show ?thesis
    by simp
qed

lemma read_three:
  "(ucast (or (or (push_bit 16 (ucast m)) (push_bit 8 (ucast l))) (drop_bit 8 (ucast x)) :: u32) :: u16) = push_bit 8 (ucast l)"
  for m l x :: byte
  by (rule bit_word_eqI) (auto simp: bit_simps dest: bit_imp_le_length)

lemma sint_high: "sint (push_bit 8 (ucast l) :: u16) = (if uint l < 128 then 256 * uint l else 256 * uint l - 65536)" for l :: byte
  by (rule all_bytes [of "\<lambda>l. sint (push_bit 8 (ucast l) :: u16) = (if uint l < 128 then 256 * uint l else 256 * uint l - 65536)"])
    code_simp

lemma sint_16: "sint v = (if uint v < 32768 then uint v else uint v - 65536)" for v :: u16
proof -
  have range: "0 \<le> uint v" "uint v < 65536"
    using uint_bounded [of v] by simp_all
  have "sint v = (uint v + 32768) mod 65536 - 32768"
    by (simp add: sint_uint signed_take_bit_eq_take_bit_shift take_bit_eq_mod)
  moreover have "(uint v + 32768) mod 65536 = uint v + 32768" if "uint v < 32768"
    using that range by simp
  moreover have "(uint v - 32768 + 65536) mod 65536 = uint v - 32768" if "\<not> uint v < 32768"
    unfolding mod_add_self2 using that range by simp
  ultimately show ?thesis
    by (simp add: add.commute [of "uint v"])
qed

lemma pressure_of_up: "bmp180_pressure (s\<lparr>read_data := m, up := v\<rparr>) = bmp180_pressure (s\<lparr>up := v\<rparr>)"
  by (simp add: bmp180_pressure_def)

text \<open>C40. The pressure reported depends on the second of the three bytes the sensor sends and on nothing else of the
  measurement: the first and most significant byte is shifted out of the 16 bits of the field \<open>up\<close>, and the
  second, not shifted down, becomes its upper half, as a signed number.\<close>

theorem barometer_pressure:
  assumes "i2c_read bus 3 (i2c_write bus [0xF6] (sleep 10 (i2c_write bus [0xF4, 0x34] w))) = ([msb, lsb, xlsb], w')"
    and "s' = s\<lparr>read_data := [msb, lsb, xlsb] @ drop 3 (read_data s), up := push_bit 8 (ucast lsb)\<rparr>"
  shows "bm180pressure_sensor_input_scan bus sleep buf (s, w) =
      map_option (\<lambda>v. (0, v, s', w')) (Option.bind (bmp180_pressure (s\<lparr>up := push_bit 8 (ucast lsb)\<rparr>)) (\<lambda>p. sprintf buf 0 (show_int p))) \<and>
    sint (up s') = (if uint lsb < 128 then 256 * uint lsb else 256 * uint lsb - 65536)"
proof -
  have "i2c_bmp180ReadLong bus (s, sleep 10 (i2c_write bus [0xF4, 0x34] w)) =
      (or (or (push_bit 16 (ucast msb)) (push_bit 8 (ucast lsb))) (drop_bit 8 (ucast xlsb)),
       s\<lparr>read_data := [msb, lsb, xlsb] @ drop 3 (read_data s)\<rparr>, w')"
    by (simp add: i2c_bmp180ReadLong_def bmp180_read_def assms(1) numeral_3_eq_3 [symmetric])
  moreover have "(s\<lparr>read_data := [msb, lsb, xlsb] @ drop 3 (read_data s)\<rparr>)\<lparr>up := push_bit 8 (ucast lsb)\<rparr> = s'"
    by (simp add: assms(2))
  moreover have "bmp180_pressure s' = bmp180_pressure (s\<lparr>up := push_bit 8 (ucast lsb)\<rparr>)"
    unfolding assms(2) by (rule pressure_of_up)
  ultimately show ?thesis
    unfolding bm180pressure_sensor_input_scan_def using sint_high [of lsb] assms(2)
    by (cases "bmp180_pressure s'") (auto simp: read_three Let_def map_conv_bind_option comp_def)
qed

text \<open>The temperature scan computes the data sheet's value from the raw value of two bytes, as long as the raw
  value is below 32768; from there on it is taken as a negative number, because it is kept in a signed
  field.  The value is kept for the compensation of the pressure.\<close>

theorem barometer_temperature:
  assumes "i2c_read bus 2 (i2c_write bus [0xF6] (sleep 10 (i2c_write bus [0xF4, 0x2e] w))) = ([hi, lo], w')"
    and "raw = (if uint hi < 128 then 256 * uint hi + uint lo else 256 * uint hi + uint lo - 65536)"
    and "x1 = (raw - uint (ac6 s)) * uint (ac5 s)" "\<bar>x1\<bar> < 2 ^ 31" "\<bar>x1 div 2 ^ 15 + sint (md s)\<bar> < 2 ^ 31"
    and "x1 div 2 ^ 15 + sint (md s) \<noteq> 0" "\<bar>true_temperature s raw\<bar> < 2 ^ 30"
    and "length (tenths ((true_temperature s raw + 8) div 2 ^ 4)) < length buf"
  shows "bm180temperature_sensor_input_scan bus sleep tenths buf (s, w) =
    (let t = tenths ((true_temperature s raw + 8) div 2 ^ 4) in Some (0, t @ 0 # drop (Suc (length t)) buf,
       s\<lparr>read_data := [hi, lo] @ drop 2 (read_data s), ut := word_of_int raw, PressureCompensate := true_temperature s raw\<rparr>, w'))"
proof -
  let ?raw = "or (push_bit 8 (ucast hi)) (ucast lo) :: u16"
  let ?s = "s\<lparr>read_data := [hi, lo] @ drop 2 (read_data s), ut := ?raw\<rparr>"
  have "uint lo < 256"
    using uint_bounded [of lo] by simp
  then have "256 * uint hi + uint lo < 32768 \<longleftrightarrow> uint hi < 128"
    using uint_ge_0 [of lo] by linarith
  then have "sint ?raw = raw"
    unfolding sint_16 joined_byte assms(2) by simp
  moreover from this have "?raw = word_of_int raw"
    by (metis of_int_sint scast_id)
  moreover have "i2c_bmp180ReadInt bus 0xF6 (s, sleep 10 (i2c_write bus [0xF4, 0x2e] w)) =
      (?raw, s\<lparr>read_data := [hi, lo] @ drop 2 (read_data s)\<rparr>, w')"
    by (simp add: i2c_bmp180ReadInt_def bmp180_read_def assms(1) numeral_2_eq_2 [symmetric])
  moreover have "bmp180_temperature ?s = Some (true_temperature s raw)" if "sint ?raw = raw"
    using i32_small [OF assms(4)] i32_small [OF assms(5)] i32_small [of "true_temperature s raw"] assms(6,7) that
    by (simp add: bmp180_temperature_def true_temperature_def Let_def assms(3) [symmetric])
  moreover have "i32 (true_temperature s raw + 8) = Some (true_temperature s raw + 8)"
    using assms(7) by (intro i32_small) simp
  ultimately show ?thesis
    using assms(8) by (simp add: bm180temperature_sensor_input_scan_def sprintf_at_start Let_def)
qed

section \<open>The example of the data sheet\<close>

definition data_sheet :: Barometer where
  "data_sheet = \<lparr>read_data = replicate 16 0, ac1 = 408, ac2 = - 72, ac3 = - 14383, ac4 = 32741, ac5 = 32757, ac6 = 23153,
     b1 = 6190, b2 = 4, mb = - 32768, mc = - 8711, md = 2868, ut = 0, up = 0, PressureCompensate = 2400\<rparr>"

definition answering :: "byte list \<Rightarrow> nat I2c" where
  "answering bs = \<lparr>i2c_write = (\<lambda>_ w. w), i2c_read = (\<lambda>n w. (take n bs, w))\<rparr>"

definition no_sleep :: "nat \<Rightarrow> nat \<Rightarrow> nat" where
  "no_sleep ms w = w"

text \<open>The raw pressure 23843 is sent as 93, 35, 0; the compensation takes it to 69964, of which the scan reports
  half, but from the second byte alone it makes less.\<close>

lemma barometer_pressure_witness:
  "bm180pressure_sensor_input_scan (answering [93, 35, 0]) no_sleep (replicate 16 7) (data_sheet, 0) =
     Some (0, ascii ''12802'' @ 0 # replicate 10 7, data_sheet\<lparr>read_data := [93, 35, 0] @ replicate 13 0, up := 8960\<rparr>, 0) \<and>
   bmp180_pressure (data_sheet\<lparr>up := 23843\<rparr>) = Some 34982"
proof -
  have read: "i2c_read (answering [93, 35, 0]) 3 (i2c_write (answering [93, 35, 0]) [0xF6]
      (no_sleep 10 (i2c_write (answering [93, 35, 0]) [0xF4, 0x34] 0))) = ([93, 35, 0], 0)"
    by (simp add: answering_def no_sleep_def)
  have up: "push_bit 8 (ucast (35 :: byte)) = (8960 :: u16)"
    by simp
  have pressures: "bmp180_pressure (data_sheet\<lparr>up := 8960\<rparr>) = Some 12802" "bmp180_pressure (data_sheet\<lparr>up := 23843\<rparr>) = Some 34982"
    by code_simp+
  have "show_int 12802 = ascii ''12802''"
    by (simp add: show_int_def show_nat.simps ascii_def)
  moreover have "length (ascii ''12802'') = 5" "drop 6 (replicate 16 7) = (replicate 10 7 :: byte list)"
    by (simp_all add: ascii_def)
  ultimately have report: "sprintf (replicate 16 7) 0 (show_int 12802) = Some (ascii ''12802'' @ 0 # replicate 10 7)"
    by (simp add: sprintf_at_start)
  have rest: "drop 3 (read_data data_sheet) = replicate 13 0"
    by (simp add: data_sheet_def)
  show ?thesis
    using barometer_pressure [where sleep = no_sleep, OF read refl, where s = data_sheet and buf = "replicate 16 7"] unfolding up pressures rest
    by (simp add: report)
qed

text \<open>The raw temperature 27898 gives 2400, fifteen degrees.\<close>

lemma barometer_temperature_witness:
  "bm180temperature_sensor_input_scan (answering [108, 250]) no_sleep show_int (replicate 16 7) (data_sheet, 0) =
     Some (0, ascii ''150'' @ 0 # replicate 12 7,
       data_sheet\<lparr>read_data := [108, 250] @ replicate 14 0, ut := 27898, PressureCompensate := 2400\<rparr>, 0)"
proof -
  have read: "i2c_read (answering [108, 250]) 2 (i2c_write (answering [108, 250]) [0xF6]
      (no_sleep 10 (i2c_write (answering [108, 250]) [0xF4, 0x2e] 0))) = ([108, 250], 0)"
    by (simp add: answering_def no_sleep_def)
  have numbers: "true_temperature data_sheet 27898 = 2400" "show_int ((2400 + 8) div 2 ^ 4) = ascii ''150''"
    "\<bar>(27898 - uint (ac6 data_sheet)) * uint (ac5 data_sheet)\<bar> < 2 ^ 31"
    "\<bar>(27898 - uint (ac6 data_sheet)) * uint (ac5 data_sheet) div 2 ^ 15 + sint (md data_sheet)\<bar> < 2 ^ 31"
    "(27898 - uint (ac6 data_sheet)) * uint (ac5 data_sheet) div 2 ^ 15 + sint (md data_sheet) \<noteq> 0"
    "(27898 :: int) = (if uint (108 :: byte) < 128 then 256 * uint (108 :: byte) + uint (250 :: byte)
       else 256 * uint (108 :: byte) + uint (250 :: byte) - 65536)"
    by code_simp+
  have "drop 2 (read_data data_sheet) = replicate 14 0" "length (ascii ''150'') = 3"
    by (simp_all add: data_sheet_def ascii_def)
  then show ?thesis
    using barometer_temperature [where s = data_sheet and raw = 27898 and sleep = no_sleep and tenths = show_int and buf = "replicate 16 7",
        OF read numbers(6) refl numbers(3-5)] numbers(1,2)
    by (simp add: Let_def)
qed

end
