(* ===== verification/Ntp_Client.thy ===== *)
theory Ntp_Client
  imports Prelude
begin

text \<open>
  The NTP client of the demos, \<^verbatim>\<open>ntpc.c\<close>: one exchange with a time server, and the synchronisation
  of the clock after several.

  The socket calls, the allocator and the clock are a parameter, \<open>Ntp_Net\<close>, over a world \<open>'w\<close>.
\<close>

section \<open>Surroundings\<close>

text \<open>\<open>select_read\<close> waits for the given seconds and gives its result and whether the socket is in the
  set; \<open>recv n\<close> gives its result and the at most \<open>n\<close> bytes it stores.\<close>

record 'w Ntp_Net =
  gethostbyname :: "byte list \<Rightarrow> 'w \<Rightarrow> bool \<times> 'w"
  udp_socket :: "'w \<Rightarrow> int \<times> 'w"
  setsockopt :: "'w \<Rightarrow> int \<times> 'w"
  sendto :: "byte list \<Rightarrow> 'w \<Rightarrow> int \<times> 'w"
  select_read :: "u32 \<Rightarrow> 'w \<Rightarrow> int \<times> bool \<times> 'w"
  os_mem_calloc :: "nat \<Rightarrow> 'w \<Rightarrow> bool \<times> 'w"
  recv :: "nat \<Rightarrow> 'w \<Rightarrow> int \<times> byte list \<times> 'w"
  os_mem_free :: "'w \<Rightarrow> 'w"
  close_socket :: "'w \<Rightarrow> 'w"
  time_get_posix :: "'w \<Rightarrow> u32 \<times> 'w"
  time_set_posix :: "u32 \<Rightarrow> 'w \<Rightarrow> 'w"

abbreviation (input) EPOCH_TIME_IN_SECS :: u32 where "EPOCH_TIME_IN_SECS \<equiv> 2208988800"
abbreviation (input) NTP_RESP_TIMEOUT :: u32 where "NTP_RESP_TIMEOUT \<equiv> 2"
abbreviation (input) RECV_BUF_SIZE :: nat where "RECV_BUF_SIZE \<equiv> 100"
abbreviation (input) DEFAULT_MAX_XCHANGE :: u32 where "DEFAULT_MAX_XCHANGE \<equiv> 5"

section \<open>One exchange\<close>

text \<open>\<^verbatim>\<open>ntohl(buf[i])\<close> of an array of 32-bit integers on the little-endian target: the bytes in the
  order of the network.\<close>

definition ntohl_at :: "byte list \<Rightarrow> nat \<Rightarrow> u32" where
  "ntohl_at m i = of_nat (((unat (m ! (4 * i)) * 256 + unat (m ! (4 * i + 1))) * 256 + unat (m ! (4 * i + 2))) * 256
     + unat (m ! (4 * i + 3)))"

definition htonl :: "u32 \<Rightarrow> u32" where
  "htonl x = word_of_int (uint x mod 256 * 16777216 + uint x div 256 mod 256 * 65536 + uint x div 65536 mod 256 * 256
     + uint x div 16777216)"

text \<open>The two outputs \<open>rx\<close> and \<open>tx\<close> keep their values when the exchange fails.  The client's own time
  stamp is a parameter the function does not use.\<close>

definition ntp_time_get ::
  "'w Ntp_Net \<Rightarrow> byte list \<Rightarrow> u32 \<Rightarrow> (u32 \<times> u32) \<times> 'w \<Rightarrow> int \<times> (u32 \<times> u32) \<times> 'w" where
  "ntp_time_get net hostname client_transmit_timestamp = (\<lambda>(out, w).
     let (hostinfo, w) = gethostbyname net hostname w in
     if \<not> hostinfo then (- 1, out, w)
     else let (ntp_sockfd, w) = udp_socket net w in
     if ntp_sockfd < 0 then (- 1, out, w)
     else let (_, w) = setsockopt net w;
              (rv, w) = sendto net (8 # replicate 47 0) w in
     if rv = - 1 then (- 1, out, close_socket net w)
     else let (rv, isset, w) = select_read net NTP_RESP_TIMEOUT w in
     if rv \<le> 0 then (- 1, out, close_socket net w)
     else if \<not> isset then (- 1, out, close_socket net w)
     else let (mem, w) = os_mem_calloc net RECV_BUF_SIZE w in
     if \<not> mem then (- 13, out, close_socket net w)
     else let (rv, bytes, w) = recv net RECV_BUF_SIZE w;
              buf = bytes @ drop (length bytes) (replicate RECV_BUF_SIZE 0) in
     if rv \<le> 0 then (- 1, out, close_socket net (os_mem_free net w))
     else (0, (ntohl_at buf 8, ntohl_at buf 10), close_socket net (os_mem_free net w)))"

section \<open>Synchronisation\<close>

text \<open>The exchanges of the loop; the state is the outputs of the last exchange, the round-trip time and
  the world.\<close>

fun xchange_loop ::
  "'w Ntp_Net \<Rightarrow> byte list \<Rightarrow> nat \<Rightarrow> u32 \<Rightarrow> (u32 \<times> u32) \<times> 'w \<Rightarrow> int \<times> (u32 \<times> u32) \<times> 'w" where
  "xchange_loop net ntp_server 0 rtt (out, w) = (0, out, w)"
| "xchange_loop net ntp_server (Suc n) rtt (out, w) =
     (let client_transmit_timestamp = snd out + rtt;
          (Hardware_timestamp, w) = time_get_posix net w;
          (rv, out, w) = ntp_time_get net ntp_server client_transmit_timestamp (out, w)
      in if rv \<noteq> WM_SUCCESS then (rv, out, w)
         else let (now, w) = time_get_posix net w;
                  rtt = (now - Hardware_timestamp) + (snd out - fst out)
              in xchange_loop net ntp_server n rtt (out, w))"

text \<open>\<open>uninit\<close> is the content of the two local variables the first exchange may leave unset.\<close>

definition ntpc_sync ::
  "'w Ntp_Net \<Rightarrow> u32 \<times> u32 \<Rightarrow> byte list option \<Rightarrow> u32 \<Rightarrow> 'w \<Rightarrow> int \<times> 'w" where
  "ntpc_sync net uninit ntp_server max_num_pkt_xchange w =
     (case ntp_server of None \<Rightarrow> (- 23, w)
      | Some server \<Rightarrow>
          let max_num_pkt_xchange = (if max_num_pkt_xchange \<le> 0 \<or> max_num_pkt_xchange > 10 then DEFAULT_MAX_XCHANGE
                                     else max_num_pkt_xchange);
              (Hardware_timestamp, w) = time_get_posix net w;
              client_transmit_timestamp = Hardware_timestamp + EPOCH_TIME_IN_SECS;
              (rv, out, w) = ntp_time_get net server (htonl client_transmit_timestamp) (uninit, w);
              (now, w) = time_get_posix net w;
              rtt = (now - Hardware_timestamp) + (snd out - fst out);
              (rv, out, w) = xchange_loop net server (unat max_num_pkt_xchange) rtt (out, w)
          in if rv \<noteq> WM_SUCCESS then (rv, w)
             else (rv, time_set_posix net (snd out - EPOCH_TIME_IN_SECS) w))"

section \<open>A server and its answers\<close>

text \<open>The documented behaviour of the calls when everything but the network works: \<open>answers\<close> are what the
  requests to come will get, \<open>None\<close> a time-out, \<open>clock\<close> is the system's time.\<close>

definition leaves :: "('w \<Rightarrow> byte list option list) \<Rightarrow> ('w \<Rightarrow> u32) \<Rightarrow> ('w \<Rightarrow> 'w) \<Rightarrow> bool" where
  "leaves answers clock f \<longleftrightarrow> (\<forall>w. answers (f w) = answers w \<and> clock (f w) = clock w)"

definition answered :: "byte list option list \<Rightarrow> bool" where
  "answered as = (case as of Some bs # rest \<Rightarrow> bs \<noteq> [] | _ \<Rightarrow> False)"

definition ntp_world :: "'w Ntp_Net \<Rightarrow> ('w \<Rightarrow> byte list option list) \<Rightarrow> ('w \<Rightarrow> u32) \<Rightarrow> bool" where
  "ntp_world net answers clock \<longleftrightarrow>
     (\<forall>name w. fst (gethostbyname net name w)) \<and> (\<forall>name. leaves answers clock (\<lambda>w. snd (gethostbyname net name w))) \<and>
     (\<forall>w. 0 \<le> fst (udp_socket net w)) \<and> leaves answers clock (\<lambda>w. snd (udp_socket net w)) \<and>
     leaves answers clock (\<lambda>w. snd (setsockopt net w)) \<and>
     (\<forall>m w. fst (sendto net m w) = int (length m)) \<and> (\<forall>m. leaves answers clock (\<lambda>w. snd (sendto net m w))) \<and>
     (\<forall>n w. fst (os_mem_calloc net n w)) \<and> (\<forall>n. leaves answers clock (\<lambda>w. snd (os_mem_calloc net n w))) \<and>
     leaves answers clock (os_mem_free net) \<and> leaves answers clock (close_socket net) \<and>
     leaves answers clock (\<lambda>w. snd (time_get_posix net w)) \<and>
     (\<forall>t w. answers (time_set_posix net t w) = answers w \<and> clock (time_set_posix net t w) = t) \<and>
     (\<forall>secs w. fst (select_read net secs w) = (if answered (answers w) then 1 else 0) \<and>
        fst (snd (select_read net secs w)) = answered (answers w) \<and>
        answers (snd (snd (select_read net secs w))) = (if answered (answers w) then answers w else tl (answers w)) \<and>
        clock (snd (snd (select_read net secs w))) = clock w) \<and>
     (\<forall>n w. answered (answers w) \<longrightarrow>
        fst (snd (recv net n w)) = take n (the (hd (answers w))) \<and>
        fst (recv net n w) = int (length (fst (snd (recv net n w)))) \<and>
        answers (snd (snd (recv net n w))) = tl (answers w) \<and> clock (snd (snd (recv net n w))) = clock w)"

lemma world_facts:
  assumes "ntp_world net answers clock"
  shows "fst (gethostbyname net name w)" "0 \<le> fst (udp_socket net w)" "\<not> fst (udp_socket net w) < 0"
    "fst (sendto net m w) = int (length m)" "fst (os_mem_calloc net n w)"
    "answers (snd (gethostbyname net name w)) = answers w" "clock (snd (gethostbyname net name w)) = clock w"
    "answers (snd (udp_socket net w)) = answers w" "clock (snd (udp_socket net w)) = clock w"
    "answers (snd (setsockopt net w)) = answers w" "clock (snd (setsockopt net w)) = clock w"
    "answers (snd (sendto net m w)) = answers w" "clock (snd (sendto net m w)) = clock w"
    "answers (snd (os_mem_calloc net n w)) = answers w" "clock (snd (os_mem_calloc net n w)) = clock w"
    "answers (os_mem_free net w) = answers w" "clock (os_mem_free net w) = clock w"
    "answers (close_socket net w) = answers w" "clock (close_socket net w) = clock w"
    "answers (snd (time_get_posix net w)) = answers w" "clock (snd (time_get_posix net w)) = clock w"
    "answers (time_set_posix net t w) = answers w" "clock (time_set_posix net t w) = t"
    "fst (select_read net secs w) = (if answered (answers w) then 1 else 0)"
    "fst (snd (select_read net secs w)) = answered (answers w)"
    "answers (snd (snd (select_read net secs w))) = (if answered (answers w) then answers w else tl (answers w))"
    "clock (snd (snd (select_read net secs w))) = clock w"
  using assms unfolding ntp_world_def leaves_def by (simp_all add: leD)

lemma world_recv:
  assumes "ntp_world net answers clock" "answered (answers w)"
  shows "fst (snd (recv net n w)) = take n (the (hd (answers w)))"
    "fst (recv net n w) = int (length (take n (the (hd (answers w)))))"
    "answers (snd (snd (recv net n w))) = tl (answers w)" "clock (snd (snd (recv net n w))) = clock w"
  using assms unfolding ntp_world_def by auto

text \<open>An answer as the function reads it: what is missing counts as zero bytes.\<close>

definition padded :: "byte list \<Rightarrow> byte list" where
  "padded bs = take 100 bs @ replicate (100 - length (take 100 bs)) 0"

definition stamps :: "byte list \<Rightarrow> u32 \<times> u32" where
  "stamps bs = (ntohl_at (padded bs) 8, ntohl_at (padded bs) 10)"

lemma exchange:
  assumes "ntp_world net answers clock"
  shows "\<exists>w'. clock w' = clock w \<and> answers w' = tl (answers w) \<and>
    ntp_time_get net server stamp (out, w) =
      (if answered (answers w) then (0, stamps (the (hd (answers w))), w') else (- 1, out, w'))"
proof (cases "answered (answers w)")
  case True
  then have "the (hd (answers w)) \<noteq> []"
    by (auto simp: answered_def split: list.splits option.splits)
  then show ?thesis
    using True by (simp add: ntp_time_get_def case_prod_unfold Let_def world_facts [OF assms] world_recv [OF assms]
        stamps_def padded_def)
next
  case False
  then show ?thesis
    by (simp add: ntp_time_get_def case_prod_unfold Let_def world_facts [OF assms])
qed

text \<open>The first \<open>n\<close> of the answers to come, when all of them come.\<close>

definition all_answered :: "nat \<Rightarrow> byte list option list \<Rightarrow> bool" where
  "all_answered n as \<longleftrightarrow> n \<le> length as \<and> list_all (\<lambda>a. a \<noteq> None \<and> a \<noteq> Some []) (take n as)"

lemma answered_Cons: "answered as \<longleftrightarrow> as \<noteq> [] \<and> hd as \<noteq> None \<and> hd as \<noteq> Some []"
  by (auto simp: answered_def split: list.splits option.splits)

lemma all_answered_Suc: "all_answered (Suc n) as \<longleftrightarrow> answered as \<and> all_answered n (tl as)"
  by (cases as) (auto simp: all_answered_def answered_Cons)

lemma loop_outcome:
  assumes "ntp_world net answers clock"
  shows "\<exists>w' rv out'. xchange_loop net server n rtt (out, w) = (rv, out', w') \<and> clock w' = clock w \<and>
    (if all_answered n (answers w)
     then rv = 0 \<and> out' = (if n = 0 then out else stamps (the (answers w ! (n - 1)))) \<and> answers w' = drop n (answers w)
     else rv = - 1)"
proof (induction n arbitrary: rtt out w)
  case 0
  then show ?case
    by (simp add: all_answered_def)
next
  case (Suc n)
  let ?w = "snd (time_get_posix net w)"
  obtain w1 where w1: "clock w1 = clock w" "answers w1 = tl (answers w)"
    "ntp_time_get net server (snd out + rtt) (out, ?w) =
      (if answered (answers w) then (0, stamps (the (hd (answers w))), w1) else (- 1, out, w1))"
    using exchange [OF assms, of ?w server "snd out + rtt" out] by (auto simp: world_facts [OF assms])
  show ?case
  proof (cases "answered (answers w)")
    case True
    let ?w1 = "snd (time_get_posix net w1)" and ?out = "stamps (the (hd (answers w)))"
    obtain rtt' where step: "xchange_loop net server (Suc n) rtt (out, w) = xchange_loop net server n rtt' (?out, ?w1)"
      using True w1(3) by (simp add: case_prod_unfold Let_def)
    have "the (answers w ! n) = the (tl (answers w) ! (n - 1))" if "n \<noteq> 0"
      using that True by (cases "answers w"; cases n) (auto simp: answered_Cons)
    moreover have "hd (answers w) = answers w ! 0"
      using True by (cases "answers w") (auto simp: answered_Cons)
    ultimately show ?thesis
      using Suc.IH [of rtt' ?out ?w1] True w1(1,2) unfolding step
      by (auto simp: world_facts [OF assms] all_answered_Suc drop_Suc split: if_splits) (metis surj_pair)+
  next
    case False
    then show ?thesis
      using w1 by (simp add: case_prod_unfold Let_def all_answered_Suc)
  qed
qed

text \<open>The number of exchanges of the loop.\<close>

definition xchanges :: "u32 \<Rightarrow> nat" where
  "xchanges m = (if m = 0 \<or> m > 10 then 5 else unat m)"

lemma xchanges_pos: "0 < xchanges m" "xchanges m \<le> 10"
proof -
  have "unat m \<le> 10" if "\<not> m > 10"
    using that by (simp add: word_less_nat_alt)
  moreover have "0 < unat m" if "m \<noteq> 0"
    using that by (simp add: unat_gt_0)
  ultimately show "0 < xchanges m" "xchanges m \<le> 10"
    by (simp_all add: xchanges_def)
qed

text \<open>C37. Synchronising the clock takes one exchange whose outcome does not count and then as many as asked
  for, five if that is zero or more than ten.  When all of the latter are answered, the clock is set to the
  transmit time of the last answer, less the seconds between the epochs, modulo \<open>2^32\<close>; the round-trip
  times, the client's time stamps and whether the answer is one of a time server at all play no part.  When one
  is not, the call fails and the clock keeps its time.\<close>

theorem ntp_sync_outcome:
  assumes "ntp_world net answers clock" "k = xchanges m"
  shows "\<exists>w'. (if all_answered k (tl (answers w))
      then ntpc_sync net uninit (Some server) m w = (0, w') \<and> answers w' = drop (k + 1) (answers w) \<and>
        clock w' = snd (stamps (the (answers w ! k))) - 2208988800
      else ntpc_sync net uninit (Some server) m w = (- 1, w') \<and> clock w' = clock w) \<and>
    ntpc_sync net uninit None m w = (- 23, w)"
proof -
  let ?w0 = "snd (time_get_posix net w)"
  let ?stamp = "htonl (fst (time_get_posix net w) + 2208988800)"
  obtain w0 where w0: "clock w0 = clock w" "answers w0 = tl (answers w)" and "ntp_time_get net server ?stamp (uninit, ?w0) =
      (if answered (answers w) then (0, stamps (the (hd (answers w))), w0) else (- 1, uninit, w0))"
    using exchange [OF assms(1), of ?w0 server ?stamp uninit] unfolding world_facts [OF assms(1)] by blast
  moreover define out0 where "out0 = (if answered (answers w) then stamps (the (hd (answers w))) else uninit)"
  ultimately have first: "ntp_time_get net server ?stamp (uninit, ?w0) = (if answered (answers w) then 0 else - 1, out0, w0)"
    by simp
  let ?w1 = "snd (time_get_posix net w0)"
  let ?rtt = "fst (time_get_posix net w0) - fst (time_get_posix net w) + (snd out0 - fst out0)"
  have k: "unat (if m \<le> 0 \<or> m > 10 then 5 else m) = k" "0 < k"
    using xchanges_pos(1) by (simp_all add: assms(2) xchanges_def)
  obtain rv out' w' where loop: "xchange_loop net server k ?rtt (out0, ?w1) = (rv, out', w')" and w': "clock w' = clock w"
    and done': "if all_answered k (tl (answers w))
      then rv = 0 \<and> out' = stamps (the (tl (answers w) ! (k - 1))) \<and> answers w' = drop k (tl (answers w)) else rv = - 1"
    using loop_outcome [OF assms(1), of server k ?rtt out0 ?w1] k(2) unfolding world_facts [OF assms(1)] w0
    by (metis less_not_refl)
  have run: "ntpc_sync net uninit (Some server) m w =
      (if rv \<noteq> 0 then (rv, w') else (rv, time_set_posix net (snd out' - 2208988800) w'))"
    using first loop k(1) by (simp add: ntpc_sync_def case_prod_unfold Let_def)
  have "tl (answers w) ! (k - 1) = answers w ! k" if "all_answered k (tl (answers w))"
    using that k(2) by (cases "answers w") (auto simp: all_answered_def nth_Cons')
  moreover have "ntpc_sync net uninit None m w = (- 23, w)"
    by (simp add: ntpc_sync_def)
  ultimately show ?thesis
    using done' w' by (auto simp: run world_facts [OF assms(1)] drop_Suc split: if_splits)
qed

text \<open>A world with a list of answers and a clock.\<close>

definition example_net :: "(byte list option list \<times> u32) Ntp_Net" where
  "example_net = \<lparr>gethostbyname = (\<lambda>_ w. (True, w)), udp_socket = (\<lambda>w. (3, w)), setsockopt = (\<lambda>w. (0, w)),
     sendto = (\<lambda>m w. (int (length m), w)),
     select_read = (\<lambda>_ (as, t). if answered as then (1, True, as, t) else (0, False, tl as, t)),
     os_mem_calloc = (\<lambda>_ w. (True, w)),
     recv = (\<lambda>n (as, t). (int (length (take n (the (hd as)))), take n (the (hd as)), tl as, t)),
     os_mem_free = (\<lambda>w. w), close_socket = (\<lambda>w. w), time_get_posix = (\<lambda>(as, t). (t, as, t)),
     time_set_posix = (\<lambda>t (as, _). (as, t))\<rparr>"

lemma example_net_world: "ntp_world example_net fst snd"
  by (auto simp: ntp_world_def leaves_def example_net_def)

lemma ntp_sync_outcome_witness:
  "\<exists>w'. ntpc_sync example_net (1, 2) (Some []) 1 ([None, Some (replicate 40 0 @ [0xEA, 0xBD, 0x29, 0])], 9) = (0, w') \<and>
     snd w' = 0xEABD2900 - 2208988800"
proof -
  let ?answer = "replicate 40 0 @ [0xEA, 0xBD, 0x29, 0] :: byte list"
  have "xchanges 1 = 1"
    by (simp add: xchanges_def)
  moreover have "all_answered 1 [Some ?answer]"
    by (simp add: all_answered_def)
  moreover have "snd (stamps ?answer) = 0xEABD2900"
    by (simp add: stamps_def ntohl_at_def padded_def nth_append)
  ultimately show ?thesis
    using ntp_sync_outcome [OF example_net_world refl, of 1 "([None, Some ?answer], 9)" "(1, 2)" "[]"] by auto
qed

end
