(* ===== verification/Heap_Alloc.thy ===== *)
theory Heap_Alloc
  imports Prelude
begin

text \<open>
  The allocator of the operating system, \<^verbatim>\<open>heap_4.c\<close> as this SDK has rewritten it: blocks with a header in
  front, each linked to the block before it in memory, and the free ones in a list ordered by size, from
  which the first that is large enough is taken (best fit).  Freeing a block joins it with a free
  neighbour on either side.

  Pointers to headers are \<open>bptr\<close>: nothing, one of the two marks of the list, or an address of the heap.
  Addresses and sizes are natural numbers, and the heap ends below \<open>2 ^ 32\<close>; only the size a caller asks for
  can overflow, and there the reduction is written out.  The lowest bit of a size is the mark of an
  allocated block.  A loop that does not end, which includes a failed \<^verbatim>\<open>ASSERT\<close>, and a use of \<^verbatim>\<open>NULL\<close> are
  \<open>None\<close>.  The content of the blocks, \<open>payload\<close>, is apart from the headers.  Tracing, statistics and the
  guard bytes are compiled out; the self test is that without a trace.
\<close>

section \<open>Headers\<close>

datatype bptr = NullB | XStart | XEnd | Blk nat

record xBlockLink =
  pxNextFreeBlock :: bptr
  pxPrev :: bptr
  xBlockSize :: nat

record Heap =
  headers :: "bptr \<Rightarrow> xBlockLink"
  payload :: "nat \<Rightarrow> byte"
  xFreeBytesRemaining :: nat
  configTOTAL_HEAP_SIZE :: nat
  lastHeapAddress :: nat
  startHeapAddress :: nat
  xHeapHasBeenInitialised :: bool
  suspended :: nat

abbreviation (input) heapSTRUCT_SIZE :: nat where "heapSTRUCT_SIZE \<equiv> 16"
abbreviation (input) heapMINIMUM_BLOCK_SIZE :: nat where "heapMINIMUM_BLOCK_SIZE \<equiv> 32"
abbreviation (input) portBYTE_ALIGNMENT :: nat where "portBYTE_ALIGNMENT \<equiv> 8"

definition BLOCK_SIZE :: "Heap \<Rightarrow> nat \<Rightarrow> nat" where
  "BLOCK_SIZE h a = (let s = xBlockSize (headers h (Blk a)) in s - s mod 2)"

definition IS_FREE_BLOCK :: "Heap \<Rightarrow> nat \<Rightarrow> bool" where
  "IS_FREE_BLOCK h a \<longleftrightarrow> even (xBlockSize (headers h (Blk a)))"

definition NEXT_BLOCK :: "Heap \<Rightarrow> nat \<Rightarrow> nat" where
  "NEXT_BLOCK h a = a + BLOCK_SIZE h a"

definition IS_LAST_BLOCK :: "Heap \<Rightarrow> nat \<Rightarrow> bool" where
  "IS_LAST_BLOCK h a \<longleftrightarrow> NEXT_BLOCK h a = lastHeapAddress h"

definition next_free :: "Heap \<Rightarrow> bptr \<Rightarrow> bptr" where
  "next_free h p = pxNextFreeBlock (headers h p)"

definition set_next :: "bptr \<Rightarrow> bptr \<Rightarrow> Heap \<Rightarrow> Heap" where
  "set_next p q h = h\<lparr>headers := (headers h)(p := (headers h p)\<lparr>pxNextFreeBlock := q\<rparr>)\<rparr>"

definition set_prev :: "nat \<Rightarrow> bptr \<Rightarrow> Heap \<Rightarrow> Heap" where
  "set_prev a q h = h\<lparr>headers := (headers h)(Blk a := (headers h (Blk a))\<lparr>pxPrev := q\<rparr>)\<rparr>"

definition set_size :: "nat \<Rightarrow> nat \<Rightarrow> Heap \<Rightarrow> Heap" where
  "set_size a s h = h\<lparr>headers := (headers h)(Blk a := (headers h (Blk a))\<lparr>xBlockSize := s\<rparr>)\<rparr>"

definition SET_ALLOCATED :: "nat \<Rightarrow> Heap \<Rightarrow> Heap" where
  "SET_ALLOCATED a h = set_size a (let s = xBlockSize (headers h (Blk a)) in s - s mod 2 + 1) h"

definition SET_FREE :: "nat \<Rightarrow> Heap \<Rightarrow> Heap" where
  "SET_FREE a h = set_size a (BLOCK_SIZE h a) h"

section \<open>The list of free blocks\<close>

text \<open>The two loops that look for the entry in front of a block, and the one that looks for its place.\<close>

partial_function (option) find_before :: "Heap \<Rightarrow> bptr \<Rightarrow> bptr \<Rightarrow> bptr option" where
  "find_before h target pxIterator =
     (if next_free h pxIterator \<noteq> target \<and> next_free h pxIterator \<noteq> NullB
      then find_before h target (next_free h pxIterator) else Some pxIterator)"

partial_function (option) find_place :: "Heap \<Rightarrow> nat \<Rightarrow> bptr \<Rightarrow> bptr option" where
  "find_place h s pxIterator =
     (if next_free h pxIterator = NullB then None
      else if xBlockSize (headers h (next_free h pxIterator)) < s then find_place h s (next_free h pxIterator)
      else Some pxIterator)"

text \<open>A block is taken off the list; the assertion fails when it is not on it.\<close>

definition unlink_block :: "nat \<Rightarrow> Heap \<Rightarrow> Heap option" where
  "unlink_block a h = do {
     pxIterator \<leftarrow> find_before h (Blk a) XStart;
     if next_free h pxIterator = Blk a then Some (set_next pxIterator (next_free h (Blk a)) h) else None }"

text \<open>The merge with the block behind.\<close>

definition front_merge :: "nat \<Rightarrow> Heap \<Rightarrow> Heap option" where
  "front_merge a h =
     (if \<not> IS_LAST_BLOCK h a \<and> IS_FREE_BLOCK h (NEXT_BLOCK h a) then do {
        let m = NEXT_BLOCK h a;
        h \<leftarrow> unlink_block m h;
        let h = (if \<not> IS_LAST_BLOCK h m then set_prev (NEXT_BLOCK h m) (Blk a) h else h);
        Some (set_size a (xBlockSize (headers h (Blk a)) + BLOCK_SIZE h m) h) }
      else Some h)"

text \<open>The merge with the block before, and which block is left.\<close>

definition back_merge :: "nat \<Rightarrow> Heap \<Rightarrow> (nat \<times> Heap) option" where
  "back_merge a h =
     (if a = startHeapAddress h then Some (a, h)
      else case pxPrev (headers h (Blk a)) of
        Blk m \<Rightarrow>
          if IS_FREE_BLOCK h m then do {
            h \<leftarrow> unlink_block m h;
            let h = (if \<not> IS_LAST_BLOCK h a then set_prev (NEXT_BLOCK h a) (Blk m) h else h);
            Some (m, set_size m (xBlockSize (headers h (Blk m)) + BLOCK_SIZE h a) h) }
          else Some (a, h)
      | _ \<Rightarrow> None)"

definition prvInsertBlockIntoFreeList :: "nat \<Rightarrow> Heap \<Rightarrow> Heap option" where
  "prvInsertBlockIntoFreeList pxBlockToInsert h =
     (if \<not> IS_FREE_BLOCK h pxBlockToInsert then None
      else do {
        h \<leftarrow> front_merge pxBlockToInsert h;
        (pxBlockToInsert, h) \<leftarrow> back_merge pxBlockToInsert h;
        pxIterator \<leftarrow> find_place h (xBlockSize (headers h (Blk pxBlockToInsert))) XStart;
        let h = set_next (Blk pxBlockToInsert) (next_free h pxIterator) h;
        Some (set_next pxIterator (Blk pxBlockToInsert) h) })"

section \<open>Operations\<close>

text \<open>\<open>start\<close> and \<open>len\<close> are the heap's place and size, from the linker script.\<close>

definition prvHeapInit :: "nat \<Rightarrow> nat \<Rightarrow> Heap \<Rightarrow> Heap" where
  "prvHeapInit start len h = h\<lparr>
     headers := (headers h)
       (XStart := \<lparr>pxNextFreeBlock = Blk start, pxPrev = NullB, xBlockSize = 0\<rparr>,
        XEnd := \<lparr>pxNextFreeBlock = NullB, pxPrev = NullB, xBlockSize = len\<rparr>,
        Blk start := \<lparr>pxNextFreeBlock = XEnd, pxPrev = NullB, xBlockSize = len\<rparr>),
     payload := (\<lambda>a. if start \<le> a \<and> a < start + len then 0 else payload h a),
     xFreeBytesRemaining := len, configTOTAL_HEAP_SIZE := len, lastHeapAddress := start + len,
     startHeapAddress := start\<rparr>"

text \<open>The size with a header, rounded up, in 32 bits.\<close>

definition wanted_size :: "nat \<Rightarrow> nat" where
  "wanted_size n = (let s = (n + heapSTRUCT_SIZE) mod 2 ^ 32
     in if s mod portBYTE_ALIGNMENT \<noteq> 0 then (s + (portBYTE_ALIGNMENT - s mod portBYTE_ALIGNMENT)) mod 2 ^ 32 else s)"

text \<open>The search; the result is the entry found and the one before it.\<close>

partial_function (option) find_fit :: "Heap \<Rightarrow> nat \<Rightarrow> bptr \<Rightarrow> bptr \<Rightarrow> (bptr \<times> bptr) option" where
  "find_fit h s pxPreviousBlock pxBlock =
     (if xBlockSize (headers h pxBlock) < s \<and> next_free h pxBlock \<noteq> NullB
      then find_fit h s pxBlock (next_free h pxBlock) else Some (pxPreviousBlock, pxBlock))"

text \<open>What is done with the block found: it is split when enough is left over, and leaves the list.\<close>

definition split_block :: "nat \<Rightarrow> nat \<Rightarrow> Heap \<Rightarrow> Heap option" where
  "split_block s a h = (let size = xBlockSize (headers h (Blk a)) in
     if size - s > heapMINIMUM_BLOCK_SIZE then
       let b = a + s;
           h = set_size a s (set_size b (size - s) h);
           h = set_prev b (Blk a) h;
           h = (if \<not> IS_LAST_BLOCK h b then set_prev (NEXT_BLOCK h b) (Blk b) h else h)
       in prvInsertBlockIntoFreeList b (SET_ALLOCATED a h)
     else Some (SET_ALLOCATED a h))"

definition take_block :: "nat \<Rightarrow> bptr \<Rightarrow> nat \<Rightarrow> Heap \<Rightarrow> Heap option" where
  "take_block s pxPreviousBlock a h = do {
     let h = set_next pxPreviousBlock (next_free h (Blk a)) h;
     let h = set_next (Blk a) NullB h;
     h \<leftarrow> split_block s a h;
     Some (h\<lparr>xFreeBytesRemaining := xFreeBytesRemaining h - BLOCK_SIZE h a\<rparr>) }"

text \<open>The result is the address, 0 for \<^verbatim>\<open>NULL\<close>.  The scheduler is suspended meanwhile.\<close>

definition pvPortMalloc :: "nat \<Rightarrow> nat \<Rightarrow> nat \<Rightarrow> Heap \<Rightarrow> (nat \<times> Heap) option" where
  "pvPortMalloc start len xWantedSize h =
     (if xWantedSize = 0 then Some (0, h)
      else do {
        let h = h\<lparr>suspended := suspended h + 1\<rparr>;
        let h = (if \<not> xHeapHasBeenInitialised h then (prvHeapInit start len h)\<lparr>xHeapHasBeenInitialised := True\<rparr> else h);
        let s = wanted_size xWantedSize;
        (r, h) \<leftarrow> (if s > 0 \<and> s < configTOTAL_HEAP_SIZE h then do {
            (pxPreviousBlock, pxBlock) \<leftarrow> find_fit h s XStart (next_free h XStart);
            case pxBlock of
              XEnd \<Rightarrow> Some (0, h)
            | Blk a \<Rightarrow> do { h \<leftarrow> take_block s pxPreviousBlock a h; Some (a + heapSTRUCT_SIZE, h) }
            | _ \<Rightarrow> None }
          else Some (0, h));
        Some (r, h\<lparr>suspended := suspended h - 1\<rparr>) })"

text \<open>A block is marked as free and put on the list.\<close>

definition release_block :: "nat \<Rightarrow> Heap \<Rightarrow> Heap option" where
  "release_block a h = do {
     let h = SET_FREE a (h\<lparr>suspended := suspended h + 1\<rparr>);
     h \<leftarrow> prvInsertBlockIntoFreeList a (h\<lparr>xFreeBytesRemaining := xFreeBytesRemaining h + BLOCK_SIZE h a\<rparr>);
     Some (h\<lparr>suspended := suspended h - 1\<rparr>) }"

definition vPortFree :: "nat \<Rightarrow> nat \<Rightarrow> Heap \<Rightarrow> Heap option" where
  "vPortFree start pv h =
     (if pv \<noteq> 0 \<and> (pv < start \<or> lastHeapAddress h < pv) then None
      else if pv = 0 then Some h
      else release_block (pv - heapSTRUCT_SIZE) h)"

definition pvPortReAlloc :: "nat \<Rightarrow> nat \<Rightarrow> nat \<Rightarrow> nat \<Rightarrow> Heap \<Rightarrow> (nat \<times> Heap) option" where
  "pvPortReAlloc start len pv xWantedSize h =
     (if pv \<noteq> 0 \<and> (pv < start \<or> lastHeapAddress h < pv) then None
      else if pv \<noteq> 0 then
        if xWantedSize = 0 then map_option (\<lambda>h. (0, h)) (vPortFree start pv h)
        else do {
          (newArea, h) \<leftarrow> pvPortMalloc start len xWantedSize h;
          if newArea \<noteq> 0 then do {
            let a = pv - heapSTRUCT_SIZE;
            let copySize = min (BLOCK_SIZE h a - heapSTRUCT_SIZE) xWantedSize;
            let h = h\<lparr>payload := \<lambda>x. if newArea \<le> x \<and> x < newArea + copySize
                then payload h (pv + (x - newArea)) else payload h x\<rparr>;
            h \<leftarrow> release_block a h;
            Some (newArea, h) }
          else Some (0, h) }
      else if xWantedSize \<noteq> 0 then pvPortMalloc start len xWantedSize h
      else Some (0, h))"

text \<open>
  A second memory bank: the end of the heap becomes an allocated block that spans the hole before the bank.
  The result is \<^verbatim>\<open>pdPASS\<close>; the failures leave without resuming the scheduler.  Differences are in 32 bits.
\<close>

partial_function (option) find_last :: "Heap \<Rightarrow> nat \<Rightarrow> nat option" where
  "find_last h a = (if IS_LAST_BLOCK h a then Some a else find_last h (NEXT_BLOCK h a))"

partial_function (option) find_bank_place :: "Heap \<Rightarrow> nat \<Rightarrow> bptr \<Rightarrow> bptr option" where
  "find_bank_place h s p =
     (if next_free h p = NullB then None
      else if next_free h p \<noteq> XEnd \<and> xBlockSize (headers h (next_free h p)) < s then find_bank_place h s (next_free h p)
      else Some p)"

definition minus32 :: "nat \<Rightarrow> nat \<Rightarrow> nat" where
  "minus32 a b = (a + (2 ^ 32 - b)) mod 2 ^ 32"

definition aligned_bank :: "nat \<Rightarrow> nat \<Rightarrow> nat \<times> nat" where
  "aligned_bank chunk_start bytes =
     (let (chunk_start, bytes) = (if chunk_start mod portBYTE_ALIGNMENT \<noteq> 0
        then let chunk_start = chunk_start + (portBYTE_ALIGNMENT - chunk_start mod portBYTE_ALIGNMENT)
          in (chunk_start, minus32 bytes (portBYTE_ALIGNMENT - chunk_start mod portBYTE_ALIGNMENT))
        else (chunk_start, bytes))
      in (chunk_start, bytes - bytes mod portBYTE_ALIGNMENT))"

definition link_bank :: "nat \<Rightarrow> nat \<Rightarrow> Heap \<Rightarrow> Heap option" where
  "link_bank b bytes h = do {
     let h = set_size b bytes h;
     let h = set_next (Blk b) XEnd h;
     p \<leftarrow> find_bank_place h bytes XStart;
     if next_free h p = XEnd then Some (set_next p (Blk b) h)
     else Some (set_next p (Blk b) (set_next (Blk b) (next_free h p) h)) }"

definition bridge_hole :: "nat \<Rightarrow> nat \<Rightarrow> nat \<Rightarrow> Heap \<Rightarrow> nat \<times> Heap" where
  "bridge_hole chunk_start bytes l h =
     (let h = set_size l (minus32 (xBlockSize (headers h (Blk l))) heapSTRUCT_SIZE) h;
          unalignment = xBlockSize (headers h (Blk l)) mod portBYTE_ALIGNMENT;
          h = set_size l (xBlockSize (headers h (Blk l)) - unalignment) h;
          m = NEXT_BLOCK h l;
          h = set_size m ((minus32 chunk_start (lastHeapAddress h) + heapSTRUCT_SIZE + unalignment) mod 2 ^ 32) h;
          h = SET_ALLOCATED m (set_prev m (Blk l) (set_next (Blk m) NullB h));
          total = configTOTAL_HEAP_SIZE h + bytes;
          h = h\<lparr>lastHeapAddress := chunk_start + bytes, xFreeBytesRemaining := xFreeBytesRemaining h + bytes,
                configTOTAL_HEAP_SIZE := total, headers := (headers h)(XEnd := (headers h XEnd)\<lparr>xBlockSize := total\<rparr>)\<rparr>
      in (m, h))"

definition prvHeapAddMemBank :: "nat \<Rightarrow> nat \<Rightarrow> nat \<Rightarrow> nat \<Rightarrow> Heap \<Rightarrow> (bool \<times> Heap) option" where
  "prvHeapAddMemBank start len chunk_start bytes h = do {
     let (chunk_start, bytes) = aligned_bank chunk_start bytes;
     let h = h\<lparr>suspended := suspended h + 1\<rparr>;
     let h = (if \<not> xHeapHasBeenInitialised h then (prvHeapInit start len h)\<lparr>xHeapHasBeenInitialised := True\<rparr> else h);
     l \<leftarrow> find_last h (startHeapAddress h);
     if \<not> IS_FREE_BLOCK h l then Some (False, h)
     else if minus32 chunk_start (lastHeapAddress h) < heapMINIMUM_BLOCK_SIZE then Some (False, h)
     else if chunk_start < startHeapAddress h then Some (False, h)
     else do {
       let (m, h) = bridge_hole chunk_start bytes l h;
       let b = NEXT_BLOCK h m;
       h \<leftarrow> link_bank b bytes (set_prev b (Blk m) h);
       Some (True, h\<lparr>suspended := suspended h - 1\<rparr>) } }"

definition xPortGetFreeHeapSize :: "Heap \<Rightarrow> nat" where
  "xPortGetFreeHeapSize h = xFreeBytesRemaining h"

text \<open>The self test (\<open>trace\<close> is 0) adds the sizes up, for at most so many blocks.\<close>

fun self_test_loop :: "nat \<Rightarrow> Heap \<Rightarrow> nat \<Rightarrow> nat \<Rightarrow> nat" where
  "self_test_loop 0 h a totalSize = totalSize"
| "self_test_loop (Suc n) h a totalSize =
     (let totalSize = totalSize + BLOCK_SIZE h a
      in if IS_LAST_BLOCK h a then totalSize else self_test_loop n h (NEXT_BLOCK h a) totalSize)"

definition vHeapSelfTest :: "Heap \<Rightarrow> nat" where
  "vHeapSelfTest h =
     (if self_test_loop 10000 h (startHeapAddress h) 0 \<noteq> configTOTAL_HEAP_SIZE h then 1 else 0)"

section \<open>Reading after writing\<close>

abbreviation (input) block_size :: "Heap \<Rightarrow> nat \<Rightarrow> nat" where
  "block_size h a \<equiv> xBlockSize (headers h (Blk a))"

abbreviation (input) block_prev :: "Heap \<Rightarrow> nat \<Rightarrow> bptr" where
  "block_prev h a \<equiv> pxPrev (headers h (Blk a))"

lemma next_after [simp]:
  "next_free (set_next p q h) r = (if r = p then q else next_free h r)"
  "next_free (set_prev a q h) r = next_free h r"
  "next_free (set_size a s h) r = next_free h r"
  "next_free (h\<lparr>suspended := n\<rparr>) r = next_free h r"
  "next_free (h\<lparr>xFreeBytesRemaining := n\<rparr>) r = next_free h r"
  "next_free (h\<lparr>payload := d\<rparr>) r = next_free h r"
  by (simp_all add: next_free_def set_next_def set_prev_def set_size_def)

lemma size_after [simp]:
  "xBlockSize (headers (set_next p q h) r) = xBlockSize (headers h r)"
  "xBlockSize (headers (set_prev a q h) r) = xBlockSize (headers h r)"
  "xBlockSize (headers (set_size a s h) r) = (if r = Blk a then s else xBlockSize (headers h r))"
  by (simp_all add: set_next_def set_prev_def set_size_def)

lemma prev_after [simp]:
  "pxPrev (headers (set_next p q h) r) = pxPrev (headers h r)"
  "pxPrev (headers (set_prev a q h) r) = (if r = Blk a then q else pxPrev (headers h r))"
  "pxPrev (headers (set_size a s h) r) = pxPrev (headers h r)"
  by (simp_all add: set_next_def set_prev_def set_size_def)

lemma BLOCK_SIZE_after [simp]:
  "BLOCK_SIZE (set_next p q h) x = BLOCK_SIZE h x" "BLOCK_SIZE (set_prev a q h) x = BLOCK_SIZE h x"
  by (simp_all add: BLOCK_SIZE_def)

text \<open>What the operations on headers leave alone.\<close>

definition rest where
  "rest h = (payload h, xFreeBytesRemaining h, configTOTAL_HEAP_SIZE h, lastHeapAddress h, startHeapAddress h,
     xHeapHasBeenInitialised h, suspended h)"

lemma rest_after [simp]:
  "rest (set_next p q h) = rest h" "rest (set_prev a q h) = rest h" "rest (set_size a s h) = rest h"
  by (simp_all add: rest_def set_next_def set_prev_def set_size_def)

lemma restD:
  assumes "rest h' = rest h"
  shows "payload h' = payload h" "xFreeBytesRemaining h' = xFreeBytesRemaining h"
    "configTOTAL_HEAP_SIZE h' = configTOTAL_HEAP_SIZE h" "lastHeapAddress h' = lastHeapAddress h"
    "startHeapAddress h' = startHeapAddress h" "xHeapHasBeenInitialised h' = xHeapHasBeenInitialised h"
    "suspended h' = suspended h"
  using assms by (simp_all add: rest_def)

lemma place_after [simp]:
  "lastHeapAddress (set_next p q h) = lastHeapAddress h" "lastHeapAddress (set_prev a q h) = lastHeapAddress h"
  "lastHeapAddress (set_size a s h) = lastHeapAddress h"
  "startHeapAddress (set_next p q h) = startHeapAddress h" "startHeapAddress (set_prev a q h) = startHeapAddress h"
  "startHeapAddress (set_size a s h) = startHeapAddress h"
  "configTOTAL_HEAP_SIZE (set_next p q h) = configTOTAL_HEAP_SIZE h"
  "configTOTAL_HEAP_SIZE (set_prev a q h) = configTOTAL_HEAP_SIZE h"
  "configTOTAL_HEAP_SIZE (set_size a s h) = configTOTAL_HEAP_SIZE h"
  by (simp_all add: set_next_def set_prev_def set_size_def)

section \<open>The list as a sequence of addresses\<close>

fun links :: "Heap \<Rightarrow> bptr \<Rightarrow> nat list \<Rightarrow> bool" where
  "links h p [] \<longleftrightarrow> next_free h p = XEnd"
| "links h p (x # xs) \<longleftrightarrow> next_free h p = Blk x \<and> links h (Blk x) xs"

fun tip :: "bptr \<Rightarrow> nat list \<Rightarrow> bptr" where
  "tip p [] = p"
| "tip p (x # xs) = tip (Blk x) xs"

lemma tip_cases: "tip p xs = p \<or> tip p xs \<in> Blk ` set xs"
  by (induction p xs rule: tip.induct) auto

lemma links_cong:
  assumes "\<And>r. r = p \<or> r \<in> Blk ` set xs \<Longrightarrow> next_free h' r = next_free h r"
  shows "links h' p xs = links h p xs"
  using assms by (induction xs arbitrary: p) auto

lemma links_tip: "links h p (us @ vs) \<Longrightarrow> links h (tip p us) vs"
  by (induction us arbitrary: p) auto

lemma links_unlink:
  assumes "links h p (us @ a # vs)" "distinct (us @ a # vs)" "p \<notin> Blk ` set (us @ a # vs)"
  shows "links (set_next (tip p us) (next_free h (Blk a)) h) p (us @ vs)"
  using assms
proof (induction us arbitrary: p)
  case Nil
  then show ?case by (cases vs) (auto intro!: iffD2 [OF links_cong [where h = h]])
next
  case (Cons u us)
  have "tip (Blk u) us \<noteq> p" using tip_cases [of "Blk u" us] Cons.prems(3) by auto
  then show ?case using Cons by auto
qed

lemma links_insert:
  assumes "links h p (us @ vs)" "a \<notin> set (us @ vs)" "distinct (us @ vs)"
    "p \<notin> Blk ` set (us @ vs)" "p \<noteq> Blk a"
  shows "links (set_next (tip p us) (Blk a) (set_next (Blk a) (next_free h (tip p us)) h)) p (us @ a # vs)"
  using assms
proof (induction us arbitrary: p)
  case Nil
  then show ?case by (cases vs) (auto intro!: iffD2 [OF links_cong [where h = h]])
next
  case (Cons u us)
  have "tip (Blk u) us \<noteq> p" using tip_cases [of "Blk u" us] Cons.prems(4) by auto
  then show ?case using Cons by auto
qed

lemma find_before_tip:
  assumes "links h p (us @ a # vs)" "a \<notin> set us"
  shows "find_before h (Blk a) p = Some (tip p us)"
  using assms by (induction us arbitrary: p) (auto simp: find_before.simps [of h "Blk a"])

lemma unlinked:
  assumes l: "links h XStart fs" and d: "distinct fs" and a: "a \<in> set fs"
  shows "\<exists>h'. unlink_block a h = Some h' \<and> links h' XStart (remove1 a fs) \<and> rest h' = rest h
    \<and> (\<forall>r. xBlockSize (headers h' r) = xBlockSize (headers h r)) \<and> (\<forall>r. pxPrev (headers h' r) = pxPrev (headers h r))
    \<and> next_free h' XEnd = next_free h XEnd"
proof -
  obtain us vs where fs: "fs = us @ a # vs" "a \<notin> set us" using split_list_first [OF a] by auto
  have "next_free h (tip XStart us) = Blk a" using links_tip [of h XStart us "a # vs"] l fs by simp
  moreover have "remove1 a fs = us @ vs" using fs by (simp add: remove1_append)
  moreover have "tip XStart us \<noteq> XEnd" using tip_cases [of XStart us] by auto
  ultimately show ?thesis
    using find_before_tip [of h XStart us a vs] links_unlink [of h XStart us a vs] l d fs
    by (auto simp: unlink_block_def)
qed

text \<open>The place of a block is where insertion by size puts it.\<close>

lemma place_found:
  assumes "links h p fs" "s \<le> xBlockSize (headers h XEnd)"
  shows "find_place h s p = Some (tip p (takeWhile (\<lambda>x. block_size h x < s) fs))"
  using assms by (induction fs arbitrary: p) (auto simp: find_place.simps [of h s])

lemma insort_at: "insort_key f a fs = takeWhile (\<lambda>x. f x < f a) fs @ a # dropWhile (\<lambda>x. f x < f a) fs"
  by (induction fs) auto

lemma placed:
  assumes l: "links h XStart fs" and d: "distinct fs" and a: "a \<notin> set fs"
    and s: "block_size h a \<le> xBlockSize (headers h XEnd)"
  shows "\<exists>p. find_place h (block_size h a) XStart = Some p \<and> p \<noteq> XEnd
    \<and> links (set_next p (Blk a) (set_next (Blk a) (next_free h p) h)) XStart (insort_key (block_size h) a fs)"
proof -
  let ?us = "takeWhile (\<lambda>x. block_size h x < block_size h a) fs"
  let ?vs = "dropWhile (\<lambda>x. block_size h x < block_size h a) fs"
  have "tip XStart ?us \<noteq> XEnd" using tip_cases [of XStart ?us] by auto
  moreover have "links (set_next (tip XStart ?us) (Blk a) (set_next (Blk a) (next_free h (tip XStart ?us)) h)) XStart
      (?us @ a # ?vs)"
    using l d a by (intro links_insert) auto
  ultimately show ?thesis using place_found [OF l s] by (simp add: insort_at)
qed

section \<open>The heap as a sequence of blocks\<close>

text \<open>A block is its size and whether it is allocated; the blocks follow each other from the start of the heap.\<close>

type_synonym blocks = "(nat \<times> bool) list"

definition span :: "blocks \<Rightarrow> nat" where
  "span bs = sum_list (map fst bs)"

lemma span_simps [simp]:
  "span [] = 0" "span (b # bs) = fst b + span bs" "span (xs @ ys) = span xs + span ys"
  by (simp_all add: span_def)

fun serial :: "Heap \<Rightarrow> bptr \<Rightarrow> nat \<Rightarrow> blocks \<Rightarrow> bool" where
  "serial h p a [] \<longleftrightarrow> True"
| "serial h p a ((s, u) # bs) \<longleftrightarrow>
     block_size h a = s + of_bool u \<and> block_prev h a = p \<and> serial h (Blk a) (a + s) bs"

fun end_ptr :: "bptr \<Rightarrow> nat \<Rightarrow> blocks \<Rightarrow> bptr" where
  "end_ptr p a [] = p"
| "end_ptr p a ((s, u) # bs) = end_ptr (Blk a) (a + s) bs"

definition proper :: "blocks \<Rightarrow> bool" where
  "proper bs \<longleftrightarrow> (\<forall>(s, u) \<in> set bs. 8 dvd s \<and> 16 \<le> s)"

lemma proper_simps [simp]:
  "proper []" "proper ((s, u) # bs) \<longleftrightarrow> 8 dvd s \<and> 16 \<le> s \<and> proper bs" "proper (xs @ ys) \<longleftrightarrow> proper xs \<and> proper ys"
  by (auto simp: proper_def)

lemma serial_append: "serial h p a (xs @ ys) \<longleftrightarrow> serial h p a xs \<and> serial h (end_ptr p a xs) (a + span xs) ys"
  by (induction xs arbitrary: p a) (auto simp: add.assoc)

lemma end_ptr_snoc: "end_ptr p a (xs @ [(s, u)]) = Blk (a + span xs)"
  by (induction xs arbitrary: p a) auto

text \<open>Headers outside of a stretch do not matter to it.\<close>

lemma serial_frame:
  assumes "serial h p a bs" "proper bs"
    "\<And>x. a \<le> x \<Longrightarrow> x < a + span bs \<Longrightarrow> block_size h' x = block_size h x \<and> block_prev h' x = block_prev h x"
  shows "serial h' p a bs"
  using assms
proof (induction bs arbitrary: p a)
  case (Cons b bs)
  obtain s u where b: "b = (s, u)" by force
  have "serial h' (Blk a) (a + s) bs" by (rule Cons.IH) (use Cons.prems b in auto)
  moreover have "block_size h' a = block_size h a \<and> block_prev h' a = block_prev h a"
    by (rule Cons.prems(3)) (use Cons.prems(2) b in auto)
  ultimately show ?case using Cons.prems(1) b by simp
qed simp

text \<open>The block behind a changed one gets a new predecessor.\<close>

lemma serial_reprev:
  assumes "serial h p a bs" "proper bs"
    "\<And>x. a \<le> x \<Longrightarrow> block_size h' x = block_size h x"
    "\<And>x. a < x \<Longrightarrow> block_prev h' x = block_prev h x" "bs \<noteq> [] \<Longrightarrow> block_prev h' a = q"
  shows "serial h' q a bs"
proof (cases bs)
  case (Cons b bs')
  obtain s u where b: "b = (s, u)" by force
  have "serial h' (Blk a) (a + s) bs'" by (rule serial_frame [of h]) (use assms b Cons in auto)
  then show ?thesis using assms b Cons by simp
qed simp

text \<open>Two neighbours become one block, one block becomes two, a block changes its mark.\<close>

lemma serial_merge:
  assumes "serial h p a (xs @ (s, u) # (t, v) # ys)" "proper (xs @ (s, u) # (t, v) # ys)"
    "\<And>x. block_size h' x = (if x = a + span xs then s + t else block_size h x)"
    "\<And>x. block_prev h' x = (if ys \<noteq> [] \<and> x = a + span xs + s + t then Blk (a + span xs) else block_prev h x)"
  shows "serial h' p a (xs @ (s + t, False) # ys)"
proof -
  have "serial h' p a xs"
    by (rule serial_frame [of h]) (use assms in \<open>auto simp: serial_append\<close>)
  moreover have "serial h' (Blk (a + span xs)) (a + span xs + s + t) ys"
    by (rule serial_reprev [of h "Blk (a + span xs + s)"]) (use assms in \<open>auto simp: serial_append add.assoc\<close>)
  moreover have "block_prev h' (a + span xs) = block_prev h (a + span xs)" using assms by auto
  ultimately show ?thesis using assms by (auto simp: serial_append add.assoc)
qed

lemma serial_split:
  assumes "serial h p a (xs @ (t, u) # ys)" "proper (xs @ (t, u) # ys)" "0 < s" "s < t"
    "\<And>x. block_size h' x = (if x = a + span xs then s + 1 else if x = a + span xs + s then t - s else block_size h x)"
    "\<And>x. block_prev h' x = (if ys \<noteq> [] \<and> x = a + span xs + t then Blk (a + span xs + s)
       else if x = a + span xs + s then Blk (a + span xs) else block_prev h x)"
  shows "serial h' p a (xs @ (s, True) # (t - s, False) # ys)"
proof -
  have "serial h' p a xs"
    by (rule serial_frame [of h]) (use assms in \<open>auto simp: serial_append\<close>)
  moreover have "serial h' (Blk (a + span xs + s)) (a + span xs + t) ys"
    by (rule serial_reprev [of h "Blk (a + span xs)"]) (use assms in \<open>auto simp: serial_append add.assoc\<close>)
  ultimately show ?thesis using assms by (auto simp: serial_append add.assoc)
qed

lemma serial_mark:
  assumes "serial h p a (xs @ (s, u) # ys)" "proper (xs @ (s, u) # ys)"
    "\<And>x. block_size h' x = (if x = a + span xs then s + of_bool v else block_size h x)"
    "\<And>x. block_prev h' x = block_prev h x"
  shows "serial h' p a (xs @ (s, v) # ys)"
proof -
  have "serial h' p a xs"
    by (rule serial_frame [of h]) (use assms in \<open>auto simp: serial_append\<close>)
  moreover have "serial h' (Blk (a + span xs)) (a + span xs + s) ys"
    by (rule serial_frame [of h]) (use assms in \<open>auto simp: serial_append add.assoc\<close>)
  ultimately show ?thesis using assms by (auto simp: serial_append add.assoc)
qed

text \<open>The addresses of the free blocks.\<close>

fun frees :: "nat \<Rightarrow> blocks \<Rightarrow> nat list" where
  "frees a [] = []"
| "frees a ((s, u) # bs) = (if u then [] else [a]) @ frees (a + s) bs"

lemma frees_append [simp]: "frees a (xs @ ys) = frees a xs @ frees (a + span xs) ys"
  by (induction xs arbitrary: a) (auto simp: add.assoc)

lemma frees_within: "proper bs \<Longrightarrow> x \<in> set (frees a bs) \<Longrightarrow> a \<le> x \<and> x < a + span bs"
  by (induction bs arbitrary: a) (fastforce split: if_splits)+

lemma frees_size: "serial h p a bs \<Longrightarrow> x \<in> set (frees a bs) \<Longrightarrow> block_size h x \<le> span bs"
  by (induction bs arbitrary: p a) (fastforce split: if_splits)+

lemma frees_found:
  assumes "serial h p a bs" "x \<in> set (frees a bs)"
  shows "\<exists>xs t ys. bs = xs @ (t, False) # ys \<and> x = a + span xs \<and> block_size h x = t"
  using assms
proof (induction bs arbitrary: p a)
  case (Cons b bs)
  obtain s u where b: "b = (s, u)" by force
  show ?case
  proof (cases "\<not> u \<and> x = a")
    case True
    then show ?thesis using Cons.prems b by (intro exI [of _ "[]"]) auto
  next
    case False
    then have "x \<in> set (frees (a + s) bs)" using Cons.prems(2) b by (auto split: if_splits)
    then obtain xs t ys where "bs = xs @ (t, False) # ys" "x = a + s + span xs" "block_size h x = t"
      using Cons.IH Cons.prems(1) b by fastforce
    then show ?thesis using b by (intro exI [of _ "b # xs"]) (auto simp: add.assoc)
  qed
qed simp

lemma block_there:
  assumes "serial h p a (xs @ (s, u) # ys)" "proper (xs @ (s, u) # ys)"
  shows "BLOCK_SIZE h (a + span xs) = s" "IS_FREE_BLOCK h (a + span xs) \<longleftrightarrow> \<not> u"
    "block_size h (a + span xs) = s + of_bool u" "block_prev h (a + span xs) = end_ptr p a xs"
    "NEXT_BLOCK h (a + span xs) = a + span xs + s"
proof -
  have e: "even s" using assms(2) by (auto dest: dvd_trans [of 2 8 s, rotated])
  have b: "block_size h (a + span xs) = s + of_bool u" using assms(1) by (simp add: serial_append)
  then show "BLOCK_SIZE h (a + span xs) = s" using e
    by (auto simp: BLOCK_SIZE_def Let_def elim!: evenE)
  then show "NEXT_BLOCK h (a + span xs) = a + span xs + s" by (simp add: NEXT_BLOCK_def)
  show "IS_FREE_BLOCK h (a + span xs) \<longleftrightarrow> \<not> u" using e b by (simp add: IS_FREE_BLOCK_def)
  show "block_size h (a + span xs) = s + of_bool u" by (rule b)
  show "block_prev h (a + span xs) = end_ptr p a xs" using assms(1) by (simp add: serial_append)
qed

text \<open>The headers are in order.\<close>

definition structured :: "Heap \<Rightarrow> blocks \<Rightarrow> bool" where
  "structured h bs \<longleftrightarrow> serial h NullB (startHeapAddress h) bs \<and> proper bs \<and> span bs = configTOTAL_HEAP_SIZE h
     \<and> lastHeapAddress h = startHeapAddress h + span bs
     \<and> next_free h XEnd = NullB \<and> xBlockSize (headers h XEnd) = configTOTAL_HEAP_SIZE h"

text \<open>The list holds these blocks, ordered by size.\<close>

definition listed :: "Heap \<Rightarrow> nat set \<Rightarrow> bool" where
  "listed h A \<longleftrightarrow> (\<exists>fs. links h XStart fs \<and> distinct fs \<and> set fs = A \<and> sorted (map (block_size h) fs))"

text \<open>The blocks fill the heap up to its end.\<close>

definition laid_out :: "Heap \<Rightarrow> blocks \<Rightarrow> bool" where
  "laid_out h bs \<longleftrightarrow> serial h NullB (startHeapAddress h) bs \<and> proper bs \<and> lastHeapAddress h = startHeapAddress h + span bs"

lemma structured_laid_out: "structured h bs \<Longrightarrow> laid_out h bs"
  by (simp add: structured_def laid_out_def)

lemma last_laid_out:
  assumes "laid_out h (xs @ (s, u) # ys)"
  shows "IS_LAST_BLOCK h (startHeapAddress h + span xs) \<longleftrightarrow> ys = []"
proof -
  have "proper ys" using assms by (simp add: laid_out_def)
  then have "ys = [] \<longleftrightarrow> span ys = 0" by (cases ys) (auto split: prod.splits)
  then show ?thesis using assms block_there [of h NullB "startHeapAddress h" xs s u ys]
    by (auto simp: laid_out_def IS_LAST_BLOCK_def)
qed

lemmas last_block = last_laid_out [OF structured_laid_out]

lemma unlisted:
  assumes "listed h A" "a \<in> A"
  shows "\<exists>h'. unlink_block a h = Some h' \<and> listed h' (A - {a}) \<and> rest h' = rest h
    \<and> (\<forall>r. xBlockSize (headers h' r) = xBlockSize (headers h r)) \<and> (\<forall>r. pxPrev (headers h' r) = pxPrev (headers h r))
    \<and> next_free h' XEnd = next_free h XEnd"
proof -
  obtain fs where fs: "links h XStart fs" "distinct fs" "set fs = A" "sorted (map (block_size h) fs)"
    using assms(1) by (auto simp: listed_def)
  show ?thesis using unlinked [OF fs(1,2), of a] fs assms(2)
    by (auto simp: listed_def intro!: exI [of _ "remove1 a fs"] sorted_map_remove1)
qed

lemma listed_frame:
  assumes "listed h A" "\<And>r. next_free h' r = next_free h r" "\<And>x. x \<in> A \<Longrightarrow> block_size h' x = block_size h x"
  shows "listed h' A"
proof -
  obtain fs where fs: "links h XStart fs" "distinct fs" "set fs = A" "sorted (map (block_size h) fs)"
    using assms(1) by (auto simp: listed_def)
  have "links h' XStart fs" using fs(1) links_cong [of XStart fs h' h] assms(2) by simp
  moreover have "map (block_size h') fs = map (block_size h) fs" using fs(3) assms(3) by auto
  then have "sorted (map (block_size h') fs)" using fs(4) by (simp only:)
  ultimately show ?thesis using fs(2,3) unfolding listed_def by blast
qed

lemma listed_resize:
  assumes "listed h A" "a \<notin> A" "\<And>r. next_free h' r = next_free h r" "\<And>x. x \<noteq> a \<Longrightarrow> block_size h' x = block_size h x"
  shows "listed h' A"
  by (rule listed_frame [OF assms(1,3)]) (use assms(2,4) in fastforce)

lemma listed_insert:
  assumes "listed h A" "a \<notin> A" "block_size h a \<le> xBlockSize (headers h XEnd)"
  shows "\<exists>p. find_place h (block_size h a) XStart = Some p \<and> p \<noteq> XEnd
    \<and> listed (set_next p (Blk a) (set_next (Blk a) (next_free h p) h)) (insert a A)"
proof -
  obtain fs where fs: "links h XStart fs" "distinct fs" "set fs = A" "sorted (map (block_size h) fs)"
    using assms(1) by (auto simp: listed_def)
  obtain p where "find_place h (block_size h a) XStart = Some p" "p \<noteq> XEnd"
    "links (set_next p (Blk a) (set_next (Blk a) (next_free h p) h)) XStart (insort_key (block_size h) a fs)"
    using placed [OF fs(1,2) _ assms(3)] assms(2) fs(3) by auto
  then show ?thesis using fs assms(2)
    by (auto simp: listed_def sorted_insort_key distinct_insort set_insort_key
      intro!: exI [of _ "insort_key (block_size h) a fs"])
qed

text \<open>Headers keep their order under a change of the list and of the other fields.\<close>

lemma structured_frame:
  assumes "structured h bs" "rest h' = rest h" "next_free h' XEnd = next_free h XEnd"
    "\<And>r. xBlockSize (headers h' r) = xBlockSize (headers h r)" "\<And>r. pxPrev (headers h' r) = pxPrev (headers h r)"
  shows "structured h' bs"
  using assms restD [OF assms(2)] unfolding structured_def by (auto intro: serial_frame [of h])

lemma structured_merge:
  assumes "structured h (xs @ (s, u) # (t, v) # ys)" "rest h' = rest h" "next_free h' XEnd = next_free h XEnd"
    "xBlockSize (headers h' XEnd) = xBlockSize (headers h XEnd)" "a = startHeapAddress h + span xs"
    "\<And>x. block_size h' x = (if x = a then s + t else block_size h x)"
    "\<And>x. block_prev h' x = (if ys \<noteq> [] \<and> x = a + s + t then Blk a else block_prev h x)"
  shows "structured h' (xs @ (s + t, False) # ys)"
proof -
  have "serial h' NullB (startHeapAddress h) (xs @ (s + t, False) # ys)"
    by (rule serial_merge [of h]) (use assms in \<open>auto simp: structured_def\<close>)
  then show ?thesis using assms restD [OF assms(2)] by (auto simp: structured_def)
qed

section \<open>Putting a block on the list\<close>

text \<open>What the merges do to the blocks: a free one behind is absorbed, then a free one before.\<close>

definition after_free :: "nat \<Rightarrow> blocks \<Rightarrow> blocks" where
  "after_free s ys = (case ys of (t, False) # zs \<Rightarrow> (s + t, False) # zs | _ \<Rightarrow> (s, False) # ys)"

definition coalesce :: "blocks \<Rightarrow> nat \<Rightarrow> blocks \<Rightarrow> blocks" where
  "coalesce xs s ys = (if xs \<noteq> [] \<and> \<not> snd (last xs)
     then butlast xs @ (fst (last xs) + fst (hd (after_free s ys)), False) # tl (after_free s ys)
     else xs @ after_free s ys)"

text \<open>No two free blocks are neighbours.\<close>

abbreviation (input) apart :: "blocks \<Rightarrow> bool" where
  "apart bs \<equiv> successively (\<lambda>b c. snd b \<or> snd c) bs"

abbreviation (input) frees_around :: "Heap \<Rightarrow> blocks \<Rightarrow> nat \<Rightarrow> blocks \<Rightarrow> nat set" where
  "frees_around h xs s ys \<equiv>
     set (frees (startHeapAddress h) xs) \<union> set (frees (startHeapAddress h + span xs + s) ys)"

lemma front_merged:
  assumes st: "structured h (xs @ (s, False) # ys)" and l: "listed h (frees_around h xs s ys)" and ap: "apart ys"
  shows "\<exists>h' t zs. front_merge (startHeapAddress h + span xs) h = Some h' \<and> after_free s ys = (t, False) # zs
    \<and> structured h' (xs @ (t, False) # zs) \<and> listed h' (frees_around h' xs t zs) \<and> rest h' = rest h
    \<and> apart zs \<and> (zs \<noteq> [] \<longrightarrow> snd (hd zs))"
proof -
  let ?a = "startHeapAddress h + span xs"
  have pr: "proper (xs @ (s, False) # ys)" and se: "serial h NullB (startHeapAddress h) (xs @ (s, False) # ys)"
    using st by (auto simp: structured_def)
  note at = block_there [OF se pr]
  show ?thesis
  proof (cases "ys \<noteq> [] \<and> \<not> snd (hd ys)")
    case False
    have "\<not> (\<not> IS_LAST_BLOCK h ?a \<and> IS_FREE_BLOCK h (?a + s))"
    proof (cases ys)
      case Nil
      then show ?thesis using last_block [OF st] by simp
    next
      case (Cons y zs)
      then obtain t where "y = (t, True)" using False by (cases y) auto
      then show ?thesis using Cons block_there [of h NullB "startHeapAddress h" "xs @ [(s, False)]" t True zs] se pr
        by (simp add: add.assoc)
    qed
    moreover have "after_free s ys = (s, False) # ys"
      using False by (auto simp: after_free_def split: list.splits prod.splits bool.splits)
    ultimately show ?thesis using st l ap False at by (auto simp: front_merge_def)
  next
    case True
    then obtain t zs where ys: "ys = (t, False) # zs" by (cases ys) auto
    let ?m = "?a + s"
    have st': "structured h ((xs @ [(s, False)]) @ (t, False) # zs)" using st ys by simp
    have m: "IS_FREE_BLOCK h ?m" "BLOCK_SIZE h ?m = t"
      using block_there [of h NullB "startHeapAddress h" "xs @ [(s, False)]" t False zs] se pr ys
      by (simp_all add: add.assoc)
    have nl: "\<not> IS_LAST_BLOCK h ?a" "IS_LAST_BLOCK h ?m \<longleftrightarrow> zs = []"
      using last_block [OF st] last_block [OF st'] ys by (simp_all add: add.assoc)
    obtain h1 where h1: "unlink_block ?m h = Some h1" "listed h1 (frees_around h xs s ys - {?m})" "rest h1 = rest h"
      "\<And>r. xBlockSize (headers h1 r) = xBlockSize (headers h r)" "\<And>r. pxPrev (headers h1 r) = pxPrev (headers h r)"
      "next_free h1 XEnd = next_free h XEnd"
      using unlisted [OF l, of ?m] ys by auto
    have same: "BLOCK_SIZE h1 x = BLOCK_SIZE h x" "IS_LAST_BLOCK h1 x = IS_LAST_BLOCK h x"
      "NEXT_BLOCK h1 x = NEXT_BLOCK h x" for x
      using h1(4) restD [OF h1(3)] by (simp_all add: BLOCK_SIZE_def IS_LAST_BLOCK_def NEXT_BLOCK_def)
    let ?h2 = "if zs \<noteq> [] then set_prev (?m + t) (Blk ?a) h1 else h1"
    define h3 where h3: "h3 = set_size ?a (s + t) ?h2"
    have nx: "NEXT_BLOCK h ?m = ?m + t" using m by (simp add: NEXT_BLOCK_def)
    have "front_merge ?a h = Some h3"
      using h1(1,4) m nl same at nx by (simp add: front_merge_def Let_def h3)
    moreover have "structured h3 (xs @ (s + t, False) # zs)"
      by (rule structured_merge [of h xs s False t False zs _ ?a])
        (use st ys h1 h3 in \<open>auto simp: add.assoc\<close>)
    moreover have "frees_around h xs s ys - {?m} = frees_around h xs (s + t) zs"
      using frees_within [of xs ?m "startHeapAddress h"] frees_within [of zs ?m "?m + t"] pr ys by (auto simp: add.assoc)
    moreover have "?a \<notin> frees_around h xs s ys"
      using frees_within [of xs ?a "startHeapAddress h"] frees_within [of ys ?a ?m] pr by auto
    then have "listed h3 (frees_around h xs s ys - {?m})"
      by (intro listed_frame [OF h1(2)]) (use h1(4) h3 in auto)
    moreover have "rest h3 = rest h" using h1(3) h3 by simp
    moreover have "after_free s ys = (s + t, False) # zs" "apart zs \<and> (zs \<noteq> [] \<longrightarrow> snd (hd zs))"
      using ys ap by (auto simp: after_free_def successively_Cons)
    ultimately show ?thesis using restD [of h3 h] by auto
  qed
qed

lemma back_merged:
  assumes st: "structured h (xs @ (s, False) # ys)" and l: "listed h (frees_around h xs s ys)"
  shows "\<exists>a h' us t. back_merge (startHeapAddress h + span xs) h = Some (a, h') \<and> a = startHeapAddress h' + span us
    \<and> us @ (t, False) # ys = (if xs \<noteq> [] \<and> \<not> snd (last xs) then butlast xs @ (fst (last xs) + s, False) # ys
         else xs @ (s, False) # ys)
    \<and> structured h' (us @ (t, False) # ys) \<and> listed h' (frees_around h' us t ys) \<and> rest h' = rest h"
proof -
  let ?b = "startHeapAddress h"
  have pr: "proper (xs @ (s, False) # ys)" and se: "serial h NullB ?b (xs @ (s, False) # ys)"
    using st by (auto simp: structured_def)
  note at = block_there [OF se pr]
  show ?thesis
  proof (cases xs rule: rev_cases)
    case Nil
    then show ?thesis using st l by (auto simp: back_merge_def intro!: exI [of _ "[]"])
  next
    case (snoc us b)
    obtain t v where b: "b = (t, v)" by force
    let ?m = "?b + span us"
    have xs: "xs = us @ [(t, v)]" using snoc b by simp
    have t: "16 \<le> t" using pr xs by simp
    have prev: "block_prev h (?b + span xs) = Blk ?m" using at(4) xs end_ptr_snoc by simp
    have m: "IS_FREE_BLOCK h ?m \<longleftrightarrow> \<not> v" "block_size h ?m = t + of_bool v"
      using block_there [of h NullB ?b us t v "(s, False) # ys"] se pr xs by simp_all
    show ?thesis
    proof (cases v)
      case True
      then show ?thesis using st l prev m t xs by (auto simp: back_merge_def intro!: exI [of _ xs])
    next
      case False
      let ?a = "?m + t"
      have a: "?b + span xs = ?a" using xs by simp
      obtain h1 where h1: "unlink_block ?m h = Some h1" "listed h1 (frees_around h xs s ys - {?m})" "rest h1 = rest h"
        "\<And>r. xBlockSize (headers h1 r) = xBlockSize (headers h r)" "\<And>r. pxPrev (headers h1 r) = pxPrev (headers h r)"
        "next_free h1 XEnd = next_free h XEnd"
        using unlisted [OF l, of ?m] xs False by auto
      have same: "BLOCK_SIZE h1 x = BLOCK_SIZE h x" "IS_LAST_BLOCK h1 x = IS_LAST_BLOCK h x"
        "NEXT_BLOCK h1 x = NEXT_BLOCK h x" for x
        using h1(4) restD [OF h1(3)] by (simp_all add: BLOCK_SIZE_def IS_LAST_BLOCK_def NEXT_BLOCK_def)
      have lb: "IS_LAST_BLOCK h ?a \<longleftrightarrow> ys = []" using last_block [OF st] a by simp
      define h3 where h3: "h3 = set_size ?m (t + s) (if ys \<noteq> [] then set_prev (?a + s) (Blk ?m) h1 else h1)"
      have "back_merge ?a h = Some (?m, h3)"
        using h1(1,4) m lb same at prev a False t by (simp add: back_merge_def Let_def h3)
      moreover have "structured h3 (us @ (t + s, False) # ys)"
        by (rule structured_merge [of h us t v s False ys _ ?m])
          (use st xs h1 h3 in \<open>auto simp: add.assoc\<close>)
      moreover have "frees_around h xs s ys - {?m} = frees_around h us (t + s) ys"
        using frees_within [of us ?m ?b] frees_within [of ys ?m "?a + s"] pr xs False by (auto simp: add.assoc)
      moreover have "listed h3 (frees_around h xs s ys - {?m})"
        by (rule listed_frame [OF h1(2)]) (use h1(4) h3 in auto)
      moreover have "rest h3 = rest h" using h1(3) h3 by simp
      ultimately show ?thesis using xs a False restD [of h3 h]
        by (intro exI [of _ ?m]) (rule exI [of _ h3], rule exI [of _ us], rule exI [of _ "t + s"], simp add: add.assoc)
    qed
  qed
qed

text \<open>A block with a free mark that is not on the list yet is put on it, joined with its free neighbours.\<close>

lemma block_inserted:
  assumes st: "structured h (xs @ (s, False) # ys)" and l: "listed h (frees_around h xs s ys)" and ap: "apart ys"
  shows "\<exists>h'. prvInsertBlockIntoFreeList (startHeapAddress h + span xs) h = Some h'
    \<and> structured h' (coalesce xs s ys) \<and> listed h' (set (frees (startHeapAddress h) (coalesce xs s ys)))
    \<and> rest h' = rest h"
proof -
  let ?a = "startHeapAddress h + span xs"
  have fr: "IS_FREE_BLOCK h ?a" using block_there(2) [of h NullB "startHeapAddress h" xs s False ys] st
    by (simp add: structured_def)
  obtain h1 t zs where h1: "front_merge ?a h = Some h1" "after_free s ys = (t, False) # zs"
    "structured h1 (xs @ (t, False) # zs)" "listed h1 (frees_around h1 xs t zs)" "rest h1 = rest h"
    using front_merged [OF assms] by blast
  note eq1 = restD [OF h1(5)]
  have co: "coalesce xs s ys = (if xs \<noteq> [] \<and> \<not> snd (last xs) then butlast xs @ (fst (last xs) + t, False) # zs
      else xs @ (t, False) # zs)" by (simp add: coalesce_def h1(2))
  obtain b h2 us w where h2: "back_merge ?a h1 = Some (b, h2)" "b = startHeapAddress h2 + span us"
    "us @ (w, False) # zs = coalesce xs s ys"
    "structured h2 (us @ (w, False) # zs)" "listed h2 (frees_around h2 us w zs)" "rest h2 = rest h1"
    using back_merged [OF h1(3,4)] unfolding co [symmetric] eq1(5) by blast
  note eq2 = restD [OF h2(6)]
  have pr: "proper (us @ (w, False) # zs)" and se: "serial h2 NullB (startHeapAddress h2) (us @ (w, False) # zs)"
    using h2(4) by (auto simp: structured_def)
  have new: "b \<notin> frees_around h2 us w zs"
    using frees_within [of us b] frees_within [of zs b "b + w"] pr h2(2) by fastforce
  have "block_size h2 b = w" using block_there(3) [OF se pr] h2(2) by simp
  then have le: "block_size h2 b \<le> xBlockSize (headers h2 XEnd)" using h2(4) by (auto simp: structured_def)
  obtain p where p: "find_place h2 (block_size h2 b) XStart = Some p" "p \<noteq> XEnd"
    "listed (set_next p (Blk b) (set_next (Blk b) (next_free h2 p) h2)) (insert b (frees_around h2 us w zs))"
    using listed_insert [OF h2(5) new le] by blast
  let ?h3 = "set_next p (Blk b) (set_next (Blk b) (next_free h2 p) h2)"
  have "prvInsertBlockIntoFreeList ?a h = Some ?h3"
    using fr h1(1) h2(1) p(1) by (simp add: prvInsertBlockIntoFreeList_def)
  moreover have "structured ?h3 (us @ (w, False) # zs)" by (rule structured_frame [OF h2(4)]) (use p(2) in auto)
  moreover have "set (frees (startHeapAddress h) (us @ (w, False) # zs)) = insert b (frees_around h2 us w zs)"
    using h2(2) eq1 eq2 by auto
  ultimately show ?thesis using h2(3,6) h1(5) p(3) by auto
qed

section \<open>The invariant\<close>

definition free_bytes :: "blocks \<Rightarrow> nat" where
  "free_bytes bs = sum_list (map (\<lambda>(s, u). if u then 0 else s) bs)"

lemma free_bytes_simps [simp]:
  "free_bytes [] = 0" "free_bytes ((s, u) # bs) = (if u then 0 else s) + free_bytes bs"
  "free_bytes (xs @ ys) = free_bytes xs + free_bytes ys"
  by (simp_all add: free_bytes_def)

definition heap_ok :: "Heap \<Rightarrow> blocks \<Rightarrow> bool" where
  "heap_ok h bs \<longleftrightarrow> structured h bs \<and> apart bs \<and> listed h (set (frees (startHeapAddress h) bs))
     \<and> xFreeBytesRemaining h = free_bytes bs \<and> xHeapHasBeenInitialised h
     \<and> 8 dvd startHeapAddress h \<and> 0 < startHeapAddress h \<and> lastHeapAddress h < 2 ^ 32"

lemma serial_headers: "headers h' = headers h \<Longrightarrow> serial h' p a bs = serial h p a bs"
  by (induction bs arbitrary: p a) auto

lemma listed_headers: "headers h' = headers h \<Longrightarrow> listed h' A = listed h A"
proof -
  assume e: "headers h' = headers h"
  have "links h' XStart fs = links h XStart fs" for fs by (rule links_cong) (simp add: next_free_def e)
  then show ?thesis by (simp add: listed_def e)
qed

lemma serial_fields [simp]:
  "serial (h\<lparr>suspended := n\<rparr>) p a bs = serial h p a bs"
  "serial (h\<lparr>xFreeBytesRemaining := n\<rparr>) p a bs = serial h p a bs"
  "serial (h\<lparr>payload := d\<rparr>) p a bs = serial h p a bs"
  by (rule serial_headers, simp)+

lemma structured_fields [simp]:
  "structured (h\<lparr>suspended := n\<rparr>) bs = structured h bs"
  "structured (h\<lparr>xFreeBytesRemaining := n\<rparr>) bs = structured h bs"
  "structured (h\<lparr>payload := d\<rparr>) bs = structured h bs"
  by (simp_all add: structured_def)

lemma listed_fields [simp]:
  "listed (h\<lparr>suspended := n\<rparr>) A = listed h A"
  "listed (h\<lparr>xFreeBytesRemaining := n\<rparr>) A = listed h A"
  "listed (h\<lparr>payload := d\<rparr>) A = listed h A"
  by (rule listed_headers, simp)+

lemma heap_ok_fields [simp]:
  "heap_ok (h\<lparr>suspended := n\<rparr>) bs = heap_ok h bs" "heap_ok (h\<lparr>payload := d\<rparr>) bs = heap_ok h bs"
  by (simp_all add: heap_ok_def)

lemma BLOCK_SIZE_fields [simp]:
  "BLOCK_SIZE (h\<lparr>suspended := n\<rparr>) a = BLOCK_SIZE h a"
  "BLOCK_SIZE (h\<lparr>xFreeBytesRemaining := n\<rparr>) a = BLOCK_SIZE h a"
  "BLOCK_SIZE (h\<lparr>payload := d\<rparr>) a = BLOCK_SIZE h a"
  by (simp_all add: BLOCK_SIZE_def)

lemma after_free_facts:
  "free_bytes (after_free s ys) = s + free_bytes ys" "span (after_free s ys) = s + span ys"
  "after_free s ys \<noteq> []" "\<not> snd (hd (after_free s ys))"
  by (auto simp: after_free_def split: list.splits prod.splits bool.splits)

lemma after_free_apart: "apart ys \<Longrightarrow> apart (after_free s ys) \<and> apart (tl (after_free s ys))
    \<and> (tl (after_free s ys) \<noteq> [] \<longrightarrow> snd (hd (tl (after_free s ys))))"
  by (auto simp: after_free_def successively_Cons split: list.splits prod.splits bool.splits)

lemma coalesce_bytes: "free_bytes (coalesce xs s ys) = free_bytes xs + s + free_bytes ys"
  using after_free_facts [of s ys]
  by (cases xs rule: rev_cases; cases "after_free s ys") (auto simp: coalesce_def split: if_splits)

lemma coalesce_apart:
  assumes "apart xs" "apart ys"
  shows "apart (coalesce xs s ys)"
  using assms after_free_apart [of ys s] after_free_facts(3,4) [of s ys]
  by (cases xs rule: rev_cases) (auto simp: coalesce_def successively_append_iff successively_Cons)

lemma free_mark:
  assumes "BLOCK_SIZE h a = s" "block_size h a = s + of_bool u"
  shows "SET_FREE a h = set_size a s h"
  using assms by (simp add: SET_FREE_def)

text \<open>A block comes back.\<close>

lemma released:
  assumes ok: "heap_ok h (xs @ (s, True) # ys)"
  shows "\<exists>h'. release_block (startHeapAddress h + span xs) h = Some h' \<and> heap_ok h' (coalesce xs s ys)
    \<and> rest h' = rest (h\<lparr>xFreeBytesRemaining := xFreeBytesRemaining h + s\<rparr>)"
proof -
  let ?a = "startHeapAddress h + span xs"
  have st: "structured h (xs @ (s, True) # ys)" using ok by (simp add: heap_ok_def)
  have pr: "proper (xs @ (s, True) # ys)" and se: "serial h NullB (startHeapAddress h) (xs @ (s, True) # ys)"
    using st by (auto simp: structured_def)
  note at = block_there [OF se pr]
  have ev: "s mod 2 = 0" using pr by (auto dest: dvd_trans [of 2 8 s, rotated])
  define h1 where h1: "h1 = (set_size ?a s (h\<lparr>suspended := suspended h + 1\<rparr>))\<lparr>xFreeBytesRemaining := xFreeBytesRemaining h + s\<rparr>"
  have fld: "startHeapAddress h1 = startHeapAddress h" "configTOTAL_HEAP_SIZE h1 = configTOTAL_HEAP_SIZE h"
    "lastHeapAddress h1 = lastHeapAddress h" "xFreeBytesRemaining h1 = xFreeBytesRemaining h + s"
    "suspended h1 = suspended h + 1" "payload h1 = payload h" "xHeapHasBeenInitialised h1 = xHeapHasBeenInitialised h"
    by (simp_all add: h1 set_size_def)
  have "serial h1 NullB (startHeapAddress h) (xs @ (s, False) # ys)"
    by (rule serial_mark [of h _ _ xs s True]) (use se pr h1 in auto)
  then have st1: "structured h1 (xs @ (s, False) # ys)"
    using st fld by (simp add: structured_def h1)
  have "?a \<notin> frees_around h xs s ys"
    using frees_within [of xs ?a "startHeapAddress h"] frees_within [of ys ?a "?a + s"] pr by auto
  moreover have "listed h (frees_around h xs s ys)" using ok by (simp add: heap_ok_def add.assoc)
  moreover have "next_free h1 r = next_free h r" for r by (simp add: h1)
  moreover have "block_size h1 x = block_size h x" if "x \<noteq> ?a" for x using that by (simp add: h1)
  ultimately have l1: "listed h1 (frees_around h1 xs s ys)" unfolding fld(1) by (blast intro: listed_resize)
  have ap: "apart xs" "apart ys" using ok by (auto simp: heap_ok_def successively_append_iff successively_Cons)
  obtain h2 where h2: "prvInsertBlockIntoFreeList ?a h1 = Some h2" "structured h2 (coalesce xs s ys)"
    "listed h2 (set (frees (startHeapAddress h) (coalesce xs s ys)))" "rest h2 = rest h1"
    using block_inserted [OF st1 l1 ap(2)] fld by auto
  have "release_block ?a h = Some (h2\<lparr>suspended := suspended h2 - 1\<rparr>)"
    using h2(1) at(1,3) ev by (simp add: release_block_def SET_FREE_def h1 BLOCK_SIZE_def set_size_def Let_def)
  moreover have "heap_ok (h2\<lparr>suspended := suspended h2 - 1\<rparr>) (coalesce xs s ys)"
    using ok h2 restD [OF h2(4)] fld coalesce_apart [OF ap] by (simp add: heap_ok_def coalesce_bytes)
  moreover have "rest (h2\<lparr>suspended := suspended h2 - 1\<rparr>) = rest (h\<lparr>xFreeBytesRemaining := xFreeBytesRemaining h + s\<rparr>)"
    using restD [OF h2(4)] fld by (simp add: rest_def)
  ultimately show ?thesis by blast
qed

section \<open>Taking a block\<close>

lemma fit_found:
  assumes "links h p fs" "next_free h XEnd = NullB"
  shows "find_fit h s p (next_free h p) =
    Some (tip p (takeWhile (\<lambda>x. block_size h x < s) fs), next_free h (tip p (takeWhile (\<lambda>x. block_size h x < s) fs)))"
  using assms(1)
proof (induction fs arbitrary: p)
  case Nil
  then show ?case using assms(2) by (simp add: find_fit.simps [of h s p XEnd])
next
  case (Cons x fs)
  have "next_free h (Blk x) \<noteq> NullB" using Cons.prems by (cases fs) auto
  then show ?case using Cons by (simp add: find_fit.simps [of h s p "Blk x"])
qed

text \<open>What becomes of a block of size \<open>t\<close> when \<open>s\<close> bytes of it are wanted.\<close>

definition carve :: "nat \<Rightarrow> nat \<Rightarrow> blocks" where
  "carve s t = (if t - s > 32 then [(s, True), (t - s, False)] else [(t, True)])"

lemma split_inserted:
  assumes st: "structured h (xs @ (s, True) # (t, False) # ys)"
    and l: "listed h (set (frees (startHeapAddress h) xs) \<union> set (frees (startHeapAddress h + span xs + s + t) ys))"
    and ap: "apart ys" "ys \<noteq> [] \<Longrightarrow> snd (hd ys)"
  shows "\<exists>h'. prvInsertBlockIntoFreeList (startHeapAddress h + span xs + s) h = Some h'
    \<and> structured h' (xs @ (s, True) # (t, False) # ys)
    \<and> listed h' (set (frees (startHeapAddress h) (xs @ (s, True) # (t, False) # ys))) \<and> rest h' = rest h"
proof -
  have "after_free t ys = (t, False) # ys"
    using ap(2) by (auto simp: after_free_def split: list.splits prod.splits bool.splits)
  then have "coalesce (xs @ [(s, True)]) t ys = xs @ (s, True) # (t, False) # ys" by (simp add: coalesce_def)
  then show ?thesis
    using block_inserted [of h "xs @ [(s, True)]" t ys] st l ap(1) by (simp add: add.assoc)
qed

lemma taken_whole:
  assumes st: "structured h1 (xs @ (t, False) # ys)" and l: "listed h1 (frees_around h1 xs t ys)" and s: "\<not> t - s > 32"
  shows "\<exists>h'. split_block s (startHeapAddress h1 + span xs) h1 = Some h' \<and> structured h' (xs @ (t, True) # ys)
    \<and> listed h' (frees_around h1 xs t ys) \<and> rest h' = rest h1"
proof -
  let ?a = "startHeapAddress h1 + span xs"
  have pr: "proper (xs @ (t, False) # ys)" and se: "serial h1 NullB (startHeapAddress h1) (xs @ (t, False) # ys)"
    using st by (auto simp: structured_def)
  have sz: "block_size h1 ?a = t" using block_there(3) [OF se pr] by simp
  have "even t" using pr by (auto dest: dvd_trans [of 2 8, rotated])
  then have h2: "SET_ALLOCATED ?a h1 = set_size ?a (t + 1) h1" using sz by (simp add: SET_ALLOCATED_def)
  let ?h2 = "set_size ?a (t + 1) h1"
  have "serial ?h2 NullB (startHeapAddress h1) (xs @ (t, True) # ys)"
    by (rule serial_mark [of h1 _ _ xs t False]) (use se pr in auto)
  then have "structured ?h2 (xs @ (t, True) # ys)" using st by (simp add: structured_def)
  moreover have "?a \<notin> frees_around h1 xs t ys"
    using frees_within [of xs ?a "startHeapAddress h1"] frees_within [of ys ?a "?a + t"] pr by auto
  then have "listed ?h2 (frees_around h1 xs t ys)" by (rule listed_resize [OF l]) auto
  ultimately show ?thesis using s sz h2 by (simp add: split_block_def Let_def)
qed

lemma taken_split:
  assumes st: "structured h1 (xs @ (t, False) # ys)" and l: "listed h1 (frees_around h1 xs t ys)"
    and ap: "apart ys" "ys \<noteq> [] \<Longrightarrow> snd (hd ys)" and s: "8 dvd s" "16 \<le> s" "t - s > 32"
  shows "\<exists>h'. split_block s (startHeapAddress h1 + span xs) h1 = Some h'
    \<and> structured h' (xs @ (s, True) # (t - s, False) # ys)
    \<and> listed h' (set (frees (startHeapAddress h1) (xs @ (s, True) # (t - s, False) # ys))) \<and> rest h' = rest h1"
proof -
  let ?a = "startHeapAddress h1 + span xs"
  let ?b = "?a + s"
  have pr: "proper (xs @ (t, False) # ys)" and se: "serial h1 NullB (startHeapAddress h1) (xs @ (t, False) # ys)"
    using st by (auto simp: structured_def)
  note at = block_there [OF se pr]
  have ev: "even t" "even s" using pr s(1) by (auto dest: dvd_trans [of 2 8, rotated])
  define h2 where h2: "h2 = set_prev ?b (Blk ?a) (set_size ?a s (set_size ?b (t - s) h1))"
  define h3 where h3: "h3 = (if ys \<noteq> [] then set_prev (?a + t) (Blk ?b) h2 else h2)"
  define h4 where h4: "h4 = set_size ?a (s + 1) h3"
  have "BLOCK_SIZE h2 ?b = t - s" using ev s(2) by (simp add: h2 BLOCK_SIZE_def Let_def)
  then have nx: "NEXT_BLOCK h2 ?b = ?a + t" using s(3) by (simp add: NEXT_BLOCK_def)
  have lb: "IS_LAST_BLOCK h2 ?b \<longleftrightarrow> ys = []" using nx last_block [OF st] at(5) by (simp add: IS_LAST_BLOCK_def h2)
  have al: "SET_ALLOCATED ?a h3 = h4" using ev s(2) by (simp add: SET_ALLOCATED_def h4 h3 h2)
  have r4: "rest h4 = rest h1" by (simp add: h4 h3 h2)
  have "serial h4 NullB (startHeapAddress h1) (xs @ (s, True) # (t - s, False) # ys)"
    by (rule serial_split [of h1 _ _ _ _ False]) (use se pr s in \<open>auto simp: h4 h3 h2\<close>)
  then have st4: "structured h4 (xs @ (s, True) # (t - s, False) # ys)"
    using st pr s restD [OF r4] by (simp add: structured_def dvd_diff_nat) (simp add: h4 h3 h2)
  have "x \<noteq> ?a \<and> x \<noteq> ?b" if "x \<in> frees_around h1 xs t ys" for x
    using frees_within [of xs x "startHeapAddress h1"] frees_within [of ys x "?a + t"] pr s that by fastforce
  then have "listed h4 (frees_around h1 xs t ys)" by (intro listed_frame [OF l]) (simp_all add: h4 h3 h2)
  then obtain h5 where "prvInsertBlockIntoFreeList ?b h4 = Some h5"
    "structured h5 (xs @ (s, True) # (t - s, False) # ys)"
    "listed h5 (set (frees (startHeapAddress h1) (xs @ (s, True) # (t - s, False) # ys)))" "rest h5 = rest h4"
    using split_inserted [OF st4 _ ap] restD [OF r4] s(3) by (auto simp: add.assoc)
  then show ?thesis using at(3) s(3) nx lb al h3 r4
    by (cases "ys = []") (auto simp: split_block_def Let_def simp flip: h2)
qed

lemma taken:
  assumes ok: "heap_ok h (xs @ (t, False) # ys)" and s: "8 dvd s" "16 \<le> s"
    and st: "structured h1 (xs @ (t, False) # ys)" and same: "rest h1 = rest h"
    and l: "listed h1 (frees_around h xs t ys)"
  shows "\<exists>h'. split_block s (startHeapAddress h + span xs) h1 = Some h'
    \<and> structured h' (xs @ carve s t @ ys) \<and> listed h' (set (frees (startHeapAddress h) (xs @ carve s t @ ys)))
    \<and> rest h' = rest h"
proof -
  have ap: "apart ys" "ys \<noteq> [] \<Longrightarrow> snd (hd ys)"
    using ok by (auto simp: heap_ok_def successively_append_iff successively_Cons)
  show ?thesis
    using taken_whole [OF st, of s] taken_split [OF st _ ap s] l same restD [OF same]
    by (cases "t - s > 32") (simp_all add: carve_def)
qed

lemma carve_facts:
  assumes "16 \<le> s" "s \<le> t"
  shows "span (carve s t) = t" "free_bytes (carve s t) + (if t - s > 32 then s else t) = t"
    "\<exists>w zs. carve s t = (w, True) # zs \<and> s \<le> w \<and> w = (if t - s > 32 then s else t)"
  using assms by (auto simp: carve_def)

text \<open>The entry found: the first of the list that is large enough, and the smallest of all that are.\<close>

lemma best_entry:
  assumes st: "structured h bs" and some: "(t0, False) \<in> set bs" "s \<le> t0"
    and fs: "links h XStart fs" "set fs = set (frees (startHeapAddress h) bs)" "sorted (map (block_size h) fs)"
  shows "\<exists>us a vs xs t ys. fs = us @ a # vs \<and> bs = xs @ (t, False) # ys \<and> a = startHeapAddress h + span xs
    \<and> block_size h a = t \<and> s \<le> t \<and> (\<forall>t'. (t', False) \<in> set bs \<longrightarrow> s \<le> t' \<longrightarrow> t \<le> t')
    \<and> find_fit h s XStart (next_free h XStart) = Some (tip XStart us, Blk a)"
proof -
  let ?b = "startHeapAddress h"
  have pr: "proper bs" and se: "serial h NullB ?b bs" and en: "next_free h XEnd = NullB"
    using st by (auto simp: structured_def)
  define us where us: "us = takeWhile (\<lambda>x. block_size h x < s) fs"
  define ws where ws: "ws = dropWhile (\<lambda>x. block_size h x < s) fs"
  have fw: "fs = us @ ws" by (simp add: us ws)
  have small: "block_size h x < s" if "x \<in> set us" for x using set_takeWhileD that unfolding us by fastforce
  have free: "\<exists>x \<in> set fs. block_size h x = t'" if "(t', False) \<in> set bs" for t'
  proof -
    from split_list [OF that] obtain xs ys where b: "bs = xs @ (t', False) # ys" by blast
    then show ?thesis using block_there(3) [of h NullB ?b xs t' False ys] se pr fs(2) by auto
  qed
  have "ws \<noteq> []" using free [OF some(1)] small fw some(2) by fastforce
  then obtain a vs where wa: "ws = a # vs" by (cases ws) auto
  have sa: "s \<le> block_size h a" using wa hd_dropWhile [of "\<lambda>x. block_size h x < s" fs] by (auto simp: ws)
  obtain xs t ys where b: "bs = xs @ (t, False) # ys" "a = ?b + span xs" "block_size h a = t"
    using frees_found [OF se, of a] fs(2) fw wa by auto
  have best: "t \<le> t'" if "(t', False) \<in> set bs" "s \<le> t'" for t'
  proof -
    from free [OF that(1)] obtain x where x: "x \<in> set fs" "block_size h x = t'" by blast
    then have "x \<notin> set us" using that(2) small [of x] by auto
    then show ?thesis using x fw wa fs(3) b(3) by (auto simp: sorted_append)
  qed
  have "find_fit h s XStart (next_free h XStart) = Some (tip XStart us, Blk a)"
    using fit_found [OF fs(1) en, of s, folded us] links_tip [of h XStart us ws] fs(1) fw wa by simp
  then show ?thesis using fw wa b sa best by blast
qed

text \<open>It is taken off the list.\<close>

lemma unhooked:
  assumes st: "structured h (xs @ (t, False) # ys)" and a: "a = startHeapAddress h + span xs"
    and fs: "links h XStart (us @ a # vs)" "distinct (us @ a # vs)"
      "set (us @ a # vs) = insert a (frees_around h xs t ys)" "sorted (map (block_size h) (us @ a # vs))"
    and h1: "h1 = set_next (Blk a) NullB (set_next (tip XStart us) (next_free h (Blk a)) h)"
  shows "structured h1 (xs @ (t, False) # ys) \<and> listed h1 (frees_around h xs t ys) \<and> rest h1 = rest h"
proof -
  have pe: "tip XStart us \<noteq> XEnd" using tip_cases [of XStart us] by auto
  have st1: "structured h1 (xs @ (t, False) # ys)" by (rule structured_frame [OF st]) (use pe h1 in auto)
  have "links h1 XStart (us @ vs)"
  proof (rule iffD2 [OF links_cong])
    show "links (set_next (tip XStart us) (next_free h (Blk a)) h) XStart (us @ vs)"
      by (rule links_unlink) (use fs in auto)
  qed (use fs(2) h1 in auto)
  moreover have "a \<notin> frees_around h xs t ys"
    using frees_within [of xs a "startHeapAddress h"] frees_within [of ys a "startHeapAddress h + span xs + t"] st a
    by (fastforce simp: structured_def)
  moreover from this have "set (us @ vs) = frees_around h xs t ys"
    by (rule insert_ident [THEN iffD1, rotated]) (use fs(2,3) in auto)
  ultimately have "listed h1 (frees_around h xs t ys)"
    using fs(2,4) unfolding listed_def by (intro exI [of _ "us @ vs"]) (auto simp: sorted_append h1)
  then show ?thesis using st1 h1 by simp
qed

lemma fit_taken:
  assumes ok: "heap_ok h bs" and s: "8 dvd s" "16 \<le> s" and some: "\<exists>t. (t, False) \<in> set bs \<and> s \<le> t"
  shows "\<exists>xs t ys p h'. bs = xs @ (t, False) # ys \<and> s \<le> t \<and> (\<forall>t'. (t', False) \<in> set bs \<longrightarrow> s \<le> t' \<longrightarrow> t \<le> t')
    \<and> find_fit h s XStart (next_free h XStart) = Some (p, Blk (startHeapAddress h + span xs))
    \<and> take_block s p (startHeapAddress h + span xs) h = Some h' \<and> heap_ok h' (xs @ carve s t @ ys)
    \<and> rest h' = rest (h\<lparr>xFreeBytesRemaining := xFreeBytesRemaining h' \<rparr>)"
proof -
  let ?b = "startHeapAddress h"
  have st: "structured h bs" using ok by (simp add: heap_ok_def)
  obtain fs where fs: "links h XStart fs" "distinct fs" "set fs = set (frees ?b bs)" "sorted (map (block_size h) fs)"
    using ok by (auto simp: heap_ok_def listed_def)
  obtain us a vs xs t ys where e: "fs = us @ a # vs" "bs = xs @ (t, False) # ys" "a = ?b + span xs" "s \<le> t"
    "\<forall>t'. (t', False) \<in> set bs \<longrightarrow> s \<le> t' \<longrightarrow> t \<le> t'"
    "find_fit h s XStart (next_free h XStart) = Some (tip XStart us, Blk a)"
    using some best_entry [OF st _ _ fs(1,3,4), of _ s] by blast
  define h1 where h1: "h1 = set_next (Blk a) NullB (set_next (tip XStart us) (next_free h (Blk a)) h)"
  have u: "structured h1 (xs @ (t, False) # ys) \<and> listed h1 (frees_around h xs t ys) \<and> rest h1 = rest h"
    by (rule unhooked [OF _ e(3) _ _ _ _ h1]) (use st fs e(1-3) in auto)
  obtain h2 where h2: "split_block s a h1 = Some h2"
    "structured h2 (xs @ carve s t @ ys)" "listed h2 (set (frees ?b (xs @ carve s t @ ys)))" "rest h2 = rest h"
    using taken [of h xs t ys s h1] ok s u e(2,3) by auto
  note eq = restD [OF h2(4)]
  define h3 where h3: "h3 = h2\<lparr>xFreeBytesRemaining := xFreeBytesRemaining h2 - BLOCK_SIZE h2 a\<rparr>"
  obtain w zs where c: "carve s t = (w, True) # zs" "w = (if t - s > 32 then s else t)"
    using carve_facts(3) [OF s(2) e(4)] by blast
  have "BLOCK_SIZE h2 a = w"
    using block_there(1) [of h2 NullB ?b xs w True "zs @ ys"] h2(2) c(1) eq e(3) by (simp add: structured_def)
  moreover have "apart (xs @ carve s t @ ys)"
    using ok e(2) by (auto simp: heap_ok_def carve_def successively_append_iff successively_Cons)
  moreover have "free_bytes (carve s t) + w = t" using carve_facts(2) [OF s(2) e(4)] c(2) by simp
  ultimately have "heap_ok h3 (xs @ carve s t @ ys)" using ok h2(2,3) eq e(2) by (simp add: heap_ok_def h3)
  moreover have "take_block s (tip XStart us) a h = Some h3" using h2(1) by (simp add: take_block_def h3 flip: h1)
  moreover have "rest h3 = rest (h\<lparr>xFreeBytesRemaining := xFreeBytesRemaining h3\<rparr>)" using eq by (simp add: h3 rest_def)
  ultimately show ?thesis using e by blast
qed

end
