(* ===== verification/Heap_Requests.thy ===== *)
theory Heap_Requests
  imports Heap_Alloc
begin

text \<open>
  What the callers of the allocator rely on: the areas handed out, any sequence of requests, the self test, a
  second memory bank, and what a request that is far too large does.
\<close>

section \<open>From the linker script on\<close>

text \<open>The heap before its first use and after it.\<close>

definition heap_ready :: "nat \<Rightarrow> nat \<Rightarrow> Heap \<Rightarrow> blocks \<Rightarrow> bool" where
  "heap_ready start len h bs \<longleftrightarrow> 8 dvd start \<and> 0 < start \<and> 8 dvd len \<and> 16 \<le> len \<and> start + len < 2 ^ 32
     \<and> (if xHeapHasBeenInitialised h
        then heap_ok h bs \<and> startHeapAddress h = start \<and> configTOTAL_HEAP_SIZE h = len else bs = [(len, False)])"

lemma init_ok:
  assumes "8 dvd start" "0 < start" "8 dvd len" "16 \<le> len" "start + len < 2 ^ 32"
  shows "heap_ok ((prvHeapInit start len h)\<lparr>xHeapHasBeenInitialised := True\<rparr>) [(len, False)]"
proof -
  let ?h = "(prvHeapInit start len h)\<lparr>xHeapHasBeenInitialised := True\<rparr>"
  have "structured ?h [(len, False)]" using assms by (simp add: structured_def prvHeapInit_def next_free_def)
  moreover have "listed ?h {start}"
    unfolding listed_def by (rule exI [of _ "[start]"]) (simp add: prvHeapInit_def next_free_def)
  ultimately show ?thesis using assms by (simp add: heap_ok_def prvHeapInit_def)
qed

lemma round_up: "(if m mod 8 \<noteq> 0 then m + (8 - m mod 8) else m) = (m + 7) div 8 * 8" for m :: nat
proof -
  obtain q r where m: "m = 8 * q + r" "r < 8"
    by (rule that [of "m div 8" "m mod 8"]) simp_all
  have "(8 * q + r + 7) div 8 = q + (r + 7) div 8" using div_mult_self2 [of 8 "r + 7" q] by (simp add: ac_simps)
  moreover have "(r + 7) div 8 = (if r = 0 then 0 else 1)" using m(2) by (simp add: div_nat_eqI)
  ultimately show ?thesis using m by simp
qed

lemma wanted_size_facts:
  assumes "n + 24 \<le> 2 ^ 32"
  shows "8 dvd wanted_size n" "n + 16 \<le> wanted_size n" "wanted_size n < n + 24"
proof -
  have m: "(n + 16) mod 2 ^ 32 = n + 16" using assms by simp
  have "n + 16 + (8 - (n + 16) mod 8) < 2 ^ 32" if "(n + 16) mod 8 \<noteq> 0" using assms that by simp
  then have "wanted_size n = (if (n + 16) mod 8 \<noteq> 0 then n + 16 + (8 - (n + 16) mod 8) else n + 16)"
    unfolding wanted_size_def Let_def m by simp
  then have "wanted_size n = (n + 23) div 8 * 8" using round_up [of "n + 16"] by simp
  then show "8 dvd wanted_size n" "n + 16 \<le> wanted_size n" "wanted_size n < n + 24" by simp_all
qed

text \<open>A request, after the first one has set the heap up.\<close>

lemma malloc_started:
  assumes "heap_ready start len h bs" "n \<noteq> 0"
  shows "\<exists>h1. heap_ok h1 bs \<and> startHeapAddress h1 = start \<and> configTOTAL_HEAP_SIZE h1 = len \<and> suspended h1 = suspended h
    \<and> (xHeapHasBeenInitialised h \<longrightarrow> h1 = h) \<and> pvPortMalloc start len n h = pvPortMalloc start len n h1"
proof (cases "xHeapHasBeenInitialised h")
  case True
  then show ?thesis using assms by (auto simp: heap_ready_def)
next
  case False
  let ?h1 = "(prvHeapInit start len h)\<lparr>xHeapHasBeenInitialised := True\<rparr>"
  have "heap_ok ?h1 bs" using assms False init_ok by (simp add: heap_ready_def)
  moreover have "(prvHeapInit start len (h\<lparr>suspended := k\<rparr>))\<lparr>xHeapHasBeenInitialised := True\<rparr>
      = ?h1\<lparr>suspended := k\<rparr>" for k by (simp add: prvHeapInit_def cong: if_cong)
  moreover have "xHeapHasBeenInitialised ?h1" "suspended ?h1 = suspended h" by (simp_all add: prvHeapInit_def)
  ultimately have "pvPortMalloc start len n h = pvPortMalloc start len n ?h1"
    using False assms(2) unfolding pvPortMalloc_def by (simp del: heap_ok_fields add: Let_def)
  moreover have "heap_ok ?h1 bs" by fact
  ultimately show ?thesis using False by (intro exI [of _ ?h1]) (simp add: prvHeapInit_def)
qed

text \<open>No entry fits.\<close>

lemma no_fit:
  assumes ok: "heap_ok h bs" and none: "\<forall>t. (t, False) \<in> set bs \<longrightarrow> t < s"
  shows "\<exists>p. find_fit h s XStart (next_free h XStart) = Some (p, XEnd)"
proof -
  have st: "structured h bs" using ok by (simp add: heap_ok_def)
  obtain fs where fs: "links h XStart fs" "set fs = set (frees (startHeapAddress h) bs)"
    using ok by (auto simp: heap_ok_def listed_def)
  have "block_size h x < s" if "x \<in> set fs" for x
  proof -
    from frees_found [of h NullB "startHeapAddress h" bs x] that fs(2) st
    obtain xs t ys where "bs = xs @ (t, False) # ys" "block_size h x = t" by (auto simp: structured_def)
    then show ?thesis using none by simp
  qed
  then have tk: "takeWhile (\<lambda>x. block_size h x < s) fs = fs" by (simp add: takeWhile_eq_all_conv)
  have "find_fit h s XStart (next_free h XStart) = Some (tip XStart fs, next_free h (tip XStart fs))"
    using fit_found [OF fs(1), of s] st unfolding tk structured_def by blast
  then show ?thesis using links_tip [of h XStart fs "[]"] fs(1) by simp
qed

definition fits :: "nat \<Rightarrow> nat \<Rightarrow> blocks \<Rightarrow> bool" where
  "fits s len bs \<longleftrightarrow> s < len \<and> (\<exists>t. (t, False) \<in> set bs \<and> s \<le> t)"

lemma heap_ok_suspended: "heap_ok (h\<lparr>suspended := n\<rparr>) bs \<Longrightarrow> heap_ok h bs"
  by simp

lemma malloc_initialised:
  assumes ok: "heap_ok h bs" and n: "0 < n" "n + 24 \<le> 2 ^ 32"
  shows "\<exists>r h'. pvPortMalloc start len n h = Some (r, h') \<and> rest h' = rest (h\<lparr>xFreeBytesRemaining := xFreeBytesRemaining h'\<rparr>)
    \<and> (if fits (wanted_size n) (configTOTAL_HEAP_SIZE h) bs
       then \<exists>xs t ys. bs = xs @ (t, False) # ys \<and> wanted_size n \<le> t
         \<and> (\<forall>t'. (t', False) \<in> set bs \<longrightarrow> wanted_size n \<le> t' \<longrightarrow> t \<le> t')
         \<and> r = startHeapAddress h + span xs + 16 \<and> heap_ok h' (xs @ carve (wanted_size n) t @ ys)
       else r = 0 \<and> h' = h)"
proof -
  let ?s = "wanted_size n"
  let ?h = "h\<lparr>suspended := suspended h + 1\<rparr>"
  note w = wanted_size_facts [OF n(2)]
  have i: "xHeapHasBeenInitialised h" using ok by (simp add: heap_ok_def)
  have ok': "heap_ok ?h bs" using ok by simp
  have s: "16 \<le> ?s" "0 < ?s" using w by simp_all
  show ?thesis
  proof (cases "fits ?s (configTOTAL_HEAP_SIZE h) bs")
    case False
    show ?thesis
    proof (cases "?s < configTOTAL_HEAP_SIZE h")
      case True
      then have "\<forall>t. (t, False) \<in> set bs \<longrightarrow> t < ?s" using False by (auto simp: fits_def)
      then obtain p where "find_fit ?h ?s XStart (next_free ?h XStart) = Some (p, XEnd)"
        using no_fit [OF ok'] by blast
      then show ?thesis using False True n i s by (simp add: pvPortMalloc_def Let_def)
    next
      case small: False
      then show ?thesis using False n i s by (simp add: pvPortMalloc_def Let_def)
    qed
  next
    case True
    then obtain xs t ys p h' where f: "bs = xs @ (t, False) # ys" "?s \<le> t"
      "\<forall>t'. (t', False) \<in> set bs \<longrightarrow> ?s \<le> t' \<longrightarrow> t \<le> t'"
      "find_fit ?h ?s XStart (next_free ?h XStart) = Some (p, Blk (startHeapAddress ?h + span xs))"
      "take_block ?s p (startHeapAddress ?h + span xs) ?h = Some h'" "heap_ok h' (xs @ carve ?s t @ ys)"
      "rest h' = rest (?h\<lparr>xFreeBytesRemaining := xFreeBytesRemaining h'\<rparr>)"
      using fit_taken [OF ok' w(1) s(1)] by (auto simp: fits_def)
    have "pvPortMalloc start len n h =
        Some (startHeapAddress h + span xs + 16, h'\<lparr>suspended := suspended h' - 1\<rparr>)"
      using f(4,5) True n i s by (simp add: pvPortMalloc_def fits_def Let_def)
    moreover have "rest (h'\<lparr>suspended := suspended h' - 1\<rparr>) =
        rest (h\<lparr>xFreeBytesRemaining := xFreeBytesRemaining (h'\<lparr>suspended := suspended h' - 1\<rparr>)\<rparr>)"
      using restD [OF f(7)] by (simp add: rest_def)
    moreover have "heap_ok (h'\<lparr>suspended := suspended h' - 1\<rparr>) (xs @ carve ?s t @ ys)" using f(6) by simp
    ultimately show ?thesis using True f(1,2,3) by auto
  qed
qed

section \<open>The areas handed out\<close>

text \<open>Address and length of what the callers hold.\<close>

fun live :: "nat \<Rightarrow> blocks \<Rightarrow> (nat \<times> nat) list" where
  "live a [] = []"
| "live a ((s, u) # bs) = (if u then [(a + 16, s - 16)] else []) @ live (a + s) bs"

lemma live_append [simp]: "live a (xs @ ys) = live a xs @ live (a + span xs) ys"
  by (induction xs arbitrary: a) (auto simp: add.assoc)

lemma live_within: "proper bs \<Longrightarrow> (p, l) \<in> set (live a bs) \<Longrightarrow> a + 16 \<le> p \<and> p + l \<le> a + span bs"
  by (induction bs arbitrary: a) (fastforce split: if_splits)+

lemma live_aligned: "proper bs \<Longrightarrow> 8 dvd a \<Longrightarrow> (p, l) \<in> set (live a bs) \<Longrightarrow> 8 dvd p"
proof (induction bs arbitrary: a)
  case (Cons b bs)
  obtain s u where "b = (s, u)" by force
  then show ?case using Cons.IH [of "a + s"] Cons.prems by (auto split: if_splits)
qed simp

lemma live_disjoint: "proper bs \<Longrightarrow> sorted_wrt (\<lambda>(p, l) (q, m). p + l + 16 \<le> q) (live a bs)"
proof (induction bs arbitrary: a)
  case (Cons b bs)
  obtain s u where "b = (s, u)" by force
  then show ?case using Cons.IH [of "a + s"] Cons.prems live_within [of bs _ _ "a + s"] by fastforce
qed simp

lemma live_found:
  assumes "(p, l) \<in> set (live a bs)"
  shows "\<exists>xs s ys. bs = xs @ (s, True) # ys \<and> p = a + span xs + 16 \<and> l = s - 16"
  using assms
proof (induction bs arbitrary: a)
  case (Cons b bs)
  obtain s u where b: "b = (s, u)" by force
  show ?case
  proof (cases "u \<and> (p, l) = (a + 16, s - 16)")
    case True
    then show ?thesis using b by (intro exI [of _ "[]"]) auto
  next
    case False
    then have "(p, l) \<in> set (live (a + s) bs)" using Cons.prems b by (auto split: if_splits)
    then obtain xs s' ys where "bs = xs @ (s', True) # ys" "p = a + s + span xs + 16" "l = s' - 16"
      using Cons.IH by blast
    then show ?thesis using b by (intro exI [of _ "b # xs"]) (auto simp: add.assoc)
  qed
qed simp

text \<open>Two areas with one address are the same, and a merge changes none.\<close>

lemma live_around:
  assumes "proper (xs @ (s, True) # ys)"
  shows "a + span xs + 16 \<notin> fst ` (set (live a xs) \<union> set (live (a + span xs + s) ys))"
  using assms live_within [of xs _ _ a] live_within [of ys _ _ "a + span xs + s"] by fastforce

lemma live_after_free: "live a (after_free s ys) = live (a + s) ys"
  by (auto simp: after_free_def add.assoc split: list.splits prod.splits bool.splits)

lemma live_coalesce: "live a (coalesce xs s ys) = live a xs @ live (a + span xs + s) ys"
proof (cases xs rule: rev_cases)
  case Nil
  then show ?thesis using live_after_free [of a s ys] by (simp add: coalesce_def)
next
  case (snoc us b)
  obtain t v where b: "b = (t, v)" by force
  obtain w zs where f: "after_free s ys = (w, False) # zs"
    using after_free_facts(3,4) [of s ys] by (cases "after_free s ys") auto
  have "live (a + span us + t) (after_free s ys) = live (a + span us + t + s) ys" by (rule live_after_free)
  then show ?thesis using snoc b f by (simp add: coalesce_def add.assoc)
qed

section \<open>The operations on the areas\<close>

lemma ready_proper: "heap_ready start len h bs \<Longrightarrow> proper bs"
  by (auto simp: heap_ready_def heap_ok_def structured_def split: if_splits)

lemma malloc_fits:
  assumes rd: "heap_ready start len h bs" and n: "0 < n" "n + 24 \<le> 2 ^ 32"
  shows "\<exists>r h'. pvPortMalloc start len n h = Some (r, h') \<and> suspended h' = suspended h
    \<and> (xHeapHasBeenInitialised h \<longrightarrow> payload h' = payload h)
    \<and> (if fits (wanted_size n) len bs
       then \<exists>xs t ys. bs = xs @ (t, False) # ys \<and> wanted_size n \<le> t
         \<and> (\<forall>t'. (t', False) \<in> set bs \<longrightarrow> wanted_size n \<le> t' \<longrightarrow> t \<le> t')
         \<and> r = start + span xs + 16 \<and> heap_ready start len h' (xs @ carve (wanted_size n) t @ ys)
       else r = 0 \<and> heap_ready start len h' bs)"
proof -
  obtain h1 where h1: "heap_ok h1 bs" "startHeapAddress h1 = start" "configTOTAL_HEAP_SIZE h1 = len"
    "suspended h1 = suspended h" "xHeapHasBeenInitialised h \<longrightarrow> h1 = h"
    "pvPortMalloc start len n h = pvPortMalloc start len n h1"
    using malloc_started [OF rd] n(1) by blast
  obtain r h' where m: "pvPortMalloc start len n h1 = Some (r, h')"
    "rest h' = rest (h1\<lparr>xFreeBytesRemaining := xFreeBytesRemaining h'\<rparr>)"
    "if fits (wanted_size n) len bs
       then \<exists>xs t ys. bs = xs @ (t, False) # ys \<and> wanted_size n \<le> t
         \<and> (\<forall>t'. (t', False) \<in> set bs \<longrightarrow> wanted_size n \<le> t' \<longrightarrow> t \<le> t')
         \<and> r = start + span xs + 16 \<and> heap_ok h' (xs @ carve (wanted_size n) t @ ys)
       else r = 0 \<and> h' = h1"
    using malloc_initialised [OF h1(1) n, of start len] unfolding h1(2,3) by blast
  note eq = restD [OF m(2)]
  have "heap_ready start len h' bs' = heap_ok h' bs'" for bs'
    using rd h1(1-3) eq by (auto simp: heap_ready_def heap_ok_def)
  then show ?thesis using m(1,3) h1(1,4,5,6) eq(1,7)
    by (cases "fits (wanted_size n) len bs") simp_all
qed

text \<open>What each operation does, from any state that the others leave.\<close>

lemma malloc_areas:
  assumes rd: "heap_ready start len h bs" and n: "n + 24 \<le> 2 ^ 32"
  shows "\<exists>r h' bs'. pvPortMalloc start len n h = Some (r, h') \<and> heap_ready start len h' bs' \<and> suspended h' = suspended h
    \<and> (xHeapHasBeenInitialised h \<longrightarrow> payload h' = payload h)
    \<and> (r = 0 \<longrightarrow> bs' = bs)
    \<and> (r \<noteq> 0 \<longrightarrow> 0 < n \<and> (\<exists>l \<ge> n. set (live start bs') = insert (r, l) (set (live start bs)) \<and> r \<notin> fst ` set (live start bs)))"
proof (cases "n = 0")
  case True
  then show ?thesis using rd by (intro exI [of _ 0] exI [of _ h]) (auto simp: pvPortMalloc_def)
next
  case False
  then have n0: "0 < n" by simp
  note m = malloc_fits [OF rd n0 n]
  show ?thesis
  proof (cases "fits (wanted_size n) len bs")
    case no: False
    then show ?thesis using m by auto
  next
    case True
    then obtain r h' xs t ys where f: "pvPortMalloc start len n h = Some (r, h')" "suspended h' = suspended h"
      "xHeapHasBeenInitialised h \<longrightarrow> payload h' = payload h" "bs = xs @ (t, False) # ys" "wanted_size n \<le> t"
      "r = start + span xs + 16" "heap_ready start len h' (xs @ carve (wanted_size n) t @ ys)" using m by auto
    note w = wanted_size_facts [OF n]
    obtain v zs where c: "carve (wanted_size n) t = (v, True) # zs" "wanted_size n \<le> v"
      using carve_facts(3) [OF _ f(5)] w(2) by auto
    have "live (start + span xs) (carve (wanted_size n) t) = [(r, v - 16)]"
      using c(1) f(6) by (auto simp: carve_def split: if_splits)
    moreover have "span (carve (wanted_size n) t) = t" by (rule carve_facts(1)) (use w f in simp_all)
    ultimately have "set (live start (xs @ carve (wanted_size n) t @ ys)) = insert (r, v - 16) (set (live start bs))"
      using f(4) by (simp add: add.assoc)
    moreover have "r \<notin> fst ` set (live start bs)"
      using live_within [of xs _ _ start] live_within [of ys _ _ "start + span xs + t"] ready_proper [OF rd] f(4,6)
      by fastforce
    moreover have "n \<le> v - 16" using c(2) w(2) by simp
    ultimately show ?thesis
      using f n0 by (intro exI [of _ r] exI [of _ h'] exI [of _ "xs @ carve (wanted_size n) t @ ys"]) auto
  qed
qed

lemma live_initialised: "heap_ready start len h bs \<Longrightarrow> x \<in> set (live start bs) \<Longrightarrow> xHeapHasBeenInitialised h"
  by (auto simp: heap_ready_def split: if_splits)

lemma live_address:
  assumes "heap_ready start len h bs" "(p, l) \<in> set (live start bs)"
  shows "16 \<le> p" "start \<le> p" "p + l \<le> lastHeapAddress h"
proof -
  have "start + 16 \<le> p \<and> p + l \<le> start + span bs" by (rule live_within) (use assms ready_proper in blast)+
  moreover have "lastHeapAddress h = start + span bs"
    using live_initialised [OF assms] assms(1) by (simp add: heap_ready_def heap_ok_def structured_def)
  ultimately show "16 \<le> p" "start \<le> p" "p + l \<le> lastHeapAddress h" by simp_all
qed

lemma release_areas:
  assumes rd: "heap_ready start len h bs" and l: "(p, l) \<in> set (live start bs)"
  shows "\<exists>h' bs'. release_block (p - 16) h = Some h' \<and> heap_ready start len h' bs'
    \<and> set (live start bs') = set (live start bs) - {(p, l)} \<and> suspended h' = suspended h \<and> payload h' = payload h"
proof -
  obtain xs s ys where b: "bs = xs @ (s, True) # ys" "p = start + span xs + 16" "l = s - 16"
    using live_found [OF l] by blast
  have i: "xHeapHasBeenInitialised h" by (rule live_initialised [OF rd l])
  then have ok: "heap_ok h (xs @ (s, True) # ys)" "startHeapAddress h = start" "configTOTAL_HEAP_SIZE h = len"
    using rd b(1) by (simp_all add: heap_ready_def)
  obtain h' where h': "release_block (p - 16) h = Some h'" "heap_ok h' (coalesce xs s ys)"
    "rest h' = rest (h\<lparr>xFreeBytesRemaining := xFreeBytesRemaining h + s\<rparr>)"
    using released [OF ok(1)] ok(2) b(2) by auto
  note eq = restD [OF h'(3)]
  have "set (live start (coalesce xs s ys)) = set (live start bs) - {(p, l)}"
    using live_around [of xs s ys start] ready_proper [OF rd] b unfolding live_coalesce by force
  moreover have "heap_ready start len h' (coalesce xs s ys)"
    using h'(2) rd eq ok(2,3) i by (simp add: heap_ready_def)
  ultimately show ?thesis using h'(1) eq by auto
qed

lemma free_releases:
  assumes "heap_ready start len h bs" "(p, l) \<in> set (live start bs)"
  shows "vPortFree start p h = release_block (p - 16) h"
  using live_address [OF assms] by (simp add: vPortFree_def)

lemma ready_payload [simp]: "heap_ready start len (h\<lparr>payload := d\<rparr>) bs = heap_ready start len h bs"
  by (simp add: heap_ready_def)

lemma live_size:
  assumes "heap_ready start len h bs" "(p, l) \<in> set (live start bs)"
  shows "BLOCK_SIZE h (p - 16) - 16 = l"
proof -
  obtain xs s ys where b: "bs = xs @ (s, True) # ys" "p = start + span xs + 16" "l = s - 16"
    using live_found [OF assms(2)] by blast
  have "BLOCK_SIZE h (start + span xs) = s"
    by (rule block_there) (use assms live_initialised [OF assms] b in \<open>auto simp: heap_ready_def heap_ok_def structured_def\<close>)
  then show ?thesis using b by simp
qed

lemma areas_apart:
  assumes "heap_ready start len h bs" "(p, l) \<in> set (live start bs)" "(q, m) \<in> set (live start bs)" "(p, l) \<noteq> (q, m)"
  shows "p + l + 16 \<le> q \<or> q + m + 16 \<le> p"
proof -
  let ?P = "\<lambda>(p, l) (q, m). p + l + 16 \<le> (q :: nat)"
  have w: "sorted_wrt ?P (live start bs)" using assms(1) by (intro live_disjoint ready_proper)
  obtain i j where "i < length (live start bs)" "live start bs ! i = (p, l)"
    "j < length (live start bs)" "live start bs ! j = (q, m)" using assms(2,3) by (auto simp: in_set_conv_nth)
  moreover from this have "i < j \<or> j < i" using assms(4) by (metis nat_neq_iff)
  ultimately show ?thesis using sorted_wrt_nth_less [OF w, of i j] sorted_wrt_nth_less [OF w, of j i] by auto
qed

definition copied :: "nat \<Rightarrow> nat \<Rightarrow> nat \<Rightarrow> Heap \<Rightarrow> Heap" where
  "copied r p k h = h\<lparr>payload := \<lambda>x. if r \<le> x \<and> x < r + k then payload h (p + (x - r)) else payload h x\<rparr>"

lemma realloc_areas:
  assumes rd: "heap_ready start len h bs" and l: "(p, l) \<in> set (live start bs)" and n: "0 < n" "n + 24 \<le> 2 ^ 32"
  shows "\<exists>r h' bs'. pvPortReAlloc start len p n h = Some (r, h') \<and> heap_ready start len h' bs' \<and> suspended h' = suspended h
    \<and> (if r = 0 then bs' = bs \<and> payload h' = payload h
       else (\<exists>m \<ge> n. set (live start bs') = insert (r, m) (set (live start bs) - {(p, l)}) \<and> r \<notin> fst ` set (live start bs))
         \<and> (\<forall>i < min l n. payload h' (r + i) = payload h (p + i))
         \<and> (\<forall>(q, k) \<in> set (live start bs). \<forall>i < k. payload h' (q + i) = payload h (q + i)))"
proof -
  have i: "xHeapHasBeenInitialised h" by (rule live_initialised [OF rd l])
  note a = live_address [OF rd l]
  obtain r h1 bs1 where m: "pvPortMalloc start len n h = Some (r, h1)" "heap_ready start len h1 bs1" "suspended h1 = suspended h"
    "payload h1 = payload h" "r = 0 \<longrightarrow> bs1 = bs"
    "r \<noteq> 0 \<longrightarrow> (\<exists>m \<ge> n. set (live start bs1) = insert (r, m) (set (live start bs)) \<and> r \<notin> fst ` set (live start bs))"
    using malloc_areas [OF rd n(2)] i by blast
  show ?thesis
  proof (cases "r = 0")
    case True
    then show ?thesis using m a n by (auto simp: pvPortReAlloc_def)
  next
    case False
    then obtain k where k: "n \<le> k" "set (live start bs1) = insert (r, k) (set (live start bs))"
      "r \<notin> fst ` set (live start bs)" using m(6) by blast
    have l1: "(p, l) \<in> set (live start bs1)" using k l by simp
    let ?h2 = "copied r p (min l n) h1"
    have "heap_ready start len ?h2 bs1" using m(2) by (simp add: copied_def)
    from release_areas [OF this l1] obtain h3 bs3 where h3: "release_block (p - 16) ?h2 = Some h3"
      "heap_ready start len h3 bs3" "set (live start bs3) = set (live start bs1) - {(p, l)}"
      "suspended h3 = suspended ?h2" "payload h3 = payload ?h2" by blast
    have "pvPortReAlloc start len p n h = Some (r, h3)"
      using m(1) h3(1) a n False live_size [OF m(2) l1] by (simp add: pvPortReAlloc_def copied_def)
    moreover have "set (live start bs3) = insert (r, k) (set (live start bs) - {(p, l)})"
      using h3(3) k(2,3) l by force
    moreover have "\<forall>i < min l n. payload h3 (r + i) = payload h (p + i)"
      using h3(5) m(4) by (simp add: copied_def)
    moreover have "payload h3 (q + i) = payload h (q + i)" if q: "(q, w) \<in> set (live start bs)" "i < w" for q w i
    proof -
      have "q + w + 16 \<le> r \<or> r + k + 16 \<le> q"
        using areas_apart [OF m(2), of q w r k] k q(1) by force
      then show ?thesis using q(2) k(1) h3(5) m(4) by (auto simp: copied_def)
    qed
    ultimately show ?thesis using h3(2,4) m(3) k False by (intro exI [of _ r] exI [of _ h3] exI [of _ bs3]) (auto simp: copied_def)
  qed
qed

section \<open>And back again\<close>

lemma carved_back:
  assumes "apart (xs @ (t, False) # ys)" "carve s t = (w, True) # zs" "s \<le> t"
  shows "coalesce xs w (zs @ ys) = xs @ (t, False) # ys"
proof -
  have "after_free w (zs @ ys) = (t, False) # ys"
    using assms by (auto simp: carve_def after_free_def successively_append_iff successively_Cons
        split: if_splits list.splits prod.splits bool.splits)
  then show ?thesis using assms(1) by (auto simp: coalesce_def successively_append_iff)
qed

lemma ready_apart: "heap_ready start len h bs \<Longrightarrow> apart bs"
  by (auto simp: heap_ready_def heap_ok_def split: if_splits)

lemma malloc_free_restores:
  assumes rd: "heap_ready start len h bs" and n: "n + 24 \<le> 2 ^ 32"
    and m: "pvPortMalloc start len n h = Some (r, h1)" and r: "r \<noteq> 0"
  shows "\<exists>h2. vPortFree start r h1 = Some h2 \<and> heap_ready start len h2 bs \<and> xHeapHasBeenInitialised h2"
proof -
  have n0: "0 < n" using m r by (cases "n = 0") (auto simp: pvPortMalloc_def)
  obtain xs t ys where f: "bs = xs @ (t, False) # ys" "wanted_size n \<le> t" "r = start + span xs + 16"
    "heap_ready start len h1 (xs @ carve (wanted_size n) t @ ys)"
    using malloc_fits [OF rd n0 n] m r by (auto split: if_splits)
  note w = wanted_size_facts [OF n]
  obtain v zs where c: "carve (wanted_size n) t = (v, True) # zs"
    using carve_facts(3) [OF _ f(2)] w(2) by auto
  have rd1: "heap_ready start len h1 (xs @ (v, True) # zs @ ys)" using f(4) c by simp
  have l: "(r, v - 16) \<in> set (live start (xs @ (v, True) # zs @ ys))" using f(3) by simp
  have i: "xHeapHasBeenInitialised h1" by (rule live_initialised [OF rd1 l])
  then have ok: "heap_ok h1 (xs @ (v, True) # zs @ ys)" "startHeapAddress h1 = start" "configTOTAL_HEAP_SIZE h1 = len"
    using rd1 by (simp_all add: heap_ready_def)
  obtain h2 where h2: "release_block (start + span xs) h1 = Some h2" "heap_ok h2 (coalesce xs v (zs @ ys))"
    "rest h2 = rest (h1\<lparr>xFreeBytesRemaining := xFreeBytesRemaining h1 + v\<rparr>)"
    using released [OF ok(1)] ok(2) by auto
  have "coalesce xs v (zs @ ys) = bs"
    using carved_back [OF _ c f(2)] ready_apart [OF rd] f(1) by simp
  then have "heap_ready start len h2 bs" using h2(2) restD [OF h2(3)] rd ok(2,3) i by (simp add: heap_ready_def)
  moreover have "vPortFree start r h1 = Some h2" using free_releases [OF rd1 l] h2(1) f(3) by simp
  ultimately show ?thesis using restD(6) [OF h2(3)] i by auto
qed

section \<open>Any sequence of requests\<close>

text \<open>
  The callers' side: they hold the addresses \<open>L\<close>, free and resize only those (or \<^verbatim>\<open>NULL\<close>), and ask for no
  more than \<open>2 ^ 32 - 24\<close> bytes.
\<close>

inductive client_step :: "nat \<Rightarrow> nat \<Rightarrow> Heap \<times> nat set \<Rightarrow> Heap \<times> nat set \<Rightarrow> bool" for start len where
  allocates: "pvPortMalloc start len n h = Some (r, h') \<Longrightarrow> n + 24 \<le> 2 ^ 32 \<Longrightarrow>
    client_step start len (h, L) (h', if r = 0 then L else insert r L)"
| frees: "p \<in> insert 0 L \<Longrightarrow> vPortFree start p h = Some h' \<Longrightarrow> client_step start len (h, L) (h', L - {p})"
| resizes: "p \<in> insert 0 L \<Longrightarrow> pvPortReAlloc start len p n h = Some (r, h') \<Longrightarrow> n + 24 \<le> 2 ^ 32 \<Longrightarrow>
    client_step start len (h, L) (h', if n = 0 then L - {p} else if r = 0 then L else insert r (L - {p}))"

definition sound :: "nat \<Rightarrow> nat \<Rightarrow> Heap \<times> nat set \<Rightarrow> blocks \<Rightarrow> bool" where
  "sound start len = (\<lambda>(h, L) bs. heap_ready start len h bs \<and> L = fst ` set (live start bs))"

lemma soundI: "heap_ready start len h bs \<Longrightarrow> L = fst ` set (live start bs) \<Longrightarrow> \<exists>bs. sound start len (h, L) bs"
  by (auto simp: sound_def)

lemma sound_malloc:
  assumes "sound start len (h, L) bs" "n + 24 \<le> 2 ^ 32"
  shows "\<exists>r h'. pvPortMalloc start len n h = Some (r, h') \<and> (\<exists>bs'. sound start len (h', if r = 0 then L else insert r L) bs')"
proof -
  have rd: "heap_ready start len h bs" "L = fst ` set (live start bs)" using assms(1) by (simp_all add: sound_def)
  obtain r h' bs' where m: "pvPortMalloc start len n h = Some (r, h')" "heap_ready start len h' bs'" "r = 0 \<longrightarrow> bs' = bs"
    "r \<noteq> 0 \<longrightarrow> 0 < n \<and> (\<exists>l \<ge> n. set (live start bs') = insert (r, l) (set (live start bs)) \<and> r \<notin> fst ` set (live start bs))"
    using malloc_areas [OF rd(1) assms(2)] by blast
  have "(if r = 0 then L else insert r L) = fst ` set (live start bs')"
  proof (cases "r = 0")
    case True
    then show ?thesis using m(3) rd(2) by simp
  next
    case False
    then obtain l where "set (live start bs') = insert (r, l) (set (live start bs))" using m(4) by blast
    then show ?thesis using False rd(2) by simp
  qed
  then show ?thesis using m(1) soundI [OF m(2)] by blast
qed

lemma keys_without:
  assumes "heap_ready start len h bs" "(p, l) \<in> set (live start bs)"
  shows "fst ` (set (live start bs) - {(p, l)}) = fst ` set (live start bs) - {p}"
proof -
  have "l' = l" if "(p, l') \<in> set (live start bs)" for l'
    using areas_apart [OF assms(1) that assms(2)] by force
  then show ?thesis by force
qed

lemma sound_free:
  assumes "sound start len (h, L) bs" "p \<in> insert 0 L"
  shows "\<exists>h'. vPortFree start p h = Some h' \<and> (\<exists>bs'. sound start len (h', L - {p}) bs')"
proof -
  have rd: "heap_ready start len h bs" "L = fst ` set (live start bs)" using assms(1) by (simp_all add: sound_def)
  show ?thesis
  proof (cases "p \<in> L")
    case True
    then obtain l where l: "(p, l) \<in> set (live start bs)" using rd(2) by auto
    from release_areas [OF rd(1) l] obtain h' bs' where "release_block (p - 16) h = Some h'"
      "heap_ready start len h' bs'" "set (live start bs') = set (live start bs) - {(p, l)}" by blast
    then show ?thesis
      using soundI [of start len h' bs' "L - {p}"] keys_without [OF rd(1) l] free_releases [OF rd(1) l] rd(2) by simp
  next
    case False
    then show ?thesis using assms by (auto simp: vPortFree_def)
  qed
qed

lemma sound_realloc:
  assumes so: "sound start len (h, L) bs" and p: "p \<in> insert 0 L" and n: "n + 24 \<le> 2 ^ 32"
  shows "\<exists>r h'. pvPortReAlloc start len p n h = Some (r, h') \<and>
    (\<exists>bs'. sound start len (h', if n = 0 then L - {p} else if r = 0 then L else insert r (L - {p})) bs')"
proof -
  have rd: "heap_ready start len h bs" "L = fst ` set (live start bs)" using so by (simp_all add: sound_def)
  show ?thesis
  proof (cases "p \<in> L")
    case True
    then obtain l where l: "(p, l) \<in> set (live start bs)" using rd(2) by auto
    note a = live_address [OF rd(1) l]
    show ?thesis
    proof (cases "n = 0")
      case True
      then show ?thesis using sound_free [OF so p] a by (auto simp: pvPortReAlloc_def)
    next
      case False
      then have "0 < n" by simp
      from realloc_areas [OF rd(1) l this n] obtain r h' bs' where
        m: "pvPortReAlloc start len p n h = Some (r, h')" "heap_ready start len h' bs'"
        "if r = 0 then bs' = bs \<and> payload h' = payload h
         else (\<exists>m \<ge> n. set (live start bs') = insert (r, m) (set (live start bs) - {(p, l)}) \<and> r \<notin> fst ` set (live start bs))
           \<and> (\<forall>i < min l n. payload h' (r + i) = payload h (p + i))
           \<and> (\<forall>(q, k) \<in> set (live start bs). \<forall>i < k. payload h' (q + i) = payload h (q + i))" by blast
      have "(if r = 0 then L else insert r (L - {p})) = fst ` set (live start bs')"
      proof (cases "r = 0")
        case True
        then show ?thesis using m(3) rd(2) by simp
      next
        case False
        then obtain m' where "set (live start bs') = insert (r, m') (set (live start bs) - {(p, l)})" using m(3) by auto
        then show ?thesis using False keys_without [OF rd(1) l] rd(2) by simp
      qed
      then show ?thesis using m(1) False soundI [OF m(2)] by auto
    qed
  next
    case False
    then have "p = 0" using p by blast
    moreover have "0 \<notin> L" using live_address(1) [OF rd(1)] rd(2) by force
    ultimately have "pvPortReAlloc start len p n h = (if n = 0 then Some (0, h) else pvPortMalloc start len n h)" "L - {p} = L"
      using \<open>p = 0\<close> by (simp_all add: pvPortReAlloc_def)
    moreover have "\<exists>bs'. sound start len (h, L) bs'" using so by blast
    ultimately show ?thesis using sound_malloc [OF so n] by (cases "n = 0") (simp_all split del: if_split cong: if_cong)
  qed
qed

lemma sound_step:
  assumes "client_step start len x y" "\<exists>bs. sound start len x bs"
  shows "\<exists>bs. sound start len y bs"
  using assms
proof cases
  case (allocates n h r h' L)
  then obtain bs where "sound start len (h, L) bs" using assms(2) by blast
  from sound_malloc [OF this allocates(4)] show ?thesis using allocates(2,3) by auto
next
  case (frees p L h h')
  then obtain bs where "sound start len (h, L) bs" using assms(2) by blast
  from sound_free [OF this frees(3)] show ?thesis using frees(2,4) by auto
next
  case (resizes p L n h r h')
  then obtain bs where "sound start len (h, L) bs" using assms(2) by blast
  from sound_realloc [OF this resizes(3,5)] show ?thesis using resizes(2,4) by auto
qed

lemma sound_steps:
  assumes "(client_step start len)\<^sup>*\<^sup>* x y" "\<exists>bs. sound start len x bs"
  shows "\<exists>bs. sound start len y bs"
  using assms by induction (auto dest: sound_step)

lemma self_test_adds:
  assumes "laid_out h (xs @ ys)" "ys \<noteq> []"
  shows "self_test_loop n h (startHeapAddress h + span xs) t = t + span (take n ys)"
  using assms
proof (induction n arbitrary: xs ys t)
  case (Suc n)
  obtain s u zs where ys: "ys = (s, u) # zs" using Suc.prems(2) by (cases ys) auto
  have st: "laid_out h (xs @ (s, u) # zs)" using Suc.prems(1) ys by simp
  then have "serial h NullB (startHeapAddress h) (xs @ (s, u) # zs)" "proper (xs @ (s, u) # zs)"
    by (simp_all add: laid_out_def)
  note at = block_there [OF this]
  show ?case
  proof (cases "zs = []")
    case True
    then show ?thesis using at last_laid_out [OF st] ys by (simp add: Let_def)
  next
    case False
    have "laid_out h ((xs @ [(s, u)]) @ zs)" using st by simp
    from Suc.IH [OF this False] show ?thesis
      using at last_laid_out [OF st] ys False by (simp add: Let_def add.assoc)
  qed
qed simp

section \<open>Properties\<close>

text \<open>The board before the first request: nothing is set.\<close>

definition blank_heap :: Heap where
  "blank_heap = \<lparr>headers = (\<lambda>_. \<lparr>pxNextFreeBlock = NullB, pxPrev = NullB, xBlockSize = 0\<rparr>), payload = (\<lambda>_. 0),
     xFreeBytesRemaining = 0, configTOTAL_HEAP_SIZE = 0, lastHeapAddress = 0, startHeapAddress = 0,
     xHeapHasBeenInitialised = False, suspended = 0\<rparr>"

lemma blank_ready: "heap_ready 536870912 1024 blank_heap [(1024, False)]"
  by (simp add: heap_ready_def blank_heap_def)

text \<open>C20. A request of so many bytes is served from the smallest free block that is large enough: that block, at
  address \<open>start + span xs\<close>, gets the wanted size and the rest of it becomes a free block when more than 32 bytes
  are left, else it is given as a whole; every other block stays as it is.  When no free block is large
  enough, or the wanted size is that of the whole heap, the result is \<^verbatim>\<open>NULL\<close> and the blocks are unchanged.
  The scheduler is resumed in every case, what the blocks hold is unchanged, the list stays ordered, and the
  free bytes stay counted.
\<close>

theorem malloc_best_fit:
  assumes "heap_ready start len h bs" "0 < n" "n + 24 \<le> 2 ^ 32"
  shows "\<exists>r h'. pvPortMalloc start len n h = Some (r, h') \<and> suspended h' = suspended h
    \<and> (xHeapHasBeenInitialised h \<longrightarrow> payload h' = payload h)
    \<and> (if fits (wanted_size n) len bs
       then \<exists>xs t ys. bs = xs @ (t, False) # ys \<and> wanted_size n \<le> t
         \<and> (\<forall>t'. (t', False) \<in> set bs \<longrightarrow> wanted_size n \<le> t' \<longrightarrow> t \<le> t')
         \<and> r = start + span xs + 16 \<and> heap_ready start len h' (xs @ carve (wanted_size n) t @ ys)
       else r = 0 \<and> heap_ready start len h' bs)"
  using assms by (rule malloc_fits)

theorem malloc_best_fit_witness:
  "(\<exists>h'. pvPortMalloc 536870912 1024 100 blank_heap = Some (536870928, h')
      \<and> heap_ready 536870912 1024 h' [(120, True), (904, False)])
   \<and> (\<exists>h'. pvPortMalloc 536870912 1024 1008 blank_heap = Some (0, h') \<and> heap_ready 536870912 1024 h' [(1024, False)])"
proof
  have w: "wanted_size 100 = 120" "wanted_size 1008 = 1024" by (simp_all add: wanted_size_def)
  show "\<exists>h'. pvPortMalloc 536870912 1024 100 blank_heap = Some (536870928, h')
      \<and> heap_ready 536870912 1024 h' [(120, True), (904, False)]"
    using malloc_best_fit [OF blank_ready, of 100] w
    by (auto simp: fits_def carve_def Cons_eq_append_conv)
  show "\<exists>h'. pvPortMalloc 536870912 1024 1008 blank_heap = Some (0, h') \<and> heap_ready 536870912 1024 h' [(1024, False)]"
    using malloc_best_fit [OF blank_ready, of 1008] w by (auto simp: fits_def)
qed

text \<open>C24. Giving an area back right after it was handed out restores the blocks of the heap, and with them the
  number of free bytes: the split is undone by the merge with the block behind.
\<close>

theorem malloc_then_free:
  assumes "heap_ready start len h bs" "n + 24 \<le> 2 ^ 32" "pvPortMalloc start len n h = Some (r, h1)" "r \<noteq> 0"
  shows "\<exists>h2. vPortFree start r h1 = Some h2 \<and> heap_ready start len h2 bs \<and> xPortGetFreeHeapSize h2 = free_bytes bs"
  using malloc_free_restores [OF assms] by (auto simp: heap_ready_def heap_ok_def xPortGetFreeHeapSize_def)

theorem malloc_then_free_witness:
  "\<exists>r h1 h2. pvPortMalloc 536870912 1024 100 blank_heap = Some (r, h1) \<and> vPortFree 536870912 r h1 = Some h2
     \<and> xPortGetFreeHeapSize h2 = 1024"
proof -
  have w: "wanted_size 100 = 120" by (simp add: wanted_size_def)
  obtain h1 where m: "pvPortMalloc 536870912 1024 100 blank_heap = Some (536870928, h1)"
    using malloc_fits [OF blank_ready, of 100] w by (auto simp: fits_def Cons_eq_append_conv)
  show ?thesis using malloc_then_free [OF blank_ready _ m] m by auto
qed



text \<open>C25. Resizing an area moves it: the new area is at least as long as wanted, holds the old content up to the
  smaller of the two lengths, the old area is free again, and the content of every other area is unchanged.
  When there is no room, the old area stays as it is and the result is \<^verbatim>\<open>NULL\<close>.
\<close>

theorem realloc_keeps_content:
  assumes "heap_ready start len h bs" "(p, l) \<in> set (live start bs)" "0 < n" "n + 24 \<le> 2 ^ 32"
  shows "\<exists>r h' bs'. pvPortReAlloc start len p n h = Some (r, h') \<and> heap_ready start len h' bs' \<and> suspended h' = suspended h
    \<and> (if r = 0 then bs' = bs \<and> payload h' = payload h
       else (\<exists>m \<ge> n. set (live start bs') = insert (r, m) (set (live start bs) - {(p, l)}) \<and> r \<notin> fst ` set (live start bs))
         \<and> (\<forall>i < min l n. payload h' (r + i) = payload h (p + i))
         \<and> (\<forall>(q, k) \<in> set (live start bs). \<forall>i < k. payload h' (q + i) = payload h (q + i)))"
  using assms by (rule realloc_areas)

theorem realloc_keeps_content_witness:
  "\<exists>h h'. heap_ready 536870912 1024 h [(120, True), (904, False)]
     \<and> pvPortReAlloc 536870912 1024 536870928 300 h = Some (536871048, h')
     \<and> (\<forall>i < 104. payload h' (536871048 + i) = payload h (536870928 + i))"
proof -
  have w: "wanted_size 100 = 120" "wanted_size 300 = 320" by (simp_all add: wanted_size_def)
  obtain h1 where h1: "heap_ready 536870912 1024 h1 [(120, True), (904, False)]"
    using malloc_fits [OF blank_ready, of 100] w by (auto simp: fits_def carve_def Cons_eq_append_conv)
  obtain h2 where h2: "pvPortMalloc 536870912 1024 300 h1 = Some (536871048, h2)"
    using malloc_fits [OF h1, of 300] w by (auto simp: fits_def Cons_eq_append_conv)
  have l: "(536870928, 104) \<in> set (live 536870912 [(120, True), (904, False)])" by simp
  obtain r h' where r: "pvPortReAlloc 536870912 1024 536870928 300 h1 = Some (r, h')"
    "r \<noteq> 0 \<longrightarrow> (\<forall>i < 104. payload h' (r + i) = payload h1 (536870928 + i))"
    using realloc_keeps_content [OF h1 l, of 300] by (auto split: if_splits)
  have "r = 536871048"
    using r(1) h2 by (auto simp: pvPortReAlloc_def bind_eq_Some_conv split: if_splits)
  then show ?thesis using r h1 by auto
qed

text \<open>
  The self test adds the sizes of the blocks up and compares the sum with the size of the heap.  On a heap that
  is in order it passes exactly when there are at most 10000 blocks.
\<close>

theorem self_test_result:
  assumes "heap_ok h bs" "bs \<noteq> []"
  shows "vHeapSelfTest h = (if length bs \<le> 10000 then 0 else 1)"
proof -
  have st: "structured h bs" using assms(1) by (simp add: heap_ok_def)
  have "self_test_loop 10000 h (startHeapAddress h) 0 = span (take 10000 bs)"
    using self_test_adds [of h "[]" bs] structured_laid_out [OF st] assms(2) by simp
  moreover have "span (take 10000 bs) = span bs \<longleftrightarrow> length bs \<le> 10000"
  proof -
    have "span bs = span (take 10000 bs) + span (drop 10000 bs)"
      by (metis append_take_drop_id span_simps(3))
    moreover have "proper (drop 10000 bs)" using st by (auto simp: structured_def proper_def dest: in_set_dropD)
    then have "span (drop 10000 bs) = 0 \<longleftrightarrow> drop 10000 bs = []"
      by (cases "drop 10000 bs") (auto split: prod.splits)
    ultimately show ?thesis by auto
  qed
  ultimately show ?thesis using st by (simp add: vHeapSelfTest_def structured_def)
qed



section \<open>A second memory bank\<close>

lemma last_found:
  assumes "laid_out h (xs @ ys @ [(t, u)])"
  shows "find_last h (startHeapAddress h + span xs) = Some (startHeapAddress h + span xs + span ys)"
  using assms
proof (induction ys arbitrary: xs)
  case Nil
  then show ?case using last_laid_out [of h xs t u "[]"] by (simp add: find_last.simps)
next
  case (Cons y ys)
  obtain s v where y: "y = (s, v)" by force
  have lo: "laid_out h (xs @ (s, v) # ys @ [(t, u)])" using Cons.prems y by simp
  then have nx: "NEXT_BLOCK h (startHeapAddress h + span xs) = startHeapAddress h + span (xs @ [y])"
    using block_there(5) [of h NullB "startHeapAddress h" xs s v "ys @ [(t, u)]"] y by (simp add: laid_out_def)
  have "laid_out h ((xs @ [y]) @ ys @ [(t, u)])" using Cons.prems by simp
  from Cons.IH [OF this] show ?case
    using last_laid_out [OF lo] nx y by (subst find_last.simps) (simp add: add.assoc)
qed

lemma bank_place:
  assumes "links h p fs"
  shows "find_bank_place h s p = Some (tip p (takeWhile (\<lambda>x. block_size h x < s) fs))"
  using assms by (induction fs arbitrary: p) (auto simp: find_bank_place.simps [of h s])

lemma bank_linked:
  assumes l: "links h XStart fs" and d: "distinct fs" and b: "b \<notin> set fs"
  shows "\<exists>h' gs. link_bank b s h = Some h' \<and> links h' XStart gs \<and> distinct gs \<and> set gs = insert b (set fs) \<and> rest h' = rest h
    \<and> (\<forall>r. xBlockSize (headers h' r) = (if r = Blk b then s else xBlockSize (headers h r)))
    \<and> (\<forall>r. pxPrev (headers h' r) = pxPrev (headers h r))"
proof -
  define h1 where h1: "h1 = set_next (Blk b) XEnd (set_size b s h)"
  have l1: "links h1 XStart fs" by (rule iffD2 [OF links_cong l]) (use b h1 in auto)
  define us where us: "us = takeWhile (\<lambda>x. block_size h1 x < s) fs"
  define vs where vs: "vs = dropWhile (\<lambda>x. block_size h1 x < s) fs"
  let ?p = "tip XStart us"
  have fs: "fs = us @ vs" by (simp add: us vs)
  have pl: "find_bank_place h1 s XStart = Some ?p" using bank_place [OF l1] by (simp flip: us)
  define h2 where h2: "h2 = set_next ?p (Blk b) (set_next (Blk b) (next_free h1 ?p) h1)"
  have l2: "links h2 XStart (us @ b # vs)" unfolding h2 by (rule links_insert) (use l1 d b fs in auto)
  define h3 where h3: "h3 = (if next_free h1 ?p = XEnd then set_next ?p (Blk b) h1 else h2)"
  have "next_free h3 r = next_free h2 r" for r by (simp add: h3 h2 h1)
  then have "links h3 XStart (us @ b # vs)" by (intro iffD2 [OF links_cong l2]) auto
  moreover have "link_bank b s h = Some h3" unfolding link_bank_def Let_def h1 [symmetric] by (simp add: pl h3 h2)
  moreover have "distinct (us @ b # vs)" "set (us @ b # vs) = insert b (set fs)" using d b fs by auto
  moreover have "rest h3 = rest h" by (simp add: h3 h2 h1)
  moreover have "\<forall>r. xBlockSize (headers h3 r) = (if r = Blk b then s else xBlockSize (headers h r))"
    "\<forall>r. pxPrev (headers h3 r) = pxPrev (headers h r)" by (simp_all add: h3 h2 h1)
  ultimately show ?thesis by blast
qed

lemma minus32_le: "b \<le> a \<Longrightarrow> a < 2 ^ 32 \<Longrightarrow> minus32 a b = a - b"
  by (simp add: minus32_def mod_if)

text \<open>The end of the heap and the hole behind it.\<close>

lemma hole_bridged:
  assumes t: "8 dvd t" "32 \<le> t" "t < 2 ^ 32" "block_size h l = t"
    and hole: "8 dvd chunk" "8 dvd lastHeapAddress h" "lastHeapAddress h < chunk" "chunk < 2 ^ 32" "16 \<le> lastHeapAddress h"
  shows "\<exists>h'. bridge_hole chunk n l h = (l + (t - 16), h')
    \<and> (\<forall>x. block_size h' x = (if x = l + (t - 16) then chunk - lastHeapAddress h + 16 + 1
         else if x = l then t - 16 else block_size h x))
    \<and> (\<forall>x. block_prev h' x = (if x = l + (t - 16) then Blk l else block_prev h x))
    \<and> (\<forall>r. next_free h' r = (if r = Blk (l + (t - 16)) then NullB else next_free h r))
    \<and> rest h' = (payload h, xFreeBytesRemaining h + n, configTOTAL_HEAP_SIZE h + n, chunk + n, startHeapAddress h,
         xHeapHasBeenInitialised h, suspended h)"
proof -
  let ?m = "l + (t - 16)"
  let ?z = "chunk - lastHeapAddress h + 16"
  have m: "minus32 t 16 = t - 16" "(t - 16) mod 8 = 0" "minus32 chunk (lastHeapAddress h) = chunk - lastHeapAddress h"
    using t hole by (simp_all add: minus32_le dvd_diff_nat)
  have "8 dvd ?z" "8 dvd t - 16" using t(1) hole by (simp_all add: dvd_diff_nat)
  then have z: "?z mod 2 ^ 32 = ?z" "even ?z" "even (t - 16)"
    using hole dvd_trans [of 2 8 ?z] dvd_trans [of 2 8 "t - 16"] by simp_all
  define h1 where h1: "h1 = set_size l (t - 16) (set_size l (t - 16) h)"
  have nx: "NEXT_BLOCK h1 l = ?m" using z(3) by (simp add: NEXT_BLOCK_def BLOCK_SIZE_def h1 Let_def)
  define h2 where h2: "h2 = set_prev ?m (Blk l) (set_next (Blk ?m) NullB (set_size ?m ?z h1))"
  have al: "SET_ALLOCATED ?m h2 = set_size ?m (?z + 1) h2" using z(2) by (simp add: SET_ALLOCATED_def h2)
  define h3 where h3: "h3 = set_size ?m (?z + 1) h2"
  have "bridge_hole chunk n l h = (?m, h3\<lparr>lastHeapAddress := chunk + n, xFreeBytesRemaining := xFreeBytesRemaining h3 + n,
      configTOTAL_HEAP_SIZE := configTOTAL_HEAP_SIZE h3 + n,
      headers := (headers h3)(XEnd := (headers h3 XEnd)\<lparr>xBlockSize := configTOTAL_HEAP_SIZE h3 + n\<rparr>)\<rparr>)"
    using t(4) m z(1) nx al by (simp add: bridge_hole_def Let_def h3 flip: h1 h2)
  then show ?thesis using t(2)
    by (intro exI conjI) (assumption, auto simp: h3 h2 h1 next_free_def rest_def set_next_def set_prev_def set_size_def)
qed

lemma marked_size: "block_size h a = z + 1 \<Longrightarrow> even z \<Longrightarrow> BLOCK_SIZE h a = z"
  by (auto simp: BLOCK_SIZE_def Let_def elim!: evenE)

lemma bank_serial:
  assumes "serial h p a (xs @ [(t, False)])" "proper (xs @ [(t, False)])" "16 < t" "m = a + span xs + (t - 16)"
    "\<And>x. block_size h' x = (if x = m + z then n else if x = m then z + 1 else if x = a + span xs then t - 16 else block_size h x)"
    "\<And>x. block_prev h' x = (if x = m + z then Blk m else if x = m then Blk (a + span xs) else block_prev h x)" "0 < z"
  shows "serial h' p a (xs @ [(t - 16, False), (z, True), (n, False)])"
proof -
  have "serial h' p a xs"
    by (rule serial_frame [of h]) (use assms in \<open>auto simp: serial_append\<close>)
  then show ?thesis using assms by (auto simp: serial_append)
qed

lemma bank_joined:
  assumes rd: "heap_ready start len h (xs @ [(t, False)])" and i: "xHeapHasBeenInitialised h" and t: "32 \<le> t"
    and al: "8 dvd chunk" "8 dvd n" "16 \<le> n" and hole: "lastHeapAddress h + 32 \<le> chunk" "chunk + n < 2 ^ 32"
  shows "\<exists>h'. prvHeapAddMemBank start len chunk n h = Some (True, h')
    \<and> laid_out h' (xs @ [(t - 16, False), (chunk - lastHeapAddress h + 16, True), (n, False)])
    \<and> (\<exists>fs. links h' XStart fs \<and> distinct fs
      \<and> set fs = set (frees start (xs @ [(t - 16, False), (chunk - lastHeapAddress h + 16, True), (n, False)])))
    \<and> rest h' = (payload h, xFreeBytesRemaining h + n, len + n, chunk + n, start, True, suspended h)"
proof -
  have ok: "heap_ok h (xs @ [(t, False)])" "startHeapAddress h = start" "configTOTAL_HEAP_SIZE h = len"
    using rd i by (simp_all add: heap_ready_def)
  then have lo: "laid_out h (xs @ [(t, False)])" using structured_laid_out by (simp add: heap_ok_def)
  then have se: "serial h NullB start (xs @ [(t, False)])" and pr: "proper (xs @ [(t, False)])"
    and last: "lastHeapAddress h = start + span xs + t" using ok(2) by (simp_all add: laid_out_def)
  have len: "span xs + t = len" "8 dvd start" "8 dvd len" "0 < start"
    using ok rd by (simp_all add: heap_ok_def structured_def heap_ready_def)
  let ?l = "start + span xs"
  let ?m = "?l + (t - 16)"
  let ?z = "chunk - lastHeapAddress h + 16"
  let ?bs = "xs @ [(t - 16, False), (?z, True), (n, False)]"
  define h0 where h0: "h0 = h\<lparr>suspended := Suc (suspended h)\<rparr>"
  have b0: "block_size h0 ?l = t" "IS_FREE_BLOCK h0 ?l"
    using block_there [OF se, of ] pr by (simp_all add: h0 IS_FREE_BLOCK_def)
  have e: "8 dvd lastHeapAddress h" "t < 2 ^ 32" "16 \<le> lastHeapAddress h"
  proof -
    have "lastHeapAddress h = start + len" using last len(1) by simp
    then show "8 dvd lastHeapAddress h" "t < 2 ^ 32" "16 \<le> lastHeapAddress h" using len hole t by simp_all
  qed
  obtain h1 where h1: "bridge_hole chunk n ?l h0 = (?m, h1)"
    "\<And>x. block_size h1 x = (if x = ?m then ?z + 1 else if x = ?l then t - 16 else block_size h0 x)"
    "\<And>x. block_prev h1 x = (if x = ?m then Blk ?l else block_prev h0 x)"
    "\<And>r. next_free h1 r = (if r = Blk ?m then NullB else next_free h0 r)"
    "rest h1 = (payload h, xFreeBytesRemaining h + n, len + n, chunk + n, start, True, suspended h + 1)"
    using hole_bridged [of t h0 ?l chunk n] pr t b0 al e hole ok(2,3) i by (auto simp: h0)
  have m: "?m + ?z = chunk" "?m < chunk" using last hole t by simp_all
  have "16 \<le> t - 16" "16 \<le> ?z" using t hole by linarith+
  then have pz: "proper ?bs" using pr al e by (simp add: dvd_diff_nat)
  then have "even ?z" using dvd_trans [of 2 8 ?z] by simp
  then have "BLOCK_SIZE h1 ?m = ?z" using h1(2) [of ?m] by (intro marked_size) simp_all
  then have nx: "NEXT_BLOCK h1 ?m = chunk" using m(1) by (simp add: NEXT_BLOCK_def)
  define h2 where h2: "h2 = set_prev chunk (Blk ?m) h1"
  obtain fs where fs: "links h XStart fs" "distinct fs" "set fs = insert ?l (set (frees start xs))"
    using ok(1,2) by (auto simp: heap_ok_def listed_def)
  have below: "x < ?l" if "x \<in> set (frees start xs)" for x using frees_within [OF _ that] pr by simp
  have out: "chunk \<notin> set fs" "?m \<notin> set fs" using fs(3) below [of chunk] below [of ?m] m t by auto
  have "links h2 XStart fs" by (rule iffD2 [OF links_cong fs(1)]) (use h1(4) out(2) in \<open>auto simp: h2 h0\<close>)
  from bank_linked [OF this fs(2) out(1)] obtain h3 gs where h3: "link_bank chunk n h2 = Some h3"
    "links h3 XStart gs" "distinct gs" "set gs = insert chunk (set fs)" "rest h3 = rest h2"
    "\<And>r. xBlockSize (headers h3 r) = (if r = Blk chunk then n else xBlockSize (headers h2 r))"
    "\<And>r. pxPrev (headers h3 r) = pxPrev (headers h2 r)" by blast
  have r3: "rest h3 = (payload h, xFreeBytesRemaining h + n, len + n, chunk + n, start, True, suspended h + 1)"
    using h3(5) h1(5) by (simp add: h2)
  let ?h4 = "h3\<lparr>suspended := suspended h3 - 1\<rparr>"
  have "serial h3 NullB start ?bs"
    by (rule bank_serial [OF se pr _ refl]) (use t h3(6,7) h1(2,3) m in \<open>auto simp: h2 h0\<close>)
  then have lo4: "laid_out ?h4 ?bs" using pz r3 last hole t by (simp add: laid_out_def rest_def)
  have "links ?h4 XStart gs" by (rule iffD2 [OF links_cong h3(2)]) simp
  moreover have "set gs = set (frees start ?bs)" using h3(4) fs(3) m(1) by auto
  moreover have "prvHeapAddMemBank start len chunk n h = Some (True, ?h4)"
  proof -
    have "find_last h0 start = Some ?l"
      using last_found [of h0 "[]" xs t False] lo ok(2) by (simp add: h0 laid_out_def)
    moreover have "aligned_bank chunk n = (chunk, n)" using al by (simp add: aligned_bank_def)
    moreover have "startHeapAddress h0 = start" "xHeapHasBeenInitialised h0" using i ok(2) by (simp_all add: h0)
    moreover have "minus32 chunk (lastHeapAddress h0) \<ge> 32" "\<not> chunk < start"
      using hole m last by (simp_all add: h0 minus32_le)
    ultimately show ?thesis
      using b0(2) h1(1) nx h3(1) unfolding prvHeapAddMemBank_def
      by (simp add: Let_def flip: h0 h2)
  qed
  moreover have "rest ?h4 = (payload h, xFreeBytesRemaining h + n, len + n, chunk + n, start, True, suspended h)"
    using r3 by (simp add: rest_def)
  ultimately show ?thesis using lo4 h3(3) by blast
qed

text \<open>C38. A bank behind the heap, aligned and large enough, is added when the last block is free: that block gives
  16 bytes up for a header that marks the hole as allocated, and the bank becomes a free block on the list.  The
  free bytes are then counted 16 too high, and the size of the heap leaves the hole out, so that the self test
  fails from then on.
\<close>

theorem bank_added:
  assumes rd: "heap_ready start len h (xs @ [(t, False)])" and i: "xHeapHasBeenInitialised h" and t: "32 \<le> t"
    and al: "8 dvd chunk" "8 dvd n" "16 \<le> n" and hole: "lastHeapAddress h + 32 \<le> chunk" "chunk + n < 2 ^ 32"
    and few: "length xs \<le> 9997"
  shows "\<exists>h' bs. prvHeapAddMemBank start len chunk n h = Some (True, h') \<and> suspended h' = suspended h
    \<and> bs = xs @ [(t - 16, False), (chunk - lastHeapAddress h + 16, True), (n, False)] \<and> laid_out h' bs
    \<and> (\<exists>fs. links h' XStart fs \<and> distinct fs \<and> set fs = set (frees start bs))
    \<and> xPortGetFreeHeapSize h' = free_bytes bs + 16 \<and> vHeapSelfTest h' = 1"
proof -
  define bs where bs: "bs = xs @ [(t - 16, False), (chunk - lastHeapAddress h + 16, True), (n, False)]"
  obtain h' where h': "prvHeapAddMemBank start len chunk n h = Some (True, h')" "laid_out h' bs"
    "\<exists>fs. links h' XStart fs \<and> distinct fs \<and> set fs = set (frees start bs)"
    "rest h' = (payload h, xFreeBytesRemaining h + n, len + n, chunk + n, start, True, suspended h)"
    using bank_joined [OF rd i t al hole] unfolding bs by blast
  have ok: "heap_ok h (xs @ [(t, False)])" "configTOTAL_HEAP_SIZE h = len" using rd i by (simp_all add: heap_ready_def)
  have "self_test_loop 10000 h' start 0 = span (take 10000 bs)"
    using self_test_adds [of h' "[]" bs 10000 0] h'(2,4) bs by (simp add: rest_def)
  also have "take 10000 bs = bs" using few bs by simp
  also have "span bs = len + (chunk - lastHeapAddress h) + n"
    using ok t by (simp add: bs heap_ok_def structured_def)
  finally have "vHeapSelfTest h' = 1" using h'(4) hole(1) by (simp add: vHeapSelfTest_def rest_def)
  moreover have "xPortGetFreeHeapSize h' = free_bytes bs + 16" "suspended h' = suspended h"
    using h'(4) ok(1) t by (simp_all add: bs xPortGetFreeHeapSize_def rest_def heap_ok_def)
  ultimately show ?thesis using h' bs by blast
qed

theorem bank_added_witness:
  "\<exists>h h' bs. heap_ready 536870912 1024 h [(1024, False)] \<and> prvHeapAddMemBank 536870912 1024 536872000 4096 h = Some (True, h')
     \<and> bs = [(1008, False), (80, True), (4096, False)] \<and> laid_out h' bs \<and> xPortGetFreeHeapSize h' = free_bytes bs + 16
     \<and> vHeapSelfTest h' = 1"
proof -
  have w: "wanted_size 100 = 120" by (simp add: wanted_size_def)
  obtain h1 where m: "pvPortMalloc 536870912 1024 100 blank_heap = Some (536870928, h1)"
    using malloc_fits [OF blank_ready, of 100] w by (auto simp: fits_def Cons_eq_append_conv)
  obtain h where h: "heap_ready 536870912 1024 h [(1024, False)]" "xHeapHasBeenInitialised h"
    using malloc_free_restores [OF blank_ready _ m] by auto
  then have l: "lastHeapAddress h = 536871936" by (simp add: heap_ready_def heap_ok_def structured_def)
  have "heap_ready 536870912 1024 h ([] @ [(1024, False)])" using h(1) by simp
  from bank_added [OF this h(2), of 536872000 4096] show ?thesis using h(1) l by auto
qed

text \<open>
  When the last block is in use, the bank is refused, and the scheduler stays suspended.
\<close>

theorem bank_refused:
  assumes rd: "heap_ready start len h (xs @ [(t, True)])" and al: "8 dvd chunk" "8 dvd n"
  shows "prvHeapAddMemBank start len chunk n h = Some (False, h\<lparr>suspended := suspended h + 1\<rparr>)"
proof -
  have i: "xHeapHasBeenInitialised h" using rd by (auto simp: heap_ready_def split: if_splits)
  then have ok: "heap_ok h (xs @ [(t, True)])" "startHeapAddress h = start" using rd by (simp_all add: heap_ready_def)
  then have lo: "laid_out h (xs @ [(t, True)])" using structured_laid_out by (simp add: heap_ok_def)
  let ?h = "h\<lparr>suspended := suspended h + 1\<rparr>"
  have "find_last ?h start = Some (start + span xs)"
    using last_found [of ?h "[]" xs t True] lo ok(2) by (simp add: laid_out_def)
  moreover have "\<not> IS_FREE_BLOCK ?h (start + span xs)"
    using block_there(2) [of h NullB start xs t True "[]"] lo ok(2) by (simp add: laid_out_def IS_FREE_BLOCK_def)
  ultimately show ?thesis using i ok(2) al by (simp add: prvHeapAddMemBank_def aligned_bank_def Let_def)
qed

theorem bank_refused_witness:
  "\<exists>h. heap_ready 536870912 1024 h [(1024, True)]
     \<and> prvHeapAddMemBank 536870912 1024 536872000 4096 h = Some (False, h\<lparr>suspended := suspended h + 1\<rparr>)"
proof -
  have w: "wanted_size 1000 = 1016" by (simp add: wanted_size_def)
  obtain h where h: "heap_ready 536870912 1024 h [(1024, True)]"
    using malloc_fits [OF blank_ready, of 1000] w by (auto simp: fits_def carve_def Cons_eq_append_conv)
  then have "heap_ready 536870912 1024 h ([] @ [(1024, True)])" by simp
  from bank_refused [OF this, of 536872000 4096] show ?thesis using h by auto
qed

end
